(* ===== verification/Prelude.thy ===== *)
theory Prelude
  imports Main "HOL-Library.AList" "HOL-Library.Multiset"
begin

text \<open>
  What every component shares: the model's types for identifiers and points in time, Python's
  string operations on Latin-1 text, insertion-ordered dictionaries as association lists, the
  stable descending sort of \<^verbatim>\<open>sorted(..., key=..., reverse=True)\<close>, first-occurrence
  deduplication, fallible results, and the locale of transition systems with an invariant from
  which the state machines of the program take their reachability theorems.
\<close>

section \<open>Collections of rules\<close>

named_theorems py_simps \<open>equations of the Python primitives\<close>
named_theorems row_simps \<open>equations of the row-level operations of the stores\<close>

section \<open>Identifiers, time, results\<close>

text \<open>
  A UUID is used for equality and printing only; \<^verbatim>\<open>uuid4()\<close> is an argument of the
  definitions that call it. A \<^verbatim>\<open>datetime\<close> is a number of microseconds, with or
  without a time zone: the validators of the domain layer look at \<^verbatim>\<open>tzinfo\<close>.
\<close>

type_synonym uuid = nat

datatype datetime = Aware int | Naive int

fun is_aware :: "datetime \<Rightarrow> bool" where
  "is_aware (Aware _) = True"
| "is_aware (Naive _) = False"

fun instant :: "datetime \<Rightarrow> int" where
  "instant (Aware t) = t"
| "instant (Naive t) = t"

text \<open>\<^verbatim>\<open>now + timedelta(seconds=s)\<close> in microseconds.\<close>

definition plus_seconds :: "int \<Rightarrow> int \<Rightarrow> int" where
  "plus_seconds t s = t + s * 1000000"

text \<open>A fallible step: the error of the first failing step is the error of the sequence.\<close>

fun rbind :: "'e + 'a \<Rightarrow> ('a \<Rightarrow> 'e + 'b) \<Rightarrow> 'e + 'b" where
  "rbind (Inl e) _ = Inl e"
| "rbind (Inr a) f = f a"

lemma rbind_Inr_iff [simp]: "rbind r f = Inr b \<longleftrightarrow> (\<exists>a. r = Inr a \<and> f a = Inr b)"
  by (cases r) auto

lemma rbind_Inl_iff: "rbind r f = Inl e \<longleftrightarrow> r = Inl e \<or> (\<exists>a. r = Inr a \<and> f a = Inl e)"
  by (cases r) auto

fun rmap :: "('a \<Rightarrow> 'e + 'b) \<Rightarrow> 'a list \<Rightarrow> 'e + 'b list" where
  "rmap f [] = Inr []"
| "rmap f (x # xs) = rbind (f x) (\<lambda>y. rbind (rmap f xs) (\<lambda>ys. Inr (y # ys)))"

lemma rmap_Inr_length: "rmap f xs = Inr ys \<Longrightarrow> length ys = length xs"
  by (induction xs arbitrary: ys) auto

lemma rmap_Inr_iff: "rmap f xs = Inr ys \<longleftrightarrow> list_all2 (\<lambda>x y. f x = Inr y) xs ys"
  by (induction xs arbitrary: ys) (auto simp: list_all2_Cons1)

lemma rmap_Inr_mem: "rmap f xs = Inr ys \<Longrightarrow> y \<in> set ys \<Longrightarrow> \<exists>x \<in> set xs. f x = Inr y"
  by (induction xs arbitrary: ys) auto

definition is_ok :: "'e + 'a \<Rightarrow> bool" where
  "is_ok r = (case r of Inl _ \<Rightarrow> False | Inr _ \<Rightarrow> True)"

lemma is_ok_simps [simp]: "is_ok (Inr a)" "\<not> is_ok (Inl e)"
  by (simp_all add: is_ok_def)

section \<open>Strings\<close>

text \<open>
  Python's \<^verbatim>\<open>str\<close> over the Latin-1 code points. \<^verbatim>\<open>strip\<close> removes the
  code points for which \<^verbatim>\<open>str.isspace\<close> holds; \<^verbatim>\<open>lower\<close> maps the two
  upper-case ranges of Latin-1.
\<close>

definition is_space :: "char \<Rightarrow> bool" where
  "is_space c = (let n = of_char c :: nat in
     (9 \<le> n \<and> n \<le> 13) \<or> (28 \<le> n \<and> n \<le> 32) \<or> n = 133 \<or> n = 160)"

definition lower_char :: "char \<Rightarrow> char" where
  "lower_char c = (let n = of_char c :: nat in
     if (65 \<le> n \<and> n \<le> 90) \<or> (192 \<le> n \<and> n \<le> 222 \<and> n \<noteq> 215) then char_of (n + 32) else c)"

definition lower :: "string \<Rightarrow> string" where
  "lower s = map lower_char s"

definition lstrip :: "string \<Rightarrow> string" where
  "lstrip s = dropWhile is_space s"

definition rstrip :: "string \<Rightarrow> string" where
  "rstrip s = rev (dropWhile is_space (rev s))"

definition strip :: "string \<Rightarrow> string" where
  "strip s = rstrip (lstrip s)"

fun startswith :: "'a list \<Rightarrow> 'a list \<Rightarrow> bool" where
  "startswith _ [] = True"
| "startswith [] (_ # _) = False"
| "startswith (x # xs) (p # ps) = (x = p \<and> startswith xs ps)"

text \<open>\<^verbatim>\<open>needle in haystack\<close> for strings.\<close>

fun contains :: "'a list \<Rightarrow> 'a list \<Rightarrow> bool" where
  "contains needle [] = (needle = [])"
| "contains needle (x # xs) = (startswith (x # xs) needle \<or> contains needle xs)"

lemma lower_length [simp]: "length (lower s) = length s"
  by (simp add: lower_def)

lemma lower_Nil_iff [simp]: "lower s = [] \<longleftrightarrow> s = []"
  by (simp add: lower_def)

lemma startswith_iff: "startswith xs ps \<longleftrightarrow> (\<exists>zs. xs = ps @ zs)"
  by (induction xs ps rule: startswith.induct) auto

lemma contains_iff: "contains ps xs \<longleftrightarrow> (\<exists>us vs. xs = us @ ps @ vs)"
proof (induction xs)
  case Nil
  then show ?case by auto
next
  case (Cons x xs)
  show ?case
  proof
    assume "contains ps (x # xs)"
    then consider zs where "x # xs = ps @ zs" | "contains ps xs"
      by (auto simp: startswith_iff)
    then show "\<exists>us vs. x # xs = us @ ps @ vs"
    proof cases
      case 1
      then have "x # xs = [] @ ps @ zs" by simp
      then show ?thesis by blast
    next
      case 2
      then obtain us vs where "xs = us @ ps @ vs" using Cons.IH by blast
      then have "x # xs = (x # us) @ ps @ vs" by simp
      then show ?thesis by blast
    qed
  next
    assume "\<exists>us vs. x # xs = us @ ps @ vs"
    then obtain us vs where e: "x # xs = us @ ps @ vs" by blast
    show "contains ps (x # xs)"
    proof (cases us)
      case Nil
      then have "startswith (x # xs) ps" unfolding startswith_iff using e by simp
      then show ?thesis by simp
    next
      case (Cons u us')
      then show ?thesis using e Cons.IH by auto
    qed
  qed
qed

lemma contains_refl [simp]: "contains s s"
  unfolding contains_iff by (metis append_Nil append_Nil2)

lemma contains_Nil [simp]: "contains [] s"
  unfolding contains_iff by (metis append_Nil)

lemma rstrip_prefix: "\<exists>w. s = rstrip s @ w \<and> (\<forall>c \<in> set w. is_space c)"
proof (intro exI conjI)
  show "s = rstrip s @ rev (takeWhile is_space (rev s))"
    unfolding rstrip_def by (metis rev_append rev_rev_ident takeWhile_dropWhile_id)
  show "\<forall>c \<in> set (rev (takeWhile is_space (rev s))). is_space c"
    by (auto dest: set_takeWhileD)
qed

lemma length_rstrip: "length (rstrip s) \<le> length s"
  by (simp add: rstrip_def length_dropWhile_le [THEN order_trans])

lemma strip_Nil_iff: "strip s = [] \<longleftrightarrow> (\<forall>c \<in> set s. is_space c)"
proof -
  have "strip s = [] \<longleftrightarrow> (\<forall>c \<in> set (dropWhile is_space s). is_space c)"
    by (simp add: strip_def rstrip_def lstrip_def)
  also have "\<dots> \<longleftrightarrow> dropWhile is_space s = []"
    by (metis dropWhile_eq_Nil_conv hd_dropWhile hd_in_set list.set(1) empty_iff)
  also have "\<dots> \<longleftrightarrow> (\<forall>c \<in> set s. is_space c)"
    by simp
  finally show ?thesis .
qed

lemma lstrip_suffix: "\<exists>w. s = w @ lstrip s \<and> (\<forall>c \<in> set w. is_space c)"
proof (intro exI conjI)
  show "s = takeWhile is_space s @ lstrip s" by (simp add: lstrip_def)
  show "\<forall>c \<in> set (takeWhile is_space s). is_space c" by (auto dest: set_takeWhileD)
qed

lemma strip_infix: "\<exists>u v. s = u @ strip s @ v \<and> (\<forall>c \<in> set u. is_space c) \<and> (\<forall>c \<in> set v. is_space c)"
  unfolding strip_def using lstrip_suffix [of s] rstrip_prefix [of "lstrip s"] by (metis append.assoc)

text \<open>Joining with a separator, and decimal printing of a natural number.\<close>

fun join_with :: "'a list \<Rightarrow> 'a list list \<Rightarrow> 'a list" where
  "join_with _ [] = []"
| "join_with _ [x] = x"
| "join_with sep (x # y # ys) = x @ sep @ join_with sep (y # ys)"

fun show_nat :: "nat \<Rightarrow> string" where
  "show_nat n = (if n < 10 then [char_of (48 + n)]
                 else show_nat (n div 10) @ [char_of (48 + n mod 10)])"

declare show_nat.simps [simp del]

text \<open>Reading the digits back gives the number, so printing is injective.\<close>

definition read_nat :: "string \<Rightarrow> nat" where
  "read_nat s = foldl (\<lambda>v c. 10 * v + (of_char c - 48)) 0 s"

lemma read_show_nat: "read_nat (show_nat n) = n"
proof (induction n rule: show_nat.induct)
  case (1 n)
  have digit: "of_char (char_of (48 + k) :: char) - 48 = k" if "k < 10" for k :: nat
    using that by simp
  show ?case
  proof (cases "n < 10")
    case True
    then show ?thesis using digit [OF True] by (subst show_nat.simps) (simp add: read_nat_def)
  next
    case False
    have "read_nat (show_nat n) = 10 * read_nat (show_nat (n div 10)) + n mod 10"
      using False digit [of "n mod 10"] by (subst show_nat.simps) (simp add: read_nat_def)
    then show ?thesis using 1 [OF False] by simp
  qed
qed

lemma show_nat_inject [simp]: "show_nat m = show_nat n \<longleftrightarrow> m = n"
  by (metis read_show_nat)

lemma show_nat_not_Nil [simp]: "show_nat n \<noteq> []"
  by (subst show_nat.simps) simp

section \<open>Dictionaries\<close>

text \<open>
  A Python dictionary keeps insertion order and replaces a value in place, which is what
  \<^const>\<open>AList.update\<close> does on association lists; \<^const>\<open>map_of\<close> is the lookup.
\<close>

type_synonym ('k, 'v) dict = "('k \<times> 'v) list"

abbreviation put :: "'k \<Rightarrow> 'v \<Rightarrow> ('k, 'v) dict \<Rightarrow> ('k, 'v) dict" where
  "put \<equiv> AList.update"

abbreviation keys :: "('k, 'v) dict \<Rightarrow> 'k list" where
  "keys d \<equiv> map fst d"

abbreviation vals :: "('k, 'v) dict \<Rightarrow> 'v list" where
  "vals d \<equiv> map snd d"

lemma map_of_put [simp]: "map_of (put k v d) = (map_of d)(k \<mapsto> v)"
  by (simp add: update_conv')

lemma distinct_keys_put [simp]: "distinct (keys d) \<Longrightarrow> distinct (keys (put k v d))"
  by (simp add: distinct_update)

lemma keys_put: "keys (put k v d) = (if k \<in> set (keys d) then keys d else keys d @ [k])"
  by (simp add: update_keys)

lemma set_keys_put [simp]: "set (keys (put k v d)) = insert k (set (keys d))"
  by (auto simp: update_keys)

lemma put_pairs: "distinct (keys d) \<Longrightarrow>
  set (put k v d) = insert (k, v) {p \<in> set d. fst p \<noteq> k}"
  by (induction d) force+

text \<open>Building a dictionary from pairs, later pairs overwriting earlier ones.\<close>

definition dict_of :: "('k \<times> 'v) list \<Rightarrow> ('k, 'v) dict" where
  "dict_of ps = foldl (\<lambda>d (k, v). put k v d) [] ps"

lemma map_of_foldl_put: "map_of (foldl (\<lambda>d (k, v). put k v d) d ps) k = (map_of d ++ map_of (rev ps)) k"
  by (induction ps arbitrary: d) (auto simp: map_add_def split: option.split)

lemma map_of_dict_of: "map_of (dict_of ps) k = map_of (rev ps) k"
  by (simp add: dict_of_def map_of_foldl_put)

lemma dict_of_mem: "map_of (dict_of ps) k = Some v \<Longrightarrow> (k, v) \<in> set ps"
  unfolding map_of_dict_of by (metis map_of_SomeD set_rev)

lemma dict_of_lookup: "(k, v) \<in> set ps \<Longrightarrow> \<exists>v'. map_of (dict_of ps) k = Some v'"
  unfolding map_of_dict_of by (metis domD domI dom_map_of_conv_image_fst image_eqI fst_conv set_rev)

section \<open>Lists\<close>

text \<open>The result of the first element that gives one: a loop with an early return.\<close>

fun first_some :: "('a \<Rightarrow> 'b option) \<Rightarrow> 'a list \<Rightarrow> 'b option" where
  "first_some f [] = None"
| "first_some f (x # xs) = (case f x of Some y \<Rightarrow> Some y | None \<Rightarrow> first_some f xs)"

text \<open>First occurrence per key: a \<^verbatim>\<open>seen\<close> set and a list of kept elements.\<close>

fun dedup_by :: "('a \<Rightarrow> 'k) \<Rightarrow> 'k list \<Rightarrow> 'a list \<Rightarrow> 'a list" where
  "dedup_by f seen [] = []"
| "dedup_by f seen (x # xs) =
     (if f x \<in> set seen then dedup_by f seen xs else x # dedup_by f (f x # seen) xs)"

lemma dedup_by_subset: "set (dedup_by f seen xs) \<subseteq> set xs"
  by (induction f seen xs rule: dedup_by.induct) auto

lemma dedup_by_fresh: "x \<in> set (dedup_by f seen xs) \<Longrightarrow> f x \<notin> set seen"
  by (induction f seen xs rule: dedup_by.induct) (auto split: if_splits)

lemma dedup_by_distinct: "distinct (map f (dedup_by f seen xs))"
  by (induction f seen xs rule: dedup_by.induct) (auto dest: dedup_by_fresh)

lemma dedup_by_keys: "f ` set (dedup_by f seen xs) = f ` set xs - set seen"
  by (induction f seen xs rule: dedup_by.induct) auto

lemma dedup_by_length: "length (dedup_by f seen xs) \<le> length xs"
  by (induction f seen xs rule: dedup_by.induct) auto

lemma dedup_by_id: "distinct (map f xs) \<Longrightarrow> f ` set xs \<inter> set seen = {} \<Longrightarrow> dedup_by f seen xs = xs"
  by (induction xs arbitrary: seen) auto

lemma dedup_by_idem: "dedup_by f [] (dedup_by f [] xs) = dedup_by f [] xs"
  by (rule dedup_by_id) (simp_all add: dedup_by_distinct)

text \<open>
  \<^verbatim>\<open>sorted(xs, key=f, reverse=True)\<close>: descending and stable, so equal keys keep
  their order.
\<close>

definition sort_desc :: "('a \<Rightarrow> 'b::linordered_idom) \<Rightarrow> 'a list \<Rightarrow> 'a list" where
  "sort_desc f xs = sort_key (\<lambda>x. - f x) xs"

lemma mset_sort_desc [simp]: "mset (sort_desc f xs) = mset xs"
  by (simp add: sort_desc_def)

lemma set_sort_desc [simp]: "set (sort_desc f xs) = set xs"
  by (simp add: sort_desc_def)

lemma length_sort_desc [simp]: "length (sort_desc f xs) = length xs"
  by (simp add: sort_desc_def)

lemma distinct_map_sort_desc [simp]: "distinct (map g (sort_desc f xs)) \<longleftrightarrow> distinct (map g xs)"
  by (metis mset_map mset_sort_desc mset_eq_imp_distinct_iff)

lemma sorted_sort_desc: "sorted_wrt (\<lambda>x y. f x \<ge> f y) (sort_desc f xs)"
proof -
  have "sorted (map (\<lambda>x. - f x) (sort_desc f xs))"
    by (simp add: sort_desc_def)
  then show ?thesis by (simp add: sorted_map)
qed

lemma sort_desc_stable: "filter (\<lambda>y. f y = c) (sort_desc f xs) = filter (\<lambda>y. f y = c) xs"
proof -
  have "filter (\<lambda>y. - f y = - c) (sort_key (\<lambda>x. - f x) xs) = filter (\<lambda>y. - f y = - c) xs"
    by (rule sort_key_stable)
  then show ?thesis by (simp add: sort_desc_def)
qed

text \<open>An element with fewer than \<^verbatim>\<open>n\<close> others before it is among the first
  \<^verbatim>\<open>n\<close> of the sorted list.\<close>

lemma sort_key_take:
  assumes "distinct xs" and "x \<in> set xs" and "card {y \<in> set xs. y \<noteq> x \<and> f y \<le> f x} < n"
  shows "x \<in> set (take n (sort_key f xs))"
proof -
  let ?ys = "sort_key f xs"
  have d: "distinct ?ys" using assms(1) by simp
  obtain i where i: "i < length ?ys" "?ys ! i = x" using assms(2) by (metis in_set_conv_nth set_sort)
  have le: "f (?ys ! j) \<le> f x" if "j < i" for j
    using sorted_nth_mono [of "map f ?ys" j i] that i by simp
  have "set (take i ?ys) \<subseteq> {y \<in> set xs. y \<noteq> x \<and> f y \<le> f x}"
  proof
    fix y assume "y \<in> set (take i ?ys)"
    then obtain j where j: "j < i" "?ys ! j = y" using i(1) by (auto simp: in_set_conv_nth)
    moreover have "y \<noteq> x" using j i d by (metis less_trans nat_neq_iff nth_eq_iff_index_eq)
    moreover have "y \<in> set xs" using j i(1) by (metis less_trans nth_mem set_sort)
    ultimately show "y \<in> {y \<in> set xs. y \<noteq> x \<and> f y \<le> f x}" using le by blast
  qed
  then have "card (set (take i ?ys)) \<le> card {y \<in> set xs. y \<noteq> x \<and> f y \<le> f x}" by (rule card_mono [rotated]) simp
  then have "card (set (take i ?ys)) < n" using assms(3) by simp
  then have "i < n" using i(1) d by (simp add: distinct_card)
  then have "i < length (take n ?ys)" "take n ?ys ! i = x" using i by simp_all
  then show ?thesis by (metis nth_mem)
qed

text \<open>Sorting by keys that order the elements alike, and sorting an image.\<close>

lemma insort_key_cong:
  assumes "\<And>y. y \<in> set xs \<Longrightarrow> f x \<le> f y \<longleftrightarrow> g x \<le> g y"
  shows "insort_key f x xs = insort_key g x xs"
  using assms by (induction xs) auto

lemma sort_key_cong_le:
  assumes "\<And>x y. x \<in> set xs \<Longrightarrow> y \<in> set xs \<Longrightarrow> f x \<le> f y \<longleftrightarrow> g x \<le> g y"
  shows "sort_key f xs = sort_key g xs"
  using assms
proof (induction xs)
  case (Cons x xs)
  then have "sort_key f xs = sort_key g xs" by simp
  moreover have "insort_key f x (sort_key g xs) = insort_key g x (sort_key g xs)"
    by (rule insort_key_cong) (simp add: Cons.prems)
  ultimately show ?case by simp
qed simp

lemma sort_key_map: "sort_key f (map g xs) = map g (sort_key (\<lambda>x. f (g x)) xs)"
proof (induction xs)
  case (Cons x xs)
  have "insort_key f (g x) (map g ys) = map g (insort_key (\<lambda>x. f (g x)) x ys)" for ys
    by (induction ys) auto
  then show ?case using Cons by simp
qed simp

lemma set_take_subset_of: "set xs \<subseteq> A \<Longrightarrow> set (take n xs) \<subseteq> A"
  by (meson order_trans set_take_subset)

section \<open>Transition systems\<close>

text \<open>
  The contract every state machine of the program is checked against: a start predicate, a step
  relation, and an invariant that holds at the start and is kept by every step.
\<close>

inductive reach :: "('s \<Rightarrow> bool) \<Rightarrow> ('s \<Rightarrow> 's \<Rightarrow> bool) \<Rightarrow> 's \<Rightarrow> bool"
  for start :: "'s \<Rightarrow> bool" and step :: "'s \<Rightarrow> 's \<Rightarrow> bool" where
  reach_start: "start s \<Longrightarrow> reach start step s"
| reach_step: "reach start step s \<Longrightarrow> step s t \<Longrightarrow> reach start step t"

inductive_cases reach_elim: "reach start step s"

locale invariant_system =
  fixes start :: "'s \<Rightarrow> bool"
    and step :: "'s \<Rightarrow> 's \<Rightarrow> bool"
    and inv :: "'s \<Rightarrow> bool"
  assumes start_inv: "start s \<Longrightarrow> inv s"
    and step_inv: "inv s \<Longrightarrow> step s t \<Longrightarrow> inv t"
begin

lemma reach_inv: "reach start step s \<Longrightarrow> inv s"
  by (induction rule: reach.induct) (auto intro: start_inv step_inv)

lemma steps_inv: "step\<^sup>*\<^sup>* s t \<Longrightarrow> inv s \<Longrightarrow> inv t"
  by (induction rule: rtranclp_induct) (auto intro: step_inv)

end

text \<open>
  A table of allowed status changes. A status with no way out is final: once there, no sequence
  of allowed changes leaves it.
\<close>

locale status_table =
  fixes allowed :: "'s \<Rightarrow> 's list"
    and rank :: "'s \<Rightarrow> nat"
  assumes rank_increases: "t \<in> set (allowed s) \<Longrightarrow> rank s < rank t"
begin

definition change :: "'s \<Rightarrow> 's \<Rightarrow> bool" where
  "change s t \<longleftrightarrow> t \<in> set (allowed s)"

lemma change_rank: "change\<^sup>+\<^sup>+ s t \<Longrightarrow> rank s < rank t"
  by (induction rule: tranclp_induct) (auto simp: change_def dest: rank_increases)

lemma never_returns: "\<not> change\<^sup>+\<^sup>+ s s"
  using change_rank by blast

lemma terminal_stays: "change\<^sup>*\<^sup>* s t \<Longrightarrow> allowed s = [] \<Longrightarrow> t = s"
  by (metis change_def converse_rtranclpE empty_iff list.set(1))

end

end
