(* ===== verification/Json.thy ===== *)
theory Json
  imports Prelude Complex_Main
begin

text \<open>
  The JSON validation of \<^verbatim>\<open>src/groundgraph/domain/types.py\<close> and its wrapper
  \<^verbatim>\<open>snapshot_json_object\<close>. The code walks Python objects by identity to find
  cycles, so the model has an explicit heap: containers live at addresses, and a container inside
  another is a reference. The main result is that validation succeeds exactly on the values that
  unfold to a finite JSON tree, and then returns that tree.
\<close>

section \<open>Python values and JSON values\<close>

type_synonym addr = nat

datatype pyfloat = Finite rat | NaN | Infinity

datatype pyval =
    PNone | PBool bool | PInt int | PFloat pyfloat | PStr string
  | PRef addr          \<comment> \<open>a list or a dict, by identity\<close>
  | POther string      \<comment> \<open>an instance of any other type, with the type's name\<close>

datatype pyobj = PyList "pyval list" | PyDict "(pyval \<times> pyval) list"

type_synonym heap = "(addr, pyobj) dict"

datatype json =
    JNull | JBool bool | JInt int | JFloat rat | JStr string
  | JList "json list" | JObj "(string \<times> json) list"

text \<open>The exceptions the program raises; pydantic's \<^verbatim>\<open>ValidationError\<close> is a
  \<^verbatim>\<open>ValueError\<close>. Identifiers interpolated into messages are left out.\<close>

datatype exn =
    ValueError string | TypeError string | KeyError string | RuntimeError string | AssertionError
  | IndexError string | OverflowError string
  | NotFound string | Conflict string | ConcurrencyConflict string | InvalidTransition string
  | UnsupportedFormat string string
  | HttpError nat string | AttributeError string | FileNotFound string | DriverError string

fun exn_str :: "exn \<Rightarrow> string" where
  "exn_str (ValueError m) = m"
| "exn_str (TypeError m) = m"
| "exn_str (KeyError m) = m"
| "exn_str (RuntimeError m) = m"
| "exn_str AssertionError = []"
| "exn_str (IndexError m) = m"
| "exn_str (OverflowError m) = m"
| "exn_str (NotFound m) = m"
| "exn_str (Conflict m) = m"
| "exn_str (ConcurrencyConflict m) = m"
| "exn_str (InvalidTransition m) = m"
| "exn_str (UnsupportedFormat r d) = (if d = [] then r else r @ '': '' @ d)"
| "exn_str (HttpError _ m) = m"
| "exn_str (AttributeError m) = m"
| "exn_str (FileNotFound m) = m"
| "exn_str (DriverError m) = m"

text \<open>\<^verbatim>\<open>round(x, d)\<close>, ties to even.\<close>

definition py_round :: "nat \<Rightarrow> rat \<Rightarrow> rat" where
  "py_round d x =
     (let y = x * 10 ^ d; f = floor y; r = y - of_int f
      in of_int (if r < 1 / 2 \<or> (r = 1 / 2 \<and> even f) then f else f + 1) / 10 ^ d)"

fun type_name :: "pyval \<Rightarrow> string" where
  "type_name PNone = ''NoneType''"
| "type_name (PBool _) = ''bool''"
| "type_name (PInt _) = ''int''"
| "type_name (PFloat _) = ''float''"
| "type_name (PStr _) = ''str''"
| "type_name (PRef _) = ''container''"
| "type_name (POther t) = t"

section \<open>Validation\<close>

text \<open>
  \<^verbatim>\<open>_validate(value, seen)\<close>. The \<^verbatim>\<open>seen\<close> set holds the containers on the
  path from the root: an address is added before its content is walked and discarded after it, so
  passing the extended set down is the same.
\<close>

function (sequential)
  validate :: "heap \<Rightarrow> addr list \<Rightarrow> pyval \<Rightarrow> exn + json"
and validate_items :: "heap \<Rightarrow> addr list \<Rightarrow> pyval list \<Rightarrow> exn + json list"
and validate_entries :: "heap \<Rightarrow> addr list \<Rightarrow> (pyval \<times> pyval) list \<Rightarrow> exn + (string \<times> json) list"
where
  "validate h seen (PStr s) = Inr (JStr s)"
| "validate h seen (PInt i) = Inr (JInt i)"
| "validate h seen (PBool b) = Inr (JBool b)"
| "validate h seen PNone = Inr JNull"
| "validate h seen (PFloat (Finite q)) = Inr (JFloat q)"
| "validate h seen (PFloat f) = Inl (ValueError ''JSON float must not be NaN or Infinity'')"
| "validate h seen (PRef a) =
     (case map_of h a of
        Some (PyList xs) \<Rightarrow>
          if a \<in> set seen then Inl (ValueError ''JSON list contains a cycle'')
          else rbind (validate_items h (a # seen) xs) (\<lambda>js. Inr (JList js))
      | Some (PyDict es) \<Rightarrow>
          if a \<in> set seen then Inl (ValueError ''JSON dict contains a cycle'')
          else rbind (validate_entries h (a # seen) es) (\<lambda>js. Inr (JObj js))
      | None \<Rightarrow> Inl (ValueError ''JsonValue must be str | int | float | bool | None | list | dict''))"
| "validate h seen (POther t) =
     Inl (ValueError (''JsonValue must be str | int | float | bool | None | list | dict, got '' @ t))"
| "validate_items h seen [] = Inr []"
| "validate_items h seen (x # xs) =
     rbind (validate h seen x) (\<lambda>j. rbind (validate_items h seen xs) (\<lambda>js. Inr (j # js)))"
| "validate_entries h seen [] = Inr []"
| "validate_entries h seen ((k, v) # es) =
     (case k of
        PStr s \<Rightarrow> rbind (validate h seen v) (\<lambda>j. rbind (validate_entries h seen es) (\<lambda>js. Inr ((s, j) # js)))
      | _ \<Rightarrow> Inl (TypeError (''JSON object key must be str, got '' @ type_name k)))"
  by pat_completeness auto

text \<open>
  Every container entered is new on its path, and there are finitely many in the heap: the number
  of containers not yet on the path falls, and inside one container the rest of the items does.
\<close>

definition unseen :: "heap \<Rightarrow> addr list \<Rightarrow> nat" where
  "unseen h seen = card (set (keys h) - set seen)"

lemma unseen_Cons: "map_of h a = Some b \<Longrightarrow> a \<notin> set seen \<Longrightarrow> unseen h (a # seen) < unseen h seen"
proof -
  assume a: "map_of h a = Some b" and new: "a \<notin> set seen"
  from a have "a \<in> set (keys h)" by (metis list.set_map map_of_eq_None_iff option.distinct(1))
  with new have "set (keys h) - set (a # seen) \<subset> set (keys h) - set seen" by auto
  then show ?thesis unfolding unseen_def by (intro psubset_card_mono) simp_all
qed

termination validate
  by (relation "measures
      [case_sum (\<lambda>(h, seen, _). unseen h seen)
         (case_sum (\<lambda>(h, seen, _). unseen h seen) (\<lambda>(h, seen, _). unseen h seen)),
       case_sum (\<lambda>_. 0) (case_sum (\<lambda>(_, _, xs). Suc (length xs)) (\<lambda>(_, _, es). Suc (length es)))]")
     (auto simp: unseen_Cons)

text \<open>\<^verbatim>\<open>validate_json_value\<close> and \<^verbatim>\<open>snapshot_json_object\<close>.\<close>

definition validate_json_value :: "heap \<Rightarrow> pyval \<Rightarrow> exn + json" where
  "validate_json_value h v = validate h [] v"

definition snapshot_json_object :: "heap \<Rightarrow> pyval \<Rightarrow> exn + (string \<times> json) list" where
  "snapshot_json_object h v =
     rbind (validate_json_value h v)
       (\<lambda>j. case j of JObj es \<Rightarrow> Inr es | _ \<Rightarrow> Inl (TypeError ''JSON object expected''))"

section \<open>What a Python value means as JSON\<close>

inductive represents :: "heap \<Rightarrow> pyval \<Rightarrow> json \<Rightarrow> bool" for h :: heap where
  rep_str: "represents h (PStr s) (JStr s)"
| rep_int: "represents h (PInt i) (JInt i)"
| rep_bool: "represents h (PBool b) (JBool b)"
| rep_none: "represents h PNone JNull"
| rep_float: "represents h (PFloat (Finite q)) (JFloat q)"
| rep_list: "map_of h a = Some (PyList xs) \<Longrightarrow> list_all2 (represents h) xs js \<Longrightarrow>
     represents h (PRef a) (JList js)"
| rep_dict: "map_of h a = Some (PyDict es) \<Longrightarrow>
     list_all2 (\<lambda>e p. fst e = PStr (fst p) \<and> represents h (snd e) (snd p)) es js \<Longrightarrow>
     represents h (PRef a) (JObj js)"

inductive_simps represents_simps:
  "represents h (PStr s) j"
  "represents h (PInt i) j"
  "represents h (PBool b) j"
  "represents h PNone j"
  "represents h (PFloat f) j"
  "represents h (POther t) j"

inductive_cases represents_refE: "represents h (PRef a) j"

lemma represents_det: "represents h v j \<Longrightarrow> represents h v j' \<Longrightarrow> j' = j"
proof (induction arbitrary: j' rule: represents.induct)
  case (rep_list a xs js)
  from rep_list.prems rep_list.hyps obtain js' where j': "j' = JList js'"
    and r': "list_all2 (represents h) xs js'"
    by (auto elim: represents_refE)
  have "js' = js"
    using rep_list.IH r' by (auto simp: list_all2_conv_all_nth intro!: nth_equalityI)
  with j' show ?case by simp
next
  case (rep_dict a es js)
  from rep_dict.prems rep_dict.hyps obtain js' where j': "j' = JObj js'"
    and r': "list_all2 (\<lambda>e p. fst e = PStr (fst p) \<and> represents h (snd e) (snd p)) es js'"
    by (auto elim: represents_refE)
  have "js' ! i = js ! i" if "i < length es" for i
    using rep_dict.IH r' that by (auto simp: list_all2_conv_all_nth intro: prod_eqI)
  then have "js' = js"
    using rep_dict.IH r' by (auto simp: list_all2_conv_all_nth intro!: nth_equalityI)
  with j' show ?case by simp
qed (auto simp: represents_simps)

text \<open>Success of the validator gives a representation: computation induction.\<close>

lemma validate_sound_aux:
  "validate h seen v = Inr j \<Longrightarrow> represents h v j"
  "validate_items h seen xs = Inr js \<Longrightarrow> list_all2 (represents h) xs js"
  "validate_entries h seen es = Inr es' \<Longrightarrow>
     list_all2 (\<lambda>e p. fst e = PStr (fst p) \<and> represents h (snd e) (snd p)) es es'"
proof (induction h seen v and h seen xs and h seen es arbitrary: j and js and es'
       rule: validate_validate_items_validate_entries.induct)
  case (7 h seen a)
  then show ?case
    by (auto split: option.splits pyobj.splits if_splits intro: represents.intros)
next
  case (12 h seen k v es)
  then show ?case by (auto split: pyval.splits)
qed (auto intro: represents.intros)

text \<open>
  Conversely the walk of a represented value meets no cycle: a container on the path would have to
  represent a tree larger than itself.
\<close>

lemma size_list_mem: "x \<in> set xs \<Longrightarrow> f x \<le> size_list f xs"
  by (induction xs) auto

lemma size_JList_mem: "j \<in> set js \<Longrightarrow> size j < size (JList js)"
  using size_list_mem [of j js size] by simp

lemma size_JObj_mem: "(s, j) \<in> set es \<Longrightarrow> size j < size (JObj es)"
  by (induction es) auto

definition above :: "heap \<Rightarrow> addr list \<Rightarrow> json \<Rightarrow> bool" where
  "above h seen j \<longleftrightarrow> (\<forall>a \<in> set seen. \<forall>ja. represents h (PRef a) ja \<longrightarrow> size j < size ja)"

lemma above_child:
  "above h seen j \<Longrightarrow> represents h (PRef a) j \<Longrightarrow> size j' < size j \<Longrightarrow> above h (a # seen) j'"
  unfolding above_def
proof (intro ballI allI impI)
  fix b ja
  assume above: "\<forall>a \<in> set seen. \<forall>ja. represents h (PRef a) ja \<longrightarrow> size j < size ja"
    and rep: "represents h (PRef a) j" and less: "size j' < size j"
    and b: "b \<in> set (a # seen)" and rb: "represents h (PRef b) ja"
  show "size j' < size ja"
  proof (cases "b = a")
    case True
    then have "ja = j" using represents_det [OF rep] rb by simp
    then show ?thesis using less by simp
  next
    case False
    then have "size j < size ja" using above rb b by auto
    then show ?thesis using less by simp
  qed
qed

lemma above_not_seen: "above h seen j \<Longrightarrow> represents h (PRef a) j \<Longrightarrow> a \<notin> set seen"
  unfolding above_def by blast

lemma items_complete:
  "list_all2 (\<lambda>x j. \<forall>seen. above h seen j \<longrightarrow> validate h seen x = Inr j) xs js \<Longrightarrow>
   \<forall>j \<in> set js. above h seen j \<Longrightarrow> validate_items h seen xs = Inr js"
  by (induction xs js rule: list_all2_induct) auto

lemma entries_complete:
  "list_all2 (\<lambda>e p. fst e = PStr (fst p) \<and>
     (\<forall>seen. above h seen (snd p) \<longrightarrow> validate h seen (snd e) = Inr (snd p))) es js \<Longrightarrow>
   \<forall>(s, j) \<in> set js. above h seen j \<Longrightarrow> validate_entries h seen es = Inr js"
  by (induction es js rule: list_all2_induct) auto

lemma validate_complete_aux:
  "represents h v j \<Longrightarrow> above h seen j \<Longrightarrow> validate h seen v = Inr j"
proof (induction arbitrary: seen rule: represents.induct)
  case (rep_list a xs js)
  have rep: "represents h (PRef a) (JList js)"
    using rep_list by (intro represents.rep_list) (auto elim: list_all2_mono)
  then have new: "a \<notin> set seen" using above_not_seen rep_list.prems by blast
  have "\<forall>j \<in> set js. above h (a # seen) j"
    using above_child [OF rep_list.prems rep] size_JList_mem by blast
  moreover have "list_all2 (\<lambda>x j. \<forall>seen. above h seen j \<longrightarrow> validate h seen x = Inr j) xs js"
    using rep_list.IH by (rule list_all2_mono) blast
  ultimately have "validate_items h (a # seen) xs = Inr js"
    by (rule items_complete [rotated])
  with new rep_list.hyps show ?case by simp
next
  case (rep_dict a es js)
  have rep: "represents h (PRef a) (JObj js)"
    using rep_dict by (intro represents.rep_dict) (auto elim!: list_all2_mono)
  then have new: "a \<notin> set seen" using above_not_seen rep_dict.prems by blast
  have "\<forall>(s, j) \<in> set js. above h (a # seen) j"
    using above_child [OF rep_dict.prems rep] size_JObj_mem by blast
  moreover have "list_all2 (\<lambda>e p. fst e = PStr (fst p) \<and>
      (\<forall>seen. above h seen (snd p) \<longrightarrow> validate h seen (snd e) = Inr (snd p))) es js"
    using rep_dict.IH by (rule list_all2_mono) auto
  ultimately have "validate_entries h (a # seen) es = Inr js"
    by (rule entries_complete [rotated])
  with new rep_dict.hyps show ?case by simp
qed auto

lemma validate_iff_represents: "validate h [] v = Inr j \<longleftrightarrow> represents h v j"
  using validate_sound_aux(1) validate_complete_aux [of h v j "[]"] by (auto simp: above_def)

section \<open>Properties\<close>

text \<open>C29: Validation succeeds exactly on the Python values that unfold to a finite JSON tree, and
  returns that tree. In particular it ends on every heap, cyclic ones included, and it accepts a
  container that occurs twice without being inside itself.\<close>

theorem validate_json_value_spec:
  "validate_json_value h v = Inr j \<longleftrightarrow> represents h v j"
  by (simp add: validate_json_value_def validate_iff_represents)

text \<open>A shared container is accepted, a cyclic one is not.\<close>

lemma validate_examples:
  "validate_json_value [(1, PyList [PRef 2, PRef 2]), (2, PyList [PInt 7])] (PRef 1)
     = Inr (JList [JList [JInt 7], JList [JInt 7]])"
  "validate_json_value [(1, PyList [PRef 1])] (PRef 1) = Inl (ValueError ''JSON list contains a cycle'')"
  "snapshot_json_object h (PInt 3) = Inl (TypeError ''JSON object expected'')"
  by (simp_all add: validate_json_value_def snapshot_json_object_def)

end
