(* ===== verification/Ports.thy ===== *)
theory Ports
  imports Json
begin

text \<open>
  The port protocols of \<^verbatim>\<open>application/ports.py\<close> (and the protocols of
  \<^verbatim>\<open>application/health.py\<close> and \<^verbatim>\<open>infrastructure/postgres/session.py\<close>) as the
  signatures they are, beside the signatures of the classes that the program passes where a port is
  asked for. A protocol is structural: an object serves it when it has the methods. What that means is
  made precise by two things Python has: the binding of a call's arguments to parameters, and the values
  that an annotation admits. The theory shows that the check of signatures is sound for both, and then
  which classes pass it.
\<close>

section \<open>Annotations and the values they admit\<close>

datatype py_type =
    AnyT | ObjectT | NoneT
  | Cls string                 \<comment> \<open>a class by name; \<^verbatim>\<open>Self\<close> is the class of the receiver\<close>
  | ListT py_type              \<comment> \<open>a bare \<^verbatim>\<open>list\<close> is a list of \<^verbatim>\<open>Any\<close>\<close>
  | DictT py_type py_type
  | TupleT "py_type list"
  | UnionT "py_type list"

abbreviation opt :: "py_type \<Rightarrow> py_type" where
  "opt t \<equiv> UnionT [t, NoneT]"

datatype 'o py_value =
    VNone
  | VObj 'o                    \<comment> \<open>an instance of a class\<close>
  | VList "'o py_value list"
  | VDict "('o py_value \<times> 'o py_value) list"
  | VTuple "'o py_value list"

lemma list_all2_fcong [fundef_cong]:
  assumes "xs = xs'" "ys = ys'" "\<And>x y. x \<in> set xs' \<Longrightarrow> y \<in> set ys' \<Longrightarrow> P x y = Q x y"
  shows "list_all2 P xs ys = list_all2 Q xs' ys'"
  using assms by (auto intro: list.rel_mono_strong)

text \<open>\<^verbatim>\<open>isa x c\<close> says that the object is an instance of the class.\<close>

fun of_type :: "('o \<Rightarrow> string \<Rightarrow> bool) \<Rightarrow> py_type \<Rightarrow> 'o py_value \<Rightarrow> bool" where
  "of_type isa AnyT v = True"
| "of_type isa ObjectT v = True"
| "of_type isa NoneT v = (case v of VNone \<Rightarrow> True | _ \<Rightarrow> False)"
| "of_type isa (Cls c) v = (case v of VObj x \<Rightarrow> isa x c | _ \<Rightarrow> False)"
| "of_type isa (ListT t) v = (case v of VList vs \<Rightarrow> list_all (of_type isa t) vs | _ \<Rightarrow> False)"
| "of_type isa (DictT k t) v =
     (case v of VDict kvs \<Rightarrow> list_all (\<lambda>(x, y). of_type isa k x \<and> of_type isa t y) kvs | _ \<Rightarrow> False)"
| "of_type isa (TupleT ts) v =
     (case v of VTuple vs \<Rightarrow> list_all2 (of_type isa) ts vs | _ \<Rightarrow> False)"
| "of_type isa (UnionT ts) v = list_ex (\<lambda>t. of_type isa t v) ts"

text \<open>
  The assignability of the typing rules: lists and dictionaries can be changed by who holds them and so
  do not vary with their elements, except that \<^verbatim>\<open>Any\<close> takes everything; \<^verbatim>\<open>sub\<close> is
  the relation of subclasses. An \<^verbatim>\<open>Any\<close> is not taken for something else.
\<close>

fun assignable :: "(string \<Rightarrow> string \<Rightarrow> bool) \<Rightarrow> py_type \<Rightarrow> py_type \<Rightarrow> bool" where
  "assignable sub (UnionT ss) t = list_all (\<lambda>s. assignable sub s t) ss"
| "assignable sub s (UnionT ts) = list_ex (\<lambda>t. assignable sub s t) ts"
| "assignable sub s AnyT = True"
| "assignable sub s ObjectT = True"
| "assignable sub NoneT NoneT = True"
| "assignable sub (Cls a) (Cls b) = (a = b \<or> sub a b)"
| "assignable sub (ListT a) (ListT b) = (a = b \<or> b = AnyT)"
| "assignable sub (DictT k a) (DictT l b) = (k = l \<and> (a = b \<or> b = AnyT))"
| "assignable sub (TupleT ss) (TupleT ts) = list_all2 (assignable sub) ss ts"
| "assignable sub _ _ = False"

lemma assignable_sound:
  assumes "assignable sub s t" "of_type isa s v"
    and "\<And>x a b. isa x a \<Longrightarrow> sub a b \<Longrightarrow> isa x b"
  shows "of_type isa t v"
  using assms
proof (induction sub s t arbitrary: v rule: assignable.induct)
  case (1 sub ss t)
  then show ?case by (auto simp: list_all_iff list_ex_iff)
next
  case (9 sub ss ts)
  obtain vs where v: "v = VTuple vs" and vs: "list_all2 (of_type isa) ss vs"
    using "9.prems"(2) by (auto split: py_value.splits)
  have "of_type isa (ts ! i) (vs ! i)" if "i < length vs" for i
    using "9.IH"[of "ss ! i" "ts ! i" "vs ! i"] "9.prems"(1,3) vs that
    by (simp add: list_all2_conv_all_nth)
  then show ?case using "9.prems"(1) vs by (simp add: v list_all2_conv_all_nth)
qed (simp_all add: list_ex_iff del: of_type.simps(3-7),
     (blast | force simp: list_all_iff split: py_value.splits)+)


section \<open>Signatures and the binding of calls\<close>

text \<open>A parameter has the text of its default, if it has one. Parameters after the bare star can only be
  given by name. The receiver is not among the parameters.\<close>

record param =
  par_name :: string
  par_type :: py_type
  par_keyword_only :: bool
  par_default :: "string option"

datatype method_kind = Plain | Async | Property

record signature =
  sig_name :: string
  sig_kind :: method_kind
  sig_params :: "param list"
  sig_return :: py_type

record iface =
  if_attrs :: "(string \<times> py_type) list"
  if_methods :: "signature list"

definition arg :: "string \<Rightarrow> py_type \<Rightarrow> param" where
  "arg n t = \<lparr>par_name = n, par_type = t, par_keyword_only = False, par_default = None\<rparr>"

definition arg_default :: "string \<Rightarrow> py_type \<Rightarrow> string \<Rightarrow> param" where
  "arg_default n t d = \<lparr>par_name = n, par_type = t, par_keyword_only = False, par_default = Some d\<rparr>"

definition kwarg :: "string \<Rightarrow> py_type \<Rightarrow> param" where
  "kwarg n t = \<lparr>par_name = n, par_type = t, par_keyword_only = True, par_default = None\<rparr>"

definition kwarg_default :: "string \<Rightarrow> py_type \<Rightarrow> string \<Rightarrow> param" where
  "kwarg_default n t d = \<lparr>par_name = n, par_type = t, par_keyword_only = True, par_default = Some d\<rparr>"

abbreviation async_def :: "string \<Rightarrow> param list \<Rightarrow> py_type \<Rightarrow> signature" where
  "async_def n ps r \<equiv> \<lparr>sig_name = n, sig_kind = Async, sig_params = ps, sig_return = r\<rparr>"

abbreviation plain_def :: "string \<Rightarrow> param list \<Rightarrow> py_type \<Rightarrow> signature" where
  "plain_def n ps r \<equiv> \<lparr>sig_name = n, sig_kind = Plain, sig_params = ps, sig_return = r\<rparr>"

abbreviation prop_def :: "string \<Rightarrow> param list \<Rightarrow> py_type \<Rightarrow> signature" where
  "prop_def n ps r \<equiv> \<lparr>sig_name = n, sig_kind = Property, sig_params = ps, sig_return = r\<rparr>"

abbreviation iface :: "(string \<times> py_type) list \<Rightarrow> signature list \<Rightarrow> iface" where
  "iface as ms \<equiv> \<lparr>if_attrs = as, if_methods = ms\<rparr>"

lemmas param_defs = arg_def arg_default_def kwarg_def kwarg_default_def

abbreviation names :: "param list \<Rightarrow> string list" where
  "names ps \<equiv> map par_name ps"

definition positionals :: "param list \<Rightarrow> param list" where
  "positionals ps = filter (\<lambda>p. \<not> par_keyword_only p) ps"

definition by_name :: "param list \<Rightarrow> param list" where
  "by_name ps = filter par_keyword_only ps"

text \<open>
  The call \<^verbatim>\<open>f(*args, **kws)\<close>: the positional arguments fill the positional parameters in
  order, then each keyword must name a parameter that has no value yet; after that surplus arguments and
  parameters without value or default are errors. All of them are a \<^verbatim>\<open>TypeError\<close>.
\<close>

datatype 'o bound = Given "'o py_value" | Default string

fun keyword_error :: "string list \<Rightarrow> string list \<Rightarrow> (string \<times> 'v) list \<Rightarrow> exn option" where
  "keyword_error ns filled [] = None"
| "keyword_error ns filled ((k, v) # kws) =
     (if k \<notin> set ns then Some (TypeError ''got an unexpected keyword argument'')
      else if k \<in> set filled then Some (TypeError ''got multiple values for argument'')
      else keyword_error ns filled kws)"

definition given_args :: "param list \<Rightarrow> 'o py_value list \<Rightarrow> (string \<times> 'o py_value) list \<Rightarrow> (string \<times> 'o py_value) list" where
  "given_args ps args kws = zip (names (positionals ps)) args @ kws"

definition bound_to :: "(string \<times> 'o py_value) list \<Rightarrow> param \<Rightarrow> 'o bound option" where
  "bound_to g p = (case map_of g (par_name p) of
     Some v \<Rightarrow> Some (Given v) | None \<Rightarrow> map_option Default (par_default p))"

definition bind_args ::
  "param list \<Rightarrow> 'o py_value list \<Rightarrow> (string \<times> 'o py_value) list \<Rightarrow> exn + (string \<times> 'o bound) list" where
  "bind_args ps args kws =
     (case keyword_error (names ps) (take (length args) (names (positionals ps))) kws of
        Some e \<Rightarrow> Inl e
      | None \<Rightarrow>
          if length (positionals ps) < length args then Inl (TypeError ''takes fewer positional arguments'')
          else if list_ex (\<lambda>p. bound_to (given_args ps args kws) p = None) ps
          then Inl (TypeError ''missing required argument'')
          else Inr (map (\<lambda>p. (par_name p, the (bound_to (given_args ps args kws) p))) ps))"

text \<open>The given values are of the annotated types.\<close>

definition well_typed :: "('o \<Rightarrow> string \<Rightarrow> bool) \<Rightarrow> param list \<Rightarrow> (string \<times> 'o bound) list \<Rightarrow> bool" where
  "well_typed isa ps bs = list_all (\<lambda>p. case map_of bs (par_name p) of
     Some (Given v) \<Rightarrow> of_type isa (par_type p) v | _ \<Rightarrow> True) ps"

section \<open>The check of signatures\<close>

text \<open>A parameter of a class may take more than that of the port and may have a default where the port
  has none; where the port has a default the class has the same.\<close>

definition par_ok :: "(string \<Rightarrow> string \<Rightarrow> bool) \<Rightarrow> param \<Rightarrow> param \<Rightarrow> bool" where
  "par_ok sub p c \<longleftrightarrow> par_name c = par_name p \<and> assignable sub (par_type p) (par_type c) \<and>
     (par_default p = None \<or> par_default c = par_default p)"

definition params_ok :: "(string \<Rightarrow> string \<Rightarrow> bool) \<Rightarrow> param list \<Rightarrow> param list \<Rightarrow> bool" where
  "params_ok sub ps cs \<longleftrightarrow>
     (let n = length (positionals ps) in
      distinct (names cs) \<and>
      list_all2 (par_ok sub) (positionals ps) (take n (positionals cs)) \<and>
      list_all (\<lambda>c. par_default c \<noteq> None) (drop n (positionals cs)) \<and>
      list_all (\<lambda>p. list_ex (par_ok sub p) (by_name cs)) (by_name ps) \<and>
      list_all (\<lambda>c. par_default c \<noteq> None \<or> par_name c \<in> set (names (by_name ps))) (by_name cs))"

definition sig_ok :: "(string \<Rightarrow> string \<Rightarrow> bool) \<Rightarrow> signature \<Rightarrow> signature \<Rightarrow> bool" where
  "sig_ok sub m c \<longleftrightarrow> sig_kind c = sig_kind m \<and> params_ok sub (sig_params m) (sig_params c) \<and>
     assignable sub (sig_return c) (sig_return m)"

definition find_method :: "iface \<Rightarrow> string \<Rightarrow> signature option" where
  "find_method i n = find (\<lambda>m. sig_name m = n) (if_methods i)"

text \<open>Only the class's own methods count, so that a class passes only when it leaves none of the
  protocol's empty bodies in place.\<close>

definition implements :: "(string \<Rightarrow> string \<Rightarrow> bool) \<Rightarrow> iface \<Rightarrow> iface \<Rightarrow> bool" where
  "implements sub port c \<longleftrightarrow>
     list_all (\<lambda>(n, t). case map_of (if_attrs c) n of None \<Rightarrow> False | Some s \<Rightarrow> assignable sub s t) (if_attrs port) \<and>
     list_all (\<lambda>m. case find_method c (sig_name m) of None \<Rightarrow> False | Some s \<Rightarrow> sig_ok sub m s) (if_methods port)"

lemmas check_simps = implements_def find_method_def sig_ok_def params_ok_def par_ok_def Let_def
  positionals_def by_name_def param_defs

section \<open>The check is sound\<close>

lemma keyword_error_None [simp]:
  "keyword_error ns filled kws = None \<longleftrightarrow> (\<forall>k\<in>fst ` set kws. k \<in> set ns \<and> k \<notin> set filled)"
  by (induction ns filled kws rule: keyword_error.induct) auto

lemma bind_args_Inr:
  "bind_args ps args kws = Inr bs \<longleftrightarrow>
     (\<forall>k\<in>fst ` set kws. k \<in> set (names ps) \<and> k \<notin> set (take (length args) (names (positionals ps)))) \<and>
     length args \<le> length (positionals ps) \<and>
     (\<forall>p\<in>set ps. bound_to (given_args ps args kws) p \<noteq> None) \<and>
     bs = map (\<lambda>p. (par_name p, the (bound_to (given_args ps args kws) p))) ps"
  unfolding keyword_error_None[symmetric] bind_args_def
  by (auto simp: list_ex_iff not_less simp del: keyword_error_None split: option.splits if_splits)

lemma find_distinct_name:
  assumes "distinct (names cs)" "c \<in> set cs"
  shows "find (\<lambda>q. par_name q = par_name c) cs = Some c"
  using assms by (induction cs) (auto simp: rev_image_eqI)

lemma set_params: "set ps = set (positionals ps) \<union> set (by_name ps)"
  by (auto simp: positionals_def by_name_def)


text \<open>What the check of parameters gives: the class has the names of the port, its first parameters are
  those of the port, and a parameter of the class that no call of the port must give has a default.\<close>

lemma params_ok_positional:
  assumes "params_ok sub ps cs"
  shows "names (positionals ps) = take (length (positionals ps)) (names (positionals cs))"
  using assms by (auto simp: params_ok_def Let_def par_ok_def list_all2_conv_all_nth intro!: nth_equalityI)

lemma params_ok_partner:
  assumes "params_ok sub ps cs" "p \<in> set ps"
  shows "\<exists>c\<in>set cs. par_ok sub p c"
  using assms by (auto simp: params_ok_def Let_def set_params[of ps] set_params[of cs]
      list_all_iff list_ex_iff list_all2_conv_all_nth in_set_conv_nth[of p "positionals ps"] dest: in_set_takeD)

lemma params_ok_names: "params_ok sub ps cs \<Longrightarrow> set (names ps) \<subseteq> set (names cs)"
  using params_ok_partner[of sub ps cs] by (auto simp: par_ok_def) (metis image_eqI)

lemma params_ok_default:
  assumes "params_ok sub ps cs" "c \<in> set cs" "par_name c \<notin> set (names ps)"
  shows "par_default c \<noteq> None"
proof (cases "c \<in> set (positionals cs)")
  case True
  let ?n = "length (positionals ps)"
  have "par_name c \<notin> set (names (positionals ps))"
    using assms(3) by (auto simp: set_params[of ps])
  then have "par_name c \<notin> set (take ?n (names (positionals cs)))"
    unfolding params_ok_positional[OF assms(1)] .
  then have "c \<in> set (drop ?n (positionals cs))"
    using True by (metis UnE append_take_drop_id imageI list.set_map set_append take_map)
  then show ?thesis using assms(1) by (auto simp: params_ok_def Let_def list_all_iff)
next
  case False
  then have "c \<in> set (by_name cs)" using assms(2) by (auto simp: set_params[of cs])
  then show ?thesis using assms(1,3) by (auto simp: params_ok_def Let_def list_all_iff set_params[of ps])
qed

lemma given_same:
  assumes "params_ok sub ps cs" "length args \<le> length (positionals ps)"
  shows "given_args cs args kws = given_args ps args kws"
    and "take (length args) (names (positionals cs)) = take (length args) (names (positionals ps))"
    and "length args \<le> length (positionals cs)"
proof -
  note p = params_ok_positional[OF assms(1)]
  show t: "take (length args) (names (positionals cs)) = take (length args) (names (positionals ps))"
    unfolding p using assms(2) by (simp add: min_absorb1)
  have "length (names (positionals ps)) \<le> length (positionals cs)"
    by (subst p) simp
  then show "length args \<le> length (positionals cs)" using assms(2) by simp
  have z: "zip xs args = zip (take (length args) xs) args" for xs :: "string list"
    using take_zip[of "length args" xs args] by simp
  have "zip (names (positionals cs)) args = zip (names (positionals ps)) args"
    using t by (subst (1 2) z) simp
  then show "given_args cs args kws = given_args ps args kws" by (simp add: given_args_def)
qed

lemma map_of_given:
  assumes "bind_args ps args kws = Inr bs" "n \<notin> set (names ps)"
  shows "map_of (given_args ps args kws) n = None"
proof -
  have "n \<notin> fst ` set (given_args ps args kws)"
    using assms by (auto simp: bind_args_Inr given_args_def set_params[of ps] dest!: set_zip_leftD)
  then show ?thesis by (simp add: map_of_eq_None_iff)
qed

lemma bound_partner:
  assumes ok: "params_ok sub ps cs" and b: "bind_args ps args kws = Inr bs"
    and p: "p \<in> set ps" and c: "c \<in> set cs" and n: "par_name p = par_name c"
  shows "par_ok sub p c" and "bound_to (given_args ps args kws) c = bound_to (given_args ps args kws) p"
    and "bound_to (given_args ps args kws) p \<noteq> None"
proof -
  obtain d where d: "d \<in> set cs" "par_ok sub p d" using params_ok_partner[OF ok p] by blast
  have "c = d" using ok c d n by (auto simp: params_ok_def Let_def par_ok_def distinct_map inj_on_def)
  then show k: "par_ok sub p c" using d(2) by simp
  show s: "bound_to (given_args ps args kws) p \<noteq> None" using b p by (auto simp: bind_args_Inr)
  show "bound_to (given_args ps args kws) c = bound_to (given_args ps args kws) p"
    using k s by (auto simp: bound_to_def par_ok_def split: option.splits)
qed

lemma bound_where_port_binds:
  assumes ok: "params_ok sub ps cs" and b: "bind_args ps args kws = Inr bs" and c: "c \<in> set cs"
  shows "bound_to (given_args ps args kws) c \<noteq> None"
proof (cases "par_name c \<in> set (names ps)")
  case True
  then obtain p where p: "p \<in> set ps" "par_name p = par_name c" by auto
  then show ?thesis using bound_partner[OF ok b p(1) c p(2)] by simp
next
  case False
  then show ?thesis using params_ok_default[OF ok c False] map_of_given[OF b False]
    by (auto simp: bound_to_def)
qed

lemma binds_where_port_binds:
  assumes ok: "params_ok sub ps cs" and b: "bind_args ps args kws = Inr bs"
  shows "bind_args cs args kws = Inr (map (\<lambda>c. (par_name c, the (bound_to (given_args ps args kws) c))) cs)"
proof -
  have l: "length args \<le> length (positionals ps)" using b by (simp add: bind_args_Inr)
  show ?thesis
    using b params_ok_names[OF ok] bound_where_port_binds[OF ok b] by (auto simp: bind_args_Inr given_same[OF ok l])
qed

lemma map_of_bound:
  "map_of (map (\<lambda>p. (par_name p, f p)) ps) n = map_option f (find (\<lambda>p. par_name p = n) ps)"
  by (induction ps) auto

lemma find_name:
  assumes "n \<in> set (names ps)"
  obtains p where "find (\<lambda>p. par_name p = n) ps = Some p" "p \<in> set ps" "par_name p = n"
  using assms by (cases "find (\<lambda>p. par_name p = n) ps") (auto simp: find_None_iff find_Some_iff)

text \<open>A call that the port takes is taken by the class, and each parameter of the port gets what the
  port promises: the value given, or the default.\<close>

lemma class_binds:
  assumes ok: "params_ok sub ps cs" and b: "bind_args ps args kws = Inr bs"
  obtains bs' where "bind_args cs args kws = Inr bs'"
    and "\<And>p. p \<in> set ps \<Longrightarrow> map_of bs' (par_name p) = map_of bs (par_name p)"
    and "\<And>isa. well_typed isa ps bs \<Longrightarrow> (\<And>x a b. isa x a \<Longrightarrow> sub a b \<Longrightarrow> isa x b) \<Longrightarrow> well_typed isa cs bs'"
proof -
  let ?g = "given_args ps args kws"
  let ?bs = "map (\<lambda>c. (par_name c, the (bound_to ?g c))) cs"
  have bs: "bs = map (\<lambda>p. (par_name p, the (bound_to ?g p))) ps" using b by (simp add: bind_args_Inr)
  have same: "map_of ?bs (par_name p) = map_of bs (par_name p)" if "p \<in> set ps" for p
  proof -
    have "par_name p \<in> set (names ps)" using that by simp
    then obtain q where q: "find (\<lambda>q. par_name q = par_name p) ps = Some q" "q \<in> set ps" "par_name q = par_name p"
      by (rule find_name)
    have "par_name p \<in> set (names cs)"
      using params_ok_names[OF ok] that by auto
    then obtain c where c: "find (\<lambda>q. par_name q = par_name p) cs = Some c" "c \<in> set cs" "par_name c = par_name p"
      by (rule find_name)
    show ?thesis using bound_partner(2)[OF ok b q(2) c(2)] q(1,3) c(1,3) by (simp add: bs map_of_bound)
  qed
  have typed: "well_typed isa cs ?bs"
    if w: "well_typed isa ps bs" and up: "\<And>x a b. isa x a \<Longrightarrow> sub a b \<Longrightarrow> isa x b" for isa
    unfolding well_typed_def list_all_iff
  proof
    fix c assume c: "c \<in> set cs"
    show "case map_of ?bs (par_name c) of Some (Given v) \<Rightarrow> of_type isa (par_type c) v | _ \<Rightarrow> True"
    proof (cases "par_name c \<in> set (names ps)")
      case True
      then obtain p where p: "p \<in> set ps" "par_name p = par_name c" by auto
      note k = bound_partner(1)[OF ok b p(1) c p(2)]
      have "case map_of bs (par_name p) of Some (Given v) \<Rightarrow> of_type isa (par_type p) v | _ \<Rightarrow> True"
        using w p(1) by (simp add: well_typed_def list_all_iff)
      then show ?thesis using same[OF p(1)] k assignable_sound[of sub "par_type p" "par_type c" isa] up
        by (auto simp: p(2) par_ok_def split: option.splits bound.splits)
    next
      case False
      have "find (\<lambda>q. par_name q = par_name c) cs = Some c"
        using c ok by (auto simp: params_ok_def Let_def intro!: find_distinct_name)
      then show ?thesis using map_of_given[OF b False] params_ok_default[OF ok c False]
        by (auto simp: map_of_bound bound_to_def split: option.splits bound.splits)
    qed
  qed
  show ?thesis by (rule that[OF binds_where_port_binds[OF ok b] same typed])
qed

lemma implements_serves:
  assumes i: "implements sub port c" and m: "m \<in> set (if_methods port)"
    and b: "bind_args (sig_params m) args kws = Inr bs" and w: "well_typed isa (sig_params m) bs"
    and up: "\<And>x a b. isa x a \<Longrightarrow> sub a b \<Longrightarrow> isa x b"
  shows "\<exists>s bs'. find_method c (sig_name m) = Some s \<and> sig_kind s = sig_kind m \<and>
    bind_args (sig_params s) args kws = Inr bs' \<and> well_typed isa (sig_params s) bs' \<and>
    (\<forall>p\<in>set (sig_params m). map_of bs' (par_name p) = map_of bs (par_name p)) \<and>
    (\<forall>v. of_type isa (sig_return s) v \<longrightarrow> of_type isa (sig_return m) v)"
proof -
  obtain s where s: "find_method c (sig_name m) = Some s" "sig_ok sub m s"
    using i m by (auto simp: implements_def list_all_iff split: option.splits)
  then obtain bs' where "bind_args (sig_params s) args kws = Inr bs'"
    "\<And>p. p \<in> set (sig_params m) \<Longrightarrow> map_of bs' (par_name p) = map_of bs (par_name p)"
    "well_typed isa (sig_params s) bs'"
    using class_binds[of sub "sig_params m" "sig_params s" args kws bs, OF _ b] w up
    unfolding sig_ok_def by metis
  moreover have "of_type isa (sig_return m) v" if "of_type isa (sig_return s) v" for v
    using assignable_sound[of sub "sig_return s" "sig_return m" isa v] s(2) that up
    by (auto simp: sig_ok_def)
  ultimately show ?thesis using s by (auto simp: sig_ok_def)
qed

section \<open>The ports\<close>

definition port_DocumentRepository :: iface where
  "port_DocumentRepository = iface
     []
     [async_def ''find_or_create_source''
        [arg ''source'' (Cls ''SourceDescriptor'')]
        (Cls ''SourceDescriptor''),
      async_def ''get_source'' [arg ''source_id'' (Cls ''UUID'')] (opt (Cls ''SourceDescriptor'')),
      async_def ''list_sources'' [] (ListT (Cls ''SourceDescriptor'')),
      async_def ''deactivate_source''
        [arg ''source_id'' (Cls ''UUID'')]
        (Cls ''SourceDescriptor''),
      async_def ''find_active_document_by_canonical_locator''
        [arg ''source_id'' (Cls ''UUID''),
         arg ''canonical_locator'' (Cls ''str'')]
        (opt (TupleT [Cls ''UUID'', Cls ''UUID''])),
      async_def ''upsert_document''
        [arg ''document'' (Cls ''ParsedDocument'')]
        (TupleT [Cls ''ParsedDocument'', Cls ''bool'']),
      async_def ''create_document''
        [arg ''document'' (Cls ''ParsedDocument'')]
        (Cls ''ParsedDocument''),
      async_def ''get_document''
        [arg ''document_id'' (Cls ''UUID'')]
        (opt (Cls ''ParsedDocument'')),
      async_def ''get_document_version''
        [arg ''document_id'' (Cls ''UUID''),
         arg ''version_id'' (Cls ''UUID'')]
        (opt (Cls ''ParsedDocument'')),
      async_def ''list_document_versions''
        [arg ''document_id'' (Cls ''UUID'')]
        (ListT (Cls ''ParsedDocument'')),
      async_def ''create_chunk'' [arg ''chunk'' (Cls ''Chunk'')] (Cls ''Chunk''),
      async_def ''get_chunk'' [arg ''chunk_id'' (Cls ''UUID'')] (opt (Cls ''Chunk'')),
      async_def ''list_chunks''
        [arg ''document_id'' (Cls ''UUID''),
         arg ''version_id'' (Cls ''UUID'')]
        (ListT (Cls ''Chunk''))]"

definition port_OutboxRepository :: iface where
  "port_OutboxRepository = iface
     []
     [async_def ''add'' [arg ''event'' (Cls ''OutboxEvent'')] (Cls ''OutboxEvent''),
      async_def ''get'' [arg ''event_id'' (Cls ''UUID'')] (opt (Cls ''OutboxEvent'')),
      async_def ''claim_batch''
        [arg ''batch_size'' (Cls ''int''),
         arg ''worker_id'' (Cls ''str''),
         arg ''lease_duration_seconds'' (Cls ''int'')]
        (ListT (Cls ''OutboxEvent'')),
      async_def ''mark_completed''
        [arg ''event_id'' (Cls ''UUID''),
         arg ''claim_token'' (Cls ''str'')]
        NoneT,
      async_def ''mark_failed''
        [arg ''event_id'' (Cls ''UUID''),
         arg ''claim_token'' (Cls ''str''),
         arg ''error'' (Cls ''str'')]
        NoneT]"

definition port_IngestionUnitOfWork :: iface where
  "port_IngestionUnitOfWork = iface
     [(''documents'', Cls ''DocumentRepository''),
      (''outbox'', Cls ''OutboxRepository''),
      (''ingestion_checkpoint'', Cls ''IngestionCheckpointRepository'')]
     [async_def ''__aenter__'' [] (Cls ''Self''),
      async_def ''__aexit__''
        [arg ''exc_type'' ObjectT,
         arg ''exc'' ObjectT,
         arg ''tb'' ObjectT]
        NoneT,
      async_def ''commit'' [] NoneT,
      async_def ''rollback'' [] NoneT]"

definition port_ObjectStore :: iface where
  "port_ObjectStore = iface
     []
     [async_def ''put_raw''
        [arg ''key'' (Cls ''str''),
         arg ''data'' (Cls ''bytes''),
         arg_default ''content_type'' (opt (Cls ''str'')) ''None'']
        NoneT,
      async_def ''get_raw'' [arg ''key'' (Cls ''str'')] (Cls ''bytes''),
      async_def ''delete_raw'' [arg ''key'' (Cls ''str'')] NoneT,
      async_def ''exists'' [arg ''key'' (Cls ''str'')] (Cls ''bool'')]"

definition port_IngestionCheckpointRepository :: iface where
  "port_IngestionCheckpointRepository = iface
     []
     [async_def ''upsert_checkpoint''
        [arg ''source_id'' (Cls ''UUID''),
         arg ''canonical_locator'' (Cls ''str''),
         arg ''content_checksum'' (Cls ''str''),
         arg ''status'' (Cls ''IngestionCheckpointStatus''),
         arg_default ''document_id'' (opt (Cls ''UUID'')) ''None'',
         arg_default ''version_id'' (opt (Cls ''UUID'')) ''None'',
         arg_default ''error_message'' (opt (Cls ''str'')) ''None'']
        (Cls ''IngestionCheckpoint''),
      async_def ''get_checkpoint''
        [arg ''source_id'' (Cls ''UUID''),
         arg ''canonical_locator'' (Cls ''str''),
         arg ''content_checksum'' (Cls ''str'')]
        (opt (Cls ''IngestionCheckpoint''))]"

definition port_EmbeddingProvider :: iface where
  "port_EmbeddingProvider = iface
     []
     [prop_def ''model'' [] (Cls ''str''),
      prop_def ''dimensions'' [] (Cls ''int''),
      async_def ''embed'' [arg ''texts'' (ListT (Cls ''str''))] (ListT (ListT (Cls ''float''))),
      async_def ''embed_one'' [arg ''text'' (Cls ''str'')] (ListT (Cls ''float''))]"

definition port_VectorRetriever :: iface where
  "port_VectorRetriever = iface
     []
     [async_def ''search''
        [arg ''query_vector'' (ListT (Cls ''float'')),
         arg ''top_k'' (Cls ''int''),
         arg_default ''filters'' (opt (DictT (Cls ''str'') AnyT)) ''None'']
        (ListT (TupleT [Cls ''UUID'', Cls ''float'']))]"

definition port_VectorContentRetriever :: iface where
  "port_VectorContentRetriever = iface
     []
     [async_def ''search''
        [arg ''query_vector'' (ListT (Cls ''float'')),
         arg ''top_k'' (Cls ''int''),
         kwarg ''allowed_principals'' (ListT (Cls ''str'')),
         kwarg ''tenant_id'' (Cls ''str''),
         kwarg ''index_version_id'' (Cls ''UUID'')]
        (ListT (Cls ''RetrievedChunk''))]"

definition port_KeywordRetrieverPort :: iface where
  "port_KeywordRetrieverPort = iface
     []
     [async_def ''search''
        [arg ''query'' (Cls ''str''),
         arg ''top_k'' (Cls ''int''),
         kwarg ''allowed_principals'' (ListT (Cls ''str'')),
         kwarg ''tenant_id'' (Cls ''str'')]
        (ListT (Cls ''RetrievedChunk''))]"

definition port_GraphRepository :: iface where
  "port_GraphRepository = iface
     []
     [async_def ''create_entity''
        [arg ''entity'' (Cls ''CanonicalEntity'')]
        (Cls ''CanonicalEntity''),
      async_def ''get_entity'' [arg ''entity_id'' (Cls ''UUID'')] (opt (Cls ''CanonicalEntity'')),
      async_def ''find_entities''
        [arg_default ''canonical_name'' (opt (Cls ''str'')) ''None'',
         arg_default ''entity_type'' (opt (Cls ''str'')) ''None'']
        (ListT (Cls ''CanonicalEntity'')),
      async_def ''create_fact'' [arg ''fact'' (Cls ''KnowledgeFact'')] (Cls ''KnowledgeFact''),
      async_def ''get_fact'' [arg ''fact_id'' (Cls ''UUID'')] (opt (Cls ''KnowledgeFact'')),
      async_def ''find_facts''
        [arg_default ''subject_id'' (opt (Cls ''UUID'')) ''None'',
         arg_default ''predicate'' (opt (Cls ''str'')) ''None'',
         arg_default ''object_id'' (opt (Cls ''UUID'')) ''None'',
         arg_default ''status'' (opt (Cls ''str'')) ''None'',
         arg_default ''allowed_principals'' (opt (ListT (Cls ''str''))) ''None'',
         kwarg_default ''tenant_id'' (opt (Cls ''str'')) ''None'']
        (ListT (Cls ''KnowledgeFact'')),
      async_def ''update_fact_status''
        [arg ''fact_id'' (Cls ''UUID''),
         arg ''status'' (Cls ''str''),
         arg_default ''superseded_by'' (opt (Cls ''UUID'')) ''None'']
        (Cls ''KnowledgeFact''),
      async_def ''create_mention''
        [arg ''mention'' (Cls ''EntityMention'')]
        (Cls ''EntityMention''),
      async_def ''find_mentions''
        [arg ''chunk_id'' (Cls ''UUID'')]
        (ListT (Cls ''EntityMention''))]"

definition port_EntityExtractor :: iface where
  "port_EntityExtractor = iface
     []
     [async_def ''extract''
        [arg ''text'' (Cls ''str''),
         arg ''chunk_id'' (Cls ''UUID'')]
        (ListT (Cls ''EntityMention''))]"

definition port_EntityResolver :: iface where
  "port_EntityResolver = iface
     []
     [async_def ''resolve''
        [arg ''mention'' (Cls ''EntityMention'')]
        (opt (Cls ''CanonicalEntity''))]"

definition port_RetrievalPlanner :: iface where
  "port_RetrievalPlanner = iface
     []
     [async_def ''plan''
        [arg ''question'' (Cls ''str''),
         arg ''principal'' (Cls ''str''),
         arg ''tenant_id'' (Cls ''str'')]
        (Cls ''RetrievalPlan'')]"

definition port_EvidenceReranker :: iface where
  "port_EvidenceReranker = iface
     []
     [async_def ''rerank''
        [arg ''evidence'' (ListT (Cls ''Evidence'')),
         arg ''query'' (Cls ''str'')]
        (ListT (Cls ''Evidence''))]"

definition port_AnswerGenerator :: iface where
  "port_AnswerGenerator = iface
     []
     [async_def ''generate''
        [arg ''question'' (Cls ''str''),
         arg ''evidence'' (ListT (Cls ''Evidence'')),
         arg ''retrieval_plan'' (Cls ''RetrievalPlan'')]
        (Cls ''QueryResponse'')]"

definition port_ClaimValidator :: iface where
  "port_ClaimValidator = iface
     []
     [async_def ''validate''
        [arg ''response'' (Cls ''QueryResponse''),
         arg ''evidence'' (ListT (Cls ''Evidence''))]
        (Cls ''QueryResponse'')]"

definition port_TelemetryRecorder :: iface where
  "port_TelemetryRecorder = iface
     []
     [plain_def ''record_run'' [arg ''run'' (Cls ''ExecutionRun'')] NoneT,
      plain_def ''record_step'' [arg ''step'' (Cls ''ExecutionStep'')] NoneT,
      async_def ''flush'' [] NoneT]"

definition port_EvaluationRepository :: iface where
  "port_EvaluationRepository = iface
     []
     [async_def ''create_run''
        [arg ''run_id'' (Cls ''UUID''),
         arg ''dataset_id'' (Cls ''UUID''),
         arg ''config'' (UnionT
           [DictT (Cls ''str'') AnyT, ListT AnyT, Cls ''str'', Cls ''int'', Cls ''float'', Cls ''bool'', NoneT])]
        NoneT,
      async_def ''store_result''
        [arg ''run_id'' (Cls ''UUID''),
         arg ''case_id'' (Cls ''str''),
         arg ''result'' (UnionT
           [DictT (Cls ''str'') AnyT, ListT AnyT, Cls ''str'', Cls ''int'', Cls ''float'', Cls ''bool'', NoneT])]
        NoneT,
      async_def ''get_run'' [arg ''run_id'' (Cls ''UUID'')] (opt (DictT (Cls ''str'') AnyT))]"

definition port_OutboxConsumer :: iface where
  "port_OutboxConsumer = iface
     []
     [async_def ''claim_batch'' [arg ''batch_size'' (Cls ''int'')] (ListT (Cls ''OutboxEvent'')),
      async_def ''mark_completed'' [arg ''event_id'' (Cls ''UUID'')] NoneT,
      async_def ''mark_failed''
        [arg ''event_id'' (Cls ''UUID''),
         arg ''error'' (Cls ''str'')]
        NoneT]"

definition port_IndexVersionResolver :: iface where
  "port_IndexVersionResolver = iface
     []
     [async_def ''resolve_active''
        [arg ''index_name'' (Cls ''str'')]
        (opt (Cls ''IndexVersionInfo''))]"

definition port_HealthChecker :: iface where
  "port_HealthChecker = iface
     [(''name'', Cls ''str'')]
     [async_def ''check'' [] (Cls ''DependencyHealth'')]"

definition port_PostgresSession :: iface where
  "port_PostgresSession = iface
     []
     [plain_def ''add'' [arg ''instance'' ObjectT] NoneT,
      async_def ''execute''
        [arg ''statement'' AnyT,
         arg_default ''parameters'' AnyT ''None'']
        AnyT,
      async_def ''get'' [arg ''entity'' AnyT, arg ''ident'' AnyT] (opt AnyT),
      async_def ''flush'' [] NoneT,
      async_def ''commit'' [] NoneT,
      async_def ''rollback'' [] NoneT,
      async_def ''close'' [] NoneT]"

lemmas port_defs =
  port_DocumentRepository_def port_OutboxRepository_def port_IngestionUnitOfWork_def
  port_ObjectStore_def port_IngestionCheckpointRepository_def port_EmbeddingProvider_def
  port_VectorRetriever_def port_VectorContentRetriever_def port_KeywordRetrieverPort_def
  port_GraphRepository_def port_EntityExtractor_def port_EntityResolver_def
  port_RetrievalPlanner_def port_EvidenceReranker_def port_AnswerGenerator_def
  port_ClaimValidator_def port_TelemetryRecorder_def port_EvaluationRepository_def
  port_OutboxConsumer_def port_IndexVersionResolver_def port_HealthChecker_def
  port_PostgresSession_def

section \<open>The classes\<close>

text \<open>The public methods of each class (and those of a context manager), in the order of the source. The
  attributes are those that the constructor or the class body declares.\<close>

definition class_PostgresDocumentRepository :: iface where
  "class_PostgresDocumentRepository = iface
     []
     [async_def ''find_or_create_source''
        [arg ''source'' (Cls ''SourceDescriptor'')]
        (Cls ''SourceDescriptor''),
      async_def ''get_source'' [arg ''source_id'' (Cls ''UUID'')] (opt (Cls ''SourceDescriptor'')),
      async_def ''list_sources'' [] (ListT (Cls ''SourceDescriptor'')),
      async_def ''deactivate_source''
        [arg ''source_id'' (Cls ''UUID'')]
        (Cls ''SourceDescriptor''),
      async_def ''find_active_document_by_canonical_locator''
        [arg ''source_id'' (Cls ''UUID''),
         arg ''canonical_locator'' (Cls ''str'')]
        (opt (TupleT [Cls ''UUID'', Cls ''UUID''])),
      async_def ''upsert_document''
        [arg ''document'' (Cls ''ParsedDocument'')]
        (TupleT [Cls ''ParsedDocument'', Cls ''bool'']),
      async_def ''create_document''
        [arg ''document'' (Cls ''ParsedDocument'')]
        (Cls ''ParsedDocument''),
      async_def ''get_document''
        [arg ''document_id'' (Cls ''UUID'')]
        (opt (Cls ''ParsedDocument'')),
      async_def ''get_document_version''
        [arg ''document_id'' (Cls ''UUID''),
         arg ''version_id'' (Cls ''UUID'')]
        (opt (Cls ''ParsedDocument'')),
      async_def ''list_document_versions''
        [arg ''document_id'' (Cls ''UUID'')]
        (ListT (Cls ''ParsedDocument'')),
      async_def ''create_chunk'' [arg ''chunk'' (Cls ''Chunk'')] (Cls ''Chunk''),
      async_def ''get_chunk'' [arg ''chunk_id'' (Cls ''UUID'')] (opt (Cls ''Chunk'')),
      async_def ''list_chunks''
        [arg ''document_id'' (Cls ''UUID''),
         arg ''version_id'' (Cls ''UUID'')]
        (ListT (Cls ''Chunk'')),
      async_def ''delete_document'' [arg ''document_id'' (Cls ''UUID'')] NoneT]"

definition class_PostgresOutboxRepository :: iface where
  "class_PostgresOutboxRepository = iface
     []
     [async_def ''add'' [arg ''event'' (Cls ''OutboxEvent'')] (Cls ''OutboxEvent''),
      async_def ''get'' [arg ''event_id'' (Cls ''UUID'')] (opt (Cls ''OutboxEvent'')),
      async_def ''claim_batch''
        [arg ''batch_size'' (Cls ''int''),
         arg ''worker_id'' (Cls ''str''),
         arg ''lease_duration_seconds'' (Cls ''int'')]
        (ListT (Cls ''OutboxEvent'')),
      async_def ''mark_completed''
        [arg ''event_id'' (Cls ''UUID''),
         arg ''claim_token'' (Cls ''str'')]
        NoneT,
      async_def ''mark_failed''
        [arg ''event_id'' (Cls ''UUID''),
         arg ''claim_token'' (Cls ''str''),
         arg ''error'' (Cls ''str'')]
        NoneT]"

definition class_PostgresUnitOfWork :: iface where
  "class_PostgresUnitOfWork = iface
     [(''documents'', opt (Cls ''PostgresDocumentRepository'')),
      (''outbox'', opt (Cls ''PostgresOutboxRepository'')),
      (''execution'', opt (Cls ''ExecutionRepository'')),
      (''ingestion_checkpoint'', opt (Cls ''PostgresIngestionCheckpointRepository''))]
     [async_def ''__aenter__'' [] (Cls ''Self''),
      async_def ''__aexit__''
        [arg ''exc_type'' ObjectT,
         arg ''exc'' ObjectT,
         arg ''tb'' ObjectT]
        NoneT,
      async_def ''commit'' [] NoneT,
      async_def ''rollback'' [] NoneT]"

definition class_S3ObjectStore :: iface where
  "class_S3ObjectStore = iface
     []
     [async_def ''put_raw''
        [arg ''key'' (Cls ''str''),
         arg ''data'' (Cls ''bytes''),
         arg_default ''content_type'' (opt (Cls ''str'')) ''None'']
        NoneT,
      async_def ''get_raw'' [arg ''key'' (Cls ''str'')] (Cls ''bytes''),
      async_def ''delete_raw'' [arg ''key'' (Cls ''str'')] NoneT,
      async_def ''exists'' [arg ''key'' (Cls ''str'')] (Cls ''bool'')]"

definition class_PostgresIngestionCheckpointRepository :: iface where
  "class_PostgresIngestionCheckpointRepository = iface
     []
     [async_def ''upsert_checkpoint''
        [arg ''source_id'' (Cls ''UUID''),
         arg ''canonical_locator'' (Cls ''str''),
         arg ''content_checksum'' (Cls ''str''),
         arg ''status'' (Cls ''IngestionCheckpointStatus''),
         arg_default ''document_id'' (opt (Cls ''UUID'')) ''None'',
         arg_default ''version_id'' (opt (Cls ''UUID'')) ''None'',
         arg_default ''error_message'' (opt (Cls ''str'')) ''None'']
        (Cls ''IngestionCheckpoint''),
      async_def ''get_checkpoint''
        [arg ''source_id'' (Cls ''UUID''),
         arg ''canonical_locator'' (Cls ''str''),
         arg ''content_checksum'' (Cls ''str'')]
        (opt (Cls ''IngestionCheckpoint''))]"

definition class_OpenAIEmbeddingProvider :: iface where
  "class_OpenAIEmbeddingProvider = iface
     []
     [prop_def ''model'' [] (Cls ''str''),
      prop_def ''dimensions'' [] (Cls ''int''),
      async_def ''embed'' [arg ''texts'' (ListT (Cls ''str''))] (ListT (ListT (Cls ''float''))),
      async_def ''embed_one'' [arg ''text'' (Cls ''str'')] (ListT (Cls ''float'')),
      async_def ''close'' [] NoneT]"

definition class_PostgresVectorRetriever :: iface where
  "class_PostgresVectorRetriever = iface
     []
     [async_def ''search''
        [arg ''query_vector'' (ListT (Cls ''float'')),
         arg ''top_k'' (Cls ''int''),
         kwarg ''allowed_principals'' (ListT (Cls ''str'')),
         kwarg ''tenant_id'' (Cls ''str''),
         kwarg_default ''index_version_id'' (opt (Cls ''UUID'')) ''None'']
        (ListT (Cls ''RetrievedChunk'')),
      async_def ''search_with_content''
        [arg ''query_vector'' (ListT (Cls ''float'')),
         arg ''top_k'' (Cls ''int''),
         arg_default ''filters'' (opt (DictT (Cls ''str'') AnyT)) ''None'']
        (ListT (Cls ''VectorSearchResult''))]"

definition class_PgVectorContentRetriever :: iface where
  "class_PgVectorContentRetriever = iface
     []
     [async_def ''search''
        [arg ''query_vector'' (ListT (Cls ''float'')),
         arg ''top_k'' (Cls ''int''),
         kwarg ''allowed_principals'' (ListT (Cls ''str'')),
         kwarg ''tenant_id'' (Cls ''str''),
         kwarg ''index_version_id'' (Cls ''UUID'')]
        (ListT (Cls ''RetrievedChunk''))]"

definition class_PostgresKeywordRetriever :: iface where
  "class_PostgresKeywordRetriever = iface
     []
     [async_def ''search''
        [arg ''query'' (Cls ''str''),
         arg ''top_k'' (Cls ''int''),
         kwarg_default ''allowed_principals'' (opt (ListT (Cls ''str''))) ''None'',
         kwarg_default ''source_ids'' (opt (ListT (Cls ''UUID''))) ''None'',
         kwarg ''tenant_id'' (Cls ''str'')]
        (ListT (Cls ''KeywordSearchResult''))]"

definition class_PgKeywordRetrieverAdapter :: iface where
  "class_PgKeywordRetrieverAdapter = iface
     []
     [async_def ''search''
        [arg ''query'' (Cls ''str''),
         arg ''top_k'' (Cls ''int''),
         kwarg ''allowed_principals'' (ListT (Cls ''str'')),
         kwarg ''tenant_id'' (Cls ''str'')]
        (ListT (Cls ''RetrievedChunk''))]"

definition class_Neo4jGraphRepository :: iface where
  "class_Neo4jGraphRepository = iface
     []
     [async_def ''create_entity''
        [arg ''entity'' (Cls ''CanonicalEntity'')]
        (Cls ''CanonicalEntity''),
      async_def ''get_entity'' [arg ''entity_id'' (Cls ''UUID'')] (opt (Cls ''CanonicalEntity'')),
      async_def ''find_entities''
        [arg_default ''canonical_name'' (opt (Cls ''str'')) ''None'',
         arg_default ''entity_type'' (opt (Cls ''str'')) ''None'']
        (ListT (Cls ''CanonicalEntity'')),
      async_def ''create_fact'' [arg ''fact'' (Cls ''KnowledgeFact'')] (Cls ''KnowledgeFact''),
      async_def ''get_fact'' [arg ''fact_id'' (Cls ''UUID'')] (opt (Cls ''KnowledgeFact'')),
      async_def ''find_facts''
        [arg_default ''subject_id'' (opt (Cls ''UUID'')) ''None'',
         arg_default ''predicate'' (opt (Cls ''str'')) ''None'',
         arg_default ''object_id'' (opt (Cls ''UUID'')) ''None'',
         arg_default ''status'' (opt (Cls ''str'')) ''None'',
         arg_default ''allowed_principals'' (opt (ListT (Cls ''str''))) ''None'',
         kwarg_default ''tenant_id'' (opt (Cls ''str'')) ''None'']
        (ListT (Cls ''KnowledgeFact'')),
      async_def ''update_fact_status''
        [arg ''fact_id'' (Cls ''UUID''),
         arg ''status'' (Cls ''str''),
         arg_default ''superseded_by'' (opt (Cls ''UUID'')) ''None'']
        (Cls ''KnowledgeFact''),
      async_def ''create_mention''
        [arg ''mention'' (Cls ''EntityMention'')]
        (Cls ''EntityMention''),
      async_def ''find_mentions''
        [arg ''chunk_id'' (Cls ''UUID'')]
        (ListT (Cls ''EntityMention''))]"

definition class_LLMEntityExtractor :: iface where
  "class_LLMEntityExtractor = iface
     []
     [async_def ''extract''
        [arg ''text'' (Cls ''str''),
         arg ''chunk_id'' (Cls ''UUID'')]
        (ListT (Cls ''EntityMention''))]"

definition class_DeterministicEntityExtractor :: iface where
  "class_DeterministicEntityExtractor = iface
     []
     [async_def ''extract''
        [arg ''text'' (Cls ''str''),
         arg ''chunk_id'' (Cls ''UUID'')]
        (ListT (Cls ''EntityMention''))]"

definition class_EntityResolutionService :: iface where
  "class_EntityResolutionService = iface
     []
     [async_def ''resolve''
        [arg ''mention'' (Cls ''EntityMention'')]
        (opt (Cls ''CanonicalEntity''))]"

definition class_RetrievalPlanner :: iface where
  "class_RetrievalPlanner = iface
     []
     [async_def ''plan''
        [arg ''question'' (Cls ''str''),
         arg ''principal'' (Cls ''str''),
         arg ''tenant_id'' (Cls ''str'')]
        (Cls ''RetrievalPlan'')]"

definition class_CrossEncoderReranker :: iface where
  "class_CrossEncoderReranker = iface
     []
     [async_def ''rerank''
        [arg ''evidence'' (ListT (Cls ''Evidence'')),
         arg ''query'' (Cls ''str'')]
        (ListT (Cls ''Evidence'')),
      async_def ''close'' [] NoneT]"

definition class_EvidenceOnlyAnswerGenerator :: iface where
  "class_EvidenceOnlyAnswerGenerator = iface
     []
     [async_def ''generate''
        [arg ''question'' (Cls ''str''),
         arg ''evidence'' (ListT AnyT),
         arg ''retrieval_plan'' (Cls ''RetrievalPlan'')]
        (Cls ''QueryResponse''),
      async_def ''close'' [] NoneT]"

definition class_DeterministicClaimValidator :: iface where
  "class_DeterministicClaimValidator = iface
     []
     [async_def ''validate''
        [arg ''response'' (Cls ''QueryResponse''),
         arg ''evidence'' (ListT (Cls ''Evidence''))]
        (Cls ''QueryResponse'')]"

definition class_ExecutionRepository :: iface where
  "class_ExecutionRepository = iface
     []
     [async_def ''create_run''
        [arg ''run'' (Cls ''ExecutionRun''),
         arg_default ''commit'' (Cls ''bool'') ''False'']
        (Cls ''ExecutionRun''),
      async_def ''get_run'' [arg ''run_id'' (Cls ''UUID'')] (opt (Cls ''ExecutionRun'')),
      async_def ''list_recent_runs''
        [arg_default ''limit'' (Cls ''int'') ''20'']
        (ListT (Cls ''ExecutionRun'')),
      async_def ''update_run_status''
        [arg ''run_id'' (Cls ''UUID''),
         arg ''expected_status'' (Cls ''ExecutionRunStatus''),
         arg ''new_status'' (Cls ''ExecutionRunStatus''),
         arg_default ''error_code'' (opt (Cls ''str'')) ''None'',
         arg_default ''error_message'' (opt (Cls ''str'')) ''None'',
         arg_default ''output'' (opt (DictT (Cls ''str'') ObjectT)) ''None'',
         arg_default ''commit'' (Cls ''bool'') ''False'']
        (Cls ''ExecutionRun''),
      async_def ''create_step'' [arg ''step'' (Cls ''ExecutionStep'')] (Cls ''ExecutionStep''),
      async_def ''get_step'' [arg ''step_id'' (Cls ''UUID'')] (opt (Cls ''ExecutionStep'')),
      async_def ''get_steps_for_run''
        [arg ''run_id'' (Cls ''UUID'')]
        (ListT (Cls ''ExecutionStep'')),
      async_def ''update_step_status''
        [arg ''step_id'' (Cls ''UUID''),
         arg ''expected_status'' (Cls ''ExecutionStepStatus''),
         arg ''new_status'' (Cls ''ExecutionStepStatus''),
         arg_default ''error_code'' (opt (Cls ''str'')) ''None'',
         arg_default ''error_message'' (opt (Cls ''str'')) ''None'']
        (Cls ''ExecutionStep''),
      async_def ''reconstruct_dag''
        [arg ''run_id'' (Cls ''UUID'')]
        (TupleT [Cls ''ExecutionRun'', ListT (Cls ''ExecutionStep'')])]"

definition class_OutboxConsumer :: iface where
  "class_OutboxConsumer = iface
     []
     [async_def ''claim_batch'' [arg ''batch_size'' (Cls ''int'')] (ListT (Cls ''OutboxEvent'')),
      async_def ''mark_completed'' [arg ''event_id'' (Cls ''UUID'')] NoneT,
      async_def ''mark_failed''
        [arg ''event_id'' (Cls ''UUID''),
         arg ''error'' (Cls ''str'')]
        NoneT]"

definition class_PostgresIndexVersionResolver :: iface where
  "class_PostgresIndexVersionResolver = iface
     []
     [async_def ''resolve_active''
        [arg ''index_name'' (Cls ''str'')]
        (opt (Cls ''IndexVersionInfo''))]"

definition class_PostgresHealthChecker :: iface where
  "class_PostgresHealthChecker = iface
     [(''name'', Cls ''str'')]
     [async_def ''check'' [] (Cls ''DependencyHealth'')]"

definition class_Neo4jHealthChecker :: iface where
  "class_Neo4jHealthChecker = iface
     [(''name'', Cls ''str'')]
     [async_def ''check'' [] (Cls ''DependencyHealth'')]"

definition class_MinioHealthChecker :: iface where
  "class_MinioHealthChecker = iface
     [(''name'', Cls ''str'')]
     [async_def ''check'' [] (Cls ''DependencyHealth'')]"

lemmas class_defs =
  class_PostgresDocumentRepository_def class_PostgresOutboxRepository_def
  class_PostgresUnitOfWork_def class_S3ObjectStore_def
  class_PostgresIngestionCheckpointRepository_def class_OpenAIEmbeddingProvider_def
  class_PostgresVectorRetriever_def class_PgVectorContentRetriever_def
  class_PostgresKeywordRetriever_def class_PgKeywordRetrieverAdapter_def
  class_Neo4jGraphRepository_def class_LLMEntityExtractor_def
  class_DeterministicEntityExtractor_def class_EntityResolutionService_def
  class_RetrievalPlanner_def class_CrossEncoderReranker_def
  class_EvidenceOnlyAnswerGenerator_def class_DeterministicClaimValidator_def
  class_ExecutionRepository_def class_OutboxConsumer_def class_PostgresIndexVersionResolver_def
  class_PostgresHealthChecker_def class_Neo4jHealthChecker_def class_MinioHealthChecker_def

section \<open>What the program passes for its ports\<close>

text \<open>The adapters that \<^verbatim>\<open>_build_query_workflow\<close> assembles, the checkers of
  \<^verbatim>\<open>build_health_service\<close>, the repositories that the unit of work opens, and the other
  classes of the program that are declared or documented as implementations. Two ports are not in the
  list. The sessions that are passed for \<^verbatim>\<open>PostgresSession\<close> (in
  \<^verbatim>\<open>get_execution_repository\<close> and in the unit of work, behind a \<^verbatim>\<open>cast\<close>) are
  SQLAlchemy's, whose signatures are not under src/. The class of the unit of work does not have the
  signatures of \<^verbatim>\<open>IngestionUnitOfWork\<close>, as the end of the theory shows; the program itself
  passes it nowhere, since nothing under src/ makes an ingestion service.\<close>

definition query_adapters :: "(iface \<times> iface) list" where
  "query_adapters =
     [(port_EmbeddingProvider, class_OpenAIEmbeddingProvider),
      (port_VectorContentRetriever, class_PgVectorContentRetriever),
      (port_KeywordRetrieverPort, class_PgKeywordRetrieverAdapter),
      (port_EvidenceReranker, class_CrossEncoderReranker),
      (port_AnswerGenerator, class_EvidenceOnlyAnswerGenerator),
      (port_IndexVersionResolver, class_PostgresIndexVersionResolver),
      (port_GraphRepository, class_Neo4jGraphRepository),
      (port_EntityExtractor, class_LLMEntityExtractor),
      (port_EntityResolver, class_EntityResolutionService),
      (port_RetrievalPlanner, class_RetrievalPlanner)]"

definition health_adapters :: "(iface \<times> iface) list" where
  "health_adapters =
     [(port_HealthChecker, class_PostgresHealthChecker),
      (port_HealthChecker, class_Neo4jHealthChecker),
      (port_HealthChecker, class_MinioHealthChecker)]"

definition unit_of_work_adapters :: "(iface \<times> iface) list" where
  "unit_of_work_adapters =
     [(port_DocumentRepository, class_PostgresDocumentRepository),
      (port_OutboxRepository, class_PostgresOutboxRepository),
      (port_IngestionCheckpointRepository, class_PostgresIngestionCheckpointRepository)]"

definition declared_adapters :: "(iface \<times> iface) list" where
  "declared_adapters =
     [(port_ObjectStore, class_S3ObjectStore),
      (port_VectorContentRetriever, class_PostgresVectorRetriever),
      (port_EntityExtractor, class_DeterministicEntityExtractor),
      (port_ClaimValidator, class_DeterministicClaimValidator),
      (port_OutboxConsumer, class_OutboxConsumer)]"

definition adapters :: "(iface \<times> iface) list" where
  "adapters = query_adapters @ health_adapters @ unit_of_work_adapters @ declared_adapters"

lemma query_adapters_conform: "list_all (\<lambda>(p, c). implements (\<lambda>_ _. False) p c) query_adapters"
  by (simp add: query_adapters_def check_simps port_defs class_defs)

lemma health_adapters_conform: "list_all (\<lambda>(p, c). implements (\<lambda>_ _. False) p c) health_adapters"
  by (simp add: health_adapters_def check_simps port_defs class_defs)

lemma unit_of_work_adapters_conform: "list_all (\<lambda>(p, c). implements (\<lambda>_ _. False) p c) unit_of_work_adapters"
  by (simp add: unit_of_work_adapters_def check_simps port_defs class_defs)

lemma declared_adapters_conform: "list_all (\<lambda>(p, c). implements (\<lambda>_ _. False) p c) declared_adapters"
  by (simp add: declared_adapters_def check_simps port_defs class_defs)

lemma adapters_conform: "(port, c) \<in> set adapters \<Longrightarrow> implements (\<lambda>_ _. False) port c"
  using query_adapters_conform health_adapters_conform unit_of_work_adapters_conform declared_adapters_conform
  by (auto simp: adapters_def list_all_iff)

text \<open>C39: the listed classes have the signatures of their ports. For each port and each class of the program
  that is listed for it, a call that binds to the port's method with values of the annotated types binds
  to the class's method of that name, which is asynchronous or a property just as the port says; each
  parameter of the port receives the same value or the same default, every value is of the type that the
  class asks for, and every value of the type with which the class annotates its result is of the type
  with which the port annotates it. It is a property of signatures: the bodies of the methods are the
  subject of the other theories.\<close>

theorem adapters_serve_ports:
  assumes "(port, c) \<in> set adapters" "m \<in> set (if_methods port)"
    and "bind_args (sig_params m) args kws = Inr bs" "well_typed isa (sig_params m) bs"
  shows "\<exists>s bs'. find_method c (sig_name m) = Some s \<and> sig_kind s = sig_kind m \<and>
    bind_args (sig_params s) args kws = Inr bs' \<and> well_typed isa (sig_params s) bs' \<and>
    (\<forall>p\<in>set (sig_params m). map_of bs' (par_name p) = map_of bs (par_name p)) \<and>
    (\<forall>v. of_type isa (sig_return s) v \<longrightarrow> of_type isa (sig_return m) v)"
  by (rule implements_serves[OF adapters_conform[OF assms(1)] assms(2-4)]) simp

text \<open>The call of the hybrid retrieval to the keyword search, with strings for instances.\<close>

lemma adapters_serve_ports_witness:
  "\<exists>s bs'. find_method class_PgKeywordRetrieverAdapter ''search'' = Some s \<and>
    bind_args (sig_params s) [VObj ''str'', VObj ''int'']
      [(''tenant_id'', VObj ''str''), (''allowed_principals'', VList [VObj ''str''])] = Inr bs' \<and>
    well_typed (=) (sig_params s) bs'"
proof -
  let ?m = "hd (if_methods port_KeywordRetrieverPort)"
  let ?a = "[VObj ''str'', VObj ''int'']"
  let ?k = "[(''tenant_id'', VObj ''str''), (''allowed_principals'', VList [VObj ''str''])]"
  have m: "?m \<in> set (if_methods port_KeywordRetrieverPort)" "sig_name ?m = ''search''"
    by (simp_all add: port_defs)
  obtain bs where b: "bind_args (sig_params ?m) ?a ?k = Inr bs"
    by (simp add: port_defs param_defs bind_args_def positionals_def given_args_def bound_to_def)
  have w: "well_typed (=) (sig_params ?m) bs"
    using b by (auto simp: port_defs param_defs bind_args_def positionals_def given_args_def bound_to_def well_typed_def)
  have "(port_KeywordRetrieverPort, class_PgKeywordRetrieverAdapter) \<in> set adapters"
    by (simp add: adapters_def query_adapters_def)
  from adapters_serve_ports[OF this m(1) b w] show ?thesis by (auto simp: m(2))
qed

text \<open>
  The calls that the services make, by their shape: the port, its method, the number of positional
  arguments and the names of the others. Whether a call binds depends on nothing else.\<close>

definition hybrid_calls :: "(iface \<times> string \<times> nat \<times> string list) list" where
  "hybrid_calls =
     [(port_RetrievalPlanner, ''plan'', 3, []),
      (port_IndexVersionResolver, ''resolve_active'', 1, []),
      (port_EmbeddingProvider, ''embed_one'', 1, []),
      (port_VectorContentRetriever, ''search'', 2, [''allowed_principals'', ''tenant_id'', ''index_version_id'']),
      (port_KeywordRetrieverPort, ''search'', 2, [''allowed_principals'', ''tenant_id'']),
      (port_EvidenceReranker, ''rerank'', 2, []),
      (port_AnswerGenerator, ''generate'', 3, [])]"

definition traversal_calls :: "(iface \<times> string \<times> nat \<times> string list) list" where
  "traversal_calls =
     [(port_GraphRepository, ''get_entity'', 1, []),
      (port_GraphRepository, ''find_facts'', 0,
        [''subject_id'', ''predicate'', ''status'', ''allowed_principals'', ''tenant_id'']),
      (port_GraphRepository, ''get_entity'', 1, []),
      (port_GraphRepository, ''find_facts'', 0,
        [''object_id'', ''predicate'', ''status'', ''allowed_principals'', ''tenant_id'']),
      (port_GraphRepository, ''get_entity'', 1, [])]"

definition ingestion_calls :: "(iface \<times> string \<times> nat \<times> string list) list" where
  "ingestion_calls =
     [(port_ObjectStore, ''exists'', 1, []),
      (port_ObjectStore, ''put_raw'', 3, []),
      (port_IngestionCheckpointRepository, ''get_checkpoint'', 3, []),
      (port_DocumentRepository, ''get_document'', 1, []),
      (port_DocumentRepository, ''find_active_document_by_canonical_locator'', 2, []),
      (port_DocumentRepository, ''get_document_version'', 2, []),
      (port_IngestionCheckpointRepository, ''upsert_checkpoint'', 0,
        [''source_id'', ''canonical_locator'', ''content_checksum'', ''status'', ''document_id'', ''version_id'']),
      (port_DocumentRepository, ''upsert_document'', 1, []),
      (port_IngestionCheckpointRepository, ''upsert_checkpoint'', 0,
        [''source_id'', ''canonical_locator'', ''content_checksum'', ''status'', ''document_id'', ''version_id'']),
      (port_DocumentRepository, ''create_chunk'', 1, []),
      (port_OutboxRepository, ''add'', 1, [])]"

definition binds_shape :: "param list \<Rightarrow> nat \<Rightarrow> string list \<Rightarrow> bool" where
  "binds_shape ps n ks \<longleftrightarrow>
     (let filled = take n (names (positionals ps)) in
      list_all (\<lambda>k. k \<in> set (names ps) \<and> k \<notin> set filled) ks \<and> n \<le> length (positionals ps) \<and>
      list_all (\<lambda>p. par_default p \<noteq> None \<or> par_name p \<in> set (filled @ ks)) ps)"

lemma binds_shape_iff:
  "(\<exists>bs. bind_args ps args kws = Inr bs) \<longleftrightarrow> binds_shape ps (length args) (map fst kws)"
proof -
  have z: "fst ` set (zip xs ys) = set (take (length ys) xs)" for xs :: "string list" and ys :: "'b list"
    by (simp flip: set_map add: map_fst_zip_take min_def)
  have "bound_to (given_args ps args kws) p \<noteq> None \<longleftrightarrow> par_default p \<noteq> None \<or>
      par_name p \<in> set (take (length args) (names (positionals ps)) @ map fst kws)" for p
    using map_of_eq_None_iff[of "given_args ps args kws" "par_name p"]
    by (auto simp: bound_to_def given_args_def image_Un z split: option.splits)
  then show ?thesis by (auto simp: bind_args_Inr binds_shape_def Let_def list_all_iff)
qed

lemma calls_bind_to_ports:
  "list_all (\<lambda>(port, n, k, ks). case find_method port n of None \<Rightarrow> False | Some m \<Rightarrow> binds_shape (sig_params m) k ks)
     (hybrid_calls @ traversal_calls @ ingestion_calls)"
  by (simp add: hybrid_calls_def traversal_calls_def ingestion_calls_def binds_shape_def Let_def find_method_def
      positionals_def param_defs port_defs)

text \<open>No call of these services fails in the binding of its arguments, whichever adapter is passed.\<close>

theorem service_calls_bind:
  assumes "(port, n, k, ks) \<in> set (hybrid_calls @ traversal_calls @ ingestion_calls)"
    and "(port, c) \<in> set adapters" "length args = k" "map fst kws = ks"
  shows "\<exists>s bs. find_method c n = Some s \<and> bind_args (sig_params s) args kws = Inr bs"
proof -
  obtain m where m: "find_method port n = Some m" "binds_shape (sig_params m) (length args) (map fst kws)"
    using calls_bind_to_ports assms(1,3,4) unfolding list_all_iff by (fastforce split: option.splits)
  then obtain bs where b: "bind_args (sig_params m) args kws = Inr bs" using binds_shape_iff by blast
  have p: "m \<in> set (if_methods port)" "sig_name m = n"
    using m(1) by (auto simp: find_method_def find_Some_iff)
  obtain s where "find_method c n = Some s" "sig_ok (\<lambda>_ _. False) m s"
    using adapters_conform[OF assms(2)] p by (auto simp: implements_def list_all_iff split: option.splits)
  then show ?thesis using binds_where_port_binds[OF _ b] by (auto simp: sig_ok_def)
qed

text \<open>
  Ports that nothing serves. The unit of work holds its repositories only while it is open and declares
  them so; no class has the methods of \<^verbatim>\<open>VectorRetriever\<close>,
  \<^verbatim>\<open>TelemetryRecorder\<close> or \<^verbatim>\<open>EvaluationRepository\<close>; the outbox repository,
  whose calls carry a claim token, is no \<^verbatim>\<open>OutboxConsumer\<close>; and the keyword search needs its
  wrapper, since it returns rows of its own type.\<close>

definition classes :: "iface list" where
  "classes = map snd adapters @ [class_PostgresUnitOfWork, class_ExecutionRepository, class_PostgresKeywordRetriever]"

theorem unit_of_work_serves_no_port:
  "\<not> implements sub port_IngestionUnitOfWork class_PostgresUnitOfWork"
  by (simp add: check_simps port_defs class_defs)

theorem ports_without_adapter:
  "\<forall>c\<in>set classes. \<not> implements (\<lambda>_ _. False) port_VectorRetriever c \<and>
     \<not> implements (\<lambda>_ _. False) port_TelemetryRecorder c \<and> \<not> implements (\<lambda>_ _. False) port_EvaluationRepository c"
  by (simp add: classes_def adapters_def query_adapters_def health_adapters_def unit_of_work_adapters_def
      declared_adapters_def check_simps port_defs class_defs)

theorem unwrapped_classes_do_not_serve:
  "\<not> implements (\<lambda>_ _. False) port_OutboxConsumer class_PostgresOutboxRepository"
  "\<not> implements (\<lambda>_ _. False) port_OutboxRepository class_OutboxConsumer"
  "\<not> implements (\<lambda>_ _. False) port_KeywordRetrieverPort class_PostgresKeywordRetriever"
  by (simp_all add: check_simps port_defs class_defs)

end
