(* ===== verification/TextLines.thy ===== *)
theory TextLines
  imports Prelude
begin

text \<open>
  Lines of text as the parsers and the chunker see them: \<^verbatim>\<open>str.splitlines\<close> with and
  without the line ends, splitting at \<^verbatim>\<open>\n\<close>, counting newlines, and slices.
\<close>

abbreviation nl :: char where "nl \<equiv> CHR 0x0A"
abbreviation cr :: char where "cr \<equiv> CHR 0x0D"

text \<open>The line boundaries of \<^verbatim>\<open>str.splitlines\<close> in Latin-1; a carriage return
  followed by a newline is one boundary.\<close>

definition is_break :: "char \<Rightarrow> bool" where
  "is_break c = (let n = of_char c :: nat in (10 \<le> n \<and> n \<le> 13) \<or> (28 \<le> n \<and> n \<le> 30) \<or> n = 133)"

fun split_keep :: "string \<Rightarrow> string \<Rightarrow> string list" where
  "split_keep acc [] = (if acc = [] then [] else [acc])"
| "split_keep acc [c] = [acc @ [c]]"
| "split_keep acc (c # d # s) =
     (if c = cr \<and> d = nl then (acc @ [c, d]) # split_keep [] s
      else if is_break c then (acc @ [c]) # split_keep [] (d # s)
      else split_keep (acc @ [c]) (d # s))"

text \<open>\<^verbatim>\<open>splitlines(keepends=True)\<close> and \<^verbatim>\<open>splitlines()\<close>.\<close>

definition splitlines_keep :: "string \<Rightarrow> string list" where
  "splitlines_keep s = split_keep [] s"

definition chop_end :: "string \<Rightarrow> string" where
  "chop_end l =
     (if l = [] then []
      else if length l \<ge> 2 \<and> l ! (length l - 2) = cr \<and> last l = nl then take (length l - 2) l
      else if is_break (last l) then butlast l else l)"

definition splitlines :: "string \<Rightarrow> string list" where
  "splitlines s = map chop_end (splitlines_keep s)"

definition count_nl :: "string \<Rightarrow> nat" where
  "count_nl s = length (filter (\<lambda>c. c = nl) s)"

text \<open>\<^verbatim>\<open>s.split(sep)\<close> for a one-character separator.\<close>

fun split_at :: "char \<Rightarrow> string \<Rightarrow> string list" where
  "split_at sep [] = [[]]"
| "split_at sep (c # s) =
     (if c = sep then [] # split_at sep s
      else (case split_at sep s of [] \<Rightarrow> [[c]] | l # ls \<Rightarrow> (c # l) # ls))"

definition slice :: "nat \<Rightarrow> nat \<Rightarrow> 'a list \<Rightarrow> 'a list" where
  "slice a b xs = take (b - a) (drop a xs)"

lemma strip_strip_Nil [simp]: "strip (strip u) = [] \<longleftrightarrow> strip u = []"
proof
  assume "strip (strip u) = []"
  moreover obtain x y where "u = x @ strip u @ y" "\<forall>c \<in> set x. is_space c" "\<forall>c \<in> set y. is_space c"
    using strip_infix by blast
  ultimately have "\<forall>c \<in> set u. is_space c" by (metis Un_iff set_append strip_Nil_iff)
  then show "strip u = []" by (simp add: strip_Nil_iff)
next
  assume u: "strip u = []"
  show "strip (strip u) = []" unfolding u by (simp add: strip_def lstrip_def rstrip_def)
qed

lemma split_at_ne [simp]: "split_at sep s \<noteq> []"
  by (induction s) (auto split: list.splits)

lemma concat_split_keep: "concat (split_keep acc s) = acc @ s"
  by (induction acc s rule: split_keep.induct) auto

lemma concat_splitlines_keep [simp]: "concat (splitlines_keep s) = s"
  by (simp add: splitlines_keep_def concat_split_keep)

lemma split_keep_nonempty: "l \<in> set (split_keep acc s) \<Longrightarrow> l \<noteq> []"
  by (induction acc s rule: split_keep.induct) (auto split: if_splits)

lemma length_slice: "b \<le> length xs \<Longrightarrow> length (slice a b xs) = b - a"
  by (simp add: slice_def)

lemma slice_nth: "a \<le> i \<Longrightarrow> i < b \<Longrightarrow> b \<le> length xs \<Longrightarrow> slice a b xs ! (i - a) = xs ! i"
  by (simp add: slice_def)

lemma slice_empty [simp]: "b \<le> a \<Longrightarrow> slice a b xs = []"
  by (simp add: slice_def)

lemma set_slice: "x \<in> set (slice a b xs) \<longleftrightarrow> (\<exists>i. x = xs ! i \<and> a \<le> i \<and> i < b \<and> i < length xs)"
proof
  assume "x \<in> set (slice a b xs)"
  then obtain j where "j < length (slice a b xs)" "x = slice a b xs ! j" by (metis in_set_conv_nth)
  then show "\<exists>i. x = xs ! i \<and> a \<le> i \<and> i < b \<and> i < length xs"
    by (intro exI [of _ "a + j"]) (auto simp: slice_def)
next
  assume "\<exists>i. x = xs ! i \<and> a \<le> i \<and> i < b \<and> i < length xs"
  then obtain i where "x = xs ! i" "a \<le> i" "i < b" "i < length xs" by blast
  then have "slice a b xs ! (i - a) = x" "i - a < length (slice a b xs)" by (auto simp: slice_def)
  then show "x \<in> set (slice a b xs)" by (metis nth_mem)
qed

lemma count_nl_simps [simp]:
  "count_nl [] = 0" "count_nl (c # s) = (if c = nl then Suc (count_nl s) else count_nl s)"
  "count_nl (s @ t) = count_nl s + count_nl t"
  by (simp_all add: count_nl_def)

lemma count_nl_take_mono: "i \<le> j \<Longrightarrow> count_nl (take i s) \<le> count_nl (take j s)"
  by (metis add.commute count_nl_simps(3) le_add1 le_add_diff_inverse2 take_add)

lemma split_keep_line:
  "\<forall>c \<in> set u. \<not> is_break c \<Longrightarrow> split_keep acc (u @ nl # s) = (acc @ u @ [nl]) # split_keep [] s"
proof (induction u arbitrary: acc)
  case Nil
  then show ?case by (cases s) (simp_all add: is_break_def)
next
  case (Cons c u)
  then have c: "\<not> is_break c" "c \<noteq> cr" by (auto simp: is_break_def)
  obtain d v where d: "u @ nl # s = d # v" by (cases u) auto
  have "split_keep acc ((c # u) @ nl # s) = split_keep (acc @ [c]) (u @ nl # s)"
    using c by (simp add: d)
  then show ?case using Cons by simp
qed

lemma split_keep_last: "\<forall>c \<in> set u. \<not> is_break c \<Longrightarrow> split_keep acc u = (if acc @ u = [] then [] else [acc @ u])"
  by (induction acc u rule: split_keep.induct) (auto simp: is_break_def)

section \<open>Where a line starts\<close>

text \<open>Summing the lengths of the lines, one more for each, never overshoots: the line after
  \<^verbatim>\<open>k\<close> newlines starts at or after that offset.\<close>

fun line_offset :: "nat \<Rightarrow> string list \<Rightarrow> nat" where
  "line_offset 0 ls = 0"
| "line_offset (Suc k) [] = 0"
| "line_offset (Suc k) (l # ls) = length l + 1 + line_offset k ls"

lemma is_break_nl [simp]: "is_break nl" "is_break cr"
  by (simp_all add: is_break_def)

lemma chop_end_length: "length (chop_end l) \<le> length l"
  by (simp add: chop_end_def)

lemma chop_end_break: "is_break c \<Longrightarrow> length (chop_end (acc @ [c])) \<le> length acc"
  by (simp add: chop_end_def)

lemma chop_end_crnl: "length (chop_end (acc @ [cr, nl])) = length acc"
  by (simp add: chop_end_def nth_append)

lemma line_offset_le:
  "k \<le> count_nl (take p s) \<Longrightarrow> p \<le> length s \<Longrightarrow>
   line_offset k (map chop_end (split_keep acc s)) \<le> length acc + p"
proof (induction acc s arbitrary: k p rule: split_keep.induct)
  case (1 acc)
  then show ?case by simp
next
  case (2 acc c)
  then show ?case
    by (cases k; cases p) (auto split: if_splits simp: chop_end_break le_diff_conv)
next
  case (3 acc c d s)
  consider (crnl) "c = cr \<and> d = nl" | (brk) "\<not> (c = cr \<and> d = nl)" "is_break c" | (plain) "\<not> is_break c"
    by blast
  then show ?case
  proof cases
    case crnl
    show ?thesis
    proof (cases k)
      case (Suc k')
      then obtain q where p: "p = Suc (Suc q)" and "k' \<le> count_nl (take q s)" "q \<le> length s"
        using 3(4,5) crnl by (cases p; cases "p - 1") auto
      then have "line_offset k' (map chop_end (split_keep [] s)) \<le> q" using 3(1) crnl by fastforce
      then show ?thesis using crnl Suc p chop_end_crnl [of acc] by simp
    qed simp
  next
    case brk
    show ?thesis
    proof (cases k)
      case (Suc k')
      then obtain q where p: "p = Suc q" and "k' \<le> count_nl (take q (d # s))" "q \<le> length (d # s)"
        using 3(4,5) by (cases p) (auto split: if_splits)
      then have "line_offset k' (map chop_end (split_keep [] (d # s))) \<le> q" using 3(2) brk by fastforce
      then show ?thesis using brk Suc p chop_end_break [of c acc] by auto
    qed simp
  next
    case plain
    then have nb: "\<not> (c = cr \<and> d = nl)" "c \<noteq> nl" using is_break_nl by auto
    show ?thesis
    proof (cases p)
      case 0
      then show ?thesis using 3(4) by simp
    next
      case (Suc q)
      then have "line_offset k (map chop_end (split_keep (acc @ [c]) (d # s))) \<le> length (acc @ [c]) + q"
        using 3(3) [OF nb(1) plain, of k q] 3(4,5) nb by simp
      then show ?thesis using Suc nb plain by auto
    qed
  qed
qed

end
