(* ===== verification/Domain.thy ===== *)
theory Domain
  imports Json
begin

text \<open>
  The domain contracts of \<^verbatim>\<open>src/groundgraph/domain/\<close>: documents, outbox events,
  executions, knowledge, retrieval. Each pydantic model is a record; building one runs its field
  constraints and validators in the order of the class, so a constructor \<^verbatim>\<open>mk_...\<close>
  returns an error or the value. Field names carry a prefix per class, because the classes share
  names. JSON-valued fields hold validated JSON (theory \<^verbatim>\<open>Json\<close>).
\<close>

section \<open>Documents (domain/documents.py)\<close>

datatype source_type = Filesystem | RepositorySrc | ObjectStoreSrc | ApiSrc

record source_descriptor =
  src_id :: uuid
  src_type :: source_type
  src_uri :: string
  src_classification :: string
  src_tenant :: string
  src_principals :: "string list"
  src_active :: bool
  src_deactivated_at :: "datetime option"

definition mk_source :: "source_descriptor \<Rightarrow> exn + source_descriptor" where
  "mk_source s = (if src_tenant s = [] then Inl (ValueError ''tenant_id must be non-empty'') else Inr s)"

record parsed_document =
  pd_document_id :: uuid
  pd_version_id :: uuid
  pd_source_id :: uuid
  pd_locator :: string
  pd_title :: string
  pd_media_type :: string
  pd_checksum :: string
  pd_content :: string
  pd_metadata :: "(string \<times> json) list"
  pd_effective_at :: "datetime option"

datatype checkpoint_status = PERSISTED | CK_FAILED

record ingestion_checkpoint =
  ic_id :: uuid
  ic_source_id :: uuid
  ic_locator :: string
  ic_checksum :: string
  ic_status :: checkpoint_status
  ic_document_id :: "uuid option"
  ic_version_id :: "uuid option"
  ic_error :: "string option"
  ic_created_at :: int
  ic_updated_at :: int
  ic_completed_at :: "int option"

record chunk =
  ck_id :: uuid
  ck_document_id :: uuid
  ck_version_id :: uuid
  ck_ordinal :: int
  ck_heading_path :: "string list"
  ck_content :: string
  ck_token_count :: int
  ck_checksum :: string
  ck_start :: "string option"
  ck_end :: "string option"
  ck_principals :: "string list"
  ck_chunker_version :: string
  ck_config_hash :: string

definition mk_chunk :: "chunk \<Rightarrow> exn + chunk" where
  "mk_chunk c =
     (if ck_ordinal c < 0 then Inl (ValueError ''ordinal must be >= 0'')
      else if ck_token_count c < 0 then Inl (ValueError ''token_count must be >= 0'')
      else Inr c)"

section \<open>Outbox events (domain/evidence.py)\<close>

datatype event_type =
  DocumentParsed | ChunksCreated | EntityMentioned | EntityResolved | FactCandidate

datatype event_status = EvPending | EvClaimed | EvCompleted | EvFailed

fun event_status_value :: "event_status \<Rightarrow> string" where
  "event_status_value EvPending = ''pending''"
| "event_status_value EvClaimed = ''claimed''"
| "event_status_value EvCompleted = ''completed''"
| "event_status_value EvFailed = ''failed''"

text \<open>\<^verbatim>\<open>OutboxEventStatus(s)\<close>: the enum lookup by value.\<close>

definition event_status_of :: "string \<Rightarrow> exn + event_status" where
  "event_status_of s =
     (if s = ''pending'' then Inr EvPending
      else if s = ''claimed'' then Inr EvClaimed
      else if s = ''completed'' then Inr EvCompleted
      else if s = ''failed'' then Inr EvFailed
      else Inl (ValueError (s @ '' is not a valid OutboxEventStatus'')))"

lemma event_status_roundtrip [simp]: "event_status_of (event_status_value s) = Inr s"
  by (cases s) (simp_all add: event_status_of_def)

record outbox_event =
  oe_id :: uuid
  oe_aggregate_type :: string
  oe_aggregate_id :: uuid
  oe_type :: event_type
  oe_payload :: "(string \<times> json) list"
  oe_status :: event_status
  oe_attempts :: int
  oe_last_error :: "string option"
  oe_created_at :: int
  oe_claimed_at :: "int option"
  oe_claim_token :: "uuid option"
  oe_completed_at :: "int option"

definition mk_outbox_event :: "outbox_event \<Rightarrow> exn + outbox_event" where
  "mk_outbox_event e =
     (if oe_attempts e < 0 then Inl (ValueError ''attempts must be >= 0'') else Inr e)"

section \<open>Executions (domain/execution.py)\<close>

datatype run_status = RPending | RRunning | RSucceeded | RFailed | RCancelled

fun allowed_run_transitions :: "run_status \<Rightarrow> run_status list" where
  "allowed_run_transitions RPending = [RRunning, RCancelled]"
| "allowed_run_transitions RRunning = [RSucceeded, RFailed, RCancelled]"
| "allowed_run_transitions RSucceeded = []"
| "allowed_run_transitions RFailed = []"
| "allowed_run_transitions RCancelled = []"

definition run_terminal :: "run_status \<Rightarrow> bool" where
  "run_terminal s \<longleftrightarrow> s \<in> {RSucceeded, RFailed, RCancelled}"

datatype step_status = SPending | SRunning | SSucceeded | SFailed | SSkipped

fun allowed_step_transitions :: "step_status \<Rightarrow> step_status list" where
  "allowed_step_transitions SPending = [SRunning, SSkipped]"
| "allowed_step_transitions SRunning = [SSucceeded, SFailed, SSkipped]"
| "allowed_step_transitions SSucceeded = []"
| "allowed_step_transitions SFailed = []"
| "allowed_step_transitions SSkipped = []"

definition step_terminal :: "step_status \<Rightarrow> bool" where
  "step_terminal s \<longleftrightarrow> s \<in> {SSucceeded, SFailed, SSkipped}"

record execution_run =
  er_id :: uuid
  er_workflow :: string
  er_status :: run_status
  er_principal :: string
  er_tenant :: string
  er_input :: "(string \<times> json) list"
  er_output :: "(string \<times> json) list"
  er_started_at :: "int option"
  er_finished_at :: "int option"
  er_error_code :: "string option"
  er_error_message :: "string option"
  er_index_version :: "uuid option"
  er_prompt_version :: "string option"
  er_model_version :: "string option"

definition mk_run :: "execution_run \<Rightarrow> exn + execution_run" where
  "mk_run r =
     (if run_terminal (er_status r) \<and> er_finished_at r = None
      then Inl (ValueError ''execution_run in terminal status must have finished_at set'')
      else Inr r)"

record execution_step =
  es_id :: uuid
  es_run_id :: uuid
  es_name :: string
  es_status :: step_status
  es_attempt :: int
  es_depends_on :: "uuid list"
  es_input :: "(string \<times> json) list"
  es_output :: "(string \<times> json) list"
  es_started_at :: "int option"
  es_finished_at :: "int option"
  es_error_code :: "string option"
  es_error_message :: "string option"

definition mk_step :: "execution_step \<Rightarrow> exn + execution_step" where
  "mk_step s = (if es_attempt s < 1 then Inl (ValueError ''attempt must be >= 1'') else Inr s)"

definition assert_run_transition :: "run_status \<Rightarrow> run_status \<Rightarrow> exn + unit" where
  "assert_run_transition current target =
     (if target \<notin> set (allowed_run_transitions current)
      then Inl (ValueError ''illegal execution_run transition'') else Inr ())"

fun run_rank :: "run_status \<Rightarrow> nat" where
  "run_rank RPending = 0"
| "run_rank RRunning = 1"
| "run_rank _ = 2"

fun step_rank :: "step_status \<Rightarrow> nat" where
  "step_rank SPending = 0"
| "step_rank SRunning = 1"
| "step_rank _ = 2"

interpretation run_table: status_table allowed_run_transitions run_rank
proof unfold_locales
  fix s t
  show "t \<in> set (allowed_run_transitions s) \<Longrightarrow> run_rank s < run_rank t"
    by (cases s) auto
qed

interpretation step_table: status_table allowed_step_transitions step_rank
proof unfold_locales
  fix s t
  show "t \<in> set (allowed_step_transitions s) \<Longrightarrow> step_rank s < step_rank t"
    by (cases s) auto
qed

section \<open>Knowledge (domain/knowledge.py)\<close>

record entity_mention =
  em_id :: uuid
  em_chunk_id :: uuid
  em_surface :: string
  em_candidate_type :: string
  em_locator :: "string option"
  em_confidence :: rat

definition mk_mention :: "entity_mention \<Rightarrow> exn + entity_mention" where
  "mk_mention m =
     (if 0 \<le> em_confidence m \<and> em_confidence m \<le> 1 then Inr m
      else Inl (ValueError ''extraction_confidence must be in [0, 1]''))"

record canonical_entity =
  ce_id :: uuid
  ce_type :: string
  ce_name :: string
  ce_aliases :: "string list"
  ce_attributes :: "(string \<times> json) list"

datatype fact_status = FCandidate | FVerified | FRejected | FSuperseded
datatype extraction_method = Structured | Rule | Llm | Human

record knowledge_fact =
  kf_id :: uuid
  kf_subject :: uuid
  kf_predicate :: string
  kf_object :: uuid
  kf_status :: fact_status
  kf_confidence :: rat
  kf_evidence_ids :: "uuid list"
  kf_valid_from :: "datetime option"
  kf_valid_to :: "datetime option"
  kf_observed_at :: datetime
  kf_method :: extraction_method
  kf_ontology_version :: string
  kf_tenant :: string
  kf_principals :: "string list"

definition mk_fact :: "knowledge_fact \<Rightarrow> exn + knowledge_fact" where
  "mk_fact f =
     (if \<not> (0 \<le> kf_confidence f \<and> kf_confidence f \<le> 1)
      then Inl (ValueError ''confidence must be in [0, 1]'')
      else if \<not> is_aware (kf_observed_at f)
      then Inl (ValueError ''observed_at must be timezone-aware'')
      else if (case kf_valid_from f of Some d \<Rightarrow> \<not> is_aware d | None \<Rightarrow> False)
      then Inl (ValueError ''valid_from must be timezone-aware'')
      else if (case kf_valid_to f of Some d \<Rightarrow> \<not> is_aware d | None \<Rightarrow> False)
      then Inl (ValueError ''valid_to must be timezone-aware'')
      else if (case (kf_valid_from f, kf_valid_to f) of
                 (Some a, Some b) \<Rightarrow> instant b \<le> instant a | _ \<Rightarrow> False)
      then Inl (ValueError ''valid_to must be greater than valid_from'')
      else if kf_status f = FVerified \<and> kf_evidence_ids f = []
      then Inl (ValueError ''verified facts must have at least one evidence_id'')
      else Inr f)"

section \<open>Retrieval (domain/retrieval.py)\<close>

record resolved_entity =
  re_id :: uuid
  re_name :: string
  re_type :: string

datatype strategy = VectorS | GraphS | HybridS

datatype question_type =
  QFact | QRelationship | QMultiHop | QTemporal | QComparison | QImpact | QSummary | QUnknown

record retrieval_plan =
  rp_strategy :: strategy
  rp_question_type :: question_type
  rp_query_texts :: "string list"
  rp_entities :: "resolved_entity list"
  rp_predicates :: "string list"
  rp_max_depth :: int
  rp_top_k :: int
  rp_limit :: int
  rp_valid_at :: "datetime option"
  rp_reasons :: "string list"

definition mk_plan :: "retrieval_plan \<Rightarrow> exn + retrieval_plan" where
  "mk_plan p =
     (if \<not> (0 \<le> rp_max_depth p \<and> rp_max_depth p \<le> 3) then Inl (ValueError ''max_graph_depth out of range'')
      else if \<not> (1 \<le> rp_top_k p \<and> rp_top_k p \<le> 50) then Inl (ValueError ''vector_top_k out of range'')
      else if \<not> (1 \<le> rp_limit p \<and> rp_limit p \<le> 30) then Inl (ValueError ''final_evidence_limit out of range'')
      else Inr p)"

record citation =
  ci_id :: uuid
  ci_claim :: uuid
  ci_evidence :: uuid
  ci_locator :: string
  ci_principals :: "string list"

datatype retrieval_method = MVector | MKeyword | MGraph | MStructured

record evidence =
  ev_id :: uuid
  ev_source :: uuid
  ev_document :: "uuid option"
  ev_chunk :: "uuid option"
  ev_version :: "uuid option"
  ev_record :: "string option"
  ev_content :: string
  ev_method :: retrieval_method
  ev_vector_score :: "rat option"
  ev_rerank_score :: "rat option"
  ev_path :: "uuid list"
  ev_valid_from :: "datetime option"
  ev_valid_to :: "datetime option"
  ev_principals :: "string list"

definition mk_evidence :: "evidence \<Rightarrow> exn + evidence" where
  "mk_evidence e =
     (if (case ev_valid_from e of Some d \<Rightarrow> \<not> is_aware d | None \<Rightarrow> False)
      then Inl (ValueError ''valid_from must be timezone-aware'')
      else if (case ev_valid_to e of Some d \<Rightarrow> \<not> is_aware d | None \<Rightarrow> False)
      then Inl (ValueError ''valid_to must be timezone-aware'')
      else if (case (ev_valid_from e, ev_valid_to e) of
                 (Some a, Some b) \<Rightarrow> instant b \<le> instant a | _ \<Rightarrow> False)
      then Inl (ValueError ''valid_to must be greater than valid_from'')
      else Inr e)"

datatype support = Supported | PartiallySupported | Unsupported

record answer_claim =
  ac_id :: uuid
  ac_text :: string
  ac_factual :: bool
  ac_evidence :: "uuid list"
  ac_support :: support

definition mk_claim :: "answer_claim \<Rightarrow> exn + answer_claim" where
  "mk_claim c =
     (if ac_support c \<in> {Supported, PartiallySupported} \<and> ac_evidence c = []
      then Inl (ValueError ''support_status requires at least one evidence_id'')
      else if ac_support c = Unsupported \<and> ac_evidence c \<noteq> []
      then Inl (ValueError ''support_status unsupported requires no evidence_ids'')
      else Inr c)"

datatype response_status = Answered | ClarificationRequired | InsufficientEvidence | RespFailed
datatype confidence_band = High | Medium | Low

record query_response =
  qr_run :: uuid
  qr_answer :: "string option"
  qr_status :: response_status
  qr_claims :: "answer_claim list"
  qr_citations :: "citation list"
  qr_confidence :: confidence_band
  qr_warnings :: "string list"

definition mk_response :: "query_response \<Rightarrow> exn + query_response" where
  "mk_response r =
     (if qr_status r = Answered then
        (case qr_answer r of
           None \<Rightarrow> Inl (ValueError ''answer must be non-None when status is answered'')
         | Some a \<Rightarrow> if a = [] then Inl (ValueError ''answer must be non-empty when status is answered'')
                     else Inr r)
      else if qr_answer r \<noteq> None
      then Inl (ValueError ''answer must be None when status is not answered'')
      else Inr r)"

section \<open>What the constructors guarantee\<close>

definition fact_ok :: "knowledge_fact \<Rightarrow> bool" where
  "fact_ok f \<longleftrightarrow> 0 \<le> kf_confidence f \<and> kf_confidence f \<le> 1 \<and> is_aware (kf_observed_at f)
     \<and> (\<forall>a. kf_valid_from f = Some a \<longrightarrow> is_aware a)
     \<and> (\<forall>b. kf_valid_to f = Some b \<longrightarrow> is_aware b)
     \<and> (\<forall>a b. kf_valid_from f = Some a \<longrightarrow> kf_valid_to f = Some b \<longrightarrow> instant a < instant b)
     \<and> (kf_status f = FVerified \<longrightarrow> kf_evidence_ids f \<noteq> [])"

definition evidence_ok :: "evidence \<Rightarrow> bool" where
  "evidence_ok e \<longleftrightarrow>
       (\<forall>a. ev_valid_from e = Some a \<longrightarrow> is_aware a)
     \<and> (\<forall>b. ev_valid_to e = Some b \<longrightarrow> is_aware b)
     \<and> (\<forall>a b. ev_valid_from e = Some a \<longrightarrow> ev_valid_to e = Some b \<longrightarrow> instant a < instant b)"

definition claim_ok :: "answer_claim \<Rightarrow> bool" where
  "claim_ok c \<longleftrightarrow> (ac_support c = Unsupported \<longleftrightarrow> ac_evidence c = [])"

definition response_ok :: "query_response \<Rightarrow> bool" where
  "response_ok r \<longleftrightarrow>
     (if qr_status r = Answered then \<exists>a. qr_answer r = Some a \<and> a \<noteq> [] else qr_answer r = None)"

lemma mk_fact_iff: "mk_fact f = Inr g \<longleftrightarrow> g = f \<and> fact_ok f"
  by (auto simp: mk_fact_def fact_ok_def not_le split: option.splits)

lemma mk_evidence_iff: "mk_evidence e = Inr g \<longleftrightarrow> g = e \<and> evidence_ok e"
  by (auto simp: mk_evidence_def evidence_ok_def not_le split: option.splits)

lemma mk_claim_iff: "mk_claim c = Inr d \<longleftrightarrow> d = c \<and> claim_ok c"
  by (cases "ac_support c") (auto simp: mk_claim_def claim_ok_def)

lemma mk_response_iff: "mk_response r = Inr s \<longleftrightarrow> s = r \<and> response_ok r"
  by (auto simp: mk_response_def response_ok_def split: option.splits)

lemma mk_run_iff:
  "mk_run r = Inr s \<longleftrightarrow> s = r \<and> (run_terminal (er_status r) \<longrightarrow> er_finished_at r \<noteq> None)"
  by (auto simp: mk_run_def)

lemmas mk_iffs = mk_fact_iff mk_evidence_iff mk_claim_iff mk_response_iff mk_run_iff

lemma fact_ok_evidence_ok:
  assumes "fact_ok f" "ev_valid_from e = kf_valid_from f" "ev_valid_to e = kf_valid_to f"
  shows "evidence_ok e"
  using assms by (auto simp: fact_ok_def evidence_ok_def)

end
