(* ===== verification/Chunker.thy ===== *)
theory Chunker
  imports TextLines Domain
begin

text \<open>
  The structure-aware chunker (\<^verbatim>\<open>src/groundgraph/application/ingestion/chunker.py\<close>):
  splitting a body into sections by heading, and a section into overlapping chunks that respect the
  protected line ranges (code blocks, tables, list items). The hash function and the chunk ids
  (\<^verbatim>\<open>uuid4()\<close>) are arguments; a token is four characters, so all arithmetic is on
  natural numbers.
\<close>

section \<open>Data\<close>

record parsed_content =
  pc_title :: string
  pc_body :: string
  pc_media_type :: string
  pc_metadata :: "(string \<times> json) list"
  pc_headings :: "(nat \<times> string) list"
  pc_code_blocks :: "(int \<times> int) list"
  pc_tables :: "(int \<times> int) list"
  pc_list_items :: "(int \<times> int) list"

record chunker_config =
  cc_max_tokens :: int
  cc_overlap :: int
  cc_version :: string

definition mk_config :: "chunker_config \<Rightarrow> exn + chunker_config" where
  "mk_config c =
     (if cc_max_tokens c < 64 then Inl (ValueError ''max_tokens must be >= 64'')
      else if cc_overlap c < 0 then Inl (ValueError ''overlap_tokens must be >= 0'')
      else if cc_overlap c > cc_max_tokens c then Inl (ValueError ''overlap_tokens must not exceed max_tokens'')
      else Inr c)"

definition configuration_hash :: "(string \<Rightarrow> string) \<Rightarrow> chunker_config \<Rightarrow> string" where
  "configuration_hash sha c =
     take 16 (sha (cc_version c @ ''|'' @ show_nat (nat (cc_max_tokens c)) @ ''|'' @ show_nat (nat (cc_overlap c))))"

definition estimate_tokens :: "string \<Rightarrow> nat" where
  "estimate_tokens s = length s div 4"

definition chunk_checksum :: "(string \<Rightarrow> string) \<Rightarrow> string \<Rightarrow> string" where
  "chunk_checksum sha s = take 16 (sha s)"

definition blank_nl :: "string \<Rightarrow> string" where
  "blank_nl s = map (\<lambda>c. if c = nl then CHR '' '' else c) s"

definition locate :: "nat \<Rightarrow> string \<Rightarrow> string" where
  "locate line s = ''L'' @ show_nat line @ '' '' @ strip (blank_nl (take 60 (hd (split_at nl s))))"

definition locate_end :: "nat \<Rightarrow> string \<Rightarrow> string" where
  "locate_end line s = ''L'' @ show_nat line @ '' '' @ strip (blank_nl (take 60 (strip (last (split_at nl s)))))"

section \<open>Sections\<close>

type_synonym doc_section = "string list \<times> string \<times> nat"

text \<open>The inner loop over the headings: the first one the line starts with.\<close>

definition heading_matches :: "string \<Rightarrow> nat \<times> string \<Rightarrow> bool" where
  "heading_matches line h =
     (let prefix = replicate (fst h) (CHR ''#'')
      in startswith (strip line) prefix \<and> startswith (strip line) (prefix @ '' '' @ snd h))"

definition match_heading :: "(nat \<times> string) list \<Rightarrow> string \<Rightarrow> (nat \<times> string) option" where
  "match_heading hs line =
     (case find (heading_matches line) hs of
        Some h \<Rightarrow> if fst h = 0 then None else Some h | None \<Rightarrow> None)"

fun section_loop ::
  "(nat \<times> string) list \<Rightarrow> nat \<Rightarrow> string list \<Rightarrow> doc_section list \<Rightarrow> string list \<Rightarrow> string list \<Rightarrow> nat \<Rightarrow> doc_section list" where
  "section_loop hs idx [] sections path cur start =
     (if cur \<noteq> [] then sections @ [(path, rstrip (concat cur), start)] else sections)"
| "section_loop hs idx (line # ls) sections path cur start =
     (case match_heading hs line of
        Some (level, txt) \<Rightarrow>
          let flush = cur \<noteq> [] \<or> sections \<noteq> [];
              sections' = (if flush then sections @ [(path, rstrip (concat cur), start)] else sections);
              cur' = (if flush then [] else cur)
          in section_loop hs (Suc idx) ls sections' (take (level - 1) path @ [txt]) (cur' @ [line]) idx
      | None \<Rightarrow> section_loop hs (Suc idx) ls sections path (cur @ [line]) start)"

definition split_by_heading :: "parsed_content \<Rightarrow> doc_section list" where
  "split_by_heading c =
     (if pc_headings c = [] then [([], pc_body c, 1)]
      else section_loop (pc_headings c) 1 (splitlines_keep (pc_body c)) [] [] [] 1)"

section \<open>Protected ranges\<close>

text \<open>\<^verbatim>\<open>_build_line_to_char_map\<close> and \<^verbatim>\<open>line_to_char.get(line, default)\<close>.\<close>

definition line_char :: "string \<Rightarrow> int \<Rightarrow> nat \<Rightarrow> nat" where
  "line_char s line dflt =
     (if 1 \<le> line \<and> line \<le> int (length (splitlines s))
      then line_offset (nat line - 1) (splitlines s) else dflt)"

definition range_of :: "string \<Rightarrow> nat \<Rightarrow> int \<times> int \<Rightarrow> (nat \<times> nat) option" where
  "range_of s sec item =
     (let last_line = int (1 + count_nl s);
          rel_start = fst item - int sec + 1; rel_end = snd item - int sec + 1
      in if snd item < int sec \<or> fst item > last_line + int sec - 1 then None
         else if rel_start \<le> 0 \<or> rel_end \<le> 0 then None
         else let a = line_char s rel_start 0; b = line_char s (rel_end + 1) (length s)
              in if a < b then Some (a, b) else None)"

definition protected_ranges :: "string \<Rightarrow> parsed_content \<Rightarrow> nat \<Rightarrow> (nat \<times> nat) list" where
  "protected_ranges s c sec =
     sort_key fst (sort_key snd
       (List.map_filter (range_of s sec) (pc_code_blocks c @ pc_tables c @ pc_list_items c)))"

fun find_safe_end :: "nat \<Rightarrow> (nat \<times> nat) list \<Rightarrow> nat \<Rightarrow> nat option \<Rightarrow> nat option" where
  "find_safe_end target [] start prev = None"
| "find_safe_end target ((a, b) # rs) start prev =
     (if a > start \<and> a < target then Some (if Some a = prev then b else a)
      else if a \<le> start \<and> start \<le> b \<and> b > target then Some b
      else if a < target \<and> target \<le> b then Some a
      else find_safe_end target rs start prev)"

section \<open>The chunking loop\<close>

text \<open>The position from which the next chunk starts, before the protected ranges move it.\<close>

type_synonym piece = "string \<times> nat \<times> nat"

definition next_start0 :: "nat \<Rightarrow> string \<Rightarrow> nat \<Rightarrow> nat \<Rightarrow> nat \<Rightarrow> piece list \<Rightarrow> nat" where
  "next_start0 overlap s sec start e pieces =
     (let n = e - overlap;
          n1 = (if length pieces > 1
                then max n (line_char s (int (snd (snd (pieces ! (length pieces - 2)))) - int sec + 1) 0 + 1)
                else n)
      in max n1 (start + 1))"

definition skip_protected :: "(nat \<times> nat) list \<Rightarrow> nat \<Rightarrow> nat" where
  "skip_protected prot n =
     (case find (\<lambda>(a, b). a < n \<and> n < b) prot of Some (a, b) \<Rightarrow> b | None \<Rightarrow> n)"

definition piece_of :: "string \<Rightarrow> nat \<Rightarrow> nat \<Rightarrow> nat \<Rightarrow> piece" where
  "piece_of s sec start e =
     (strip (slice start e s), sec + count_nl (take start s),
      sec + count_nl (take (start + length (rstrip (slice start e s))) s))"

lemma skip_protected_ge: "n \<le> skip_protected prot n"
  by (auto simp: skip_protected_def find_Some_iff split: option.splits)

lemma next_start0_gt: "start < next_start0 ov s sec start e ps"
  by (simp add: next_start0_def Let_def max_def)

definition chunk_end :: "nat \<Rightarrow> nat \<Rightarrow> (nat \<times> nat) list \<Rightarrow> nat \<Rightarrow> nat option \<Rightarrow> nat" where
  "chunk_end est len prot start prev =
     (let target = min (start + est) len;
          e = (case find_safe_end target prot start prev of Some e \<Rightarrow> e | None \<Rightarrow> target)
      in if e \<le> start then min (start + 1) len else e)"

function chunk_loop ::
  "nat \<Rightarrow> nat \<Rightarrow> string \<Rightarrow> nat \<Rightarrow> (nat \<times> nat) list \<Rightarrow> nat \<Rightarrow> nat option \<Rightarrow> piece list \<Rightarrow> piece list" where
  "chunk_loop est ov s sec prot start prev pieces =
     (if start < length s then
        let e = chunk_end est (length s) prot start prev
        in if strip (slice start e s) = []
           then chunk_loop est ov s sec prot (min (start + 1) (length s)) prev pieces
           else let pieces' = pieces @ [piece_of s sec start e]
                in if e \<ge> length s then pieces'
                   else chunk_loop est ov s sec prot
                     (min (skip_protected prot (next_start0 ov s sec start e pieces')) (length s))
                     (Some e) pieces'
      else pieces)"
  by pat_completeness auto
termination chunk_loop
proof (relation "measure (\<lambda>(est, ov, s, sec, prot, start, prev, pieces). length s - start)", goal_cases)
  case (3 est ov s sec prot start prev pieces e pieces')
  have "start < skip_protected prot (next_start0 ov s sec start e pieces')"
    using next_start0_gt skip_protected_ge by (rule less_le_trans)
  then show ?case using 3(1) by simp
qed simp_all

declare chunk_loop.simps [simp del]

definition chunk_text :: "string \<Rightarrow> nat \<Rightarrow> nat \<Rightarrow> nat \<Rightarrow> parsed_content \<Rightarrow> piece list" where
  "chunk_text s sec max_tokens overlap c =
     (if strip s = [] then []
      else if estimate_tokens s \<le> max_tokens then [(strip s, sec, sec + count_nl s)]
      else chunk_loop (4 * max_tokens) (4 * overlap) s sec (protected_ranges s c sec) 0 None [])"

section \<open>The whole document\<close>

fun number_pieces ::
  "(string list \<Rightarrow> nat \<Rightarrow> piece \<Rightarrow> chunk) \<Rightarrow> string list \<Rightarrow> nat \<Rightarrow> piece list \<Rightarrow> chunk list" where
  "number_pieces mk path n [] = []"
| "number_pieces mk path n (p # ps) = mk path n p # number_pieces mk path (Suc n) ps"

definition make_chunk ::
  "(string \<Rightarrow> string) \<Rightarrow> chunker_config \<Rightarrow> (nat \<Rightarrow> uuid) \<Rightarrow> uuid \<Rightarrow> uuid \<Rightarrow> string list \<Rightarrow> string list \<Rightarrow> nat \<Rightarrow> piece \<Rightarrow> chunk" where
  "make_chunk sha cfg ids did vid principals path n p =
     (case p of (body, first, lst) \<Rightarrow>
       \<lparr>ck_id = ids n, ck_document_id = did, ck_version_id = vid, ck_ordinal = int n, ck_heading_path = path,
        ck_content = body, ck_token_count = int (estimate_tokens body), ck_checksum = chunk_checksum sha body,
        ck_start = Some (locate first body), ck_end = Some (locate_end lst body), ck_principals = principals,
        ck_chunker_version = cc_version cfg, ck_config_hash = configuration_hash sha cfg\<rparr>)"

fun chunk_sections ::
  "chunker_config \<Rightarrow> parsed_content \<Rightarrow> (string list \<Rightarrow> nat \<Rightarrow> piece \<Rightarrow> chunk) \<Rightarrow> nat \<Rightarrow> doc_section list \<Rightarrow> chunk list" where
  "chunk_sections cfg c mk n [] = []"
| "chunk_sections cfg c mk n ((path, body, start) # secs) =
     (let ps = chunk_text body start (nat (cc_max_tokens cfg)) (nat (cc_overlap cfg)) c
      in number_pieces mk path n ps @ chunk_sections cfg c mk (n + length ps) secs)"

definition chunk_document ::
  "(string \<Rightarrow> string) \<Rightarrow> chunker_config \<Rightarrow> (nat \<Rightarrow> uuid) \<Rightarrow> parsed_content \<Rightarrow> uuid \<Rightarrow> uuid \<Rightarrow> string list \<Rightarrow> chunk list" where
  "chunk_document sha cfg ids c did vid principals =
     chunk_sections cfg c (make_chunk sha cfg ids did vid principals) 0 (split_by_heading c)"

section \<open>Lemmas about the loop\<close>

definition in_span :: "nat \<Rightarrow> (nat \<times> nat) list \<Rightarrow> bool" where
  "in_span i spans \<longleftrightarrow> (\<exists>(a, b) \<in> set spans. a \<le> i \<and> i < b)"

definition spans_ok :: "string \<Rightarrow> nat \<Rightarrow> (nat \<times> nat) list \<Rightarrow> bool" where
  "spans_ok s start spans \<longleftrightarrow>
     (\<forall>(a, b) \<in> set spans. start \<le> a \<and> a < b \<and> a < length s \<and> strip (slice a b s) \<noteq> []) \<and>
     sorted_wrt (<) (map fst spans)"

abbreviation pieces_of :: "string \<Rightarrow> nat \<Rightarrow> (nat \<times> nat) list \<Rightarrow> piece list" where
  "pieces_of s sec spans \<equiv> map (\<lambda>(a, b). piece_of s sec a b) spans"

lemma chunk_end_gt: "start < len \<Longrightarrow> start < chunk_end est len prot start prev"
  by (auto simp: chunk_end_def Let_def)

lemma spans_ok_Cons:
  "spans_ok s start' spans \<Longrightarrow> start < start' \<Longrightarrow> start < b \<Longrightarrow> start < length s \<Longrightarrow>
   strip (slice start b s) \<noteq> [] \<Longrightarrow> spans_ok s start ((start, b) # spans)"
  by (fastforce simp: spans_ok_def)

lemma spans_ok_mono: "spans_ok s start' spans \<Longrightarrow> start \<le> start' \<Longrightarrow> spans_ok s start spans"
  by (fastforce simp: spans_ok_def)

text \<open>Every chunk is a stripped, non-blank slice of the section, and the slices start further and
  further to the right.\<close>

lemma chunk_loop_spans:
  "\<exists>spans. chunk_loop est ov s sec prot start prev pieces = pieces @ pieces_of s sec spans \<and>
     spans_ok s start spans"
proof (induction est ov s sec prot start prev pieces rule: chunk_loop.induct)
  case (1 est ov s sec prot start prev pieces)
  let ?e = "chunk_end est (length s) prot start prev"
  let ?ps = "pieces @ [piece_of s sec start ?e]"
  let ?n = "min (skip_protected prot (next_start0 ov s sec start ?e ?ps)) (length s)"
  show ?case
  proof (cases "start < length s")
    case False
    then show ?thesis by (intro exI [of _ "[]"]) (simp add: chunk_loop.simps spans_ok_def)
  next
    case lt: True
    note e = chunk_end_gt [OF lt, of est prot prev]
    show ?thesis
    proof (cases "strip (slice start ?e s) = []")
      case True
      then have step: "chunk_loop est ov s sec prot start prev pieces =
          chunk_loop est ov s sec prot (min (start + 1) (length s)) prev pieces"
        using lt by (subst chunk_loop.simps) (simp add: Let_def)
      from 1(1) [OF lt refl True] show ?thesis unfolding step
        using spans_ok_mono [of s _ _ start] lt by fastforce
    next
      case False
      show ?thesis
      proof (cases "?e \<ge> length s")
        case True
        then show ?thesis using lt False e
          by (intro exI [of _ "[(start, ?e)]"]) (simp add: chunk_loop.simps [of est] spans_ok_def Let_def)
      next
        case nend: False
        then have step: "chunk_loop est ov s sec prot start prev pieces =
            chunk_loop est ov s sec prot ?n (Some ?e) ?ps"
          using lt False by (subst chunk_loop.simps) (simp add: Let_def)
        have "start < ?n"
          using less_le_trans [OF next_start0_gt skip_protected_ge] lt by simp
        moreover obtain spans where
          "chunk_loop est ov s sec prot ?n (Some ?e) ?ps = ?ps @ pieces_of s sec spans"
          "spans_ok s ?n spans" using 1(2) [OF lt refl False refl nend] by blast
        ultimately show ?thesis using step spans_ok_Cons [OF _ _ e lt False]
          by (intro exI [of _ "(start, ?e) # spans"]) simp
      qed
    qed
  qed
qed

lemma blank_slice: "strip (slice a b s) = [] \<longleftrightarrow> (\<forall>i. a \<le> i \<and> i < b \<and> i < length s \<longrightarrow> is_space (s ! i))"
  unfolding strip_Nil_iff Ball_def set_slice by blast

lemma line_char_le:
  "q \<le> length s \<Longrightarrow> line_char s (int (sec + count_nl (take q s)) - int sec + 1) 0 \<le> q"
  using line_offset_le [of "count_nl (take q s)" q s "[]"]
  by (simp add: line_char_def splitlines_def splitlines_keep_def nat_add_distrib)

text \<open>The last chunk made before the loop stands at \<^verbatim>\<open>start\<close> ends before the next
  target, so the jump to a line start never passes the end of the current chunk.\<close>

definition lag :: "nat \<Rightarrow> string \<Rightarrow> nat \<Rightarrow> nat \<Rightarrow> piece list \<Rightarrow> bool" where
  "lag est s sec start pieces \<longleftrightarrow> pieces = [] \<or>
     (\<exists>q. snd (snd (last pieces)) = sec + count_nl (take q s) \<and> q < min (start + est) (length s))"

lemma next_start0_le:
  assumes "lag est s sec start pieces" and "start < length s" "0 < est"
    and e: "e = min (start + est) (length s)"
  shows "next_start0 ov s sec start e (pieces @ [p]) \<le> e"
proof -
  have "line_char s (int (snd (snd (last pieces))) - int sec + 1) 0 + 1 \<le> e" if ne: "pieces \<noteq> []"
  proof -
    obtain q where q: "snd (snd (last pieces)) = sec + count_nl (take q s)" "q < e"
      using assms(1) ne e by (auto simp: lag_def)
    have "line_char s (int (snd (snd (last pieces))) - int sec + 1) 0 \<le> q"
      unfolding q(1) using q(2) e by (intro line_char_le) simp
    then show ?thesis using q(2) by simp
  qed
  moreover have "(pieces @ [p]) ! (length (pieces @ [p]) - 2) = last pieces" if "pieces \<noteq> []"
    using that by (simp add: nth_append last_conv_nth)
  ultimately show ?thesis using assms by (auto simp: next_start0_def Let_def)
qed

lemma rstrip_slice_length: "length (rstrip (slice a b s)) \<le> b - a"
  by (rule order_trans [OF length_rstrip]) (simp add: slice_def)

text \<open>Without protected ranges nothing is lost: every position that is not white space is in
  some slice, and no slice is longer than the target size.\<close>

lemma chunk_loop_plain:
  "0 < est \<Longrightarrow> lag est s sec start pieces \<Longrightarrow>
   \<exists>spans. chunk_loop est ov s sec [] start prev pieces = pieces @ pieces_of s sec spans \<and>
     (\<forall>(a, b) \<in> set spans. strip (slice a b s) \<noteq> [] \<and> b - a \<le> est) \<and>
     (\<forall>i. start \<le> i \<and> i < length s \<and> \<not> is_space (s ! i) \<longrightarrow> in_span i spans)"
proof (induction est ov s sec "[] :: (nat \<times> nat) list" start prev pieces rule: chunk_loop.induct)
  case (1 est ov s sec start prev pieces)
  let ?e = "chunk_end est (length s) [] start prev"
  let ?ps = "pieces @ [piece_of s sec start ?e]"
  let ?n = "min (skip_protected [] (next_start0 ov s sec start ?e ?ps)) (length s)"
  show ?case
  proof (cases "start < length s")
    case False
    then show ?thesis by (intro exI [of _ "[]"]) (auto simp: chunk_loop.simps [of est])
  next
    case lt: True
    have e: "?e = min (start + est) (length s)" using lt 1(3) by (auto simp: chunk_end_def Let_def)
    show ?thesis
    proof (cases "strip (slice start ?e s) = []")
      case True
      then have step: "chunk_loop est ov s sec [] start prev pieces =
          chunk_loop est ov s sec [] (min (start + 1) (length s)) prev pieces"
        using lt by (subst chunk_loop.simps) (simp add: Let_def)
      have sp: "is_space (s ! start)" using True lt 1(3) e unfolding blank_slice by simp
      have "lag est s sec (min (start + 1) (length s)) pieces"
        using 1(4) lt by (auto simp: lag_def)
      from 1(1) [OF lt refl True 1(3) this] obtain spans where
        sp1: "chunk_loop est ov s sec [] (min (start + 1) (length s)) prev pieces = pieces @ pieces_of s sec spans"
          "\<forall>(a, b) \<in> set spans. strip (slice a b s) \<noteq> [] \<and> b - a \<le> est"
          "\<forall>i. min (start + 1) (length s) \<le> i \<and> i < length s \<and> \<not> is_space (s ! i) \<longrightarrow> in_span i spans"
        by blast
      have "in_span i spans" if "start \<le> i" "i < length s" "\<not> is_space (s ! i)" for i
      proof -
        have "i \<noteq> start" using sp that by blast
        then show ?thesis using sp1(3) that by simp
      qed
      then show ?thesis unfolding step using sp1 by blast
    next
      case ne: False
      show ?thesis
      proof (cases "?e \<ge> length s")
        case True
        then show ?thesis using lt ne e
          by (intro exI [of _ "[(start, ?e)]"]) (auto simp: chunk_loop.simps [of est] Let_def in_span_def)
      next
        case nend: False
        then have step: "chunk_loop est ov s sec [] start prev pieces =
            chunk_loop est ov s sec [] ?n (Some ?e) ?ps"
          using lt ne by (subst chunk_loop.simps) (simp add: Let_def)
        have le: "?n \<le> ?e"
          using next_start0_le [OF 1(4) lt 1(3) e, of ov "piece_of s sec start ?e"]
          by (simp add: skip_protected_def min.coboundedI1)
        have gt: "start < ?n" using next_start0_gt lt by (simp add: skip_protected_def)
        have "start + length (rstrip (slice start ?e s)) \<le> ?e"
          using rstrip_slice_length [of start ?e s] chunk_end_gt [OF lt, of est "[]" prev] by simp
        moreover have "?e < min (?n + est) (length s)" using e nend gt by simp
        ultimately have "lag est s sec ?n ?ps"
          unfolding lag_def by (intro disjI2) (auto simp: piece_of_def intro: le_less_trans)
        from 1(2) [OF lt refl ne refl nend 1(3) this] obtain spans where
          sp1: "chunk_loop est ov s sec [] ?n (Some ?e) ?ps = ?ps @ pieces_of s sec spans"
          "\<forall>(a, b) \<in> set spans. strip (slice a b s) \<noteq> [] \<and> b - a \<le> est"
          "\<forall>i. ?n \<le> i \<and> i < length s \<and> \<not> is_space (s ! i) \<longrightarrow> in_span i spans" by blast
        have "in_span i ((start, ?e) # spans)" if i: "start \<le> i" "i < length s" "\<not> is_space (s ! i)" for i
        proof (cases "i < ?e")
          case True
          then show ?thesis using i by (simp add: in_span_def)
        next
          case False
          then have "in_span i spans" using sp1(3) i le by simp
          then show ?thesis by (auto simp: in_span_def)
        qed
        then show ?thesis unfolding step sp1(1) using sp1(2) ne e
          by (intro exI [of _ "(start, ?e) # spans"]) auto
      qed
    qed
  qed
qed

lemma number_pieces_length [simp]: "length (number_pieces mk path n ps) = length ps"
  by (induction mk path n ps rule: number_pieces.induct) simp_all

lemma number_pieces_nth: "i < length ps \<Longrightarrow> number_pieces mk path n ps ! i = mk path (n + i) (ps ! i)"
  by (induction mk path n ps arbitrary: i rule: number_pieces.induct) (auto simp: nth_Cons split: nat.splits)

lemma chunk_text_pieces:
  assumes "p \<in> set (chunk_text s sec mx ov c)"
  shows "fst p \<noteq> [] \<and> (\<exists>u v. s = u @ fst p @ v)"
proof -
  have slice_infix: "\<exists>u v. s = u @ slice a b s @ v" for a b
    by (metis append_take_drop_id slice_def)
  consider "strip s \<noteq> []" "fst p = strip s"
    | spans where "spans_ok s 0 spans" "p \<in> set (pieces_of s sec spans)"
  proof (cases "strip s \<noteq> [] \<and> fst p = strip s")
    case False
    then have "p \<in> set (chunk_loop (4 * mx) (4 * ov) s sec (protected_ranges s c sec) 0 None [])"
      using assms by (auto simp: chunk_text_def split: if_splits)
    then show ?thesis
      using chunk_loop_spans [of "4 * mx" "4 * ov" s sec "protected_ranges s c sec" 0 None "[]"] that(2) by auto
  qed (use that in blast)
  then show ?thesis
  proof cases
    case 1
    then show ?thesis using strip_infix [of s] by metis
  next
    case (2 spans)
    then obtain a b where ab: "(a, b) \<in> set spans" "fst p = strip (slice a b s)" "strip (slice a b s) \<noteq> []"
      by (fastforce simp: spans_ok_def piece_of_def)
    obtain u v where "s = u @ slice a b s @ v" using slice_infix by blast
    moreover obtain u' v' where "slice a b s = u' @ strip (slice a b s) @ v'" using strip_infix by metis
    ultimately have "s = (u @ u') @ fst p @ (v' @ v)" using ab(2) by (metis append.assoc)
    then show ?thesis using ab by metis
  qed
qed

lemma chunk_sections_nth:
  "i < length (chunk_sections cfg c mk n secs) \<Longrightarrow>
   \<exists>(path, body, start) \<in> set secs. \<exists>p \<in> set (chunk_text body start (nat (cc_max_tokens cfg)) (nat (cc_overlap cfg)) c).
     chunk_sections cfg c mk n secs ! i = mk path (n + i) p"
proof (induction cfg c mk n secs arbitrary: i rule: chunk_sections.induct)
  case (2 cfg c mk n path body start secs)
  let ?ps = "chunk_text body start (nat (cc_max_tokens cfg)) (nat (cc_overlap cfg)) c"
  show ?case
  proof (cases "i < length ?ps")
    case True
    then show ?thesis by (auto simp: Let_def nth_append number_pieces_nth intro!: bexI [of _ "?ps ! i"])
  next
    case False
    then have "i - length ?ps < length (chunk_sections cfg c mk (n + length ?ps) secs)"
      using 2(2) by (simp add: Let_def less_diff_conv2)
    from 2(1) [OF refl this] False show ?thesis by (fastforce simp: Let_def nth_append)
  qed
qed simp

lemma contains_rstrip: "contains (rstrip s) (s @ zs)"
  using rstrip_prefix [of s] unfolding contains_iff by (metis append_Nil append_assoc)

lemma section_loop_infix:
  "path_body \<in> set (section_loop hs idx ls sections path cur start) \<Longrightarrow>
   path_body \<in> set sections \<or> contains (fst (snd path_body)) (concat cur @ concat ls)"
proof (induction hs idx ls sections path cur start rule: section_loop.induct)
  case (1 hs idx sections path cur start)
  then show ?case using contains_rstrip [of "concat cur" "[]"] by (auto split: if_splits)
next
  case (2 hs idx line ls sections path cur start)
  have suf: "contains t (us @ zs)" if "contains t zs" for t us zs :: string
    using that unfolding contains_iff by (metis append_assoc)
  show ?case
  proof (cases "match_heading hs line")
    case None
    then show ?thesis using 2 by simp
  next
    case (Some h)
    obtain level tx where h: "h = (level, tx)" by (cases h)
    show ?thesis
    proof (cases "cur \<noteq> [] \<or> sections \<noteq> []")
      case True
      then show ?thesis using 2(2) [OF Some h [symmetric] refl refl refl] 2(3) Some h contains_rstrip suf [of _ "line @ concat ls" "concat cur"]
        by (fastforce simp: Let_def)
    next
      case False
      then show ?thesis using 2(2) [OF Some h [symmetric] refl refl refl] 2(3) Some h by (simp add: Let_def)
    qed
  qed
qed

lemma section_infix: "sec \<in> set (split_by_heading c) \<Longrightarrow> contains (fst (snd sec)) (pc_body c)"
  using section_loop_infix [of sec "pc_headings c" 1 "splitlines_keep (pc_body c)" "[]" "[]" "[]" 1]
  by (auto simp: split_by_heading_def concat_splitlines_keep split: if_splits)

text \<open>The text of every chunk occurs literally in the body of the document, and the chunk has the
  document's principals.\<close>

lemma chunk_document_member:
  assumes "k \<in> set (chunk_document sha cfg ids c did vid principals)"
  shows "contains (ck_content k) (pc_body c) \<and> ck_principals k = principals"
proof -
  from assms obtain i where i: "i < length (chunk_document sha cfg ids c did vid principals)"
    "k = chunk_document sha cfg ids c did vid principals ! i" by (metis in_set_conv_nth)
  from chunk_sections_nth [OF i(1) [unfolded chunk_document_def]] obtain path body start p where
    sec: "(path, body, start) \<in> set (split_by_heading c)" and
    p: "p \<in> set (chunk_text body start (nat (cc_max_tokens cfg)) (nat (cc_overlap cfg)) c)" and
    k: "k = make_chunk sha cfg ids did vid principals path i p"
    using i(2) by (auto simp: chunk_document_def)
  from chunk_text_pieces [OF p] section_infix [OF sec] obtain u v u' v' where
    "body = u @ fst p @ v" "pc_body c = u' @ body @ v'" by (auto simp: contains_iff)
  then have "pc_body c = (u' @ u) @ fst p @ (v @ v')" by simp
  then have "contains (fst p) (pc_body c)" unfolding contains_iff by blast
  then show ?thesis unfolding k by (cases p) (simp add: make_chunk_def)
qed
section \<open>Properties\<close>

text \<open>C24: A section that needs splitting and has no protected lines loses nothing: every character
  that is not white space lies in one of the slices whose stripped texts are the chunks; no chunk is
  blank, and each is within the token limit of the configuration.\<close>

theorem chunk_text_covers:
  assumes "protected_ranges s c sec = []" and "0 < max_tokens" and "max_tokens < estimate_tokens s"
  shows "\<exists>spans. map fst (chunk_text s sec max_tokens overlap c) = map (\<lambda>(a, b). strip (slice a b s)) spans \<and>
     (\<forall>i < length s. \<not> is_space (s ! i) \<longrightarrow> (\<exists>(a, b) \<in> set spans. a \<le> i \<and> i < b)) \<and>
     (\<forall>p \<in> set (chunk_text s sec max_tokens overlap c). fst p \<noteq> [] \<and> estimate_tokens (fst p) \<le> max_tokens)"
proof -
  let ?c = "chunk_text s sec max_tokens overlap c"
  obtain spans where sp:
    "chunk_loop (4 * max_tokens) (4 * overlap) s sec [] 0 None [] = [] @ pieces_of s sec spans"
    "\<forall>(a, b) \<in> set spans. strip (slice a b s) \<noteq> [] \<and> b - a \<le> 4 * max_tokens"
    "\<forall>i. 0 \<le> i \<and> i < length s \<and> \<not> is_space (s ! i) \<longrightarrow> in_span i spans"
    using chunk_loop_plain [of "4 * max_tokens" s sec 0 "[]" "4 * overlap" None] assms(2)
    by (auto simp: lag_def)
  show ?thesis
  proof (cases "strip s = []")
    case True
    then have "is_space (s ! i)" if "i < length s" for i using that by (simp add: strip_Nil_iff)
    then show ?thesis using True by (intro exI [of _ "[]"]) (simp add: chunk_text_def)
  next
    case False
    then have c: "?c = pieces_of s sec spans" using assms sp(1) by (simp add: chunk_text_def)
    have small: "length (strip (slice a b s)) \<le> b - a" for a b
      unfolding strip_def by (rule order_trans [OF length_rstrip])
        (simp add: lstrip_def slice_def length_dropWhile_le [THEN order_trans])
    have "fst p \<noteq> [] \<and> estimate_tokens (fst p) \<le> max_tokens" if p: "p \<in> set ?c" for p
    proof -
      obtain a b where "(a, b) \<in> set spans" "p = piece_of s sec a b" using p c by auto
      moreover have "length (strip (slice a b s)) \<le> 4 * max_tokens"
        using sp(2) calculation(1) small [of a b] by fastforce
      ultimately show ?thesis using sp(2) by (fastforce simp: piece_of_def estimate_tokens_def)
    qed
    moreover have "map fst ?c = map (\<lambda>(a, b). strip (slice a b s)) spans"
      unfolding c by (auto simp: piece_of_def)
    ultimately show ?thesis using sp(3) by (auto simp: in_span_def)
  qed
qed

definition plain_doc :: "string \<Rightarrow> parsed_content" where
  "plain_doc body = \<lparr>pc_title = ''t'', pc_body = body, pc_media_type = ''text/plain'', pc_metadata = [],
     pc_headings = [], pc_code_blocks = [], pc_tables = [], pc_list_items = []\<rparr>"

lemma plain_doc_unprotected: "protected_ranges s (plain_doc body) sec = []"
  by (simp add: protected_ranges_def plain_doc_def List.map_filter_def)

theorem chunk_text_covers_witness:
  "\<exists>spans. map fst (chunk_text (replicate 300 CHR ''a'') 1 64 8 (plain_doc [])) = map (\<lambda>(a, b). strip (slice a b (replicate 300 CHR ''a''))) spans"
proof -
  have "64 < estimate_tokens (replicate 300 CHR ''a'')" by (simp add: estimate_tokens_def)
  from chunk_text_covers [OF plain_doc_unprotected _ this] show ?thesis by fastforce
qed

text \<open>The chunks of a document are numbered from zero without gaps, carry the document, version
  and principals they are made for, are never blank, and the text of each occurs literally in a
  section of the body; all of them pass the validation of \<^verbatim>\<open>Chunk\<close>.\<close>

theorem chunk_document_numbered:
  assumes "i < length (chunk_document sha cfg ids c did vid principals)"
  shows "let k = chunk_document sha cfg ids c did vid principals ! i in
     ck_ordinal k = int i \<and> ck_id k = ids i \<and> ck_document_id k = did \<and> ck_version_id k = vid \<and>
     ck_principals k = principals \<and> ck_content k \<noteq> [] \<and> mk_chunk k = Inr k \<and>
     (\<exists>(path, body, start) \<in> set (split_by_heading c). ck_heading_path k = path \<and> contains (ck_content k) body)"
proof -
  from chunk_sections_nth [OF assms [unfolded chunk_document_def]] obtain path body start p where
    sec: "(path, body, start) \<in> set (split_by_heading c)" and
    p: "p \<in> set (chunk_text body start (nat (cc_max_tokens cfg)) (nat (cc_overlap cfg)) c)" and
    k: "chunk_document sha cfg ids c did vid principals ! i = make_chunk sha cfg ids did vid principals path i p"
    by (auto simp: chunk_document_def)
  from chunk_text_pieces [OF p] have "fst p \<noteq> []" "contains (fst p) body" by (auto simp: contains_iff)
  then show ?thesis using sec unfolding k Let_def
    by (cases p) (force simp: make_chunk_def mk_chunk_def)
qed

theorem chunk_document_numbered_witness:
  "length (chunk_document (\<lambda>x. x) \<lparr>cc_max_tokens = 64, cc_overlap = 8, cc_version = ''v''\<rparr> (\<lambda>n. n + 5) (plain_doc ''text'') 1 2 [''p'']) = 1 \<and>
   ck_id (chunk_document (\<lambda>x. x) \<lparr>cc_max_tokens = 64, cc_overlap = 8, cc_version = ''v''\<rparr> (\<lambda>n. n + 5) (plain_doc ''text'') 1 2 [''p''] ! 0) = 5"
proof -
  let ?cs = "chunk_document (\<lambda>x. x) \<lparr>cc_max_tokens = 64, cc_overlap = 8, cc_version = ''v''\<rparr> (\<lambda>n. n + 5) (plain_doc ''text'') 1 2 [''p'']"
  have "strip ''text'' \<noteq> []" by (simp add: strip_def lstrip_def rstrip_def is_space_def)
  then have len: "length ?cs = 1"
    by (simp add: chunk_document_def split_by_heading_def plain_doc_def chunk_text_def estimate_tokens_def Let_def)
  then show ?thesis
    using chunk_document_numbered [of 0 "\<lambda>x. x" "\<lparr>cc_max_tokens = 64, cc_overlap = 8, cc_version = ''v''\<rparr>" "\<lambda>n. n + 5" "plain_doc ''text''" 1 2 "[''p'']"]
    by (simp add: Let_def)
qed

text \<open>A loss of text. When the loop stands at the first character of a protected block that
  ends with the section and fits the target (the last of several adjacent list items, say), the only
  chunk made of the block is its first character: the rest of the section is in no chunk.\<close>

theorem last_block_lost:
  assumes "\<forall>(x, y) \<in> set pre. x < y \<and> y \<le> a" and "a + 1 < length s" and "length s \<le> a + est"
    and "\<not> is_space (s ! a)"
    and "pieces = [] \<or> (\<exists>q \<le> a. snd (snd (last pieces)) = sec + count_nl (take q s))"
  shows "\<exists>first lst. chunk_loop est ov s sec (pre @ [(a, length s)]) a prev pieces
     = pieces @ [([s ! a], first, lst)]"
proof -
  let ?prot = "pre @ [(a, length s)]"
  have target: "min (a + est) (length s) = length s" using assms(3) by simp
  have "find_safe_end (length s) (pre' @ [(a, length s)]) a prev = Some a"
    if "\<forall>(x, y) \<in> set pre'. x < y \<and> y \<le> a" for pre'
    using that assms(2) by (induction pre') auto
  then have e: "chunk_end est (length s) ?prot a prev = a + 1"
    using assms(1,2) target by (simp add: chunk_end_def Let_def)
  have sl: "slice a (a + 1) s = [s ! a]"
    using assms(2) by (simp add: slice_def take_Suc_conv_app_nth Cons_nth_drop_Suc [symmetric])
  have st: "strip [s ! a] = [s ! a]" using assms(4) by (simp add: strip_def lstrip_def rstrip_def)
  let ?ps = "pieces @ [piece_of s sec a (a + 1)]"
  have "line_char s (int (snd (snd (last pieces))) - int sec + 1) 0 \<le> a" if "pieces \<noteq> []"
    using assms(2,5) that line_char_le [of _ s sec] by (metis le_trans less_imp_le_nat add_lessD1)
  moreover have "?ps ! (length ?ps - 2) = last pieces" if "pieces \<noteq> []"
    using that by (simp add: nth_append last_conv_nth)
  ultimately have n: "next_start0 ov s sec a (a + 1) ?ps = a + 1"
    by (auto simp: next_start0_def Let_def)
  have "find (\<lambda>(x, y). x < a + 1 \<and> a + 1 < y) (pre' @ [(a, length s)]) = Some (a, length s)"
    if "\<forall>(x, y) \<in> set pre'. x < y \<and> y \<le> a" for pre'
    using that assms(2) by (induction pre') auto
  then have skip: "skip_protected ?prot (a + 1) = length s"
    using assms(1) by (simp add: skip_protected_def)
  have "chunk_loop est ov s sec ?prot (length s) (Some (a + 1)) ?ps = ?ps"
    by (subst chunk_loop.simps) simp
  then have "chunk_loop est ov s sec ?prot a prev pieces = ?ps"
    using assms(2) by (subst chunk_loop.simps) (simp only: e sl st n skip Let_def, simp)
  then show ?thesis unfolding piece_of_def sl st by simp
qed

definition list_section :: string where
  "list_section = ''- '' @ replicate 250 CHR ''a'' @ [nl] @ ''- secret''"

text \<open>The whole section as the code runs it, with the smallest token limit the configuration
  allows: the second item is cut to its dash.\<close>

lemma list_section_facts: "length list_section = 261" "list_section ! 253 = CHR ''-''"
  "count_nl (take 252 list_section) = 0" "estimate_tokens list_section = 65"
  by (simp_all add: list_section_def nth_append count_nl_def estimate_tokens_def)

theorem last_block_lost_witness:
  "\<exists>first lst. chunk_loop 256 32 list_section 1 [(0, 253), (253, 261)] 253 (Some 253) [(take 252 list_section, 1, 1)]
     = [(take 252 list_section, 1, 1), (''-'', first, lst)]"
proof -
  have "\<exists>q \<le> 253. snd (snd (last [(take 252 list_section, 1, 1)])) = (1::nat) + count_nl (take q list_section)"
    by (intro exI [of _ 252]) (simp add: list_section_facts)
  then show ?thesis
    using last_block_lost [of "[(0, 253)]" 253 list_section 256 "[(take 252 list_section, 1, 1)]" 1 32 "Some 253"]
    by (simp add: list_section_facts is_space_def)
qed

lemma list_section_lines: "splitlines list_section = [''- '' @ replicate 250 CHR ''a'', ''- secret'']"
proof -
  have s: "list_section = (''- '' @ replicate 250 CHR ''a'') @ nl # ''- secret''"
    by (simp add: list_section_def)
  have nb: "\<forall>c \<in> set (''- '' @ replicate 250 CHR ''a''). \<not> is_break c" "\<forall>c \<in> set ''- secret''. \<not> is_break c"
    by (auto simp: is_break_def)
  have "splitlines_keep list_section = [(''- '' @ replicate 250 CHR ''a'') @ [nl], ''- secret'']"
    unfolding splitlines_keep_def s split_keep_line [OF nb(1)] split_keep_last [OF nb(2)] by simp
  then show ?thesis
    by (simp add: splitlines_def chop_end_def nth_append is_break_def)
qed

lemma list_section_protected:
  "protected_ranges list_section ((plain_doc list_section)\<lparr>pc_list_items := [(1, 1), (2, 2)]\<rparr>) 1
     = [(0, 253), (253, 261)]"
proof -
  have "count_nl list_section = 1" by (simp add: count_nl_def list_section_def)
  then show ?thesis
    by (simp add: protected_ranges_def List.map_filter_def range_of_def Let_def line_char_def list_section_facts
        plain_doc_def list_section_lines)
qed

lemma list_section_strip: "strip (slice 0 253 list_section) = ''- '' @ replicate 250 CHR ''a''"
proof -
  have "slice 0 253 list_section = (''- '' @ replicate 250 CHR ''a'') @ [nl]"
    by (simp add: slice_def list_section_def)
  then show ?thesis by (simp add: strip_def lstrip_def rstrip_def is_space_def dropWhile_append)
qed

lemma list_section_run:
  "map fst (chunk_text list_section 1 64 8 ((plain_doc list_section)\<lparr>pc_list_items := [(1, 1), (2, 2)]\<rparr>))
     = [''- '' @ replicate 250 CHR ''a'', ''-'']"
proof -
  let ?prot = "[(0, 253), (253, 261)]"
  have first: "chunk_loop 256 32 list_section 1 ?prot 0 None []
      = chunk_loop 256 32 list_section 1 ?prot 253 (Some 253) [piece_of list_section 1 0 253]"
    by (subst chunk_loop.simps)
       (simp add: list_section_facts chunk_end_def Let_def list_section_strip next_start0_def skip_protected_def)
  have s0: "slice 253 254 list_section = ''-''" "slice 253 (Suc 253) list_section = ''-''"
    by (simp_all add: slice_def list_section_def)
  have second: "chunk_loop 256 32 list_section 1 ?prot 253 (Some 253) [piece_of list_section 1 0 253]
      = [piece_of list_section 1 0 253, piece_of list_section 1 253 254]"
  proof -
    have "length (rstrip (slice 0 253 list_section)) \<le> 253" using rstrip_slice_length [of 0 253] by simp
    then have "line_char list_section (int (snd (snd (piece_of list_section 1 0 253))) - int 1 + 1) 0 \<le> 253"
      unfolding piece_of_def snd_conv
      by (intro order_trans [OF line_char_le]) (simp_all add: list_section_facts)
    then have n: "next_start0 32 list_section 1 253 254 [piece_of list_section 1 0 253, piece_of list_section 1 253 254] = 254"
      by (simp add: next_start0_def Let_def)
    have st: "strip ''-'' = ''-''" by (simp add: strip_def lstrip_def rstrip_def is_space_def)
    have e: "chunk_end 256 261 ?prot 253 (Some 253) = 254"
      by (simp add: chunk_end_def Let_def)
    have "chunk_loop 256 32 list_section 1 ?prot 261 (Some 254) ps = ps" for ps
      by (subst chunk_loop.simps) (simp add: list_section_facts)
    then show ?thesis
      by (subst chunk_loop.simps)
         (simp add: e n s0 st Let_def skip_protected_def list_section_facts del: One_nat_def)
  qed
  have "strip list_section \<noteq> []"
    unfolding strip_Nil_iff list_section_def by (auto simp: is_space_def)
  then have "chunk_text list_section 1 64 8 ((plain_doc list_section)\<lparr>pc_list_items := [(1, 1), (2, 2)]\<rparr>)
      = [piece_of list_section 1 0 253, piece_of list_section 1 253 254]"
    using first second by (simp add: chunk_text_def list_section_facts list_section_protected del: One_nat_def)
  moreover have "strip ''-'' = ''-''" by (simp add: strip_def lstrip_def rstrip_def is_space_def)
  ultimately show ?thesis by (simp add: piece_of_def list_section_strip s0)
qed

end
