(* ===== verification/Parsers.thy ===== *)
theory Parsers
  imports Chunker
begin

text \<open>
  The document parsers (\<^verbatim>\<open>src/groundgraph/application/ingestion/parsers.py\<close>). Each
  takes the decoded text; for PDF, DOCX and EPUB it takes what the third-party readers deliver (page
  texts, paragraphs, items). Regular expressions are written out as scanners that agree with them,
  backtracking included. The HTML parser is in \<^verbatim>\<open>Html\<close>.
\<close>

section \<open>Markdown: front matter, headings, code blocks\<close>

definition fence :: string where "fence = [CHR 0x60, CHR 0x60, CHR 0x60]"

text \<open>
  A heading at the start of a line, \<^verbatim>\<open>^(#{1,6})\s+(.+)$\<close>: the level, the text and what
  follows the match. White space may run over newlines; with nothing after it the expression gives
  back white space until a character that is not a newline can start the text.
\<close>

fun last_inline :: "string \<Rightarrow> string option" where
  "last_inline [] = None"
| "last_inline (c # s) = (case last_inline s of Some r \<Rightarrow> Some r | None \<Rightarrow> if c = nl then None else Some (c # s))"

definition heading_at :: "string \<Rightarrow> (nat \<times> string \<times> string) option" where
  "heading_at s =
     (let level = length (takeWhile (\<lambda>c. c = CHR ''#'') s); r = drop level s;
          w = takeWhile is_space r; r2 = dropWhile is_space r
      in if level = 0 \<or> 6 < level \<or> w = [] then None
         else if r2 \<noteq> [] then Some (level, strip (takeWhile (\<lambda>c. c \<noteq> nl) r2), dropWhile (\<lambda>c. c \<noteq> nl) r2)
         else (case last_inline (tl w) of
                 None \<Rightarrow> None
               | Some t \<Rightarrow> Some (level, strip (takeWhile (\<lambda>c. c \<noteq> nl) t), dropWhile (\<lambda>c. c \<noteq> nl) t)))"

lemma last_inline_length: "last_inline s = Some r \<Longrightarrow> length r \<le> length s"
  by (induction s arbitrary: r) (auto split: option.splits if_splits simp: le_SucI)

lemma heading_at_shrinks:
  assumes "heading_at s = Some (l, t, r)"
  shows "length r < length s"
proof -
  let ?n = "length (takeWhile (\<lambda>c. c = CHR ''#'') s)"
  have n: "0 < ?n" "?n \<le> length s" using assms length_takeWhile_le [of _ s]
    by (auto simp: heading_at_def Let_def split: if_splits)
  have drp: "length (dropWhile P xs) \<le> length xs" for P and xs :: string by (rule length_dropWhile_le)
  have tk: "length (tl (takeWhile is_space (drop ?n s))) \<le> length (drop ?n s)"
    by (rule order_trans [OF _ length_takeWhile_le [of is_space]]) simp
  from assms consider "r = dropWhile (\<lambda>c. c \<noteq> nl) (dropWhile is_space (drop ?n s))"
    | u where "last_inline (tl (takeWhile is_space (drop ?n s))) = Some u" "r = dropWhile (\<lambda>c. c \<noteq> nl) u"
    by (auto simp: heading_at_def Let_def split: if_splits option.splits)
  then have "length r \<le> length (drop ?n s)"
  proof cases
    case 1
    then show ?thesis using drp order_trans by metis
  next
    case (2 u)
    then show ?thesis using drp last_inline_length tk order_trans by metis
  qed
  then show ?thesis using n unfolding length_drop by linarith
qed

text \<open>\<^verbatim>\<open>finditer\<close>: at every start of a line; after a match the search goes on behind it.\<close>

function scan_headings :: "bool \<Rightarrow> string \<Rightarrow> (nat \<times> string) list" where
  "scan_headings bol [] = []"
| "scan_headings bol (c # s) =
     (case (if bol then heading_at (c # s) else None) of
        Some (level, txt, r) \<Rightarrow> (level, txt) # scan_headings False r
      | None \<Rightarrow> scan_headings (c = nl) s)"
  by pat_completeness auto
termination scan_headings
  by (relation "measure (\<lambda>(_, s). length s)") (auto dest!: heading_at_shrinks split: if_splits)

definition extract_headings :: "string \<Rightarrow> (nat \<times> string) list" where
  "extract_headings body = scan_headings True body"

text \<open>\<^verbatim>\<open>^#\s+(.+)$\<close> at the start of the text.\<close>

definition title_from_first_header :: "string \<Rightarrow> string" where
  "title_from_first_header s =
     (case s of
        c # r \<Rightarrow> if c = CHR ''#'' \<and> r \<noteq> [] \<and> is_space (hd r)
                 then strip (takeWhile (\<lambda>c. c \<noteq> nl) (dropWhile is_space r)) else []
      | [] \<Rightarrow> [])"

text \<open>
  Front matter \<^verbatim>\<open>^---\s*\n.*?\n---\s*\n\<close>: the closing line is the first line of three
  dashes whose white space reaches a newline. \<^verbatim>\<open>ws_lines\<close> is what the white space up to
  its last newline leaves.
\<close>

definition ws_lines :: "string \<Rightarrow> string option" where
  "ws_lines s =
     (let w = takeWhile is_space s
      in if nl \<in> set w then Some (rev (takeWhile (\<lambda>c. c \<noteq> nl) (rev w)) @ dropWhile is_space s) else None)"

fun close_matter :: "string \<Rightarrow> string option" where
  "close_matter [] = None"
| "close_matter (c # s) =
     (if c = nl \<and> startswith s ''---'' \<and> ws_lines (drop 3 s) \<noteq> None then ws_lines (drop 3 s)
      else close_matter s)"

text \<open>The opening white space gives back newlines when the body needs one; the shortest body is
  found from the earliest point, which is the text after the first newline at the latest.\<close>

definition strip_frontmatter :: "string \<Rightarrow> string \<times> string" where
  "strip_frontmatter s =
     (case (if startswith s ''---'' \<and> nl \<in> set (takeWhile is_space (drop 3 s))
            then (case (case ws_lines (drop 3 s) of Some r \<Rightarrow> close_matter r | None \<Rightarrow> None) of
                    Some r \<Rightarrow> Some r
                  | None \<Rightarrow> close_matter (tl (dropWhile (\<lambda>c. c \<noteq> nl) (drop 3 s))))
            else None) of
        Some rest \<Rightarrow> (title_from_first_header rest, s)
      | None \<Rightarrow> (title_from_first_header s, s))"

text \<open>Fences in pairs, by line number.\<close>

fun pair_up :: "nat list \<Rightarrow> (int \<times> int) list" where
  "pair_up (a # b # ns) = (int a, int b) # pair_up ns"
| "pair_up _ = []"

fun fence_lines :: "nat \<Rightarrow> string list \<Rightarrow> nat list" where
  "fence_lines n [] = []"
| "fence_lines n (l # ls) = (if startswith l fence then n # fence_lines (Suc n) ls else fence_lines (Suc n) ls)"

definition extract_code_blocks :: "string \<Rightarrow> (int \<times> int) list" where
  "extract_code_blocks body = pair_up (fence_lines 1 (split_at nl body))"

section \<open>Markdown: tables and list items\<close>

text \<open>\<^verbatim>\<open>^\|[-:| ]+\|$\<close> on a stripped line.\<close>

definition is_separator :: "string \<Rightarrow> bool" where
  "is_separator l \<longleftrightarrow> 3 \<le> length l \<and> hd l = CHR ''|'' \<and> last l = CHR ''|'' \<and>
     list_all (\<lambda>c. c \<in> set ''-:| '') (butlast (tl l))"

definition line_at :: "string list \<Rightarrow> nat \<Rightarrow> string" where
  "line_at ls i = (if i < length ls then strip (ls ! i) else [])"

function table_end :: "string list \<Rightarrow> nat \<Rightarrow> nat" where
  "table_end ls e =
     (if e \<le> length ls \<and> startswith (line_at ls (e - 1)) ''|'' then table_end ls (e + 1) else e)"
  by pat_completeness auto
termination table_end by (relation "measure (\<lambda>(ls, e). Suc (length ls) - e)") auto

declare table_end.simps [simp del]

lemma table_end_ge: "e \<le> table_end ls e"
  by (induction ls e rule: table_end.induct) (subst table_end.simps, auto)

definition table_here :: "string list \<Rightarrow> nat \<Rightarrow> bool" where
  "table_here ls i \<longleftrightarrow> contains ''|'' (line_at ls i) \<and> \<not> startswith (line_at ls i) fence \<and>
     Suc i < length ls \<and> is_separator (line_at ls (Suc i))"

definition table_stop :: "string list \<Rightarrow> nat \<Rightarrow> nat" where
  "table_stop ls i =
     (let e = i + 2; e' = (if e < length ls \<and> is_separator (line_at ls e) then e + 1 else e)
      in table_end ls e')"

lemma table_stop_gt: "i + 2 \<le> table_stop ls i"
  using table_end_ge [of "i + 2" ls] table_end_ge [of "i + 3" ls] by (simp add: table_stop_def Let_def eval_nat_numeral)

function scan_tables :: "string list \<Rightarrow> nat \<Rightarrow> (int \<times> int) list" where
  "scan_tables ls i =
     (if i < length ls then
        if table_here ls i
        then (int (i + 1), int (table_stop ls i) - 1) # scan_tables ls (table_stop ls i)
        else scan_tables ls (i + 1)
      else [])"
  by pat_completeness auto
termination scan_tables
proof (relation "measure (\<lambda>(ls, i). length ls - i)", goal_cases)
  case (2 ls i)
  then show ?case using table_stop_gt [of i ls] by simp
qed simp_all

declare scan_tables.simps [simp del]

definition extract_tables :: "string \<Rightarrow> (int \<times> int) list" where
  "extract_tables body = scan_tables (splitlines body) 0"

definition is_digit :: "char \<Rightarrow> bool" where
  "is_digit c \<longleftrightarrow> (48 :: nat) \<le> of_char c \<and> of_char c \<le> (57 :: nat)"

definition space_then_text :: "string \<Rightarrow> bool" where
  "space_then_text s \<longleftrightarrow> s \<noteq> [] \<and> is_space (hd s) \<and> dropWhile is_space s \<noteq> []"

text \<open>\<^verbatim>\<open>^[-*+]\s+\S|^\d+\.\s+\S\<close> and \<^verbatim>\<open>^\d+\.\<close>.\<close>

definition numbered :: "string \<Rightarrow> bool" where
  "numbered l \<longleftrightarrow> takeWhile is_digit l \<noteq> [] \<and> startswith (dropWhile is_digit l) ''.''"

definition is_list_item :: "string \<Rightarrow> bool" where
  "is_list_item l \<longleftrightarrow>
     (l \<noteq> [] \<and> hd l \<in> set ''-*+'' \<and> space_then_text (tl l)) \<or>
     (numbered l \<and> space_then_text (tl (dropWhile is_digit l)))"

definition indent_of :: "string \<Rightarrow> nat" where
  "indent_of l = length l - length (lstrip l)"

text \<open>The inner loop: the index of the line that ends the item begun with indentation
  \<^verbatim>\<open>ind\<close>.\<close>

function item_end :: "string list \<Rightarrow> nat \<Rightarrow> nat \<Rightarrow> nat" where
  "item_end ls ind j =
     (if j < length ls then
        let next = line_at ls j; ni = indent_of (ls ! j)
        in if next = [] then item_end ls ind (j + 1)
           else if ni > ind \<and> (startswith next ''-'' \<or> startswith next ''*'' \<or> startswith next ''+'' \<or> numbered next)
           then j
           else if ni \<le> ind \<and> \<not> startswith next '' '' then j
           else item_end ls ind (j + 1)
      else j)"
  by pat_completeness auto
termination item_end by (relation "measure (\<lambda>(ls, ind, j). length ls - j)") auto

declare item_end.simps [simp del]

lemma item_end_ge: "j \<le> item_end ls ind j"
proof (induction ls ind j rule: item_end.induct)
  case (1 ls ind j)
  have "j < length ls \<Longrightarrow> item_end ls ind j \<noteq> j \<Longrightarrow> Suc j \<le> item_end ls ind j"
    using 1 by (subst (asm) item_end.simps, subst item_end.simps) (auto simp: Let_def split: if_splits)
  then show ?case using item_end.simps [of ls ind j] by (cases "item_end ls ind j = j") auto
qed

lemma item_end_le: "j \<le> length ls \<Longrightarrow> item_end ls ind j \<le> length ls"
proof (induction ls ind j rule: item_end.induct)
  case (1 ls ind j)
  then show ?case by (subst item_end.simps) (auto simp: Let_def)
qed

function scan_items :: "string list \<Rightarrow> nat \<Rightarrow> (int \<times> int) list" where
  "scan_items ls i =
     (if i < length ls then
        if is_list_item (line_at ls i)
        then let j = item_end ls (indent_of (line_at ls i)) (i + 1)
             in (int (i + 1), int j) # scan_items ls j
        else scan_items ls (i + 1)
      else [])"
  by pat_completeness auto
termination scan_items
proof (relation "measure (\<lambda>(ls, i). length ls - i)", goal_cases)
  case (2 ls i j)
  then show ?case using item_end_ge [of "i + 1" ls "indent_of (line_at ls i)"] by simp
qed simp_all

declare scan_items.simps [simp del]

definition extract_list_items :: "string \<Rightarrow> (int \<times> int) list" where
  "extract_list_items body = scan_items (splitlines body) 0"

section \<open>The parsers\<close>

definition first_line :: "string \<Rightarrow> string" where
  "first_line s = strip (hd (split_at nl s))"

definition parsed :: "string \<Rightarrow> string \<Rightarrow> string \<Rightarrow> (string \<times> json) list \<Rightarrow> parsed_content" where
  "parsed title body media meta =
     \<lparr>pc_title = title, pc_body = body, pc_media_type = media, pc_metadata = meta, pc_headings = [],
      pc_code_blocks = [], pc_tables = [], pc_list_items = []\<rparr>"

definition or_else :: "string \<Rightarrow> string \<Rightarrow> string" where
  "or_else a b = (if a = [] then b else a)"

definition parse_text :: "string \<Rightarrow> parsed_content" where
  "parse_text s = parsed (or_else (take 120 (first_line s)) ''untitled'') s ''text/plain''
     [(''charset'', JStr ''utf-8'')]"

definition parse_markdown :: "string \<Rightarrow> parsed_content" where
  "parse_markdown s =
     (let (title, body) = strip_frontmatter s
      in (parsed (or_else title ''untitled'') body ''text/markdown'' [])
           \<lparr>pc_headings := extract_headings body, pc_code_blocks := extract_code_blocks body,
            pc_tables := extract_tables body, pc_list_items := extract_list_items body\<rparr>)"

text \<open>The state of the loops that read fenced code line by line.\<close>

record fence_state =
  fs_lines :: "string list"
  fs_blocks :: "(int \<times> int) list"
  fs_in_code :: bool
  fs_start :: int

definition fence_start :: fence_state where
  "fence_start = \<lparr>fs_lines = [], fs_blocks = [], fs_in_code = False, fs_start = 0\<rparr>"

definition toggle_fence :: "int \<Rightarrow> fence_state \<Rightarrow> fence_state" where
  "toggle_fence line st =
     (if fs_in_code st then st\<lparr>fs_in_code := False, fs_blocks := fs_blocks st @ [(fs_start st, line)]\<rparr>
      else st\<lparr>fs_in_code := True, fs_start := line\<rparr>)"

text \<open>PDF: fence lines and the lines between fences are not copied to the body.\<close>

definition pdf_line :: "fence_state \<Rightarrow> string \<Rightarrow> fence_state" where
  "pdf_line st line =
     (if startswith (strip line) fence then toggle_fence (int (length (fs_lines st)) + 1) st
      else if \<not> fs_in_code st then st\<lparr>fs_lines := fs_lines st @ [line @ [nl]]\<rparr>
      else st)"

definition pdf_page :: "fence_state \<Rightarrow> string \<Rightarrow> fence_state" where
  "pdf_page st page = (if strip page = [] then st else foldl pdf_line st (splitlines page))"

definition parse_pdf :: "exn + bool \<times> string list \<Rightarrow> exn + parsed_content" where
  "parse_pdf reader =
     (case reader of
        Inl e \<Rightarrow> Inl (UnsupportedFormat ''parse_error'' (exn_str e))
      | Inr (encrypted, pages) \<Rightarrow>
         if encrypted then Inl (UnsupportedFormat ''pdf_encrypted'' [])
         else let st = foldl pdf_page fence_start pages; body = concat (fs_lines st)
              in if strip body = [] then Inl (UnsupportedFormat ''pdf_no_text_layer'' [])
                 else Inr ((parsed (or_else (take 120 (first_line body)) ''PDF page 1'') body ''application/pdf''
                       [(''page_count'', JInt (int (length pages)))])\<lparr>pc_code_blocks := fs_blocks st\<rparr>))"

text \<open>DOCX: a paragraph is its text and the name of its style, if any.\<close>

definition docx_para :: "fence_state \<Rightarrow> string \<times> string option \<Rightarrow> fence_state" where
  "docx_para st p =
     (let txt = fst p; line = int (length (fs_lines st)) + 1;
          code_style = (case snd p of Some n \<Rightarrow> n \<noteq> [] \<and> contains ''Code'' n | None \<Rightarrow> False);
          add = (\<lambda>l st. st\<lparr>fs_lines := fs_lines st @ [l]\<rparr>)
      in if strip txt = [] then add [nl] st
         else if startswith (strip txt) fence then add (txt @ [nl]) (toggle_fence line st)
         else if fs_in_code st then add (txt @ [nl]) st
         else if code_style then add (fence @ [nl] @ txt @ [nl] @ fence @ [nl]) st
         else add (txt @ [nl]) st)"

definition parse_docx ::
  "exn + (string \<times> string option) list \<times> nat list \<times> string option \<Rightarrow> exn + parsed_content" where
  "parse_docx doc =
     (case doc of
        Inl e \<Rightarrow> Inl (UnsupportedFormat ''docx_parse_error'' (exn_str e))
      | Inr (paras, table_rows, core_title) \<Rightarrow>
         let st = foldl docx_para fence_start paras; body = concat (fs_lines st); rows = sum_list table_rows;
             title0 = (case core_title of Some t \<Rightarrow> t | None \<Rightarrow> []);
             title = (if title0 = [] then or_else (take 120 (first_line body)) ''untitled'' else title0)
         in if strip body = [] then Inl (UnsupportedFormat ''empty_content'' [])
            else Inr ((parsed title body ''application/vnd.openxmlformats-officedocument.wordprocessingml.document''
                   [(''paragraph_count'', JInt (int (length paras))),
                    (''table_count'', JInt (int (length table_rows)))])
                  \<lparr>pc_code_blocks := fs_blocks st, pc_tables := (if rows > 0 then [(0, int rows)] else [])\<rparr>))"

text \<open>EPUB: tags are removed and white space is collapsed before the lines are looked at.\<close>

function strip_tags :: "string \<Rightarrow> string" where
  "strip_tags [] = []"
| "strip_tags (c # s) =
     (let inner = takeWhile (\<lambda>d. d \<noteq> CHR ''>'') s; rest = dropWhile (\<lambda>d. d \<noteq> CHR ''>'') s
      in if c = CHR ''<'' \<and> inner \<noteq> [] \<and> rest \<noteq> [] then strip_tags (tl rest) else c # strip_tags s)"
  by pat_completeness auto
termination strip_tags
  by (relation "measure length") (auto simp: less_Suc_eq_le intro: order_trans [OF diff_le_self length_dropWhile_le])

function collapse_space :: "string \<Rightarrow> string" where
  "collapse_space [] = []"
| "collapse_space (c # s) =
     (if is_space c then CHR '' '' # collapse_space (dropWhile is_space s) else c # collapse_space s)"
  by pat_completeness auto
termination collapse_space by (relation "measure length") (auto simp: less_Suc_eq_le length_dropWhile_le)

definition strip_html_tags :: "string \<Rightarrow> string" where
  "strip_html_tags s = strip (collapse_space (strip_tags s))"

record epub_state =
  ep_fence :: fence_state
  ep_headings :: "(nat \<times> string) list"
  ep_offset :: nat

definition epub_line :: "epub_state \<Rightarrow> string \<Rightarrow> epub_state" where
  "epub_line st line =
     (let line_no = ep_offset st + 1; stripped = strip line;
          level = length (takeWhile (\<lambda>c. c = CHR ''#'') stripped);
          txt = strip (dropWhile (\<lambda>c. c = CHR ''#'') stripped);
          add = (\<lambda>st. st\<lparr>ep_fence := (ep_fence st)\<lparr>fs_lines := fs_lines (ep_fence st) @ [line @ [nl]]\<rparr>\<rparr>);
          st1 = (if startswith stripped ''#''
                 then add (if 1 \<le> level \<and> level \<le> 6 then st\<lparr>ep_headings := ep_headings st @ [(level, txt)]\<rparr> else st)
                 else if startswith stripped fence
                 then add (st\<lparr>ep_fence := toggle_fence (int line_no) (ep_fence st)\<rparr>)
                 else add st)
      in st1\<lparr>ep_offset := line_no\<rparr>)"

text \<open>An item is \<^verbatim>\<open>None\<close> when it is not a document or its content cannot be read.\<close>

definition epub_item :: "epub_state \<Rightarrow> string option \<Rightarrow> epub_state" where
  "epub_item st item =
     (case item of
        None \<Rightarrow> st
      | Some content \<Rightarrow>
          let txt = strip_html_tags content
          in if strip txt = [] then st else foldl epub_line st (splitlines txt))"

definition epub_start :: epub_state where
  "epub_start = \<lparr>ep_fence = fence_start, ep_headings = [], ep_offset = 0\<rparr>"

definition parse_epub :: "exn + string list \<times> string option list \<Rightarrow> exn + parsed_content" where
  "parse_epub book =
     (case book of
        Inl e \<Rightarrow> Inl (UnsupportedFormat ''epub_parse_error'' (exn_str e))
      | Inr (titles, items) \<Rightarrow>
         let title = (case titles of [] \<Rightarrow> ''untitled'' | t # _ \<Rightarrow> t);
             st = foldl epub_item epub_start items; body = concat (fs_lines (ep_fence st))
         in if strip body = [] then Inl (UnsupportedFormat ''empty_content'' [])
            else Inr ((parsed (or_else (take 120 title) ''untitled'') body ''application/epub+zip''
                   [(''chapter_count'', JInt (int (length items)))])
                  \<lparr>pc_headings := ep_headings st, pc_code_blocks := fs_blocks (ep_fence st)\<rparr>))"

text \<open>Source code: definitions by line. A rule is a prefix, the character the line must hold,
  the characters that end the name and the label. The \<^verbatim>\<open>heading level\<close> is the number
  of the line.\<close>

type_synonym def_rule = "string \<times> char \<times> string \<times> string"

definition rule_applies :: "string \<Rightarrow> def_rule \<Rightarrow> bool" where
  "rule_applies stripped r = (case r of (prefix, need, stops, label) \<Rightarrow>
     startswith stripped prefix \<and> need \<in> set stripped)"

definition rule_label :: "string \<Rightarrow> def_rule \<Rightarrow> string" where
  "rule_label stripped r = (case r of (prefix, need, stops, label) \<Rightarrow>
     label @ strip (takeWhile (\<lambda>c. c \<notin> set stops) (drop (length prefix) stripped)))"

definition definition_of :: "def_rule list \<Rightarrow> string \<Rightarrow> string option" where
  "definition_of rules line = map_option (rule_label (strip line)) (find (rule_applies (strip line)) rules)"

definition py_rules :: "def_rule list" where
  "py_rules =
     [(''class '', CHR '':'', ''(:'', ''class ''), (''def '', CHR ''('', ''('', ''def ''),
      (''async def '', CHR ''('', ''('', ''async def '')]"

definition ts_rules :: "def_rule list" where
  "ts_rules =
     [(''class '', CHR ''{'', ''{<'', ''class ''), (''function '', CHR ''('', ''('', ''function ''),
      (''export class '', CHR ''{'', ''{<'', ''export class ''),
      (''export function '', CHR ''('', ''('', ''export function ''),
      (''interface '', CHR ''{'', ''{<'', ''interface ''), (''type '', CHR ''='', ''='', ''type '')]"

definition ts_title_rules :: "def_rule list" where
  "ts_title_rules =
     [(''class '', CHR ''{'', ''{'', ''class ''), (''function '', CHR ''('', ''('', ''function ''),
      (''export class '', CHR ''{'', ''{'', ''class ''),
      (''export function '', CHR ''('', ''('', ''function ''),
      (''interface '', CHR ''{'', ''{'', ''interface ''), (''type '', CHR ''='', ''='', ''type '')]"

fun headings_from_code :: "def_rule list \<Rightarrow> nat \<Rightarrow> string list \<Rightarrow> (nat \<times> string) list" where
  "headings_from_code rules i [] = []"
| "headings_from_code rules i (l # ls) =
     (case definition_of rules l of
        Some h \<Rightarrow> (i, h) # headings_from_code rules (Suc i) ls
      | None \<Rightarrow> headings_from_code rules (Suc i) ls)"

fun code_fences :: "nat \<Rightarrow> fence_state \<Rightarrow> string list \<Rightarrow> (int \<times> int) list" where
  "code_fences i st [] = fs_blocks st"
| "code_fences i st (l # ls) =
     code_fences (Suc i) (if startswith (strip l) fence then toggle_fence (int i) st else st) ls"

definition nonempty :: "string \<Rightarrow> string option" where
  "nonempty s = (if s = [] then None else Some s)"

definition py_title_from_filename :: "string \<Rightarrow> string option" where
  "py_title_from_filename s =
     (let l = first_line s
      in if startswith l ''# '' \<or> startswith l ''#!'' then nonempty (strip (slice 2 120 l)) else None)"

definition ts_title_from_comment :: "string list \<Rightarrow> string option" where
  "ts_title_from_comment ls =
     (case find (\<lambda>l. startswith (strip l) ''// '') ls of
        Some l \<Rightarrow> nonempty (strip (slice 3 120 (strip l))) | None \<Rightarrow> None)"

definition pick_title :: "string option \<Rightarrow> string option \<Rightarrow> string" where
  "pick_title a b = (case Option.bind a nonempty of Some t \<Rightarrow> t | None \<Rightarrow>
     (case b of Some t \<Rightarrow> t | None \<Rightarrow> ''untitled''))"

definition parse_py :: "string \<Rightarrow> parsed_content" where
  "parse_py s =
     (let ls = splitlines s
      in (parsed (pick_title (first_some (definition_of py_rules) ls) (py_title_from_filename s)) s ''text/x-python''
            [(''language'', JStr ''python''), (''line_count'', JInt (int (length ls)))])
         \<lparr>pc_headings := headings_from_code py_rules 1 ls, pc_code_blocks := code_fences 1 fence_start ls\<rparr>)"

definition parse_ts :: "string \<Rightarrow> parsed_content" where
  "parse_ts s =
     (let ls = splitlines s
      in (parsed (pick_title (first_some (definition_of ts_title_rules) ls) (ts_title_from_comment ls)) s ''text/typescript''
            [(''language'', JStr ''typescript''), (''line_count'', JInt (int (length ls)))])
         \<lparr>pc_headings := headings_from_code ts_rules 1 ls, pc_code_blocks := code_fences 1 fence_start ls\<rparr>)"

text \<open>\<^verbatim>\<open>ParserRegistry.get_with_reason\<close> on the parsers registered at import.\<close>

definition registered :: "string list" where
  "registered = [''text/plain'', ''text/markdown'', ''text/html'', ''application/pdf'',
     ''application/vnd.openxmlformats-officedocument.wordprocessingml.document'', ''application/epub+zip'',
     ''text/x-python'', ''text/typescript'']"

definition get_with_reason :: "string \<Rightarrow> exn + string" where
  "get_with_reason media =
     (if media \<in> set registered then Inr media
      else Inl (UnsupportedFormat ''unsupported_media_type'' media))"

section \<open>Lemmas\<close>

definition ranges_ok :: "nat \<Rightarrow> int \<Rightarrow> (int \<times> int) list \<Rightarrow> bool" where
  "ranges_ok hi lo rs \<longleftrightarrow>
     (\<forall>(a, b) \<in> set rs. lo < a \<and> a \<le> b \<and> b \<le> int hi) \<and> sorted_wrt (\<lambda>r r'. snd r < fst r') rs"

lemma ranges_ok_Nil [simp]: "ranges_ok hi lo []"
  by (simp add: ranges_ok_def)

lemma ranges_ok_Cons:
  "lo < a \<Longrightarrow> a \<le> b \<Longrightarrow> b \<le> int hi \<Longrightarrow> ranges_ok hi b rs \<Longrightarrow> ranges_ok hi lo ((a, b) # rs)"
  by (fastforce simp: ranges_ok_def)

lemma ranges_ok_mono: "ranges_ok hi lo rs \<Longrightarrow> lo' \<le> lo \<Longrightarrow> ranges_ok hi lo' rs"
  by (fastforce simp: ranges_ok_def)

lemma scan_items_ok: "ranges_ok (length ls) (int i) (scan_items ls i)"
proof (induction ls i rule: scan_items.induct)
  case (1 ls i)
  let ?j = "item_end ls (indent_of (line_at ls i)) (i + 1)"
  show ?case
  proof (cases "i < length ls \<and> is_list_item (line_at ls i)")
    case True
    then have "i + 1 \<le> ?j" "?j \<le> length ls" using item_end_ge item_end_le [of "i + 1" ls] by auto
    moreover have "ranges_ok (length ls) (int ?j) (scan_items ls ?j)" using 1(1) True by simp
    moreover have "scan_items ls i = (int (i + 1), int ?j) # scan_items ls ?j"
      using True by (subst scan_items.simps) (simp add: Let_def)
    ultimately show ?thesis by (auto intro!: ranges_ok_Cons)
  next
    case False
    then have "scan_items ls i = (if i < length ls then scan_items ls (i + 1) else [])"
      by (subst scan_items.simps) simp
    then show ?thesis using 1(2) False by (auto intro: ranges_ok_mono)
  qed
qed

lemma table_end_bound: "e \<le> Suc (length ls) \<Longrightarrow> table_end ls e \<le> Suc (length ls)"
proof (induction ls e rule: table_end.induct)
  case (1 ls e)
  then show ?case by (subst table_end.simps) auto
qed

lemma scan_tables_ok: "ranges_ok (length ls) (int i) (scan_tables ls i)"
proof (induction ls i rule: scan_tables.induct)
  case (1 ls i)
  let ?j = "table_stop ls i"
  show ?case
  proof (cases "i < length ls \<and> table_here ls i")
    case True
    then have "i + 2 \<le> length ls" by (simp add: table_here_def)
    then have "?j \<le> Suc (length ls)"
      by (auto simp: table_stop_def Let_def intro!: table_end_bound)
    moreover have "i + 2 \<le> ?j" by (rule table_stop_gt)
    moreover have "ranges_ok (length ls) (int ?j) (scan_tables ls ?j)" using 1(1) True by simp
    moreover have "scan_tables ls i = (int (i + 1), int ?j - 1) # scan_tables ls ?j"
      using True by (subst scan_tables.simps) simp
    ultimately show ?thesis by (auto intro!: ranges_ok_Cons intro: ranges_ok_mono)
  next
    case False
    then have "scan_tables ls i = (if i < length ls then scan_tables ls (i + 1) else [])"
      by (subst scan_tables.simps) simp
    then show ?thesis using 1(2) False by (auto intro: ranges_ok_mono)
  qed
qed

lemma fence_lines_sorted:
  "sorted_wrt (<) (fence_lines n ls) \<and> (\<forall>k \<in> set (fence_lines n ls). n \<le> k \<and> k < n + length ls)"
proof (induction n ls rule: fence_lines.induct)
  case (2 n l ls)
  then have "sorted_wrt (<) (fence_lines (Suc n) ls)"
    "\<forall>k \<in> set (fence_lines (Suc n) ls). n < k \<and> k < Suc (n + length ls)"
    by (cases "startswith l fence"; simp add: Suc_le_eq)+
  then show ?case by (auto intro: less_imp_le)
qed simp

lemma pair_up_ok:
  "sorted_wrt (<) ns \<Longrightarrow> \<forall>k \<in> set ns. lo < int k \<and> k \<le> hi \<Longrightarrow> ranges_ok hi lo (pair_up ns)"
proof (induction ns arbitrary: lo rule: pair_up.induct)
  case (1 a b ns)
  then have "ranges_ok hi (int b) (pair_up ns)" by (intro 1(1)) auto
  then show ?case using 1(2,3) by (auto intro!: ranges_ok_Cons)
qed simp_all

lemma extract_code_blocks_ok: "ranges_ok (Suc (count_nl body)) 0 (extract_code_blocks body)"
proof -
  have "length (split_at nl s) = Suc (count_nl s)" for s
    by (induction s) (auto split: list.splits)
  then show ?thesis unfolding extract_code_blocks_def
    using fence_lines_sorted [of 1 "split_at nl body"] by (intro pair_up_ok) auto
qed

lemma collapse_no_break: "c \<in> set (collapse_space s) \<Longrightarrow> \<not> is_break c"
proof (induction s rule: collapse_space.induct)
  case (2 c' s)
  show ?case
  proof (cases "is_space c'")
    case True
    then show ?thesis using 2 by (auto simp: is_break_def)
  next
    case False
    then have "\<not> is_break c'" by (auto simp: is_space_def is_break_def Let_def)
    then show ?thesis using 2 False by auto
  qed
qed simp

lemma set_strip: "set (strip s) \<subseteq> set s"
  using strip_infix [of s] by (metis Un_subset_iff set_append sup.cobounded2 subset_trans sup_ge1)

lemma epub_text_one_line: "strip_html_tags s \<noteq> [] \<Longrightarrow> splitlines (strip_html_tags s) = [strip_html_tags s]"
proof -
  assume ne: "strip_html_tags s \<noteq> []"
  have nb: "\<forall>c \<in> set (strip_html_tags s). \<not> is_break c"
    using set_strip collapse_no_break unfolding strip_html_tags_def by blast
  then have "splitlines_keep (strip_html_tags s) = [strip_html_tags s]"
    using split_keep_last [OF nb, of "[]"] ne by (simp add: splitlines_keep_def)
  moreover have "\<not> is_break (last (strip_html_tags s))" using nb ne by simp
  moreover from this have "last (strip_html_tags s) \<noteq> nl" by auto
  ultimately show ?thesis using ne by (simp add: splitlines_def chop_end_def)
qed

lemma epub_line_adds: "length (fs_lines (ep_fence (epub_line st l))) = Suc (length (fs_lines (ep_fence st)))"
  by (simp add: epub_line_def Let_def toggle_fence_def)

lemma pdf_in_code:
  "fs_in_code st \<Longrightarrow> \<forall>l \<in> set ls. \<not> startswith (strip l) fence \<Longrightarrow> foldl pdf_line st ls = st"
  by (induction ls) (auto simp: pdf_line_def)

section \<open>Properties\<close>

text \<open>The protected ranges the Markdown parser hands to the chunker are well formed: code
  blocks, tables and list items are line ranges inside the text, from a first to a last line, and the
  ranges of one kind are in order and do not overlap.\<close>

theorem markdown_ranges_ok:
  "(\<forall>(a, b) \<in> set (extract_code_blocks body). 0 < a \<and> a \<le> b \<and> b \<le> int (Suc (count_nl body))) \<and>
   (\<forall>(a, b) \<in> set (extract_tables body @ extract_list_items body).
      0 < a \<and> a \<le> b \<and> b \<le> int (length (splitlines body))) \<and>
   sorted_wrt (\<lambda>r r'. snd r < fst r') (extract_code_blocks body) \<and>
   sorted_wrt (\<lambda>r r'. snd r < fst r') (extract_tables body) \<and>
   sorted_wrt (\<lambda>r r'. snd r < fst r') (extract_list_items body)"
  using extract_code_blocks_ok [of body] scan_tables_ok [of "splitlines body" 0] scan_items_ok [of "splitlines body" 0]
  unfolding ranges_ok_def extract_tables_def extract_list_items_def by fastforce

theorem markdown_ranges_ok_witness:
  "0 < (1 :: int) \<and> extract_list_items (''- a'' @ [nl] @ ''- b'') = [(1, 1), (2, 2)] \<and>
   sorted_wrt (\<lambda>r r'. snd r < fst r') (extract_list_items (''- a'' @ [nl] @ ''- b''))"
  using markdown_ranges_ok [of "''- a'' @ [nl] @ ''- b''"]
  by (simp add: extract_list_items_def splitlines_def splitlines_keep_def is_break_def chop_end_def
      scan_items.simps item_end.simps line_at_def strip_def lstrip_def rstrip_def is_space_def
      is_list_item_def space_then_text_def numbered_def is_digit_def indent_of_def)

text \<open>Text is lost from PDF files. On a page, the lines after an opening fence are not copied to
  the body, and if no fence closes them, neither is anything else on that page.\<close>

theorem pdf_fenced_text_dropped:
  assumes "\<not> fs_in_code st" and "startswith (strip f) fence" and "\<forall>l \<in> set code. \<not> startswith (strip l) fence"
  shows "fs_lines (foldl pdf_line st (f # code)) = fs_lines st \<and>
    (startswith (strip g) fence \<longrightarrow> fs_lines (foldl pdf_line st (f # code @ [g])) = fs_lines st)"
proof -
  let ?st = "pdf_line st f"
  have st: "fs_in_code ?st" "fs_lines ?st = fs_lines st"
    using assms by (simp_all add: pdf_line_def toggle_fence_def)
  then have c: "foldl pdf_line ?st code = ?st" using pdf_in_code assms(3) by blast
  then show ?thesis using st by (auto simp: pdf_line_def toggle_fence_def)
qed

theorem pdf_fenced_text_dropped_witness:
  "fs_lines (foldl pdf_line fence_start [fence, ''x = 1'', ''all the rest'']) = []"
proof -
  have "startswith (strip fence) fence" by (simp add: fence_def strip_def lstrip_def rstrip_def is_space_def)
  moreover have "\<forall>l \<in> set [''x = 1'', ''all the rest'']. \<not> startswith (strip l) fence"
    by (simp add: fence_def strip_def lstrip_def rstrip_def is_space_def)
  moreover have "\<not> fs_in_code fence_start" by (simp add: fence_start_def)
  ultimately show ?thesis
    using pdf_fenced_text_dropped [of fence_start fence "[''x = 1'', ''all the rest'']"]
    by (simp add: fence_start_def)
qed

text \<open>White space of an EPUB item, newlines included, is collapsed before the lines are looked
  at, so every item that has text gives exactly one line: its headings, code fences and paragraphs
  are never seen separately.\<close>

theorem epub_item_one_line:
  "fs_lines (ep_fence (epub_item st (Some content)))
     = fs_lines (ep_fence st) @ (if strip_html_tags content = [] then [] else [strip_html_tags content @ [nl]])"
proof (cases "strip_html_tags content = []")
  case True
  then show ?thesis by (simp add: epub_item_def strip_def lstrip_def rstrip_def)
next
  case False
  let ?t = "strip_html_tags content"
  have "strip ?t \<noteq> []" using False by (simp add: strip_html_tags_def)
  then show ?thesis using False epub_text_one_line [OF False]
    by (simp add: epub_item_def Let_def epub_line_def toggle_fence_def)
qed

end
