(* ===== verification/Platform.thy ===== *)
theory Platform
  imports Json
begin

text \<open>
  What every layer uses: the error hierarchy and the result envelope
  (\<^verbatim>\<open>application/errors.py\<close>, \<^verbatim>\<open>application/result.py\<close>), the settings
  with their validators (\<^verbatim>\<open>application/settings.py\<close>), the redaction helpers of
  \<^verbatim>\<open>infrastructure/telemetry.py\<close> and the health service
  (\<^verbatim>\<open>application/health.py\<close>). The OpenTelemetry SDK and the environment are outside
  the model.
\<close>

section \<open>Errors (errors.py, result.py)\<close>

datatype error_code =
    VALIDATION_ERROR | CONFIGURATION_ERROR | NOT_FOUND | ALREADY_EXISTS | CONFLICT | UNAUTHORIZED | FORBIDDEN
  | RATE_LIMITED | UPSTREAM_TIMEOUT | UPSTREAM_UNAVAILABLE | STRUCTURED_OUTPUT_INVALID
  | EMBEDDING_DIMENSION_MISMATCH | INSUFFICIENT_EVIDENCE | CONFLICTING_EVIDENCE | ONTOLOGY_VIOLATION
  | AUTHORIZATION_LEAK | INTERNAL_ERROR

fun code_value :: "error_code \<Rightarrow> string" where
  "code_value VALIDATION_ERROR = ''validation_error''"
| "code_value CONFIGURATION_ERROR = ''configuration_error''"
| "code_value NOT_FOUND = ''not_found''"
| "code_value ALREADY_EXISTS = ''already_exists''"
| "code_value CONFLICT = ''conflict''"
| "code_value UNAUTHORIZED = ''unauthorized''"
| "code_value FORBIDDEN = ''forbidden''"
| "code_value RATE_LIMITED = ''rate_limited''"
| "code_value UPSTREAM_TIMEOUT = ''upstream_timeout''"
| "code_value UPSTREAM_UNAVAILABLE = ''upstream_unavailable''"
| "code_value STRUCTURED_OUTPUT_INVALID = ''structured_output_invalid''"
| "code_value EMBEDDING_DIMENSION_MISMATCH = ''embedding_dimension_mismatch''"
| "code_value INSUFFICIENT_EVIDENCE = ''insufficient_evidence''"
| "code_value CONFLICTING_EVIDENCE = ''conflicting_evidence''"
| "code_value ONTOLOGY_VIOLATION = ''ontology_violation''"
| "code_value AUTHORIZATION_LEAK = ''authorization_leak''"
| "code_value INTERNAL_ERROR = ''internal_error''"

datatype error_class =
    GraphRAGError | ConfigurationError | ValidationError | NotFoundError | ConflictError
  | ConcurrencyConflictError | InvalidTransitionError | UnauthorizedError | ForbiddenError | UpstreamTimeoutError
  | UpstreamUnavailableError | StructuredOutputInvalidError | EmbeddingDimensionMismatchError
  | InsufficientEvidenceError | ConflictingEvidenceError | OntologyViolationError | AuthorizationLeakError

text \<open>Class attributes, the inherited ones included.\<close>

fun class_code :: "error_class \<Rightarrow> error_code" where
  "class_code GraphRAGError = INTERNAL_ERROR"
| "class_code ConfigurationError = CONFIGURATION_ERROR"
| "class_code ValidationError = VALIDATION_ERROR"
| "class_code NotFoundError = NOT_FOUND"
| "class_code ConflictError = CONFLICT"
| "class_code ConcurrencyConflictError = CONFLICT"
| "class_code InvalidTransitionError = VALIDATION_ERROR"
| "class_code UnauthorizedError = UNAUTHORIZED"
| "class_code ForbiddenError = FORBIDDEN"
| "class_code UpstreamTimeoutError = UPSTREAM_TIMEOUT"
| "class_code UpstreamUnavailableError = UPSTREAM_UNAVAILABLE"
| "class_code StructuredOutputInvalidError = STRUCTURED_OUTPUT_INVALID"
| "class_code EmbeddingDimensionMismatchError = EMBEDDING_DIMENSION_MISMATCH"
| "class_code InsufficientEvidenceError = INSUFFICIENT_EVIDENCE"
| "class_code ConflictingEvidenceError = CONFLICTING_EVIDENCE"
| "class_code OntologyViolationError = ONTOLOGY_VIOLATION"
| "class_code AuthorizationLeakError = AUTHORIZATION_LEAK"

definition retryable :: "error_class \<Rightarrow> bool" where
  "retryable c \<longleftrightarrow> c \<in> {UpstreamTimeoutError, UpstreamUnavailableError}"

fun safe_message :: "error_class \<Rightarrow> string" where
  "safe_message GraphRAGError = ''An internal error occurred.''"
| "safe_message ConfigurationError = ''Service is not configured correctly.''"
| "safe_message ValidationError = ''Request input is invalid.''"
| "safe_message NotFoundError = ''The requested resource was not found.''"
| "safe_message ConflictError = ''The request conflicts with current state.''"
| "safe_message ConcurrencyConflictError = ''The resource changed before the update could be applied.''"
| "safe_message InvalidTransitionError = ''The requested state transition is invalid.''"
| "safe_message UnauthorizedError = ''Authentication is required.''"
| "safe_message ForbiddenError = ''You are not allowed to perform this action.''"
| "safe_message UpstreamTimeoutError = ''An upstream dependency timed out.''"
| "safe_message UpstreamUnavailableError = ''An upstream dependency is unavailable.''"
| "safe_message StructuredOutputInvalidError = ''Model output could not be parsed into a structured response.''"
| "safe_message EmbeddingDimensionMismatchError = ''Embedding dimension does not match the configured index.''"
| "safe_message InsufficientEvidenceError = ''There is not enough supported evidence to answer.''"
| "safe_message ConflictingEvidenceError = ''Sources conflict; the answer cannot be safely produced.''"
| "safe_message OntologyViolationError = ''The fact violates ontology constraints.''"
| "safe_message AuthorizationLeakError = ''An authorization boundary was violated.''"

record app_error =
  ae_class :: error_class
  ae_message :: string
  ae_details :: "(string \<times> json) list"

definition mk_error :: "error_class \<Rightarrow> string \<Rightarrow> (string \<times> json) list option \<Rightarrow> app_error" where
  "mk_error c message details =
     \<lparr>ae_class = c, ae_message = (if message = [] then safe_message c else message),
      ae_details = (case details of Some d \<Rightarrow> d | None \<Rightarrow> [])\<rparr>"

definition to_dict :: "app_error \<Rightarrow> (string, json) dict" where
  "to_dict e =
     [(''code'', JStr (code_value (class_code (ae_class e)))), (''message'', JStr (safe_message (ae_class e))),
      (''retryable'', JBool (retryable (ae_class e))), (''details'', JObj (ae_details e))]"

text \<open>The internal message never reaches the envelope.\<close>

lemma to_dict_hides_message: "to_dict (mk_error c m d) = to_dict (mk_error c m' d)"
  by (simp add: to_dict_def mk_error_def)

lemma code_value_inject: "code_value a = code_value b \<longleftrightarrow> a = b"
  by (cases a; cases b) simp_all

datatype ('t, 'e) envelope = Ok 't | Err 'e

fun env_is_ok :: "('t, 'e) envelope \<Rightarrow> bool" where
  "env_is_ok (Ok _) = True"
| "env_is_ok (Err _) = False"

fun env_is_err :: "('t, 'e) envelope \<Rightarrow> bool" where
  "env_is_err (Ok _) = False"
| "env_is_err (Err _) = True"

definition to_error_dict :: "error_code \<Rightarrow> string \<Rightarrow> bool \<Rightarrow> (string, json) dict" where
  "to_error_dict code message retry =
     [(''code'', JStr (code_value code)), (''message'', JStr message), (''retryable'', JBool retry)]"

section \<open>Settings (settings.py)\<close>

datatype app_env = Development | TestEnv | Staging | Production
datatype auth_mode = LocalAuth | HeaderAuth | OidcAuth

text \<open>The fields the modelled code reads.\<close>

record settings =
  s_env :: app_env
  s_cors :: string
  s_pg_host :: string
  s_pg_port :: nat
  s_pg_db :: string
  s_pg_user :: string
  s_pg_password :: string
  s_neo4j_password :: string
  s_s3_secret :: string
  s_openai_key :: string
  s_embedding_model :: string
  s_embedding_dims :: int
  s_index_name :: string
  s_generation_model :: string
  s_otlp_insecure :: bool
  s_metric_interval :: int
  s_vector_top_k :: int
  s_keyword_top_k :: int
  s_graph_depth_max :: int
  s_final_limit :: int
  s_sample_rate :: rat
  s_redact :: string
  s_auth_mode :: auth_mode
  s_default_principal :: string
  s_default_tenant :: string
  s_trusted_headers :: bool
  s_jwks_url :: "string option"
  s_issuer :: "string option"
  s_audience :: "string option"

definition placeholder :: string where
  "placeholder = ''change-me-local-only''"

definition default_settings :: settings where
  "default_settings =
     \<lparr>s_env = Development, s_cors = ''http://localhost:3000'', s_pg_host = ''localhost'', s_pg_port = 5432,
      s_pg_db = ''groundgraph'', s_pg_user = ''groundgraph'', s_pg_password = placeholder,
      s_neo4j_password = placeholder, s_s3_secret = placeholder, s_openai_key = [],
      s_embedding_model = ''text-embedding-3-small'', s_embedding_dims = 1536, s_index_name = ''default'',
      s_generation_model = ''gpt-4o-mini'', s_otlp_insecure = True, s_metric_interval = 60000,
      s_vector_top_k = 30, s_keyword_top_k = 20, s_graph_depth_max = 3, s_final_limit = 12, s_sample_rate = 1,
      s_redact = ''password,token,secret,api_key,authorization'', s_auth_mode = LocalAuth,
      s_default_principal = ''engineering'', s_default_tenant = ''default'', s_trusted_headers = False,
      s_jwks_url = None, s_issuer = None, s_audience = None\<rparr>"

text \<open>The problems \<^verbatim>\<open>_production_fail_closed\<close> collects.\<close>

definition production_problems :: "settings \<Rightarrow> string list" where
  "production_problems s =
     (if s_openai_key s = [] then [''OPENAI_API_KEY is empty in production''] else []) @
     (if placeholder \<in> {s_pg_password s, s_neo4j_password s, s_s3_secret s}
      then [''a default placeholder secret is still in use''] else []) @
     (if s_otlp_insecure s then [''OTEL_EXPORTER_OTLP_INSECURE=true in production''] else []) @
     (if s_auth_mode s = LocalAuth then [''AUTH_MODE=local in production''] else []) @
     (if s_trusted_headers s
      then [''AUTH_TRUSTED_HEADERS=true in production: principals are '' @
            ''sourced from headers and must be set by a trusted proxy''] else [])"

definition mk_settings :: "settings \<Rightarrow> exn + settings" where
  "mk_settings s =
     (if \<not> (1000 \<le> s_metric_interval s \<and> s_metric_interval s \<le> 300000)
      then Inl (ValueError ''otel_metric_export_interval_ms out of range'')
      else if s_graph_depth_max s > 3 then Inl (ValueError ''graph_depth_max must be <= 3 in MVP'')
      else if \<not> (0 \<le> s_sample_rate s \<and> s_sample_rate s \<le> 1)
      then Inl (ValueError ''telemetry_sample_rate must be between 0 and 1'')
      else if s_env s = Production \<and> production_problems s \<noteq> []
      then Inl (ValueError (''Production configuration is unsafe: '' @ join_with ''; '' (production_problems s)))
      else Inr s)"

text \<open>\<^verbatim>\<open>s.split(",")\<close> with the parts stripped and the empty ones dropped.\<close>

fun split_comma :: "string \<Rightarrow> string list" where
  "split_comma [] = [[]]"
| "split_comma (c # cs) =
     (if c = CHR '','' then [] # split_comma cs
      else case split_comma cs of [] \<Rightarrow> [[c]] | p # ps \<Rightarrow> (c # p) # ps)"

definition csv_list :: "string \<Rightarrow> string list" where
  "csv_list s = filter (\<lambda>p. p \<noteq> []) (map strip (split_comma s))"

definition cors_origins_list :: "settings \<Rightarrow> string list" where
  "cors_origins_list s = csv_list (s_cors s)"

definition redact_patterns_list :: "settings \<Rightarrow> string list" where
  "redact_patterns_list s = csv_list (s_redact s)"

definition postgres_dsn :: "string \<Rightarrow> settings \<Rightarrow> string" where
  "postgres_dsn driver s =
     ''postgresql+'' @ driver @ ''://'' @ s_pg_user s @ '':'' @ s_pg_password s @ ''@'' @ s_pg_host s @ '':'' @
     show_nat (s_pg_port s) @ ''/'' @ s_pg_db s"

definition is_production :: "settings \<Rightarrow> bool" where
  "is_production s \<longleftrightarrow> s_env s = Production"

lemma mk_settings_ok:
  "mk_settings s = Inr s' \<Longrightarrow> s' = s \<and> s_graph_depth_max s \<le> 3 \<and> (s_env s = Production \<longrightarrow> production_problems s = [])"
  by (auto simp: mk_settings_def split: if_splits)

lemma production_safe:
  assumes "mk_settings s = Inr s'" and "s_env s = Production"
  shows "s_openai_key s \<noteq> []" "placeholder \<notin> {s_pg_password s, s_neo4j_password s, s_s3_secret s}"
    "\<not> s_otlp_insecure s" "s_auth_mode s \<noteq> LocalAuth" "\<not> s_trusted_headers s"
  using mk_settings_ok [OF assms(1)] assms(2) by (auto simp: production_problems_def split: if_splits)

text \<open>The defaults are accepted, and refused as soon as the environment is production.\<close>

lemma defaults_only_for_development:
  "mk_settings default_settings = Inr default_settings"
  "\<not> is_ok (mk_settings (default_settings\<lparr>s_env := Production\<rparr>))"
  by (simp_all add: mk_settings_def default_settings_def production_problems_def)

section \<open>Redaction (telemetry.py)\<close>

text \<open>\<^verbatim>\<open>re.sub(re.escape(p), rep, s, flags=re.IGNORECASE)\<close>: leftmost matches that do not
  overlap.\<close>

function replace_ci :: "string \<Rightarrow> string \<Rightarrow> string \<Rightarrow> string" where
  "replace_ci p rep [] = []"
| "replace_ci p rep (c # cs) =
     (if p \<noteq> [] \<and> startswith (lower (c # cs)) (lower p)
      then rep @ replace_ci p rep (drop (length p - 1) cs)
      else c # replace_ci p rep cs)"
  by pat_completeness auto
termination replace_ci by (relation "measure (\<lambda>(p, rep, s). length s)") auto

definition redacted :: string where
  "redacted = ''[REDACTED]''"

definition redact_text :: "string \<Rightarrow> string list \<Rightarrow> string" where
  "redact_text s patterns =
     foldl (\<lambda>r p. if p \<noteq> [] \<and> contains (lower p) (lower r) then replace_ci p redacted r else r) s patterns"

definition sensitive_names :: "string list" where
  "sensitive_names =
     [''authorization'', ''cookie'', ''set-cookie'', ''proxy-authorization'', ''request.body'', ''response.body'',
      ''http.request.body'', ''http.response.body'']"

definition sensitive_terms :: "string list" where
  "sensitive_terms = [''authorization'', ''api-key'', ''cookie'', ''secret'', ''token'', ''password'']"

definition endswith :: "'a list \<Rightarrow> 'a list \<Rightarrow> bool" where
  "endswith s t \<longleftrightarrow> startswith (rev s) (rev t)"

definition sensitive_key :: "string \<Rightarrow> bool" where
  "sensitive_key key =
     (let n = map (\<lambda>c. if c = CHR ''_'' then CHR ''-'' else c) (lower key)
      in n \<in> set sensitive_names \<or> list_ex (\<lambda>t. contains t n) sensitive_terms \<or> endswith n ''body'')"

fun is_scalar :: "pyval \<Rightarrow> bool" where
  "is_scalar (PStr _) = True"
| "is_scalar (PBool _) = True"
| "is_scalar (PInt _) = True"
| "is_scalar (PFloat _) = True"
| "is_scalar _ = False"

definition sanitize_attributes :: "(string, pyval) dict \<Rightarrow> (string, pyval) dict" where
  "sanitize_attributes attrs = filter (\<lambda>(k, v). \<not> sensitive_key k \<and> is_scalar v) attrs"

section \<open>Health (health.py)\<close>

datatype reason = ReasonOk | ReasonTimeout | ReasonUnhealthy | ReasonError

record dependency_health =
  dh_name :: string
  dh_healthy :: bool
  dh_reason :: reason

text \<open>What awaiting a checker under the timeout gives.\<close>

datatype probe_outcome = Finished dependency_health | TimedOut | Raised exn

definition probe :: "string \<Rightarrow> probe_outcome \<Rightarrow> dependency_health" where
  "probe name o' =
     (case o' of
        Finished h \<Rightarrow> h
      | TimedOut \<Rightarrow> \<lparr>dh_name = name, dh_healthy = False, dh_reason = ReasonTimeout\<rparr>
      | Raised _ \<Rightarrow> \<lparr>dh_name = name, dh_healthy = False, dh_reason = ReasonError\<rparr>)"

definition check_all :: "(string, probe_outcome) dict \<Rightarrow> dependency_health list" where
  "check_all checkers = map (\<lambda>(n, o'). probe n o') checkers"

definition readiness_healthy :: "dependency_health list \<Rightarrow> bool" where
  "readiness_healthy rs = list_all dh_healthy rs"

definition readiness_status :: "dependency_health list \<Rightarrow> string" where
  "readiness_status rs = (if readiness_healthy rs then ''ok'' else ''degraded'')"

definition readiness_http_status :: "dependency_health list \<Rightarrow> nat" where
  "readiness_http_status rs = (if readiness_healthy rs then 200 else 503)"

lemma readiness_iff:
  "readiness_http_status (check_all cs) = 200 \<longleftrightarrow>
     (\<forall>(n, o') \<in> set cs. \<exists>h. o' = Finished h \<and> dh_healthy h)"
proof -
  have "dh_healthy (probe n o') \<longleftrightarrow> (\<exists>h. o' = Finished h \<and> dh_healthy h)" for n o'
    by (cases o') (simp_all add: probe_def)
  then show ?thesis
    by (auto simp: readiness_http_status_def readiness_healthy_def check_all_def list_all_iff split: prod.splits)
qed

section \<open>Lemmas about redaction\<close>

definition bracketless :: "string \<Rightarrow> bool" where
  "bracketless p \<longleftrightarrow> CHR ''['' \<notin> set p \<and> CHR '']'' \<notin> set p"

lemma contains_split: "c \<notin> set p \<Longrightarrow> contains p (xs @ c # ys) \<longleftrightarrow> contains p xs \<or> contains p ys"
proof (induction xs)
  case Nil
  then show ?case by (cases p) (auto simp: startswith_iff)
next
  case (Cons x xs)
  have "startswith (x # xs @ c # ys) p \<longleftrightarrow> startswith (x # xs) p" if "\<not> contains p ys"
  proof
    assume "startswith (x # xs @ c # ys) p"
    then obtain zs where "(x # xs) @ c # ys = p @ zs" by (auto simp: startswith_iff)
    then show "startswith (x # xs) p"
      using Cons.prems unfolding append_eq_append_conv2 startswith_iff by (auto simp: Cons_eq_append_conv)
  next
    assume "startswith (x # xs) p"
    then obtain zs where "x # xs = p @ zs" by (auto simp: startswith_iff)
    then have "x # xs @ c # ys = p @ (zs @ c # ys)" by simp
    then show "startswith (x # xs @ c # ys) p" unfolding startswith_iff by blast
  qed
  then show ?case using Cons by auto
qed

lemma lower_append: "lower (s @ t) = lower s @ lower t"
  by (simp add: lower_def)

lemma lower_mark: "lower redacted = CHR ''['' # ''redacted'' @ '']''"
  by code_simp

lemma lower_redacted: "lower (redacted @ s) = CHR ''['' # ''redacted'' @ CHR '']'' # lower s"
  by (simp add: lower_append lower_mark)

lemma replace_skip: "\<not> (q \<noteq> [] \<and> startswith (lower (c # cs)) (lower q)) \<Longrightarrow> replace_ci q rep (c # cs) = c # replace_ci q rep cs"
  by (simp only: replace_ci.simps if_False)

lemma replace_hit: "q \<noteq> [] \<and> startswith (lower (c # cs)) (lower q) \<Longrightarrow>
    replace_ci q rep (c # cs) = rep @ replace_ci q rep (drop (length q - 1) cs)"
  by simp

lemma contains_marked:
  assumes "c \<notin> set p" "d \<notin> set p" "p \<noteq> []" "\<not> contains p xs"
  shows "contains p (c # xs @ d # ys) \<longleftrightarrow> contains p ys"
  using contains_split [OF assms(1), of "[]" "xs @ d # ys"] contains_split [OF assms(2), of xs ys] assms(3,4) by simp

lemma contains_after_mark:
  assumes "bracketless p" "p \<noteq> []" "\<not> contains p ''redacted''"
  shows "contains p (lower (redacted @ s)) \<longleftrightarrow> contains p (lower s)"
  unfolding lower_redacted by (rule contains_marked) (use assms in \<open>simp_all add: bracketless_def\<close>)

text \<open>Up to the first mark the text is unchanged.\<close>

lemma replace_prefix:
  "bracketless p \<Longrightarrow> startswith (lower (replace_ci q redacted s)) p \<Longrightarrow> startswith (lower s) p"
proof (induction q redacted s arbitrary: p rule: replace_ci.induct)
  case (2 q c cs)
  show ?case
  proof (cases "q \<noteq> [] \<and> startswith (lower (c # cs)) (lower q)")
    case True
    then have "startswith (lower (redacted @ replace_ci q redacted (drop (length q - 1) cs))) p"
      using 2(4) unfolding replace_hit [OF True] by blast
    then have "p = []" using 2(3) unfolding lower_redacted by (cases p) (auto simp: bracketless_def)
    then show ?thesis by simp
  next
    case False
    then have "startswith (lower (c # replace_ci q redacted cs)) p" using 2(4) unfolding replace_skip [OF False] by blast
    then show ?thesis using 2(2) [OF False, of "tl p"] 2(3) by (cases p) (auto simp: lower_def bracketless_def)
  qed
qed simp

lemma contains_drop: "contains p (drop n s) \<Longrightarrow> contains p s"
  unfolding contains_iff by (metis append.assoc append_take_drop_id)

lemma lower_drop: "lower (drop n s) = drop n (lower s)"
  by (simp add: lower_def drop_map)

text \<open>A replacement makes no new occurrence of a pattern without brackets.\<close>

lemma replace_no_new:
  assumes "bracketless p" "p \<noteq> []" "\<not> contains p ''redacted''"
  shows "contains p (lower (replace_ci q redacted s)) \<Longrightarrow> contains p (lower s)"
proof (induction q redacted s rule: replace_ci.induct)
  case (2 q c cs)
  show ?case
  proof (cases "q \<noteq> [] \<and> startswith (lower (c # cs)) (lower q)")
    case True
    then have "contains p (lower (replace_ci q redacted (drop (length q - 1) cs)))"
      using 2(3) unfolding replace_hit [OF True] contains_after_mark [OF assms] by blast
    from 2(1) [OF True this] have "contains p (lower cs)" unfolding lower_drop by (rule contains_drop)
    then show ?thesis by (simp add: lower_def)
  next
    case False
    then have "contains p (lower (c # replace_ci q redacted cs))" using 2(3) unfolding replace_skip [OF False] by blast
    then have "startswith (lower (c # replace_ci q redacted cs)) p \<or> contains p (lower (replace_ci q redacted cs))"
      by (simp add: lower_def)
    moreover have "startswith (lower (c # cs)) p" if "startswith (lower (c # replace_ci q redacted cs)) p"
      using replace_prefix [OF assms(1), of q "c # cs"] that unfolding replace_skip [OF False] .
    ultimately show ?thesis using 2(2) [OF False] by (auto simp: lower_def)
  qed
qed simp

lemma replace_removes:
  assumes "bracketless (lower q)" "q \<noteq> []" "\<not> contains (lower q) ''redacted''"
  shows "\<not> contains (lower q) (lower (replace_ci q redacted s))"
proof (induction s rule: length_induct)
  case (1 s)
  show ?case
  proof (cases s)
    case Nil
    then show ?thesis using assms(2) by (cases q) (simp_all add: lower_def)
  next
    case (Cons c cs)
    show ?thesis
    proof (cases "startswith (lower (c # cs)) (lower q)")
      case True
      have "\<not> contains (lower q) (lower (replace_ci q redacted (drop (length q - 1) cs)))"
        using 1 Cons by simp
      then show ?thesis using True Cons assms(2) contains_after_mark [OF assms(1) _ assms(3)] by simp
    next
      case False
      have "\<not> contains (lower q) (lower (replace_ci q redacted cs))" using 1 Cons by simp
      moreover have "\<not> startswith (lower (replace_ci q redacted (c # cs))) (lower q)"
        using replace_prefix [OF assms(1), of q "c # cs"] False by blast
      ultimately show ?thesis using False Cons by (simp add: lower_def)
    qed
  qed
qed

lemma redact_text_keeps:
  "bracketless (lower p) \<Longrightarrow> p \<noteq> [] \<Longrightarrow> \<not> contains (lower p) ''redacted'' \<Longrightarrow> \<not> contains (lower p) (lower s) \<Longrightarrow>
   \<not> contains (lower p) (lower (redact_text s ps))"
proof (induction ps arbitrary: s)
  case (Cons q ps)
  let ?s = "if q \<noteq> [] \<and> contains (lower q) (lower s) then replace_ci q redacted s else s"
  have "\<not> contains (lower p) (lower ?s)" using replace_no_new [of "lower p" q s] Cons.prems by auto
  from Cons.IH [OF Cons.prems(1-3) this] show ?case by (simp add: redact_text_def)
qed (simp add: redact_text_def)

section \<open>Properties\<close>

text \<open>Redaction is complete. After \<^verbatim>\<open>redact_text\<close> none of the patterns occurs in the
  text in any spelling of upper and lower case, for patterns without brackets that are not part of
  the mark itself; replacing one pattern never brings another back.\<close>

theorem redact_text_complete:
  assumes "p \<in> set patterns" and "p \<noteq> []" and "bracketless (lower p)" and "\<not> contains (lower p) ''redacted''"
  shows "\<not> contains (lower p) (lower (redact_text s patterns))"
  using assms(1)
proof (induction patterns arbitrary: s)
  case (Cons q ps)
  let ?s = "if q \<noteq> [] \<and> contains (lower q) (lower s) then replace_ci q redacted s else s"
  have step: "redact_text s (q # ps) = redact_text ?s ps" by (simp add: redact_text_def)
  show ?case
  proof (cases "p = q")
    case True
    have "\<not> contains (lower p) (lower ?s)" using replace_removes [of p s] True assms by auto
    then show ?thesis unfolding step by (rule redact_text_keeps [OF assms(3,2,4)])
  next
    case False
    then show ?thesis unfolding step using Cons by simp
  qed
qed simp

theorem redact_text_complete_witness:
  "\<not> contains (lower ''Token'') (lower (redact_text ''my TOKEN is'' [''Token'']))"
proof (rule redact_text_complete)
  have l: "lower ''Token'' = ''token''" by code_simp
  show "bracketless (lower ''Token'')" "\<not> contains (lower ''Token'') ''redacted''"
    unfolding l by (simp_all add: bracketless_def)
qed simp_all

end
