(* ===== verification/Html.thy ===== *)
theory Html
  imports Parsers Security
begin

text \<open>
  The HTML parser of \<^verbatim>\<open>application/ingestion/parsers.py\<close>: the normaliser that turns HTML
  into Markdown by a sequence of regular expression substitutions, each written out as a scanner, the
  title, and the parser. What is shown: no tag is left in the result, the headings of a document of
  headings and paragraphs are read back, and what a \<^verbatim>\<open>link\<close> element does to a list.
\<close>

section \<open>Substitution\<close>

text \<open>
  A scanner tries to match at the start of a text: the groups it needs and what follows the match. Every
  scanner here consumes at least a character, so a match is never empty.
\<close>

type_synonym 'g scanner = "string \<Rightarrow> ('g \<times> string) option"

text \<open>\<^verbatim>\<open>re.sub\<close>.\<close>

function sub_scan :: "'g scanner \<Rightarrow> ('g \<Rightarrow> string) \<Rightarrow> string \<Rightarrow> string" where
  "sub_scan m f [] = []"
| "sub_scan m f (c # s) =
     (case m (c # s) of
        Some (g, r) \<Rightarrow> if length r \<le> length s then f g @ sub_scan m f r else c # sub_scan m f s
      | None \<Rightarrow> c # sub_scan m f s)"
  by pat_completeness auto
termination by (relation "measure (\<lambda>(_, _, s). length s)") (auto split: if_splits)

text \<open>\<^verbatim>\<open>re.findall\<close>.\<close>

function find_all :: "'g scanner \<Rightarrow> string \<Rightarrow> 'g list" where
  "find_all m [] = []"
| "find_all m (c # s) =
     (case m (c # s) of
        Some (g, r) \<Rightarrow> if length r \<le> length s then g # find_all m r else find_all m s
      | None \<Rightarrow> find_all m s)"
  by pat_completeness auto
termination by (relation "measure (\<lambda>(_, s). length s)") (auto split: if_splits)

text \<open>\<^verbatim>\<open>re.search\<close>.\<close>

fun search :: "'g scanner \<Rightarrow> string \<Rightarrow> 'g option" where
  "search m [] = None"
| "search m (c # s) = (case m (c # s) of Some (g, r) \<Rightarrow> Some g | None \<Rightarrow> search m s)"

section \<open>Elements\<close>

text \<open>\<^verbatim>\<open><name[^>]*>\<close>, case-insensitive: what follows the first closing bracket.\<close>

definition tag_open :: "string \<Rightarrow> string \<Rightarrow> string option" where
  "tag_open start s =
     (if lit_ci start s
      then (case dropWhile (\<lambda>c. c \<noteq> CHR ''>'') (drop (length start) s) of [] \<Rightarrow> None | _ # r \<Rightarrow> Some r)
      else None)"

text \<open>\<^verbatim>\<open>(.*?)\<close> up to the first of some closing tags, the dot matching every character.\<close>

fun lazy_until :: "string list \<Rightarrow> string \<Rightarrow> (string \<times> string) option" where
  "lazy_until closes [] = None"
| "lazy_until closes (c # s) =
     (case find (\<lambda>p. lit_ci p (c # s)) closes of
        Some p \<Rightarrow> Some ([], drop (length p) (c # s))
      | None \<Rightarrow> map_option (\<lambda>(b, r). (c # b, r)) (lazy_until closes s))"

definition element :: "string list \<Rightarrow> string list \<Rightarrow> string scanner" where
  "element opens closes s =
     (case first_some (\<lambda>o'. tag_open o' s) opens of None \<Rightarrow> None | Some r \<Rightarrow> lazy_until closes r)"

text \<open>\<^verbatim>\<open>m.group(0)\<close>: the matched text in place of its body.\<close>

definition whole :: "'g scanner \<Rightarrow> string scanner" where
  "whole m s = (case m s of None \<Rightarrow> None | Some (g, r) \<Rightarrow> Some (take (length s - length r) s, r))"

text \<open>\<^verbatim>\<open>(.+?)\<close>: at least one character.\<close>

definition nonempty_element :: "string list \<Rightarrow> string list \<Rightarrow> string scanner" where
  "nonempty_element opens closes s =
     (case first_some (\<lambda>o'. tag_open o' s) opens of
        None \<Rightarrow> None
      | Some [] \<Rightarrow> None
      | Some (c # r) \<Rightarrow> map_option (\<lambda>(b, r'). (c # b, r')) (lazy_until closes r))"

text \<open>\<^verbatim>\<open><h([1-6])(?:\s[^>]*)?>(.*?)</h\1>\<close>.\<close>

definition heading_element :: "(nat \<times> string) scanner" where
  "heading_element s =
     (if \<not> lit_ci ''<h'' s then None
      else case drop 2 s of
        [] \<Rightarrow> None
      | d # r \<Rightarrow>
         if d \<notin> set ''123456'' then None
         else (case (case r of
                  [] \<Rightarrow> None
                | c # r' \<Rightarrow> if c = CHR ''>'' then Some r'
                            else if is_space c
                            then (case dropWhile (\<lambda>c. c \<noteq> CHR ''>'') r' of [] \<Rightarrow> None | _ # r'' \<Rightarrow> Some r'')
                            else None) of
                 None \<Rightarrow> None
               | Some body \<Rightarrow> map_option (\<lambda>(b, rest). ((of_char d - 48, b), rest)) (lazy_until [''</h'' @ [d] @ ''>''] body)))"

text \<open>\<^verbatim>\<open><[^>]+>\<close>.\<close>

definition any_tag :: "unit scanner" where
  "any_tag s =
     (case s of
        [] \<Rightarrow> None
      | c # r \<Rightarrow> if c = CHR ''<'' \<and> takeWhile (\<lambda>d. d \<noteq> CHR ''>'') r \<noteq> [] \<and> dropWhile (\<lambda>d. d \<noteq> CHR ''>'') r \<noteq> []
                 then Some ((), tl (dropWhile (\<lambda>d. d \<noteq> CHR ''>'') r)) else None)"

section \<open>The passes of the normaliser\<close>

definition inner_text :: "string \<Rightarrow> string" where
  "inner_text s = strip (strip_tags s)"

definition replace_headings :: "string \<Rightarrow> string" where
  "replace_headings =
     sub_scan heading_element (\<lambda>(level, b). [nl] @ replicate level (CHR ''#'') @ '' '' @ inner_text b @ [nl])"

definition replace_code_blocks :: "string \<Rightarrow> string" where
  "replace_code_blocks =
     sub_scan (element [''<pre><code''] [''</code></pre>'']) (\<lambda>b. [nl] @ fence @ [nl] @ inner_text b @ [nl] @ fence @ [nl])"

definition replace_inline_code :: "string \<Rightarrow> string" where
  "replace_inline_code = sub_scan (element [''<code''] [''</code>'']) (\<lambda>b. [CHR 0x60] @ inner_text b @ [CHR 0x60])"

definition table_row :: "string \<Rightarrow> string list" where
  "table_row row =
     (let cells = find_all (element [''<th'', ''<td''] [''</th>'', ''</td>'']) row
      in if cells = [] then [] else [''| '' @ join_with '' | '' (map inner_text cells) @ '' |''])"

definition replace_table :: "string \<Rightarrow> string" where
  "replace_table t =
     (let md_rows = concat (map table_row (find_all (element [''<tr''] [''</tr>'']) t))
      in case md_rows of
           [] \<Rightarrow> []
         | r # rs \<Rightarrow>
             let sep = ''| '' @ join_with '' | '' (replicate (length (filter (\<lambda>c. c = CHR ''|'') r) - 1) ''---'') @ '' |''
             in if rs \<noteq> [] then [nl] @ join_with [nl] (r # sep # rs) @ [nl] else [nl] @ r @ [nl] @ sep @ [nl])"

definition replace_tables :: "string \<Rightarrow> string" where
  "replace_tables = sub_scan (whole (element [''<table''] [''</table>''])) replace_table"

definition replace_list_items :: "string \<Rightarrow> string" where
  "replace_list_items = sub_scan (whole (element [''<li''] [''</li>''])) (\<lambda>m. [nl] @ ''- '' @ inner_text m @ [nl])"

definition remove_tags :: "string \<Rightarrow> string" where
  "remove_tags = sub_scan any_tag (\<lambda>_. '' '')"

text \<open>\<^verbatim>\<open>\n{3,}\<close> and \<^verbatim>\<open>[ \t]+\<close>.\<close>

definition run_of :: "nat \<Rightarrow> char set \<Rightarrow> unit scanner" where
  "run_of n cs s = (if n \<le> length (takeWhile (\<lambda>c. c \<in> cs) s) then Some ((), dropWhile (\<lambda>c. c \<in> cs) s) else None)"

definition squeeze_newlines :: "string \<Rightarrow> string" where
  "squeeze_newlines = sub_scan (run_of 3 {nl}) (\<lambda>_. [nl, nl])"

definition squeeze_blanks :: "string \<Rightarrow> string" where
  "squeeze_blanks = sub_scan (run_of 1 {CHR '' '', CHR 0x09}) (\<lambda>_. '' '')"

definition normalize_to_markdown :: "string \<Rightarrow> string" where
  "normalize_to_markdown html =
     strip (squeeze_blanks (squeeze_newlines (remove_tags (replace_list_items (replace_tables
       (replace_inline_code (replace_code_blocks (replace_headings html))))))))"

section \<open>The parser\<close>

definition extract_title :: "string \<Rightarrow> string" where
  "extract_title html =
     (case search (nonempty_element [''<title''] [''</title>'']) html of
        Some t \<Rightarrow> strip t
      | None \<Rightarrow> (case search (nonempty_element [''<h1''] [''</h1>'']) html of Some t \<Rightarrow> strip t | None \<Rightarrow> []))"

text \<open>The class has its own copies of the four methods that read Markdown, with the bodies of the Markdown
  parser.\<close>

definition html_headings :: "string \<Rightarrow> (nat \<times> string) list" where
  "html_headings = extract_headings"

definition html_code_blocks :: "string \<Rightarrow> (int \<times> int) list" where
  "html_code_blocks = extract_code_blocks"

definition html_tables :: "string \<Rightarrow> (int \<times> int) list" where
  "html_tables = extract_tables"

definition html_list_items :: "string \<Rightarrow> (int \<times> int) list" where
  "html_list_items = extract_list_items"

definition parse_html :: "string \<Rightarrow> parsed_content" where
  "parse_html s =
     (let title = extract_title s; body = normalize_to_markdown s
      in (parsed (or_else title ''untitled'') body ''text/html'' [])
           \<lparr>pc_headings := html_headings body, pc_code_blocks := html_code_blocks body,
            pc_tables := html_tables body, pc_list_items := html_list_items body\<rparr>)"

section \<open>Lemmas about tags\<close>

text \<open>No \<^verbatim>\<open><[^>]+>\<close> matches anywhere in the text.\<close>

fun tagless :: "string \<Rightarrow> bool" where
  "tagless [] = True"
| "tagless (c # s) = ((c \<noteq> CHR ''<'' \<or> s = [] \<or> hd s = CHR ''>'' \<or> CHR ''>'' \<notin> set s) \<and> tagless s)"

lemma any_tag_None: "any_tag (c # s) = None \<longleftrightarrow> c \<noteq> CHR ''<'' \<or> s = [] \<or> hd s = CHR ''>'' \<or> CHR ''>'' \<notin> set s"
  by (cases s) (auto simp: any_tag_def)

lemma tagless_append: "CHR ''<'' \<notin> set u \<Longrightarrow> tagless (u @ v) = tagless v"
  by (induction u) auto

lemma tagless_suffix: "tagless (u @ v) \<Longrightarrow> tagless v"
  by (induction u) auto

lemma tagless_prefix: "tagless (u @ v) \<Longrightarrow> tagless u"
  by (induction u) (auto simp: hd_append split: if_splits)

lemma tagless_no_open: "CHR ''<'' \<notin> set s \<Longrightarrow> tagless s"
  by (induction s) auto

lemma strip_tags_tagless: "tagless s \<Longrightarrow> strip_tags s = s"
proof (induction s)
  case (Cons c s)
  then show ?case by (cases s) (auto simp: Let_def)
qed simp

lemma tagless_strip: "tagless s \<Longrightarrow> tagless (strip s)"
  using strip_infix [of s] tagless_prefix tagless_suffix by metis

lemma sub_scan_set:
  "(\<And>s g r. m s = Some (g, r) \<Longrightarrow> set r \<subseteq> set s) \<Longrightarrow> (\<And>g. d \<notin> set (f g)) \<Longrightarrow> d \<notin> set s \<Longrightarrow> d \<notin> set (sub_scan m f s)"
proof (induction m f s rule: sub_scan.induct)
  case (2 m f c s)
  show ?case
  proof (cases "m (c # s)")
    case None
    then show ?thesis using 2 by simp
  next
    case (Some p)
    obtain g r where p: "p = (g, r)" by (cases p)
    have "d \<notin> set r" using 2(4) [of "c # s" g r] 2(6) Some p by auto
    then show ?thesis using 2 Some p by auto
  qed
qed simp

lemma any_tag_Some: "any_tag (c # s) = Some (g, r) \<Longrightarrow> set r \<subseteq> set s \<and> length r \<le> length s"
proof -
  assume "any_tag (c # s) = Some (g, r)"
  then have r: "r = tl (dropWhile (\<lambda>d. d \<noteq> CHR ''>'') s)" by (simp add: any_tag_def split: if_splits)
  let ?w = "dropWhile (\<lambda>d. d \<noteq> CHR ''>'') s"
  have "set (tl xs) \<subseteq> set xs" for xs :: string by (cases xs) auto
  then have "set (tl ?w) \<subseteq> set ?w" .
  also have "set ?w \<subseteq> set s" by (auto dest: set_dropWhileD)
  finally have "set r \<subseteq> set s" unfolding r .
  moreover have "length (tl ?w) \<le> length s" using length_dropWhile_le [of "\<lambda>d. d \<noteq> CHR ''>''" s] by simp
  ultimately show ?thesis unfolding r by simp
qed

lemma any_tag_rest: "any_tag s = Some (g, r) \<Longrightarrow> set r \<subseteq> set s"
proof (cases s)
  case (Cons c t)
  then show "any_tag s = Some (g, r) \<Longrightarrow> set r \<subseteq> set s" using any_tag_Some [of c t g r] by auto
qed (simp add: any_tag_def)

lemma run_of_rest: "run_of n cs s = Some (g, r) \<Longrightarrow> set r \<subseteq> set s"
  by (auto simp: run_of_def split: if_splits dest: set_dropWhileD)

lemma run_of_Some:
  "0 < n \<Longrightarrow> run_of n cs (c # s) = Some (g, r) \<Longrightarrow> c \<in> cs \<and> r = dropWhile (\<lambda>c. c \<in> cs) s \<and> length r \<le> length s"
  by (auto simp: run_of_def length_dropWhile_le split: if_splits)

lemma tagless_dropWhile: "tagless s \<Longrightarrow> tagless (dropWhile P s)"
  using tagless_suffix [of "takeWhile P s" "dropWhile P s"] by simp

lemma tagless_remove_tags: "tagless (remove_tags s)"
proof -
  have "tagless (sub_scan any_tag (\<lambda>_. '' '') s)"
  proof (induction "any_tag" "\<lambda>_ :: unit. '' ''" s rule: sub_scan.induct)
    case (2 c s)
    show ?case
    proof (cases "any_tag (c # s)")
      case (Some p)
      then obtain g r where "p = (g, r)" "length r \<le> length s" by (cases p) (auto dest: any_tag_Some)
      moreover from this have "tagless (sub_scan any_tag (\<lambda>_. '' '') r)" using 2(2) [OF Some] by auto
      ultimately show ?thesis using Some by (simp add: tagless_append)
    next
      case None
      have "CHR ''>'' \<notin> set s \<Longrightarrow> CHR ''>'' \<notin> set (sub_scan any_tag (\<lambda>_. '' '') s)"
        by (rule sub_scan_set) (auto dest: any_tag_rest)
      moreover have "hd (sub_scan any_tag (\<lambda>_. '' '') s) = CHR ''>''" if "hd s = CHR ''>''" "s \<noteq> []"
        using that by (cases s) (simp_all add: any_tag_None [THEN iffD2])
      ultimately show ?thesis using 2(1) [OF None] None any_tag_None [of c s] unfolding sub_scan.simps None option.case by (cases "s = []") auto
    qed
  qed simp
  then show ?thesis by (simp add: remove_tags_def)
qed

lemma tagless_squeeze:
  assumes "CHR ''<'' \<notin> cs" "CHR ''>'' \<notin> cs" "CHR ''<'' \<notin> set rep" "CHR ''>'' \<notin> set rep" "0 < n"
  shows "tagless s \<Longrightarrow> tagless (sub_scan (run_of n cs) (\<lambda>_. rep) s)"
proof (induction "run_of n cs" "\<lambda>_ :: unit. rep" s rule: sub_scan.induct)
  case (2 c s)
  show ?case
  proof (cases "run_of n cs (c # s)")
    case (Some p)
    then obtain g r where r: "p = (g, r)" "r = dropWhile (\<lambda>c. c \<in> cs) s" "length r \<le> length s"
      by (cases p) (auto dest: run_of_Some [OF assms(5)])
    moreover have "tagless r" using 2(4) r(2) tagless_dropWhile by simp
    ultimately have "tagless (sub_scan (run_of n cs) (\<lambda>_. rep) r)" using 2(2) [OF Some] by auto
    then show ?thesis using Some r assms(3) by (simp add: tagless_append)
  next
    case None
    have "CHR ''>'' \<notin> set s \<Longrightarrow> CHR ''>'' \<notin> set (sub_scan (run_of n cs) (\<lambda>_. rep) s)"
      by (rule sub_scan_set) (auto simp: assms dest: run_of_rest)
    moreover have "hd (sub_scan (run_of n cs) (\<lambda>_. rep) s) = CHR ''>''" if "hd s = CHR ''>''" "s \<noteq> []"
      using that assms by (cases s) (simp_all add: run_of_def)
    ultimately show ?thesis using None 2(1) 2(4) by (cases "s = []") auto
  qed
qed simp

lemma normalize_tagless: "tagless (normalize_to_markdown html)"
  unfolding normalize_to_markdown_def squeeze_blanks_def squeeze_newlines_def
  by (intro tagless_strip tagless_squeeze tagless_remove_tags) auto

section \<open>Lemmas about substitution\<close>

lemma sub_scan_None: "m (c # s) = None \<Longrightarrow> sub_scan m f (c # s) = c # sub_scan m f s"
  by simp

lemma sub_scan_Some: "m (c # s) = Some (g, r) \<Longrightarrow> length r \<le> length s \<Longrightarrow> sub_scan m f (c # s) = f g @ sub_scan m f r"
  by simp

text \<open>A scanner of tags: it matches only at an opening bracket.\<close>

definition angular :: "'g scanner \<Rightarrow> bool" where
  "angular m \<longleftrightarrow> (\<forall>c s. c \<noteq> CHR ''<'' \<longrightarrow> m (c # s) = None)"

lemma angularD: "angular m \<Longrightarrow> c \<noteq> CHR ''<'' \<Longrightarrow> m (c # s) = None"
  unfolding angular_def by blast

lemma sub_scan_skip: "angular m \<Longrightarrow> CHR ''<'' \<notin> set u \<Longrightarrow> sub_scan m f (u @ s) = u @ sub_scan m f s"
proof (induction u)
  case (Cons c u)
  have "m (c # u @ s) = None" using Cons.prems(2) by (intro angularD [OF Cons.prems(1)]) auto
  then show ?case using sub_scan_None [of m c "u @ s" f] Cons by simp
qed simp

lemma lower_cons: "lower (c # s) = lower_char c # lower s"
  by (simp add: lower_def)

lemma of_lower_char: "(of_char (lower_char c) :: nat) = of_char c \<or> 97 \<le> (of_char (lower_char c) :: nat)"
proof -
  let ?n = "of_char c :: nat"
  have "(of_char (char_of (?n + 32) :: char) :: nat) = ?n + 32" if "?n \<le> 222"
    using that by simp
  then show ?thesis by (auto simp: lower_char_def Let_def simp del: of_char_of)
qed

lemma lower_lt: "lower_char c = CHR ''<'' \<longleftrightarrow> c = CHR ''<''"
proof
  assume l: "lower_char c = CHR ''<''"
  then have "(of_char c :: nat) = of_char (CHR ''<'')" using of_lower_char [of c] by simp
  then show "c = CHR ''<''" by (simp only: of_char_eq_iff)
qed (simp add: lower_char_def)

lemma lit_ci_lt: "lit_ci (CHR ''<'' # p) (c # s) \<longleftrightarrow> c = CHR ''<'' \<and> lit_ci p s"
  by (simp add: lit_ci_def lower_cons lower_lt)

lemma lazy_until_plain:
  assumes "CHR ''<'' \<notin> set u" and "find (\<lambda>p. lit_ci p s) closes = Some p" and "\<forall>p \<in> set closes. \<exists>q. p = CHR ''<'' # q" and "s \<noteq> []"
  shows "lazy_until closes (u @ s) = Some (u, drop (length p) s)"
  using assms(1)
proof (induction u)
  case Nil
  then show ?case using assms(2,4) by (cases s) simp_all
next
  case (Cons c u)
  have "find (\<lambda>p. lit_ci p (c # u @ s)) closes = None"
    using Cons.prems assms(3) by (auto simp: find_None_iff lit_ci_lt)
  then show ?case using Cons by simp
qed

lemma angular_element: "\<forall>p \<in> set opens. \<exists>q. p = CHR ''<'' # q \<Longrightarrow> angular (element opens closes)"
proof -
  assume a: "\<forall>p \<in> set opens. \<exists>q. p = CHR ''<'' # q"
  have "first_some (\<lambda>o'. tag_open o' (c # s)) opens = None" if "c \<noteq> CHR ''<''" for c s
    using a that by (induction opens) (auto simp: tag_open_def lit_ci_lt)
  then show ?thesis by (simp add: angular_def element_def)
qed

lemma angular_whole: "angular m \<Longrightarrow> angular (whole m)"
  by (simp add: angular_def whole_def)

lemma whole_match: "m (u @ r) = Some (g, r) \<Longrightarrow> whole m (u @ r) = Some (u, r)"
  by (simp add: whole_def)

lemma angular_heading: "angular heading_element"
  by (simp add: angular_def heading_element_def lit_ci_lt)

lemma angular_any_tag: "angular any_tag"
  by (simp add: angular_def any_tag_def)

text \<open>A pass that meets only paragraph tags changes nothing.\<close>

definition idle :: "'g scanner \<Rightarrow> bool" where
  "idle m \<longleftrightarrow> angular m \<and> (\<forall>s. m (''<p>'' @ s) = None \<and> m (''</p>'' @ s) = None)"

lemma idle_par:
  assumes "idle m" and "CHR ''<'' \<notin> set u" and "CHR ''<'' \<notin> set x"
  shows "sub_scan m f (u @ ''<p>'' @ x @ ''</p>'' @ s) = u @ ''<p>'' @ x @ ''</p>'' @ sub_scan m f s"
proof -
  have a: "angular m" and n: "m (''<p>'' @ t) = None" "m (''</p>'' @ t) = None" for t
    using assms(1) by (simp_all add: idle_def)
  have p: "sub_scan m f (''<p>'' @ t) = ''<p>'' @ sub_scan m f t" "sub_scan m f (''</p>'' @ t) = ''</p>'' @ sub_scan m f t" for t
    using n [of t] sub_scan_skip [OF a, of "''p>''" f t] sub_scan_skip [OF a, of "''/p>''" f t] by simp_all
  show ?thesis by (simp only: sub_scan_skip [OF a assms(2)] sub_scan_skip [OF a assms(3)] p)
qed

lemma idle_passes:
  "idle (element [''<pre><code''] c)" "idle (element [''<code''] c)" "idle (whole (element [''<table''] c))"
  "idle (whole (element [''<li''] c))"
  using angular_element [of "[''<pre><code'']" c] angular_element [of "[''<code'']" c]
    angular_whole [OF angular_element [of "[''<table'']" c]] angular_whole [OF angular_element [of "[''<li'']" c]]
  by (auto simp: idle_def element_def whole_def tag_open_def lit_ci_def lower_cons lower_char_def)


section \<open>Documents of headings and paragraphs\<close>

text \<open>Text that the substitutions leave alone: on one line, without tags, blanks only between its words.\<close>

fun single :: "string \<Rightarrow> bool" where
  "single [] = True"
| "single [c] = (c \<noteq> CHR 0x09)"
| "single (c # d # s) = (c \<noteq> CHR 0x09 \<and> \<not> (c = CHR '' '' \<and> d = CHR '' '') \<and> single (d # s))"

definition plain :: "string \<Rightarrow> bool" where
  "plain t \<longleftrightarrow> t \<noteq> [] \<and> strip t = t \<and> single t \<and> CHR ''<'' \<notin> set t \<and> nl \<notin> set t"

type_synonym html_part = "nat \<times> string \<times> string"

fun html_of :: "html_part list \<Rightarrow> string" where
  "html_of [] = []"
| "html_of ((l, t, x) # hs) =
     ''<h'' @ show_nat l @ ''>'' @ t @ ''</h'' @ show_nat l @ ''>'' @ ''<p>'' @ x @ ''</p>'' @ html_of hs"

text \<open>The text after the headings are replaced, between marks that stand for the tags of a paragraph.\<close>

fun between :: "string \<Rightarrow> string \<Rightarrow> html_part list \<Rightarrow> string" where
  "between a b [] = []"
| "between a b ((l, t, x) # hs) =
     ([nl] @ replicate l (CHR ''#'') @ '' '' @ t @ [nl]) @ a @ x @ b @ between a b hs"

definition part_ok :: "html_part \<Rightarrow> bool" where
  "part_ok h = (case h of (l, t, x) \<Rightarrow> 1 \<le> l \<and> l \<le> 6 \<and> plain t \<and> plain x)"

lemma inner_plain: "plain t \<Longrightarrow> inner_text t = t"
  by (simp add: plain_def inner_text_def strip_tags_tagless tagless_no_open)

lemma heading_level: "1 \<le> l \<Longrightarrow> l \<le> 6 \<Longrightarrow> \<exists>d. show_nat l = [d] \<and> d \<in> set ''123456'' \<and> of_char d - 48 = l \<and> lower_char d = d"
proof -
  assume "1 \<le> l" "l \<le> 6"
  then have "l \<in> {1, 2, 3, 4, 5, 6}" by auto
  moreover have "show_nat 1 = ''1''" "show_nat 2 = ''2''" "show_nat 3 = ''3''" "show_nat 4 = ''4''" "show_nat 5 = ''5''" "show_nat 6 = ''6''"
    by code_simp+
  ultimately show ?thesis by (auto simp: lower_char_def)
qed

lemma heading_matches:
  assumes "1 \<le> l" "l \<le> 6" "CHR ''<'' \<notin> set t"
  shows "heading_element (''<h'' @ show_nat l @ ''>'' @ t @ ''</h'' @ show_nat l @ ''>'' @ s) = Some ((l, t), s)"
proof -
  obtain d where d: "show_nat l = [d]" "d \<in> set ''123456''" "of_char d - 48 = l" "lower_char d = d"
    using heading_level [OF assms(1,2)] by blast
  have lc: "lower_char (CHR ''<'') = CHR ''<''" "lower_char (CHR ''h'') = CHR ''h''" "lower_char (CHR ''/'') = CHR ''/''"
    "lower_char (CHR ''>'') = CHR ''>''"
    by (simp_all add: lower_char_def)
  have "lit_ci (''</h'' @ [d] @ ''>'') (''</h'' @ [d] @ ''>'' @ s)" by (simp add: lit_ci_def lower_cons lc d(4))
  then have "lazy_until [''</h'' @ [d] @ ''>''] (t @ ''</h'' @ [d] @ ''>'' @ s) = Some (t, s)"
    using lazy_until_plain [OF assms(3), of "''</h'' @ [d] @ ''>'' @ s" "[''</h'' @ [d] @ ''>'']" "''</h'' @ [d] @ ''>''"] by simp
  moreover have "lit_ci ''<h'' (''<h'' @ [d] @ ''>'' @ t @ ''</h'' @ [d] @ ''>'' @ s)" by (simp add: lit_ci_def lower_cons lc)
  ultimately show ?thesis using d(2,3) unfolding d(1) heading_element_def by simp
qed

lemma heading_idle: "idle heading_element"
  using angular_heading by (simp add: idle_def heading_element_def lit_ci_def lower_cons lower_char_def)

lemma replace_headings_doc:
  "list_all part_ok hs \<Longrightarrow> replace_headings (html_of hs) = between ''<p>'' ''</p>'' hs"
proof (induction hs)
  case Nil
  then show ?case by (simp add: replace_headings_def)
next
  case (Cons h hs)
  obtain l t x where h: "h = (l, t, x)" by (cases h)
  have ok: "1 \<le> l" "l \<le> 6" "plain t" "plain x" using Cons.prems h by (simp_all add: part_ok_def)
  let ?f = "\<lambda>(level, b). [nl] @ replicate level (CHR ''#'') @ '' '' @ inner_text b @ [nl]"
  let ?r = "''<p>'' @ x @ ''</p>'' @ html_of hs"
  have "sub_scan heading_element ?f (html_of (h # hs)) = ?f (l, t) @ sub_scan heading_element ?f ?r"
    using sub_scan_Some [of heading_element "CHR ''<''" _ "(l, t)" ?r ?f] heading_matches [OF ok(1,2), of t ?r] ok(3)
    by (simp add: h plain_def)
  also have "sub_scan heading_element ?f ?r = ''<p>'' @ x @ ''</p>'' @ sub_scan heading_element ?f (html_of hs)"
    using idle_par [OF heading_idle, of "[]" x ?f "html_of hs"] ok(4) by (simp add: plain_def)
  finally show ?case using Cons inner_plain [OF ok(3)] by (simp add: h replace_headings_def)
qed

lemma idle_between:
  assumes "idle m"
  shows "list_all part_ok hs \<Longrightarrow> sub_scan m f (between ''<p>'' ''</p>'' hs) = between ''<p>'' ''</p>'' hs"
proof (induction hs)
  case (Cons h hs)
  obtain l t x where h: "h = (l, t, x)" by (cases h)
  show ?case
    using Cons idle_par [OF assms, of "[nl] @ replicate l (CHR ''#'') @ '' '' @ t @ [nl]" x f "between ''<p>'' ''</p>'' hs"]
    by (simp add: h part_ok_def plain_def del: sub_scan.simps)
qed simp

lemma remove_tags_between:
  "list_all part_ok hs \<Longrightarrow> remove_tags (between ''<p>'' ''</p>'' hs) = between '' '' '' '' hs"
proof (induction hs)
  case (Cons h hs)
  obtain l t x where h: "h = (l, t, x)" by (cases h)
  let ?u = "[nl] @ replicate l (CHR ''#'') @ '' '' @ t @ [nl]"
  have u: "CHR ''<'' \<notin> set ?u" "CHR ''<'' \<notin> set x" using Cons.prems by (auto simp: h part_ok_def plain_def)
  have p: "remove_tags (''<p>'' @ s) = '' '' @ remove_tags s" "remove_tags (''</p>'' @ s) = '' '' @ remove_tags s" for s
    by (simp_all add: remove_tags_def any_tag_def)
  have k: "remove_tags (v @ s) = v @ remove_tags s" if "CHR ''<'' \<notin> set v" for v s
    unfolding remove_tags_def by (rule sub_scan_skip [OF angular_any_tag that])
  have "remove_tags (?u @ ''<p>'' @ x @ ''</p>'' @ between ''<p>'' ''</p>'' hs) = ?u @ '' '' @ x @ '' '' @ between '' '' '' '' hs"
    using Cons by (simp only: k [OF u(1)] k [OF u(2)] p list.pred_inject)
  then show ?case by (simp only: h between.simps)
qed (simp add: remove_tags_def)

lemma squeeze_newlines_run:
  "squeeze_newlines [] = []" "c \<noteq> nl \<Longrightarrow> squeeze_newlines (c # s) = c # squeeze_newlines s"
  "c \<noteq> nl \<Longrightarrow> squeeze_newlines (nl # c # s) = nl # c # squeeze_newlines s"
  by (simp_all add: squeeze_newlines_def run_of_def)

lemma squeeze_newlines_skip: "nl \<notin> set u \<Longrightarrow> squeeze_newlines (u @ s) = u @ squeeze_newlines s"
  by (induction u) (auto simp: squeeze_newlines_run(2))

lemma squeeze_newlines_part:
  assumes "nl \<notin> set a" "nl \<notin> set b"
  shows "squeeze_newlines (nl # CHR ''#'' # a @ nl # CHR '' '' # b @ s) = nl # CHR ''#'' # a @ nl # CHR '' '' # b @ squeeze_newlines s"
proof -
  have n: "CHR ''#'' \<noteq> nl" "CHR '' '' \<noteq> nl" by simp_all
  show ?thesis
    by (simp only: squeeze_newlines_run(3) [OF n(1)] squeeze_newlines_skip [OF assms(1)] squeeze_newlines_run(3) [OF n(2)]
        squeeze_newlines_skip [OF assms(2)])
qed

lemma squeeze_newlines_between: "list_all part_ok hs \<Longrightarrow> squeeze_newlines (between '' '' '' '' hs) = between '' '' '' '' hs"
proof (induction hs)
  case (Cons h hs)
  obtain l t x where h: "h = (Suc l, t, x)" using Cons.prems by (cases h; case_tac a) (auto simp: part_ok_def)
  have a: "nl \<notin> set (replicate l (CHR ''#'') @ CHR '' '' # t)" "nl \<notin> set (x @ '' '')"
    using Cons.prems by (auto simp: h part_ok_def plain_def)
  show ?case using Cons squeeze_newlines_part [OF a, of "between '' '' '' '' hs"] by (simp add: h)
qed (simp add: squeeze_newlines_run)

lemma squeeze_blanks_run:
  "squeeze_blanks [] = []" "c \<noteq> CHR '' '' \<Longrightarrow> c \<noteq> CHR 0x09 \<Longrightarrow> squeeze_blanks (c # s) = c # squeeze_blanks s"
  "d \<noteq> CHR '' '' \<Longrightarrow> d \<noteq> CHR 0x09 \<Longrightarrow> squeeze_blanks (CHR '' '' # d # s) = CHR '' '' # squeeze_blanks (d # s)"
  "squeeze_blanks [CHR '' ''] = [CHR '' '']"
  by (simp_all add: squeeze_blanks_def run_of_def)

lemma single_no_tab: "single (d # s) \<Longrightarrow> d \<noteq> CHR 0x09"
  by (cases s) auto

lemma single_squeeze: "single s \<Longrightarrow> squeeze_blanks s = s"
proof (induction s rule: single.induct)
  case (3 c d s)
  have d: "d \<noteq> CHR 0x09" "c \<noteq> CHR 0x09" using 3(2) single_no_tab [of d s] by auto
  show ?case
  proof (cases "c = CHR '' ''")
    case True
    then show ?thesis using 3 d squeeze_blanks_run(3) [of d s] by simp
  next
    case False
    then show ?thesis using 3 d squeeze_blanks_run(2) [of c "d # s"] by simp
  qed
next
  case (2 c)
  then show ?case by (cases "c = CHR '' ''") (simp_all add: squeeze_blanks_run)
qed (simp add: squeeze_blanks_run)

lemma single_append: "single (u @ v) \<longleftrightarrow> single u \<and> single v \<and> \<not> (u \<noteq> [] \<and> v \<noteq> [] \<and> last u = CHR '' '' \<and> hd v = CHR '' '')"
proof (induction u rule: single.induct)
  case (2 c)
  then show ?case by (cases v) auto
qed auto

lemma single_Cons: "single (c # v) \<longleftrightarrow> c \<noteq> CHR 0x09 \<and> single v \<and> \<not> (v \<noteq> [] \<and> c = CHR '' '' \<and> hd v = CHR '' '')"
  by (cases v) auto

lemma strip_ends: "strip t = t \<Longrightarrow> t \<noteq> [] \<Longrightarrow> \<not> is_space (hd t) \<and> \<not> is_space (last t)"
proof -
  assume s: "strip t = t" and n: "t \<noteq> []"
  have l: "length (dropWhile is_space t) \<le> length t" "length (dropWhile is_space (rev (dropWhile is_space t))) \<le> length (dropWhile is_space t)"
    using length_dropWhile_le [of is_space t] length_dropWhile_le [of is_space "rev (dropWhile is_space t)"] by simp_all
  have "length (dropWhile is_space (rev (dropWhile is_space t))) = length t"
    using arg_cong [OF s, of length] by (simp add: strip_def rstrip_def lstrip_def)
  then have e: "length (dropWhile is_space t) = length t" "length (dropWhile is_space (rev (dropWhile is_space t))) = length t"
    using l by simp_all
  have d: "dropWhile is_space u = u" if "length (dropWhile is_space u) = length u" for u
    using that takeWhile_dropWhile_id [of is_space u] by (metis append_Nil length_0_conv length_append add_cancel_left_left)
  have "dropWhile is_space t = t" "dropWhile is_space (rev t) = rev t" using d [OF e(1)] e(2) d by auto
  then show ?thesis using n by (metis hd_rev list.collapse dropWhile.simps(2) rev_is_Nil_conv dropWhile_eq_self_iff)
qed

lemma strip_pad:
  assumes "m \<noteq> []" "\<not> is_space (hd m)" "\<not> is_space (last m)" "\<forall>c \<in> set u. is_space c" "\<forall>c \<in> set v. is_space c"
  shows "strip (u @ m @ v) = m"
proof -
  have "dropWhile is_space (m @ v) = m @ v" using assms(1,2) by (cases m) simp_all
  then have "dropWhile is_space (u @ m @ v) = m @ v" using assms(4) by (simp add: dropWhile_append2)
  moreover have "dropWhile is_space (rev v @ rev m) = dropWhile is_space (rev m)"
    by (rule dropWhile_append2) (use assms(5) in auto)
  moreover have "dropWhile is_space (rev m) = rev m" using assms(1,3) by (cases m rule: rev_cases) simp_all
  ultimately show ?thesis by (simp add: strip_def rstrip_def lstrip_def)
qed

fun markdown_of :: "html_part list \<Rightarrow> string" where
  "markdown_of [] = []"
| "markdown_of ((l, t, x) # hs) =
     replicate l (CHR ''#'') @ '' '' @ t @ [nl] @ '' '' @ x @ (if hs = [] then [] else '' '' @ [nl] @ markdown_of hs)"

lemma between_markdown: "hs \<noteq> [] \<Longrightarrow> between '' '' '' '' hs = [nl] @ markdown_of hs @ '' ''"
proof (induction hs)
  case (Cons h hs)
  then show ?case by (cases h; cases "hs = []") simp_all
qed simp

lemma plain_ends: "plain t \<Longrightarrow> t \<noteq> [] \<and> \<not> is_space (hd t) \<and> \<not> is_space (last t)"
  using strip_ends by (auto simp: plain_def)

lemma space_chars [simp]: "is_space (CHR '' '')" "is_space nl" "\<not> is_space (CHR ''#'')"
  by (simp_all add: is_space_def)

lemma markdown_ends:
  assumes "list_all part_ok hs" and "hs \<noteq> []"
  shows "markdown_of hs \<noteq> [] \<and> \<not> is_space (hd (markdown_of hs)) \<and> \<not> is_space (last (markdown_of hs))"
  using assms
proof (induction hs)
  case (Cons h hs)
  obtain l t x where h: "h = (Suc l, t, x)" using Cons.prems by (cases h; case_tac a) (auto simp: part_ok_def)
  have "plain x" using Cons.prems by (simp add: h part_ok_def)
  then show ?case using Cons plain_ends [of x] by (cases "hs = []") (auto simp: h)
qed simp

lemma single_between: "list_all part_ok hs \<Longrightarrow> single (between '' '' '' '' hs) \<and> (between '' '' '' '' hs \<noteq> [] \<longrightarrow> hd (between '' '' '' '' hs) = nl)"
proof (induction hs)
  case (Cons h hs)
  obtain l t x where h: "h = (l, t, x)" by (cases h)
  have ok: "plain t" "plain x" using Cons.prems by (simp_all add: h part_ok_def)
  then have s: "single t" "single x" "t \<noteq> []" "x \<noteq> []" "hd t \<noteq> CHR '' ''" "hd x \<noteq> CHR '' ''" "last x \<noteq> CHR '' ''"
    using plain_ends [of t] plain_ends [of x] by (auto simp: plain_def)
  have r: "single (replicate n (CHR ''#''))" for n by (induction n) (auto simp: single_Cons)
  have l: "replicate l (CHR ''#'') \<noteq> [] \<Longrightarrow> last (replicate l (CHR ''#'')) = CHR ''#''" by simp
  show ?case using Cons s r [of l] by (auto simp: h single_Cons single_append hd_append)
qed simp

lemma strip_between: "list_all part_ok hs \<Longrightarrow> hs \<noteq> [] \<Longrightarrow> strip (between '' '' '' '' hs) = markdown_of hs"
  using markdown_ends strip_pad [of "markdown_of hs" "[nl]" "'' ''"] by (simp add: between_markdown)

lemma normalize_doc: "list_all part_ok hs \<Longrightarrow> normalize_to_markdown (html_of hs) = markdown_of hs"
proof (cases "hs = []")
  case True
  then show ?thesis
    by (simp add: normalize_to_markdown_def replace_headings_def replace_code_blocks_def replace_inline_code_def
        replace_tables_def replace_list_items_def remove_tags_def squeeze_newlines_def squeeze_blanks_def
        strip_def rstrip_def lstrip_def)
next
  case False
  assume "list_all part_ok hs"
  with False show ?thesis
    by (simp add: normalize_to_markdown_def replace_headings_doc replace_code_blocks_def replace_inline_code_def
        replace_tables_def replace_list_items_def idle_between idle_passes remove_tags_between squeeze_newlines_between
        single_squeeze single_between strip_between)
qed

lemma scan_newline: "scan_headings False (nl # s) = scan_headings True s"
  by simp

lemma scan_line: "nl \<notin> set u \<Longrightarrow> scan_headings False (u @ s) = scan_headings False s"
  by (induction u) auto

lemma scan_blank_line: "scan_headings True (CHR '' '' # s) = scan_headings False s"
  by (simp add: heading_at_def Let_def)

lemma heading_line:
  assumes "1 \<le> l" "l \<le> 6" "plain t"
  shows "heading_at (replicate l (CHR ''#'') @ CHR '' '' # t @ nl # s) = Some (l, t, nl # s)"
proof -
  have tw: "takeWhile (\<lambda>c. c = CHR ''#'') (replicate l (CHR ''#'') @ CHR '' '' # t @ nl # s) = replicate l (CHR ''#'')"
    by (subst takeWhile_append2) simp_all
  obtain c t' where t: "t = c # t'" "\<not> is_space c" using plain_ends [OF assms(3)] by (cases t) auto
  have n: "nl \<notin> set t" "strip t = t" using assms(3) by (simp_all add: plain_def)
  have "takeWhile (\<lambda>c. c \<noteq> nl) (t @ nl # s) = t" using n(1) by (subst takeWhile_append2) auto
  moreover have "dropWhile (\<lambda>c. c \<noteq> nl) (t @ nl # s) = nl # s" using n(1) by (subst dropWhile_append2) auto
  moreover have "dropWhile is_space (CHR '' '' # t @ nl # s) = t @ nl # s" "t @ nl # s \<noteq> []" using t by simp_all
  ultimately show ?thesis using assms(1,2) n(2) unfolding heading_at_def Let_def tw by simp
qed

lemma scan_markdown: "list_all part_ok hs \<Longrightarrow> scan_headings True (markdown_of hs) = map (\<lambda>(l, t, x). (l, t)) hs"
proof (induction hs)
  case (Cons h hs)
  obtain l t x where h: "h = (Suc l, t, x)" using Cons.prems by (cases h; case_tac a) (auto simp: part_ok_def)
  have ok: "Suc l \<le> 6" "plain t" "plain x" using Cons.prems by (simp_all add: h part_ok_def)
  let ?s = "'' '' @ x @ (if hs = [] then [] else '' '' @ [nl] @ markdown_of hs)"
  have "scan_headings True (markdown_of (h # hs)) = (Suc l, t) # scan_headings False (nl # ?s)"
    using heading_line [OF _ ok(1,2), of ?s] by (simp add: h)
  also have "scan_headings False (nl # ?s) = scan_headings False (x @ (if hs = [] then [] else '' '' @ [nl] @ markdown_of hs))"
    by (simp only: scan_newline append_Cons append_Nil scan_blank_line)
  also have "\<dots> = scan_headings True (markdown_of hs)"
  proof -
    have x: "nl \<notin> set x" "nl \<notin> set (x @ '' '')" using ok(3) by (simp_all add: plain_def)
    show ?thesis
      using scan_line [OF x(1), of "[]"] scan_line [OF x(2), of "nl # markdown_of hs"] by (cases "hs = []") (simp_all add: scan_newline)
  qed
  finally show ?case using Cons by (simp add: h)
qed simp

section \<open>Properties\<close>

text \<open>The Markdown that the HTML parser produces contains no tag: removing tags again changes nothing,
  whatever the input was.\<close>

theorem normalized_text_has_no_tags:
  "strip_tags (normalize_to_markdown html) = normalize_to_markdown html"
  by (rule strip_tags_tagless [OF normalize_tagless])

text \<open>C25: the headings of an HTML document of headings, each with a paragraph, are the headings that the parser
  returns, with their levels and in their order.\<close>

theorem html_headings_round_trip:
  assumes "list_all part_ok hs"
  shows "pc_headings (parse_html (html_of hs)) = map (\<lambda>(l, t, x). (l, t)) hs"
  by (simp add: parse_html_def Let_def html_headings_def extract_headings_def normalize_doc [OF assms] scan_markdown [OF assms])

theorem html_headings_round_trip_witness:
  "pc_headings (parse_html ''<h1>Big Title</h1><p>some text</p><h2>Part</h2><p>more</p>'') = [(1, ''Big Title''), (2, ''Part'')]"
proof -
  have "list_all part_ok [(1, ''Big Title'', ''some text''), (2, ''Part'', ''more'')]"
    by code_simp
  moreover have "show_nat 1 = ''1''" "show_nat 2 = ''2''" by code_simp+
  ultimately show ?thesis using html_headings_round_trip [of "[(1, ''Big Title'', ''some text''), (2, ''Part'', ''more'')]"] by simp
qed

text \<open>A \<^verbatim>\<open>link\<close> element begins like a list item: it and everything up to the end of the first
  list item of the document become that item, the headings between them included.\<close>

lemma link_swallows_text:
  assumes "CHR ''<'' \<notin> set t" and "CHR ''<'' \<notin> set x"
  shows "replace_list_items (''<link>'' @ t @ ''<li>'' @ x @ ''</li>'' @ s) = [nl] @ ''- '' @ strip (t @ x) @ [nl] @ replace_list_items s"
proof -
  have lc: "lower_char (CHR ''<'') = CHR ''<''" "lower_char (CHR ''l'') = CHR ''l''" "lower_char (CHR ''i'') = CHR ''i''"
    "lower_char (CHR ''/'') = CHR ''/''" "lower_char (CHR ''>'') = CHR ''>''"
    by (simp_all add: lower_char_def)
  have skip: "lazy_until [''</li>''] (u @ v) = map_option (\<lambda>(b, r). (u @ b, r)) (lazy_until [''</li>''] v)" if "CHR ''<'' \<notin> set u" for u v
    using that by (induction u) (auto simp: lit_ci_lt option.map_comp comp_def case_prod_unfold option.map_ident)
  have close: "lazy_until [''</li>''] (''</li>'' @ s) = Some ([], s)" by (simp add: lit_ci_def lower_cons lc)
  have li: "lazy_until [''</li>''] (''<li>'' @ v) = map_option (\<lambda>(b, r). (''<li>'' @ b, r)) (lazy_until [''</li>''] v)" for v
    using skip [of "''li>''" v] by (simp add: lit_ci_def lower_cons lc option.map_comp comp_def case_prod_unfold)
  have "lazy_until [''</li>''] (t @ ''<li>'' @ x @ ''</li>'' @ s) = Some (t @ ''<li>'' @ x, s)"
    by (simp only: skip [OF assms(1)] li skip [OF assms(2)] close option.map prod.case append_Nil2)
  then have "element [''<li''] [''</li>''] (''<link>'' @ t @ ''<li>'' @ x @ ''</li>'' @ s) = Some (t @ ''<li>'' @ x, s)"
    by (simp add: element_def tag_open_def lit_ci_def lower_cons lc)
  then have w: "whole (element [''<li''] [''</li>'']) (''<link>'' @ t @ ''<li>'' @ x @ ''</li>'' @ s) =
      Some (''<link>'' @ t @ ''<li>'' @ x @ ''</li>'', s)"
    using whole_match [of "element [''<li''] [''</li>'']" "''<link>'' @ t @ ''<li>'' @ x @ ''</li>''" s] by simp
  have st: "strip_tags (u @ v) = u @ strip_tags v" if "CHR ''<'' \<notin> set u" for u v
    using that by (induction u) (auto simp: Let_def)
  have "strip_tags (''<link>'' @ v) = strip_tags v" "strip_tags (''<li>'' @ v) = strip_tags v" "strip_tags ''</li>'' = []" for v
    by (simp_all add: Let_def)
  then have i: "inner_text (''<link>'' @ t @ ''<li>'' @ x @ ''</li>'') = strip (t @ x)"
    by (simp only: inner_text_def st [OF assms(1)] st [OF assms(2)] append_Nil2)
  show ?thesis
    using sub_scan_Some [of "whole (element [''<li''] [''</li>''])" "CHR ''<''" "''link>'' @ t @ ''<li>'' @ x @ ''</li>'' @ s"] w i
    by (simp add: replace_list_items_def del: sub_scan.simps)
qed

end
