(* ===== verification/Tables.thy ===== *)
theory Tables
  imports Json
begin

text \<open>
  Relational tables shared by the store components: a table is a dictionary from primary keys to
  rows in insertion order; \<^verbatim>\<open>SELECT ... WHERE\<close> with one result is a search, \<^verbatim>\<open>UPDATE
  ... WHERE\<close> maps over the rows. A table is keyed when each row is stored under its own key.
\<close>

type_synonym 'r tbl = "(uuid, 'r) dict"

definition keyed :: "('r \<Rightarrow> uuid) \<Rightarrow> 'r tbl \<Rightarrow> bool" where
  "keyed idf t \<longleftrightarrow> distinct (keys t) \<and> (\<forall>p \<in> set t. idf (snd p) = fst p)"

definition find_row :: "('r \<Rightarrow> bool) \<Rightarrow> 'r tbl \<Rightarrow> 'r option" where
  "find_row P t = find P (vals t)"

definition update_where :: "('r \<Rightarrow> bool) \<Rightarrow> ('r \<Rightarrow> 'r) \<Rightarrow> 'r tbl \<Rightarrow> 'r tbl" where
  "update_where P f t = map (\<lambda>(k, r). (k, if P r then f r else r)) t"

definition select_rows :: "('r \<Rightarrow> bool) \<Rightarrow> 'r tbl \<Rightarrow> 'r list" where
  "select_rows P t = filter P (vals t)"

lemma keyed_Nil [simp]: "keyed idf []"
  by (simp add: keyed_def)

lemma keyed_map_of: "keyed idf t \<Longrightarrow> map_of t k = Some r \<Longrightarrow> idf r = k"
  unfolding keyed_def by (metis fst_conv map_of_SomeD snd_conv)

lemma keyed_mem: "keyed idf t \<Longrightarrow> r \<in> set (vals t) \<Longrightarrow> map_of t (idf r) = Some r"
  unfolding keyed_def by force

lemma keyed_vals: "keyed idf t \<Longrightarrow> r \<in> set (vals t) \<longleftrightarrow> map_of t (idf r) = Some r"
  using keyed_mem by (metis map_of_SomeD imageI image_set snd_conv)

lemma keyed_put: "keyed idf t \<Longrightarrow> idf r = k \<Longrightarrow> keyed idf (put k r t)"
  unfolding keyed_def by (auto simp: put_pairs)

lemma keys_update_where [simp]: "keys (update_where P f t) = keys t"
  by (induction t) (auto simp: update_where_def)

lemma map_of_update_where:
  "map_of (update_where P f t) k = map_option (\<lambda>r. if P r then f r else r) (map_of t k)"
  by (induction t) (auto simp: update_where_def)

lemma keyed_update_where: "keyed idf t \<Longrightarrow> (\<And>r. idf (f r) = idf r) \<Longrightarrow> keyed idf (update_where P f t)"
  unfolding keyed_def by (auto simp: update_where_def distinct_map comp_def case_prod_beta inj_on_def)

lemma find_row_SomeD: "find_row P t = Some r \<Longrightarrow> keyed idf t \<Longrightarrow> P r \<and> map_of t (idf r) = Some r"
  unfolding find_row_def find_Some_iff using keyed_mem by (metis nth_mem)

lemma find_row_None: "keyed idf t \<Longrightarrow> find_row P t = None \<longleftrightarrow> (\<forall>k r. map_of t k = Some r \<longrightarrow> \<not> P r)"
  unfolding find_row_def find_None_iff using keyed_vals keyed_map_of by metis

lemma find_row_update_where:
  assumes "\<And>r. P (f r) = P r"
  shows "find_row P (update_where Q f t) = map_option (\<lambda>r. if Q r then f r else r) (find_row P t)"
proof (induction t)
  case Nil
  show ?case by (simp add: find_row_def update_where_def)
next
  case (Cons p t)
  obtain k r where p: "p = (k, r)" by fastforce
  show ?case using Cons.IH assms [of r] unfolding p find_row_def update_where_def
    by (cases "P r"; cases "Q r") simp_all
qed

lemma find_row_unique:
  "keyed idf t \<Longrightarrow> map_of t k = Some r \<Longrightarrow> P r \<Longrightarrow> (\<And>k' r'. map_of t k' = Some r' \<Longrightarrow> P r' \<Longrightarrow> k' = k) \<Longrightarrow>
   find_row P t = Some r"
proof (cases "find_row P t")
  case None
  assume "keyed idf t" "map_of t k = Some r" "P r"
  with None show ?thesis by (simp add: find_row_None)
next
  case (Some r')
  assume k: "keyed idf t" and m: "map_of t k = Some r"
    and u: "\<And>k' r'. map_of t k' = Some r' \<Longrightarrow> P r' \<Longrightarrow> k' = k"
  from find_row_SomeD [OF Some k] have "map_of t (idf r') = Some r'" "P r'" by auto
  with u m Some show ?thesis by fastforce
qed

lemma select_rows_mem:
  assumes "keyed idf t"
  shows "r \<in> set (select_rows P t) \<longleftrightarrow> P r \<and> map_of t (idf r) = Some r"
  using keyed_vals [OF assms, of r] unfolding select_rows_def set_filter by blast

lemma notin_keys: "k \<notin> set (keys t) \<longleftrightarrow> map_of t k = None"
  by (simp add: map_of_eq_None_iff)

end
