(* ===== verification/DocumentStore.thy ===== *)
theory DocumentStore
  imports Tables Domain
begin

text \<open>
  The document repository (\<^verbatim>\<open>document_repository.py\<close>) and the ingestion checkpoints
  (\<^verbatim>\<open>ingestion_checkpoint_repository.py\<close>) of
  \<^verbatim>\<open>src/groundgraph/infrastructure/postgres/\<close>. An operation returns a result and the
  tables; a violated constraint of \<^verbatim>\<open>models.py\<close> is an error that leaves them alone
  (the transaction is rolled back). The order of creation is the order of the table.
\<close>

section \<open>Tables (models.py)\<close>

record doc_row =
  d_id :: uuid
  d_source :: uuid
  d_locator :: string
  d_title :: string
  d_media :: string
  d_current :: "uuid option"

record ver_row =
  v_id :: uuid
  v_doc :: uuid
  v_checksum :: string
  v_content :: string
  v_metadata :: "(string \<times> json) list"
  v_effective :: "datetime option"
  v_current :: bool

type_synonym check_key = "uuid \<times> string \<times> string"

record doc_db =
  t_sources :: "source_descriptor tbl"
  t_docs :: "doc_row tbl"
  t_versions :: "ver_row tbl"
  t_chunks :: "chunk tbl"
  t_checks :: "(check_key, ingestion_checkpoint) dict"

section \<open>Sources\<close>

definition same_source :: "source_descriptor \<Rightarrow> source_descriptor \<Rightarrow> bool" where
  "same_source s r \<longleftrightarrow> src_tenant r = src_tenant s \<and> src_type r = src_type s \<and> src_uri r = src_uri s"

text \<open>The insert does not write the two activity columns; their defaults are active and null.\<close>

definition find_or_create_source ::
  "source_descriptor \<Rightarrow> doc_db \<Rightarrow> (exn + source_descriptor) \<times> doc_db" where
  "find_or_create_source s db =
     (case find_row (same_source s) (t_sources db) of
        Some r \<Rightarrow> (mk_source r, db)
      | None \<Rightarrow>
          if src_id s \<in> set (keys (t_sources db))
          then (Inl (RuntimeError ''duplicate key value violates unique constraint''), db)
          else let r = s\<lparr>src_active := True, src_deactivated_at := None\<rparr>
               in (mk_source r, db\<lparr>t_sources := put (src_id s) r (t_sources db)\<rparr>))"

definition get_source :: "uuid \<Rightarrow> doc_db \<Rightarrow> source_descriptor option" where
  "get_source sid db = map_of (t_sources db) sid"

definition list_sources :: "doc_db \<Rightarrow> source_descriptor list" where
  "list_sources db = vals (t_sources db)"

definition deactivate_source :: "datetime \<Rightarrow> uuid \<Rightarrow> doc_db \<Rightarrow> (exn + source_descriptor) \<times> doc_db" where
  "deactivate_source now sid db =
     (case map_of (t_sources db) sid of
        None \<Rightarrow> (Inl (ValueError ''source not found''), db)
      | Some r \<Rightarrow>
          let r' = r\<lparr>src_active := False, src_deactivated_at := Some now\<rparr>
          in (mk_source r', db\<lparr>t_sources := put sid r' (t_sources db)\<rparr>))"

section \<open>Documents and versions\<close>

definition doc_at :: "uuid \<Rightarrow> string \<Rightarrow> doc_row \<Rightarrow> bool" where
  "doc_at sid loc r \<longleftrightarrow> d_source r = sid \<and> d_locator r = loc"

definition ver_at :: "uuid \<Rightarrow> string \<Rightarrow> ver_row \<Rightarrow> bool" where
  "ver_at did cs v \<longleftrightarrow> v_doc v = did \<and> v_checksum v = cs"

definition find_active_document :: "uuid \<Rightarrow> string \<Rightarrow> doc_db \<Rightarrow> (uuid \<times> uuid) option" where
  "find_active_document sid loc db =
     (case find_row (\<lambda>r. doc_at sid loc r \<and>
              (case map_of (t_sources db) (d_source r) of Some s \<Rightarrow> src_active s | None \<Rightarrow> False)) (t_docs db) of
        None \<Rightarrow> None
      | Some r \<Rightarrow> (case d_current r of None \<Rightarrow> None | Some v \<Rightarrow> Some (d_id r, v)))"

text \<open>The first statement of \<^verbatim>\<open>upsert_document\<close>: insert the document, or on the unique
  source and locator update title and media type; the canonical id is returned.\<close>

definition upsert_doc_row :: "parsed_document \<Rightarrow> doc_db \<Rightarrow> exn + uuid \<times> doc_row tbl" where
  "upsert_doc_row p db =
     (case find_row (doc_at (pd_source_id p) (pd_locator p)) (t_docs db) of
        Some r \<Rightarrow>
          Inr (d_id r, put (d_id r) (r\<lparr>d_title := pd_title p, d_media := pd_media_type p\<rparr>) (t_docs db))
      | None \<Rightarrow>
          if pd_source_id p \<notin> set (keys (t_sources db))
          then Inl (RuntimeError ''violates foreign key constraint'')
          else if pd_document_id p \<in> set (keys (t_docs db))
          then Inl (RuntimeError ''duplicate key value violates unique constraint'')
          else Inr (pd_document_id p, put (pd_document_id p)
                 \<lparr>d_id = pd_document_id p, d_source = pd_source_id p, d_locator = pd_locator p,
                  d_title = pd_title p, d_media = pd_media_type p, d_current = None\<rparr> (t_docs db)))"

text \<open>All versions of the document lose the flag, then the version is inserted with it, or on the
  unique document and checksum the stored one gets it back.\<close>

definition clear_current :: "uuid \<Rightarrow> ver_row tbl \<Rightarrow> ver_row tbl" where
  "clear_current did t = update_where (\<lambda>v. v_doc v = did) (\<lambda>v. v\<lparr>v_current := False\<rparr>) t"

definition upsert_version :: "uuid \<Rightarrow> parsed_document \<Rightarrow> ver_row tbl \<Rightarrow> exn + uuid \<times> ver_row tbl" where
  "upsert_version did p t =
     (case find_row (ver_at did (pd_checksum p)) t of
        Some v \<Rightarrow> Inr (v_id v, put (v_id v) (v\<lparr>v_current := True\<rparr>) t)
      | None \<Rightarrow>
          if pd_version_id p \<in> set (keys t)
          then Inl (RuntimeError ''duplicate key value violates unique constraint'')
          else Inr (pd_version_id p, put (pd_version_id p)
                 \<lparr>v_id = pd_version_id p, v_doc = did, v_checksum = pd_checksum p, v_content = pd_content p,
                  v_metadata = pd_metadata p, v_effective = pd_effective_at p, v_current = True\<rparr> t))"

definition upsert_document ::
  "parsed_document \<Rightarrow> doc_db \<Rightarrow> (exn + parsed_document \<times> bool) \<times> doc_db" where
  "upsert_document p db =
     (case upsert_doc_row p db of
        Inl e \<Rightarrow> (Inl e, db)
      | Inr (did, docs) \<Rightarrow>
         (case upsert_version did p (clear_current did (t_versions db)) of
            Inl e \<Rightarrow> (Inl e, db)
          | Inr (vid, versions) \<Rightarrow>
              (Inr (p\<lparr>pd_document_id := did, pd_version_id := vid\<rparr>, vid = pd_version_id p),
               db\<lparr>t_docs := update_where (\<lambda>r. d_id r = did) (\<lambda>r. r\<lparr>d_current := Some vid\<rparr>) docs,
                  t_versions := versions\<rparr>)))"

definition create_document :: "parsed_document \<Rightarrow> doc_db \<Rightarrow> (exn + parsed_document) \<times> doc_db" where
  "create_document p db =
     (case upsert_document p db of (r, db') \<Rightarrow> (rbind r (\<lambda>(d, _). Inr d), db'))"

definition to_parsed :: "doc_row \<Rightarrow> ver_row \<Rightarrow> parsed_document" where
  "to_parsed d v =
     \<lparr>pd_document_id = d_id d, pd_version_id = v_id v, pd_source_id = d_source d, pd_locator = d_locator d,
      pd_title = d_title d, pd_media_type = d_media d, pd_checksum = v_checksum v, pd_content = v_content v,
      pd_metadata = v_metadata v, pd_effective_at = v_effective v\<rparr>"

text \<open>\<^verbatim>\<open>_get_current_version\<close>: the pointer, or without one the flagged version, the
  newest first (\<^verbatim>\<open>scalar_one_or_none\<close> raises on several rows, which the unique index
  excludes).\<close>

definition get_current_version :: "doc_row \<Rightarrow> doc_db \<Rightarrow> ver_row option" where
  "get_current_version d db =
     (case d_current d of
        Some vid \<Rightarrow> (case map_of (t_versions db) vid of
                     Some v \<Rightarrow> if v_doc v = d_id d then Some v else None | None \<Rightarrow> None)
      | None \<Rightarrow> (case rev (select_rows (\<lambda>v. v_doc v = d_id d \<and> v_current v) (t_versions db)) of
                  [] \<Rightarrow> None | v # _ \<Rightarrow> Some v))"

definition get_document :: "uuid \<Rightarrow> doc_db \<Rightarrow> parsed_document option" where
  "get_document did db =
     (case map_of (t_docs db) did of
        None \<Rightarrow> None
      | Some d \<Rightarrow> map_option (to_parsed d) (get_current_version d db))"

definition get_document_version :: "uuid \<Rightarrow> uuid \<Rightarrow> doc_db \<Rightarrow> parsed_document option" where
  "get_document_version did vid db =
     (case map_of (t_docs db) did of
        None \<Rightarrow> None
      | Some d \<Rightarrow> (case map_of (t_versions db) vid of
                    Some v \<Rightarrow> if v_doc v = did then Some (to_parsed d v) else None
                  | None \<Rightarrow> None))"

definition list_document_versions :: "uuid \<Rightarrow> doc_db \<Rightarrow> parsed_document list" where
  "list_document_versions did db =
     (case map_of (t_docs db) did of
        None \<Rightarrow> []
      | Some d \<Rightarrow> map (to_parsed d) (select_rows (\<lambda>v. v_doc v = did) (t_versions db)))"

definition delete_document :: "uuid \<Rightarrow> doc_db \<Rightarrow> doc_db" where
  "delete_document did db =
     db\<lparr>t_docs := update_where (\<lambda>r. d_id r = did) (\<lambda>r. r\<lparr>d_current := None\<rparr>) (t_docs db),
        t_versions := clear_current did (t_versions db)\<rparr>"

section \<open>Chunks\<close>

definition create_chunk :: "chunk \<Rightarrow> doc_db \<Rightarrow> (exn + chunk) \<times> doc_db" where
  "create_chunk c db =
     (if ck_id c \<in> set (keys (t_chunks db))
      then (Inl (RuntimeError ''duplicate key value violates unique constraint''), db)
      else if (case map_of (t_versions db) (ck_version_id c) of
                 Some v \<Rightarrow> v_doc v \<noteq> ck_document_id c | None \<Rightarrow> True)
      then (Inl (RuntimeError ''violates foreign key constraint''), db)
      else (Inr c, db\<lparr>t_chunks := put (ck_id c) c (t_chunks db)\<rparr>))"

definition get_chunk :: "uuid \<Rightarrow> doc_db \<Rightarrow> chunk option" where
  "get_chunk cid db = map_of (t_chunks db) cid"

definition list_chunks :: "uuid \<Rightarrow> uuid \<Rightarrow> doc_db \<Rightarrow> chunk list" where
  "list_chunks did vid db =
     sort_key ck_ordinal (select_rows (\<lambda>c. ck_document_id c = did \<and> ck_version_id c = vid) (t_chunks db))"

section \<open>Checkpoints\<close>

definition upsert_checkpoint ::
  "uuid \<Rightarrow> int \<Rightarrow> uuid \<Rightarrow> string \<Rightarrow> string \<Rightarrow> checkpoint_status \<Rightarrow> uuid option \<Rightarrow> uuid option \<Rightarrow>
   string option \<Rightarrow> doc_db \<Rightarrow> ingestion_checkpoint \<times> doc_db" where
  "upsert_checkpoint fresh now sid loc cs st did vid err db =
     (let old = map_of (t_checks db) (sid, loc, cs);
          row = \<lparr>ic_id = (case old of Some o' \<Rightarrow> ic_id o' | None \<Rightarrow> fresh), ic_source_id = sid,
                 ic_locator = loc, ic_checksum = cs, ic_status = st, ic_document_id = did,
                 ic_version_id = vid, ic_error = err,
                 ic_created_at = (case old of Some o' \<Rightarrow> ic_created_at o' | None \<Rightarrow> now),
                 ic_updated_at = now, ic_completed_at = Some now\<rparr>
      in (row, db\<lparr>t_checks := put (sid, loc, cs) row (t_checks db)\<rparr>))"

definition get_checkpoint :: "uuid \<Rightarrow> string \<Rightarrow> string \<Rightarrow> doc_db \<Rightarrow> ingestion_checkpoint option" where
  "get_checkpoint sid loc cs db = map_of (t_checks db) (sid, loc, cs)"

section \<open>The invariant of the tables\<close>

definition doc_inv :: "doc_db \<Rightarrow> bool" where
  "doc_inv db \<longleftrightarrow>
     keyed src_id (t_sources db) \<and> keyed d_id (t_docs db) \<and> keyed v_id (t_versions db) \<and>
     keyed ck_id (t_chunks db) \<and>
     (\<forall>k k' d d'. map_of (t_docs db) k = Some d \<longrightarrow> map_of (t_docs db) k' = Some d' \<longrightarrow>
        d_source d = d_source d' \<longrightarrow> d_locator d = d_locator d' \<longrightarrow> k = k') \<and>
     (\<forall>k k' v v'. map_of (t_versions db) k = Some v \<longrightarrow> map_of (t_versions db) k' = Some v' \<longrightarrow>
        v_doc v = v_doc v' \<longrightarrow> v_checksum v = v_checksum v' \<longrightarrow> k = k') \<and>
     (\<forall>k v. map_of (t_versions db) k = Some v \<longrightarrow> map_of (t_docs db) (v_doc v) \<noteq> None) \<and>
     (\<forall>k d w. map_of (t_docs db) k = Some d \<longrightarrow>
        (d_current d = Some w \<longleftrightarrow> (\<exists>v. map_of (t_versions db) w = Some v \<and> v_doc v = k \<and> v_current v))) \<and>
     (\<forall>k d. map_of (t_docs db) k = Some d \<longrightarrow> map_of (t_sources db) (d_source d) \<noteq> None) \<and>
     (\<forall>k c. map_of (t_chunks db) k = Some c \<longrightarrow>
        (\<exists>v. map_of (t_versions db) (ck_version_id c) = Some v \<and> v_doc v = ck_document_id c))"

lemma doc_invD:
  assumes "doc_inv db"
  shows doc_inv_keyed: "keyed src_id (t_sources db)" "keyed d_id (t_docs db)" "keyed v_id (t_versions db)"
      "keyed ck_id (t_chunks db)"
    and doc_inv_docs: "map_of (t_docs db) k = Some d \<Longrightarrow> map_of (t_docs db) k' = Some d' \<Longrightarrow>
        d_source d = d_source d' \<Longrightarrow> d_locator d = d_locator d' \<Longrightarrow> k = k'"
    and doc_inv_versions: "map_of (t_versions db) l = Some v \<Longrightarrow> map_of (t_versions db) l' = Some v' \<Longrightarrow>
        v_doc v = v_doc v' \<Longrightarrow> v_checksum v = v_checksum v' \<Longrightarrow> l = l'"
    and doc_inv_fk: "map_of (t_versions db) l = Some v \<Longrightarrow> map_of (t_docs db) (v_doc v) \<noteq> None"
    and doc_inv_current: "map_of (t_docs db) k = Some d \<Longrightarrow>
        d_current d = Some w \<longleftrightarrow> (\<exists>v. map_of (t_versions db) w = Some v \<and> v_doc v = k \<and> v_current v)"
    and doc_inv_source: "map_of (t_docs db) k = Some d \<Longrightarrow> map_of (t_sources db) (d_source d) \<noteq> None"
    and doc_inv_chunk: "map_of (t_chunks db) k = Some c \<Longrightarrow>
        \<exists>v. map_of (t_versions db) (ck_version_id c) = Some v \<and> v_doc v = ck_document_id c"
  using assms unfolding doc_inv_def by (blast+)

text \<open>What a successful upsert does to the two tables.\<close>

lemma upsert_doc_row_ok:
  assumes "upsert_doc_row p db = Inr (did, docs)" and "doc_inv db"
  shows "\<exists>d. map_of docs = (map_of (t_docs db))(did \<mapsto> d) \<and> keyed d_id docs \<and> d_id d = did \<and>
     d_source d = pd_source_id p \<and> d_locator d = pd_locator p \<and> d_title d = pd_title p \<and>
     d_media d = pd_media_type p \<and>
     (case map_of (t_docs db) did of
        Some r \<Rightarrow> d_source r = pd_source_id p \<and> d_locator r = pd_locator p
      | None \<Rightarrow> did = pd_document_id p \<and> map_of (t_sources db) (pd_source_id p) \<noteq> None \<and>
          find_row (doc_at (pd_source_id p) (pd_locator p)) (t_docs db) = None)"
proof (cases "find_row (doc_at (pd_source_id p) (pd_locator p)) (t_docs db)")
  case None
  let ?d = "\<lparr>d_id = pd_document_id p, d_source = pd_source_id p, d_locator = pd_locator p,
    d_title = pd_title p, d_media = pd_media_type p, d_current = None\<rparr>"
  show ?thesis using None assms(1) doc_inv_keyed(2) [OF assms(2)]
    by (intro exI [of _ ?d])
       (auto simp: upsert_doc_row_def map_of_eq_None_iff [symmetric] keyed_put split: if_splits)
next
  case (Some r)
  let ?d = "r\<lparr>d_title := pd_title p, d_media := pd_media_type p\<rparr>"
  from find_row_SomeD [OF Some doc_inv_keyed(2) [OF assms(2)]]
  show ?thesis using Some assms(1) doc_inv_keyed(2) [OF assms(2)]
    by (intro exI [of _ ?d]) (auto simp: upsert_doc_row_def doc_at_def keyed_put)
qed

lemma upsert_version_ok:
  assumes "upsert_version did p t = Inr (vid, t')" and "keyed v_id t"
  shows "\<exists>v. map_of t' = (map_of t)(vid \<mapsto> v) \<and> keyed v_id t' \<and> v_id v = vid \<and> v_doc v = did \<and>
     v_checksum v = pd_checksum p \<and> v_current v \<and>
     (case map_of t vid of
        Some v0 \<Rightarrow> v_doc v0 = did \<and> v_checksum v0 = pd_checksum p \<and> v = v0\<lparr>v_current := True\<rparr>
      | None \<Rightarrow> vid = pd_version_id p \<and> find_row (ver_at did (pd_checksum p)) t = None \<and>
          v_content v = pd_content p \<and> v_metadata v = pd_metadata p \<and> v_effective v = pd_effective_at p)"
proof (cases "find_row (ver_at did (pd_checksum p)) t")
  case None
  let ?v = "\<lparr>v_id = pd_version_id p, v_doc = did, v_checksum = pd_checksum p, v_content = pd_content p,
    v_metadata = pd_metadata p, v_effective = pd_effective_at p, v_current = True\<rparr>"
  show ?thesis using None assms
    by (intro exI [of _ ?v])
       (auto simp: upsert_version_def map_of_eq_None_iff [symmetric] keyed_put split: if_splits)
next
  case (Some r)
  from find_row_SomeD [OF Some assms(2)] show ?thesis using Some assms
    by (intro exI [of _ "r\<lparr>v_current := True\<rparr>"]) (auto simp: upsert_version_def ver_at_def keyed_put)
qed

lemma map_of_clear_current:
  "map_of (clear_current did t) k = map_option (\<lambda>v. if v_doc v = did then v\<lparr>v_current := False\<rparr> else v) (map_of t k)"
  by (simp add: clear_current_def map_of_update_where)

lemma keyed_clear_current: "keyed v_id t \<Longrightarrow> keyed v_id (clear_current did t)"
  by (simp add: clear_current_def keyed_update_where)

text \<open>The two statements together, as one description of the tables after a successful upsert.\<close>

definition upsert_post :: "parsed_document \<Rightarrow> doc_db \<Rightarrow> uuid \<Rightarrow> uuid \<Rightarrow> doc_row \<Rightarrow> ver_row \<Rightarrow> doc_db \<Rightarrow> bool" where
  "upsert_post p db did vid d v db' \<longleftrightarrow>
     t_sources db' = t_sources db \<and> t_chunks db' = t_chunks db \<and> t_checks db' = t_checks db \<and>
     keyed d_id (t_docs db') \<and> keyed v_id (t_versions db') \<and>
     map_of (t_docs db') = (map_of (t_docs db))(did \<mapsto> d) \<and>
     map_of (t_versions db') = (map_of (clear_current did (t_versions db)))(vid \<mapsto> v) \<and>
     d_id d = did \<and> d_source d = pd_source_id p \<and> d_locator d = pd_locator p \<and> d_title d = pd_title p \<and>
     d_media d = pd_media_type p \<and> d_current d = Some vid \<and>
     v_id v = vid \<and> v_doc v = did \<and> v_checksum v = pd_checksum p \<and> v_current v \<and>
     (case map_of (t_docs db) did of
        Some r \<Rightarrow> d_source r = pd_source_id p \<and> d_locator r = pd_locator p
      | None \<Rightarrow> did = pd_document_id p \<and> map_of (t_sources db) (pd_source_id p) \<noteq> None \<and>
          find_row (doc_at (pd_source_id p) (pd_locator p)) (t_docs db) = None) \<and>
     (case map_of (t_versions db) vid of
        Some v0 \<Rightarrow> v_doc v0 = did \<and> v_checksum v0 = pd_checksum p \<and> v = v0\<lparr>v_current := True\<rparr>
      | None \<Rightarrow> vid = pd_version_id p \<and> (\<forall>k w. map_of (t_versions db) k = Some w \<longrightarrow> \<not> ver_at did (pd_checksum p) w) \<and>
          v_content v = pd_content p \<and> v_metadata v = pd_metadata p \<and> v_effective v = pd_effective_at p)"

lemma find_ver_clear:
  assumes "keyed v_id t"
  shows "find_row (ver_at did cs) (clear_current did' t) = None \<longleftrightarrow>
     (\<forall>k w. map_of t k = Some w \<longrightarrow> \<not> ver_at did cs w)"
proof -
  have "find_row (ver_at did cs) (clear_current did' t) = None \<longleftrightarrow> find_row (ver_at did cs) t = None"
    unfolding clear_current_def by (subst find_row_update_where) (simp_all add: ver_at_def)
  then show ?thesis by (simp add: find_row_None [OF assms])
qed

lemma upsert_document_ok:
  assumes "upsert_document p db = (Inr (q, new), db')" and inv: "doc_inv db"
  shows "\<exists>did vid d v. q = p\<lparr>pd_document_id := did, pd_version_id := vid\<rparr> \<and>
     new = (vid = pd_version_id p) \<and> upsert_post p db did vid d v db'"
proof -
  from assms(1) obtain did docs vid vers where
    docs: "upsert_doc_row p db = Inr (did, docs)" and
    vers: "upsert_version did p (clear_current did (t_versions db)) = Inr (vid, vers)" and
    q: "q = p\<lparr>pd_document_id := did, pd_version_id := vid\<rparr>" "new = (vid = pd_version_id p)" and
    db': "db' = db\<lparr>t_docs := update_where (\<lambda>r. d_id r = did) (\<lambda>r. r\<lparr>d_current := Some vid\<rparr>) docs,
                  t_versions := vers\<rparr>"
    by (auto simp: upsert_document_def split: sum.splits prod.splits)
  note kv = keyed_clear_current [OF doc_inv_keyed(3) [OF inv]]
  from upsert_doc_row_ok [OF docs inv] obtain d where
    d: "map_of docs = (map_of (t_docs db))(did \<mapsto> d)" "keyed d_id docs" "d_id d = did"
      "d_source d = pd_source_id p" "d_locator d = pd_locator p" "d_title d = pd_title p"
      "d_media d = pd_media_type p" and
    d0: "case map_of (t_docs db) did of
        Some r \<Rightarrow> d_source r = pd_source_id p \<and> d_locator r = pd_locator p
      | None \<Rightarrow> did = pd_document_id p \<and> map_of (t_sources db) (pd_source_id p) \<noteq> None \<and>
          find_row (doc_at (pd_source_id p) (pd_locator p)) (t_docs db) = None" by blast
  from upsert_version_ok [OF vers kv] obtain v where
    v: "map_of vers = (map_of (clear_current did (t_versions db)))(vid \<mapsto> v)" "keyed v_id vers"
      "v_id v = vid" "v_doc v = did" "v_checksum v = pd_checksum p" "v_current v" and
    v0: "case map_of (clear_current did (t_versions db)) vid of
        Some v0 \<Rightarrow> v_doc v0 = did \<and> v_checksum v0 = pd_checksum p \<and> v = v0\<lparr>v_current := True\<rparr>
      | None \<Rightarrow> vid = pd_version_id p \<and>
          find_row (ver_at did (pd_checksum p)) (clear_current did (t_versions db)) = None \<and>
          v_content v = pd_content p \<and> v_metadata v = pd_metadata p \<and> v_effective v = pd_effective_at p"
    by blast
  let ?d = "d\<lparr>d_current := Some vid\<rparr>"
  have m: "map_of (t_docs db') = (map_of (t_docs db))(did \<mapsto> ?d)"
  proof
    fix x
    show "map_of (t_docs db') x = ((map_of (t_docs db))(did \<mapsto> ?d)) x"
      using d(1,3) keyed_map_of [OF doc_inv_keyed(2) [OF inv], of x]
      by (cases "map_of (t_docs db) x") (auto simp: db' map_of_update_where)
  qed
  have "case map_of (t_versions db) vid of
        Some v0 \<Rightarrow> v_doc v0 = did \<and> v_checksum v0 = pd_checksum p \<and> v = v0\<lparr>v_current := True\<rparr>
      | None \<Rightarrow> vid = pd_version_id p \<and> (\<forall>k w. map_of (t_versions db) k = Some w \<longrightarrow> \<not> ver_at did (pd_checksum p) w) \<and>
          v_content v = pd_content p \<and> v_metadata v = pd_metadata p \<and> v_effective v = pd_effective_at p"
    using v0 unfolding find_ver_clear [OF doc_inv_keyed(3) [OF inv]]
    by (auto simp: map_of_clear_current split: option.splits if_splits)
  moreover have "keyed d_id (t_docs db')" using d(2) by (simp add: db' keyed_update_where)
  ultimately have "upsert_post p db did vid ?d v db'"
    unfolding upsert_post_def using m v d d0 by (simp add: db')
  with q show ?thesis by blast
qed

lemma upsert_post_inv:
  assumes inv: "doc_inv db" and post: "upsert_post p db did vid d v db'"
  shows "doc_inv db'"
proof -
  let ?D = "map_of (t_docs db)" and ?V = "map_of (t_versions db)"
  have D': "map_of (t_docs db') = ?D(did \<mapsto> d)"
    and V': "map_of (t_versions db') = (map_of (clear_current did (t_versions db)))(vid \<mapsto> v)"
    and d: "d_id d = did" "d_source d = pd_source_id p" "d_locator d = pd_locator p" "d_current d = Some vid"
    and v: "v_id v = vid" "v_doc v = did" "v_checksum v = pd_checksum p" "v_current v"
    and rest: "t_sources db' = t_sources db" "t_chunks db' = t_chunks db"
    and ky: "keyed d_id (t_docs db')" "keyed v_id (t_versions db')"
    using post by (simp_all add: upsert_post_def)
  have old_d: "?D did = Some r \<Longrightarrow> d_source r = pd_source_id p \<and> d_locator r = pd_locator p" for r
    using post by (auto simp: upsert_post_def split: option.splits)
  have new_d: "?D did = None \<Longrightarrow> map_of (t_sources db) (pd_source_id p) \<noteq> None \<and>
      (\<forall>k r. ?D k = Some r \<longrightarrow> \<not> doc_at (pd_source_id p) (pd_locator p) r)"
    using post find_row_None [OF doc_inv_keyed(2) [OF inv]] by (auto simp: upsert_post_def)
  have old_v: "?V vid = Some w \<Longrightarrow> v_doc w = did \<and> v_checksum w = pd_checksum p" for w
    using post by (auto simp: upsert_post_def split: option.splits)
  have new_v: "?V vid = None \<Longrightarrow> ?V k = Some w \<Longrightarrow> v_doc w = did \<Longrightarrow> v_checksum w \<noteq> pd_checksum p" for k w
    using post by (auto simp: upsert_post_def ver_at_def)
  have V'D: "map_of (t_versions db') k = Some w \<Longrightarrow> k \<noteq> vid \<Longrightarrow>
      \<exists>w0. ?V k = Some w0 \<and> v_doc w = v_doc w0 \<and> v_checksum w = v_checksum w0 \<and>
        (v_current w \<longleftrightarrow> v_current w0 \<and> v_doc w0 \<noteq> did)" for k w
    by (cases "?V k") (auto simp: V' map_of_clear_current split: if_split_asm if_split)
  have V'I: "?V k = Some w0 \<Longrightarrow> k \<noteq> vid \<Longrightarrow> \<exists>w. map_of (t_versions db') k = Some w \<and>
      v_doc w = v_doc w0 \<and> (v_current w \<longleftrightarrow> v_current w0 \<and> v_doc w0 \<noteq> did)" for k w0
    by (auto simp: V' map_of_clear_current)
  have V'v: "map_of (t_versions db') vid = Some v" by (simp add: V')
  have docs: "k = k'" if "map_of (t_docs db') k = Some e" "map_of (t_docs db') k' = Some e'"
      "d_source e = d_source e'" "d_locator e = d_locator e'" for k k' e e'
  proof -
    have other: "x = did" if "?D x = Some y" "d_source y = pd_source_id p" "d_locator y = pd_locator p" for x y
      using that old_d new_d doc_inv_docs [OF inv] by (cases "?D did") (auto simp: doc_at_def)
    show ?thesis using that d doc_inv_docs [OF inv] other by (auto simp: D' split: if_splits)
  qed
  have versions: "k = k'" if "map_of (t_versions db') k = Some w" "map_of (t_versions db') k' = Some w'"
      "v_doc w = v_doc w'" "v_checksum w = v_checksum w'" for k k' w w'
  proof -
    have other: "x = vid" if "?V x = Some y" "v_doc y = did" "v_checksum y = pd_checksum p" for x y
      using that old_v new_v doc_inv_versions [OF inv] by (cases "?V vid") auto
    have "x = vid" if "map_of (t_versions db') x = Some y" "v_doc y = did" "v_checksum y = pd_checksum p" for x y
      using V'D [OF that(1)] that other by metis
    moreover have "k = k'" if "k \<noteq> vid" "k' \<noteq> vid"
      using V'D [OF \<open>map_of (t_versions db') k = Some w\<close> that(1)]
        V'D [OF \<open>map_of (t_versions db') k' = Some w'\<close> that(2)]
        \<open>v_doc w = v_doc w'\<close> \<open>v_checksum w = v_checksum w'\<close> doc_inv_versions [OF inv] by metis
    ultimately show ?thesis using that V'v v by (metis option.inject)
  qed
  have current: "d_current e = Some w \<longleftrightarrow> (\<exists>x. map_of (t_versions db') w = Some x \<and> v_doc x = k \<and> v_current x)"
    if e: "map_of (t_docs db') k = Some e" for k e w
  proof (cases "k = did")
    case True
    then have "e = d" using e by (simp add: D')
    then show ?thesis using True V'v v d V'D by (metis option.inject)
  next
    case False
    then have e0: "?D k = Some e" using e by (simp add: D')
    have "d_current e = Some w \<longleftrightarrow> (\<exists>x. ?V w = Some x \<and> v_doc x = k \<and> v_current x)"
      using doc_inv_current [OF inv e0] .
    moreover have "w \<noteq> vid" if "?V w = Some x" "v_doc x = k" for x using that old_v False by metis
    moreover have "w \<noteq> vid" if "map_of (t_versions db') w = Some x" "v_doc x = k" for x
      using that V'v v False by fastforce
    ultimately show ?thesis using V'D V'I False by metis
  qed
  have fk: "map_of (t_docs db') (v_doc w) \<noteq> None" if "map_of (t_versions db') k = Some w" for k w
    using that V'v v V'D doc_inv_fk [OF inv] by (cases "k = vid") (fastforce simp: D')+
  have src: "map_of (t_sources db') (d_source e) \<noteq> None" if "map_of (t_docs db') k = Some e" for k e
    using that d old_d new_d doc_inv_source [OF inv] unfolding rest
    by (cases "k = did"; cases "?D did") (auto simp: D', (metis option.distinct(1))+)
  have chunks: "\<exists>w. map_of (t_versions db') (ck_version_id c) = Some w \<and> v_doc w = ck_document_id c"
    if "map_of (t_chunks db') k = Some c" for k c
    using that doc_inv_chunk [OF inv, of k c] V'v v old_v V'I unfolding rest by metis
  have "keyed src_id (t_sources db')" "keyed ck_id (t_chunks db')"
    using doc_inv_keyed [OF inv] rest by simp_all
  then show ?thesis
    unfolding doc_inv_def using ky
    by (intro conjI allI impI; fast?) (rule docs versions fk current src chunks; assumption)+
qed

section \<open>All writers: the tables as a transition system\<close>

definition empty_docs :: doc_db where
  "empty_docs = \<lparr>t_sources = [], t_docs = [], t_versions = [], t_chunks = [], t_checks = []\<rparr>"

inductive doc_step :: "doc_db \<Rightarrow> doc_db \<Rightarrow> bool" where
  ds_source: "find_or_create_source s db = (Inr r, db') \<Longrightarrow> doc_step db db'"
| ds_deactivate: "deactivate_source now sid db = (Inr r, db') \<Longrightarrow> doc_step db db'"
| ds_upsert: "upsert_document p db = (Inr q, db') \<Longrightarrow> doc_step db db'"
| ds_chunk: "create_chunk c db = (Inr r, db') \<Longrightarrow> doc_step db db'"
| ds_delete: "doc_step db (delete_document did db)"
| ds_checkpoint: "doc_step db (snd (upsert_checkpoint fresh now sid loc cs st did vid err db))"

definition doc_start :: "doc_db \<Rightarrow> bool" where
  "doc_start db \<longleftrightarrow> db = empty_docs"

lemma doc_inv_put_source:
  "doc_inv db \<Longrightarrow> src_id r = k \<Longrightarrow> doc_inv (db\<lparr>t_sources := put k r (t_sources db)\<rparr>)"
  by (auto simp: doc_inv_def keyed_put)

lemma doc_inv_put_chunk:
  "doc_inv db \<Longrightarrow> map_of (t_versions db) (ck_version_id c) = Some v \<Longrightarrow> v_doc v = ck_document_id c \<Longrightarrow>
   doc_inv (db\<lparr>t_chunks := put (ck_id c) c (t_chunks db)\<rparr>)"
  by (auto simp: doc_inv_def keyed_put)

lemma doc_inv_delete:
  assumes "doc_inv db"
  shows "doc_inv (delete_document did db)"
proof -
  let ?db = "delete_document did db"
  have V: "map_of (t_versions ?db) k = Some w \<Longrightarrow> \<exists>w0. map_of (t_versions db) k = Some w0 \<and>
      v_doc w = v_doc w0 \<and> v_checksum w = v_checksum w0 \<and> (v_current w \<longleftrightarrow> v_current w0 \<and> v_doc w0 \<noteq> did)" for k w
    by (cases "map_of (t_versions db) k")
       (auto simp: delete_document_def map_of_clear_current split: if_split_asm if_split)
  have VI: "map_of (t_versions db) k = Some w0 \<Longrightarrow> \<exists>w. map_of (t_versions ?db) k = Some w \<and>
      v_doc w = v_doc w0 \<and> (v_current w \<longleftrightarrow> v_current w0 \<and> v_doc w0 \<noteq> did)" for k w0
    by (auto simp: delete_document_def map_of_clear_current)
  have D: "map_of (t_docs ?db) k = Some e \<Longrightarrow> \<exists>e0. map_of (t_docs db) k = Some e0 \<and> d_source e = d_source e0 \<and>
      d_locator e = d_locator e0 \<and> d_current e = (if k = did then None else d_current e0)" for k e
    using keyed_map_of [OF doc_inv_keyed(2) [OF assms], of k]
    by (cases "map_of (t_docs db) k")
       (auto simp: delete_document_def map_of_update_where split: if_split_asm if_split)
  have DN: "map_of (t_docs ?db) k = None \<longleftrightarrow> map_of (t_docs db) k = None" for k
    by (simp add: delete_document_def map_of_update_where)
  have rest: "t_sources ?db = t_sources db" "t_chunks ?db = t_chunks db"
    by (simp_all add: delete_document_def)
  have ky: "keyed src_id (t_sources ?db)" "keyed d_id (t_docs ?db)" "keyed v_id (t_versions ?db)"
      "keyed ck_id (t_chunks ?db)"
    using doc_inv_keyed [OF assms] by (simp_all add: delete_document_def keyed_update_where keyed_clear_current)
  have docs: "k = k'" if "map_of (t_docs ?db) k = Some e" "map_of (t_docs ?db) k' = Some e'"
      "d_source e = d_source e'" "d_locator e = d_locator e'" for k k' e e'
    using D that doc_inv_docs [OF assms] by metis
  have versions: "k = k'" if "map_of (t_versions ?db) k = Some w" "map_of (t_versions ?db) k' = Some w'"
      "v_doc w = v_doc w'" "v_checksum w = v_checksum w'" for k k' w w'
    using V that doc_inv_versions [OF assms] by metis
  have fk: "map_of (t_docs ?db) (v_doc w) \<noteq> None" if "map_of (t_versions ?db) k = Some w" for k w
    using V [OF that] doc_inv_fk [OF assms] DN by metis
  have current: "d_current e = Some w \<longleftrightarrow> (\<exists>x. map_of (t_versions ?db) w = Some x \<and> v_doc x = k \<and> v_current x)"
    if "map_of (t_docs ?db) k = Some e" for k e w
  proof -
    from D [OF that] obtain e0 where e0: "map_of (t_docs db) k = Some e0"
      "d_current e = (if k = did then None else d_current e0)" by blast
    show ?thesis using doc_inv_current [OF assms e0(1), of w] e0(2) V VI
      by (cases "k = did") (force, metis)
  qed
  have src: "map_of (t_sources ?db) (d_source e) \<noteq> None" if "map_of (t_docs ?db) k = Some e" for k e
    using D [OF that] doc_inv_source [OF assms] rest by metis
  have chunks: "\<exists>w. map_of (t_versions ?db) (ck_version_id c) = Some w \<and> v_doc w = ck_document_id c"
    if "map_of (t_chunks ?db) k = Some c" for k c
    using that doc_inv_chunk [OF assms, of k c] VI rest by metis
  show ?thesis
    unfolding doc_inv_def using ky
    by (intro conjI allI impI; fast?) (rule docs versions fk current src chunks; assumption)+
qed

lemma doc_step_inv:
  assumes "doc_inv db" and "doc_step db db'"
  shows "doc_inv db'"
  using assms(2)
proof cases
  case (ds_source s r)
  then show ?thesis using assms(1)
    by (auto simp: find_or_create_source_def Let_def mk_source_def split: option.splits if_splits
        intro!: doc_inv_put_source)
next
  case (ds_deactivate now sid r)
  then show ?thesis using assms(1) keyed_map_of [OF doc_inv_keyed(1) [OF assms(1)], of sid]
    by (auto simp: deactivate_source_def Let_def mk_source_def split: option.splits if_splits
        intro!: doc_inv_put_source)
next
  case (ds_upsert p q)
  then obtain q' new where "upsert_document p db = (Inr (q', new), db')" by (cases q) auto
  from upsert_document_ok [OF this assms(1)] show ?thesis using upsert_post_inv [OF assms(1)] by blast
next
  case (ds_chunk c r)
  then show ?thesis using assms(1) doc_inv_put_chunk
    by (auto simp: create_chunk_def split: option.splits if_splits)
next
  case (ds_delete did)
  then show ?thesis using doc_inv_delete assms(1) by simp
next
  case (ds_checkpoint fresh now sid loc cs st did vid err)
  then show ?thesis using assms(1) by (simp add: upsert_checkpoint_def Let_def doc_inv_def)
qed

interpretation documents: invariant_system doc_start doc_step doc_inv
proof unfold_locales
  show "doc_start s \<Longrightarrow> doc_inv s" for s
    by (simp add: doc_start_def doc_inv_def empty_docs_def)
qed (rule doc_step_inv)

lemma get_document_inv:
  assumes "doc_inv db" and d: "map_of (t_docs db) k = Some d"
  shows "get_document k db =
     (case d_current d of None \<Rightarrow> None | Some w \<Rightarrow> map_option (to_parsed d) (map_of (t_versions db) w))"
proof (cases "d_current d")
  case None
  have "d_id d = k" using keyed_map_of [OF doc_inv_keyed(2) [OF assms(1)] d] .
  then have "r \<notin> set (select_rows (\<lambda>v. v_doc v = d_id d \<and> v_current v) (t_versions db))" for r
    unfolding select_rows_mem [OF doc_inv_keyed(3) [OF assms(1)]]
    using doc_inv_current [OF assms(1) d] None by auto
  then have "select_rows (\<lambda>v. v_doc v = d_id d \<and> v_current v) (t_versions db) = []"
    by (cases "select_rows (\<lambda>v. v_doc v = d_id d \<and> v_current v) (t_versions db)") auto
  then show ?thesis using None d by (simp add: get_document_def get_current_version_def)
next
  case (Some w)
  then obtain v where "map_of (t_versions db) w = Some v" "v_doc v = k"
    using doc_inv_current [OF assms] by blast
  then show ?thesis using Some d keyed_map_of [OF doc_inv_keyed(2) [OF assms(1)] d]
    by (simp add: get_document_def get_current_version_def)
qed

lemma upsert_post_get:
  assumes inv: "doc_inv db" and post: "upsert_post p db did vid d v db'"
  shows "get_document did db' = Some (to_parsed d v)"
    and "k \<noteq> did \<Longrightarrow> get_document k db' = get_document k db"
proof -
  note inv' = upsert_post_inv [OF inv post]
  have m: "map_of (t_docs db') = (map_of (t_docs db))(did \<mapsto> d)"
    "map_of (t_versions db') = (map_of (clear_current did (t_versions db)))(vid \<mapsto> v)"
    "d_current d = Some vid" using post by (simp_all add: upsert_post_def)
  have old_v: "map_of (t_versions db) vid = Some w \<Longrightarrow> v_doc w = did" for w
    using post by (simp add: upsert_post_def)
  show "get_document did db' = Some (to_parsed d v)"
    using get_document_inv [OF inv', of did d] m by simp
  show "get_document k db' = get_document k db" if "k \<noteq> did"
  proof (cases "map_of (t_docs db) k")
    case None
    then show ?thesis using that m by (simp add: get_document_def)
  next
    case (Some e)
    then have e': "map_of (t_docs db') k = Some e" using that m by simp
    have "map_of (t_versions db') w = map_of (t_versions db) w" if w: "d_current e = Some w" for w
    proof -
      obtain x where x: "map_of (t_versions db) w = Some x" "v_doc x = k"
        using doc_inv_current [OF inv Some, of w] w by auto
      moreover have "w \<noteq> vid" using x \<open>k \<noteq> did\<close> old_v by blast
      ultimately show ?thesis using \<open>k \<noteq> did\<close>
        by (simp add: m(2) map_of_clear_current)
    qed
    then show ?thesis
      using get_document_inv [OF inv Some] get_document_inv [OF inv' e'] by (simp split: option.splits)
  qed
qed

section \<open>Properties\<close>

text \<open>C9: In every reachable state of the document tables, whatever the writers do, a document has
  at most one version flagged current, and it is the one its pointer names; two versions of a
  document have different checksums; two documents have different source or locator; and chunks
  belong to stored versions.\<close>

theorem reachable_documents:
  assumes "reach doc_start doc_step db"
  shows "(\<forall>k d w. map_of (t_docs db) k = Some d \<longrightarrow>
            (d_current d = Some w \<longleftrightarrow> (\<exists>v. map_of (t_versions db) w = Some v \<and> v_doc v = k \<and> v_current v))) \<and>
    (\<forall>k k' v v'. map_of (t_versions db) k = Some v \<longrightarrow> map_of (t_versions db) k' = Some v' \<longrightarrow>
        v_doc v = v_doc v' \<longrightarrow> v_checksum v = v_checksum v' \<longrightarrow> k = k') \<and>
    (\<forall>k k' d d'. map_of (t_docs db) k = Some d \<longrightarrow> map_of (t_docs db) k' = Some d' \<longrightarrow>
        d_source d = d_source d' \<longrightarrow> d_locator d = d_locator d' \<longrightarrow> k = k') \<and>
    (\<forall>k c. map_of (t_chunks db) k = Some c \<longrightarrow>
        (\<exists>v. map_of (t_versions db) (ck_version_id c) = Some v \<and> v_doc v = ck_document_id c))"
  using documents.reach_inv [OF assms] unfolding doc_inv_def by blast

definition demo_source :: source_descriptor where
  "demo_source = \<lparr>src_id = 1, src_type = Filesystem, src_uri = ''/d'', src_classification = ''c'',
     src_tenant = ''t'', src_principals = [''p''], src_active = True, src_deactivated_at = None\<rparr>"

definition demo_doc :: parsed_document where
  "demo_doc = \<lparr>pd_document_id = 2, pd_version_id = 3, pd_source_id = 1, pd_locator = ''/d/a'',
     pd_title = ''a'', pd_media_type = ''text/plain'', pd_checksum = ''x'', pd_content = ''body'',
     pd_metadata = [], pd_effective_at = None\<rparr>"

definition demo_docs0 :: doc_db where
  "demo_docs0 = empty_docs\<lparr>t_sources := [(1, demo_source)]\<rparr>"

definition demo_docs1 :: doc_db where
  "demo_docs1 = snd (upsert_document demo_doc demo_docs0)"

lemma demo_docs0_reach: "reach doc_start doc_step demo_docs0"
proof (rule reach_step [OF reach_start])
  show "doc_start empty_docs" by (simp add: doc_start_def)
  have "find_or_create_source demo_source empty_docs = (Inr demo_source, demo_docs0)"
    by (simp add: find_or_create_source_def find_row_def empty_docs_def demo_docs0_def demo_source_def
        mk_source_def Let_def)
  then show "doc_step empty_docs demo_docs0" by (rule ds_source)
qed

lemma demo_docs1_eq:
  "upsert_document demo_doc demo_docs0 = (Inr (demo_doc, True), demo_docs1)"
  "map_of (t_docs demo_docs1) 2 = Some \<lparr>d_id = 2, d_source = 1, d_locator = ''/d/a'', d_title = ''a'',
     d_media = ''text/plain'', d_current = Some 3\<rparr>"
  by (simp_all add: demo_docs1_def upsert_document_def upsert_doc_row_def upsert_version_def find_row_def
      demo_docs0_def empty_docs_def demo_doc_def clear_current_def update_where_def)

theorem reachable_documents_witness:
  "reach doc_start doc_step demo_docs1 \<and>
   (\<exists>v. map_of (t_versions demo_docs1) 3 = Some v \<and> v_doc v = 2 \<and> v_current v)"
proof -
  have r: "reach doc_start doc_step demo_docs1"
    by (rule reach_step [OF demo_docs0_reach ds_upsert [OF demo_docs1_eq(1)]])
  show ?thesis using r reachable_documents [OF r] demo_docs1_eq(2) by fastforce
qed

text \<open>After a successful upsert the document reads back with the given checksum, title and
  locator and the returned version, and, when that version was not stored before, with the whole
  given content; every other document reads as before. With a fresh version id, the returned flag
  says exactly that the document had no version with this checksum.\<close>

theorem upsert_then_get:
  assumes "reach doc_start doc_step db" and "upsert_document p db = (Inr (q, new), db')"
  shows "(\<exists>r. get_document (pd_document_id q) db' = Some r \<and> pd_checksum r = pd_checksum p \<and>
      pd_version_id r = pd_version_id q \<and> pd_title r = pd_title p \<and> pd_source_id r = pd_source_id p \<and>
      pd_locator r = pd_locator p \<and> (map_of (t_versions db) (pd_version_id q) = None \<longrightarrow> r = q)) \<and>
    (\<forall>k. k \<noteq> pd_document_id q \<longrightarrow> get_document k db' = get_document k db) \<and>
    (map_of (t_versions db) (pd_version_id p) = None \<longrightarrow>
       new = (\<nexists>k v. map_of (t_versions db) k = Some v \<and> ver_at (pd_document_id q) (pd_checksum p) v))"
proof -
  have inv: "doc_inv db" using documents.reach_inv [OF assms(1)] .
  from upsert_document_ok [OF assms(2) inv] obtain did vid d v where
    q: "q = p\<lparr>pd_document_id := did, pd_version_id := vid\<rparr>" "new = (vid = pd_version_id p)"
    and post: "upsert_post p db did vid d v db'" by blast
  note get = upsert_post_get [OF inv post]
  have "new = (\<nexists>k v. map_of (t_versions db) k = Some v \<and> ver_at did (pd_checksum p) v)"
    if "map_of (t_versions db) (pd_version_id p) = None"
    using post that q(2) by (cases "map_of (t_versions db) vid") (auto simp: upsert_post_def ver_at_def)
  moreover have "to_parsed d v = q" if "map_of (t_versions db) vid = None"
    using post that q(1) by (cases p) (simp add: upsert_post_def to_parsed_def)
  ultimately show ?thesis
    using get post q(1) by (auto simp: upsert_post_def to_parsed_def)
qed

theorem upsert_then_get_witness:
  "reach doc_start doc_step demo_docs0 \<and> get_document 2 demo_docs1 = Some demo_doc"
  using upsert_then_get [OF demo_docs0_reach demo_docs1_eq(1)] demo_docs0_reach
  by (auto simp: demo_docs0_def empty_docs_def demo_doc_def)

end
