(* ===== verification/Outbox.thy ===== *)
theory Outbox
  imports Domain "HOL-Library.Product_Lexorder"
begin

text \<open>
  The transactional outbox:
  \<^verbatim>\<open>src/groundgraph/infrastructure/postgres/outbox_repository.py\<close> (claims with a
  token and a lease), \<^verbatim>\<open>outbox_consumer.py\<close> (the consumer without tokens) and the
  state machine that the operations of both make together with the passing of time. The table is a
  dictionary of rows by event id; the clock, the worker and the fresh claim tokens are arguments, and
  so are the rows other transactions hold locked (\<^verbatim>\<open>FOR UPDATE SKIP LOCKED\<close>) and
  the order \<^verbatim>\<open>tie\<close> in which the database returns rows of equal
  \<^verbatim>\<open>created_at\<close>, which the queries leave open.
\<close>

section \<open>Rows\<close>

record outbox_row =
  ob_id :: uuid
  ob_aggregate_type :: string
  ob_aggregate_id :: uuid
  ob_type :: event_type
  ob_payload :: "(string \<times> json) list"
  ob_status :: string
  ob_attempts :: nat
  ob_last_error :: "string option"
  ob_available_at :: int
  ob_created_at :: int
  ob_claimed_by :: "string option"
  ob_claim_token :: "uuid option"
  ob_claimed_at :: "int option"
  ob_lease :: "int option"
  ob_completed_at :: "int option"

type_synonym outbox = "(uuid, outbox_row) dict"

text \<open>\<^verbatim>\<open>_to_domain\<close>: the status column is looked up in the enum.\<close>

definition to_domain :: "outbox_row \<Rightarrow> exn + outbox_event" where
  "to_domain r = rbind (event_status_of (ob_status r)) (\<lambda>st. mk_outbox_event
     \<lparr>oe_id = ob_id r, oe_aggregate_type = ob_aggregate_type r, oe_aggregate_id = ob_aggregate_id r,
      oe_type = ob_type r, oe_payload = ob_payload r, oe_status = st, oe_attempts = int (ob_attempts r),
      oe_last_error = ob_last_error r, oe_created_at = ob_created_at r, oe_claimed_at = ob_claimed_at r,
      oe_claim_token = ob_claim_token r, oe_completed_at = ob_completed_at r\<rparr>)"

lemma to_domain_Inr:
  "to_domain r = Inr e \<Longrightarrow> oe_id e = ob_id r \<and> oe_claim_token e = ob_claim_token r \<and>
     oe_type e = ob_type r \<and> oe_payload e = ob_payload r"
  by (auto simp: to_domain_def mk_outbox_event_def split: if_splits)

section \<open>The repository\<close>

text \<open>\<^verbatim>\<open>add\<close>: the row starts with the event's fields and is available at its creation
  time. The claim token column is not written.\<close>

definition row_of_event :: "outbox_event \<Rightarrow> outbox_row" where
  "row_of_event e =
     \<lparr>ob_id = oe_id e, ob_aggregate_type = oe_aggregate_type e, ob_aggregate_id = oe_aggregate_id e,
      ob_type = oe_type e, ob_payload = oe_payload e, ob_status = event_status_value (oe_status e),
      ob_attempts = nat (oe_attempts e), ob_last_error = oe_last_error e,
      ob_available_at = oe_created_at e, ob_created_at = oe_created_at e, ob_claimed_by = None,
      ob_claim_token = None, ob_claimed_at = oe_claimed_at e, ob_lease = None,
      ob_completed_at = oe_completed_at e\<rparr>"

definition outbox_add :: "outbox_event \<Rightarrow> outbox \<Rightarrow> (exn + outbox_event) \<times> outbox" where
  "outbox_add e t =
     (if oe_id e \<in> set (keys t)
      then (Inl (RuntimeError ''duplicate key value violates unique constraint''), t)
      else (to_domain (row_of_event e), put (oe_id e) (row_of_event e) t))"

definition outbox_get :: "uuid \<Rightarrow> outbox \<Rightarrow> (exn + outbox_event) option" where
  "outbox_get eid t = map_option to_domain (map_of t eid)"

text \<open>The \<^verbatim>\<open>WHERE\<close> clause of \<^verbatim>\<open>claim_batch\<close>; a comparison with a null lease
  is not true.\<close>

definition claimable :: "int \<Rightarrow> outbox_row \<Rightarrow> bool" where
  "claimable now r \<longleftrightarrow>
     (ob_status r = ''pending'' \<or>
      (ob_status r = ''claimed'' \<and> (case ob_lease r of Some l \<Rightarrow> l \<le> now | None \<Rightarrow> False)))
     \<and> ob_available_at r \<le> now"

text \<open>\<^verbatim>\<open>ORDER BY created_at\<close>: rows of one transaction share their creation time,
  and then \<^verbatim>\<open>tie\<close> decides.\<close>

definition claim_key :: "(uuid \<Rightarrow> nat) \<Rightarrow> outbox_row \<Rightarrow> int \<times> nat" where
  "claim_key tie r = (ob_created_at r, tie (ob_id r))"

definition select_batch :: "int \<Rightarrow> uuid list \<Rightarrow> (uuid \<Rightarrow> nat) \<Rightarrow> nat \<Rightarrow> outbox \<Rightarrow> outbox_row list" where
  "select_batch now locked tie n t =
     take n (sort_key (claim_key tie)
       (filter (\<lambda>r. claimable now r \<and> ob_id r \<notin> set locked) (vals t)))"

definition claim_row :: "int \<Rightarrow> string \<Rightarrow> int \<Rightarrow> uuid \<Rightarrow> outbox_row \<Rightarrow> outbox_row" where
  "claim_row now worker lease_seconds token r =
     r\<lparr>ob_status := ''claimed'', ob_claimed_by := Some worker, ob_claim_token := Some token,
       ob_claimed_at := Some now, ob_lease := Some (plus_seconds now lease_seconds),
       ob_attempts := Suc (ob_attempts r)\<rparr>"

text \<open>The \<^verbatim>\<open>for\<close> loop over the rows, with the token drawn for the i-th row.\<close>

fun claim_rows ::
  "int \<Rightarrow> string \<Rightarrow> int \<Rightarrow> (nat \<Rightarrow> uuid) \<Rightarrow> nat \<Rightarrow> outbox_row list \<Rightarrow> outbox \<Rightarrow> outbox_row list \<times> outbox" where
  "claim_rows now w l tok i [] t = ([], t)"
| "claim_rows now w l tok i (r # rs) t =
     (let r' = claim_row now w l (tok i) r;
          (out, t') = claim_rows now w l tok (Suc i) rs (put (ob_id r) r' t)
      in (r' # out, t'))"

definition claim_batch ::
  "int \<Rightarrow> uuid list \<Rightarrow> (uuid \<Rightarrow> nat) \<Rightarrow> (nat \<Rightarrow> uuid) \<Rightarrow> nat \<Rightarrow> string \<Rightarrow> int \<Rightarrow> outbox \<Rightarrow>
   (exn + outbox_event list) \<times> outbox" where
  "claim_batch now locked tie tok n worker lease_seconds t =
     (let rows = select_batch now locked tie n t
      in if rows = [] then (Inr [], t)
         else let (claimed, t') = claim_rows now worker lease_seconds tok 0 rows t
              in (rmap to_domain claimed, t'))"

text \<open>
  \<^verbatim>\<open>mark_completed\<close> and \<^verbatim>\<open>mark_failed\<close> read the row first (from the table
  \<^verbatim>\<open>t0\<close>) and then run a guarded update on the table \<^verbatim>\<open>t\<close> of that moment, which
  another transaction may have changed.
\<close>

definition guard_claim :: "uuid \<Rightarrow> uuid \<Rightarrow> outbox \<Rightarrow> exn + outbox_row" where
  "guard_claim eid token t0 =
     (case map_of t0 eid of
        None \<Rightarrow> Inl (ValueError ''event not found'')
      | Some r \<Rightarrow>
         if ob_claim_token r \<noteq> Some token then Inl (ValueError ''invalid claim token'')
         else if ob_status r \<noteq> ''claimed'' then Inl (ValueError ''event not in claimed state'')
         else Inr r)"

definition guarded_update ::
  "uuid \<Rightarrow> uuid \<Rightarrow> (outbox_row \<Rightarrow> outbox_row) \<Rightarrow> outbox \<Rightarrow> (exn + unit) \<times> outbox" where
  "guarded_update eid token upd t =
     (case map_of t eid of
        None \<Rightarrow> (Inl (ValueError ''event claim lost''), t)
      | Some r \<Rightarrow>
         if ob_status r = ''claimed'' \<and> ob_claim_token r = Some token
         then (Inr (), put eid (upd r) t)
         else (Inl (ValueError ''event claim lost''), t))"

definition complete_row :: "int \<Rightarrow> outbox_row \<Rightarrow> outbox_row" where
  "complete_row now r = r\<lparr>ob_status := ''completed'', ob_completed_at := Some now, ob_lease := None\<rparr>"

definition mark_completed :: "int \<Rightarrow> uuid \<Rightarrow> uuid \<Rightarrow> outbox \<Rightarrow> outbox \<Rightarrow> (exn + unit) \<times> outbox" where
  "mark_completed now eid token t0 t =
     (case guard_claim eid token t0 of
        Inl e \<Rightarrow> (Inl e, t)
      | Inr _ \<Rightarrow> guarded_update eid token (complete_row now) t)"

text \<open>
  The delay before a failed event is available again, \<^verbatim>\<open>min(3600.0, 2.0 ** (attempts + 1))\<close>
  seconds. The power is a float: beyond the largest double it raises.
\<close>

definition backoff_seconds :: "nat \<Rightarrow> exn + int" where
  "backoff_seconds attempts =
     (if attempts + 1 \<ge> 1024 then Inl (OverflowError ''Numerical result out of range'')
      else Inr (min 3600 (2 ^ (attempts + 1))))"

definition fail_row :: "int \<Rightarrow> int \<Rightarrow> string \<Rightarrow> outbox_row \<Rightarrow> outbox_row" where
  "fail_row now delay error r =
     r\<lparr>ob_status := ''pending'', ob_last_error := Some (take 512 error), ob_claimed_by := None,
       ob_claim_token := None, ob_claimed_at := None, ob_lease := None,
       ob_available_at := plus_seconds now delay\<rparr>"

definition mark_failed :: "int \<Rightarrow> uuid \<Rightarrow> uuid \<Rightarrow> string \<Rightarrow> outbox \<Rightarrow> outbox \<Rightarrow> (exn + unit) \<times> outbox" where
  "mark_failed now eid token error t0 t =
     (case guard_claim eid token t0 of
        Inl e \<Rightarrow> (Inl e, t)
      | Inr r \<Rightarrow>
         (case backoff_seconds (ob_attempts r) of
            Inl e \<Rightarrow> (Inl e, t)
          | Inr d \<Rightarrow> guarded_update eid token (fail_row now d error) t))"

section \<open>The consumer without tokens (outbox_consumer.py)\<close>

text \<open>
  It writes the status \<^verbatim>\<open>processing\<close>, commits, and then builds events from the rows of
  the session; \<^verbatim>\<open>fresh\<close> says whether those rows show the update (SQLAlchemy's default) or
  their old content.
\<close>

definition consumer_select :: "uuid list \<Rightarrow> (uuid \<Rightarrow> nat) \<Rightarrow> nat \<Rightarrow> outbox \<Rightarrow> outbox_row list" where
  "consumer_select locked tie n t =
     take n (sort_key (claim_key tie) (filter (\<lambda>r. ob_status r = ''pending'' \<and> ob_id r \<notin> set locked) (vals t)))"

definition processing_row :: "int \<Rightarrow> outbox_row \<Rightarrow> outbox_row" where
  "processing_row now r = r\<lparr>ob_status := ''processing'', ob_claimed_at := Some now\<rparr>"

definition consumer_claim_batch ::
  "bool \<Rightarrow> int \<Rightarrow> uuid list \<Rightarrow> (uuid \<Rightarrow> nat) \<Rightarrow> nat \<Rightarrow> outbox \<Rightarrow> (exn + outbox_event list) \<times> outbox" where
  "consumer_claim_batch fresh now locked tie n t =
     (let rows = consumer_select locked tie n t
      in if rows = [] then (Inr [], t)
         else (rmap to_domain (if fresh then map (processing_row now) rows else rows),
               foldl (\<lambda>t r. put (ob_id r) (processing_row now r) t) t rows))"

definition done_row :: "int \<Rightarrow> outbox_row \<Rightarrow> outbox_row" where
  "done_row now r = r\<lparr>ob_status := ''completed'', ob_completed_at := Some now\<rparr>"

definition consumer_mark_completed :: "int \<Rightarrow> uuid \<Rightarrow> outbox \<Rightarrow> outbox" where
  "consumer_mark_completed now eid t =
     (case map_of t eid of None \<Rightarrow> t | Some r \<Rightarrow> put eid (done_row now r) t)"

definition retry_row :: "string \<Rightarrow> outbox_row \<Rightarrow> outbox_row" where
  "retry_row error r = r\<lparr>ob_status := ''pending'', ob_attempts := Suc (ob_attempts r),
     ob_last_error := Some error, ob_claimed_at := None\<rparr>"

definition consumer_mark_failed :: "uuid \<Rightarrow> string \<Rightarrow> outbox \<Rightarrow> outbox" where
  "consumer_mark_failed eid error t =
     (case map_of t eid of None \<Rightarrow> t | Some r \<Rightarrow> put eid (retry_row error r) t)"

section \<open>Lemmas\<close>

lemma claim_row_simps [simp, row_simps]:
  "ob_id (claim_row now w l tok r) = ob_id r"
  "ob_status (claim_row now w l tok r) = ''claimed''"
  "ob_claim_token (claim_row now w l tok r) = Some tok"
  "ob_lease (claim_row now w l tok r) = Some (plus_seconds now l)"
  "ob_attempts (claim_row now w l tok r) = Suc (ob_attempts r)"
  "ob_created_at (claim_row now w l tok r) = ob_created_at r"
  by (simp_all add: claim_row_def)

lemma other_row_simps [simp, row_simps]:
  "ob_id (complete_row now r) = ob_id r" "ob_status (complete_row now r) = ''completed''"
  "ob_completed_at (complete_row now r) = Some now"
  "ob_id (fail_row now d e r) = ob_id r" "ob_status (fail_row now d e r) = ''pending''"
  "ob_claim_token (fail_row now d e r) = None"
  "ob_lease (fail_row now d e r) = None"
  "ob_available_at (fail_row now d e r) = plus_seconds now d"
  "ob_attempts (fail_row now d e r) = ob_attempts r"
  by (simp_all add: complete_row_def fail_row_def)

definition outbox_keyed :: "outbox \<Rightarrow> bool" where
  "outbox_keyed t \<longleftrightarrow> distinct (keys t) \<and> (\<forall>(k, r) \<in> set t. ob_id r = k)"

lemma outbox_keyedD: "outbox_keyed t \<Longrightarrow> r \<in> set (vals t) \<Longrightarrow> map_of t (ob_id r) = Some r"
  by (auto simp: outbox_keyed_def)

lemma outbox_keyed_map_of: "outbox_keyed t \<Longrightarrow> map_of t k = Some r \<Longrightarrow> ob_id r = k \<and> r \<in> set (vals t)"
  by (force simp: outbox_keyed_def dest: map_of_SomeD)

lemma outbox_keyed_put: "outbox_keyed t \<Longrightarrow> ob_id r = k \<Longrightarrow> outbox_keyed (put k r t)"
  by (auto simp: outbox_keyed_def put_pairs)

lemma select_batch_sub:
  "set (select_batch now locked tie n t) \<subseteq>
     {r \<in> set (vals t). claimable now r \<and> ob_id r \<notin> set locked}"
  unfolding select_batch_def by (rule set_take_subset_of) auto

lemma select_batch_sorted: "sorted (map (claim_key tie) (select_batch now locked tie n t))"
  by (simp add: select_batch_def take_map sorted_wrt_take flip: take_map)

lemma select_batch_oldest: "sorted (map ob_created_at (select_batch now locked tie n t))"
proof -
  have "sorted_wrt (\<lambda>x y. claim_key tie x \<le> claim_key tie y) (select_batch now locked tie n t)"
    using select_batch_sorted [of tie now locked n t] by (simp add: sorted_map)
  then show ?thesis
    unfolding sorted_map by (rule sorted_wrt_mono_rel [rotated]) (auto simp: claim_key_def less_eq_prod_def)
qed

lemma select_batch_distinct:
  assumes "outbox_keyed t"
  shows "distinct (map ob_id (select_batch now locked tie n t))"
proof -
  have e: "map ob_id (vals t) = keys t"
    using assms by (auto simp: outbox_keyed_def)
  have d: "distinct (map ob_id (vals t))"
    unfolding e using assms by (simp add: outbox_keyed_def)
  let ?f = "filter (\<lambda>r. claimable now r \<and> ob_id r \<notin> set locked) (vals t)"
  have "distinct (map ob_id ?f)" using d by (rule distinct_map_filter)
  then have "distinct (map ob_id (sort_key (claim_key tie) ?f))"
    by (simp add: distinct_map)
  then show ?thesis by (simp add: select_batch_def flip: take_map)
qed

lemma outbox_keyed_distinct:
  assumes "outbox_keyed t"
  shows "distinct (vals t)"
proof -
  have e: "map ob_id (vals t) = keys t" using assms by (auto simp: outbox_keyed_def)
  have "distinct (map ob_id (vals t))" unfolding e using assms by (simp add: outbox_keyed_def)
  then show ?thesis by (rule distinct_map [THEN iffD1, THEN conjunct1])
qed

text \<open>The claimed rows are the selected ones, and no other row changes.\<close>

lemma claim_rows_Cons [simp]:
  "fst (claim_rows now w l tok i (r # rs) t) =
     claim_row now w l (tok i) r # fst (claim_rows now w l tok (Suc i) rs (put (ob_id r) (claim_row now w l (tok i) r) t))"
  "snd (claim_rows now w l tok i (r # rs) t) =
     snd (claim_rows now w l tok (Suc i) rs (put (ob_id r) (claim_row now w l (tok i) r) t))"
  by (simp_all add: Let_def case_prod_beta)

declare claim_rows.simps(2) [simp del]

lemma claim_rows_length [simp]: "length (fst (claim_rows now w l tok i rs t)) = length rs"
  by (induction rs arbitrary: i t) simp_all

lemma claim_rows_nth:
  "j < length rs \<Longrightarrow> fst (claim_rows now w l tok i rs t) ! j = claim_row now w l (tok (i + j)) (rs ! j)"
proof (induction rs arbitrary: i j t)
  case (Cons r rs)
  then show ?case by (cases j) simp_all
qed simp

lemma claim_rows_other:
  "k \<notin> ob_id ` set rs \<Longrightarrow> map_of (snd (claim_rows now w l tok i rs t)) k = map_of t k"
  by (induction rs arbitrary: i t) auto

lemma claim_rows_keyed:
  "outbox_keyed t \<Longrightarrow> outbox_keyed (snd (claim_rows now w l tok i rs t))"
  by (induction rs arbitrary: i t) (simp_all add: outbox_keyed_put)

lemma claim_rows_claimed:
  assumes "distinct (map ob_id rs)" "j < length rs"
  shows "map_of (snd (claim_rows now w l tok i rs t)) (ob_id (rs ! j)) =
     Some (claim_row now w l (tok (i + j)) (rs ! j))"
  using assms
proof (induction rs arbitrary: i j t)
  case (Cons r rs)
  then show ?case by (cases j) (simp_all add: claim_rows_other)
qed simp

lemma claim_rows_cases:
  assumes "distinct (map ob_id rs)"
  shows "map_of (snd (claim_rows now w l tok i rs t)) k = map_of t k \<or>
    (\<exists>j < length rs. k = ob_id (rs ! j) \<and>
       map_of (snd (claim_rows now w l tok i rs t)) k = Some (claim_row now w l (tok (i + j)) (rs ! j)))"
  using claim_rows_other claim_rows_claimed [OF assms] by (metis (no_types, lifting) imageE in_set_conv_nth)

lemma guard_claim_Inr:
  "guard_claim eid token t0 = Inr r \<longleftrightarrow>
     map_of t0 eid = Some r \<and> ob_claim_token r = Some token \<and> ob_status r = ''claimed''"
  by (auto simp: guard_claim_def split: option.splits)


section \<open>The outbox as a transition system\<close>

text \<open>
  The steps of any number of producers, workers and consumers, over the table and the clock. A claim
  is one transaction; completing and failing may have read the row from any earlier table
  \<^verbatim>\<open>t0\<close>. Producers add pending events, as \<^verbatim>\<open>IngestionService\<close> and
  \<^verbatim>\<open>OutboxEmitter\<close> do. The steps of the repository and those of the consumer without
  tokens are two relations over the same table.
\<close>

type_synonym outbox_state = "outbox \<times> int"

inductive repository_step :: "outbox_state \<Rightarrow> outbox_state \<Rightarrow> bool" where
  ob_add: "oe_status e = EvPending \<Longrightarrow> outbox_add e t = (Inr d, t') \<Longrightarrow> repository_step (t, now) (t', now)"
| ob_claim: "repository_step (t, now) (snd (claim_batch now locked tie tok n w l t), now)"
| ob_complete: "repository_step (t, now) (snd (mark_completed now eid token t0 t), now)"
| ob_fail: "repository_step (t, now) (snd (mark_failed now eid token err t0 t), now)"
| ob_tick: "now \<le> now' \<Longrightarrow> repository_step (t, now) (t, now')"

inductive consumer_step :: "outbox_state \<Rightarrow> outbox_state \<Rightarrow> bool" where
  oc_claim: "consumer_step (t, now) (snd (consumer_claim_batch fresh now locked tie n t), now)"
| oc_complete: "consumer_step (t, now) (consumer_mark_completed now eid t, now)"
| oc_fail: "consumer_step (t, now) (consumer_mark_failed eid err t, now)"

definition outbox_step :: "outbox_state \<Rightarrow> outbox_state \<Rightarrow> bool" where
  "outbox_step s s' \<longleftrightarrow> repository_step s s' \<or> consumer_step s s'"

definition outbox_start :: "outbox_state \<Rightarrow> bool" where
  "outbox_start s \<longleftrightarrow> fst s = []"

definition row_inv :: "outbox_row \<Rightarrow> bool" where
  "row_inv r \<longleftrightarrow>
     ob_status r \<in> {''pending'', ''processing'', ''claimed'', ''completed''} \<and>
     (ob_status r = ''claimed'' \<longrightarrow> ob_claim_token r \<noteq> None \<and> ob_lease r \<noteq> None \<and> ob_attempts r > 0) \<and>
     (ob_status r = ''completed'' \<longrightarrow> ob_completed_at r \<noteq> None)"

text \<open>What no operation writes after the insertion.\<close>

definition event_core :: "outbox_row \<Rightarrow> uuid \<times> string \<times> uuid \<times> event_type \<times> (string \<times> json) list \<times> int" where
  "event_core r = (ob_id r, ob_aggregate_type r, ob_aggregate_id r, ob_type r, ob_payload r, ob_created_at r)"

definition outbox_inv :: "outbox_state \<Rightarrow> bool" where
  "outbox_inv s \<longleftrightarrow> outbox_keyed (fst s) \<and> (\<forall>k r. map_of (fst s) k = Some r \<longrightarrow> row_inv r)"

lemma claim_batch_table:
  "snd (claim_batch now locked tie tok n w l t) =
     snd (claim_rows now w l tok 0 (select_batch now locked tie n t) t)"
  by (simp add: claim_batch_def Let_def case_prod_beta)

lemma claim_batch_row:
  assumes "outbox_keyed t"
  shows "map_of (snd (claim_batch now locked tie tok n w l t)) k = map_of t k \<or>
    (\<exists>j r. map_of t k = Some r \<and> claimable now r \<and> ob_id r = k \<and> k \<notin> set locked \<and>
       map_of (snd (claim_batch now locked tie tok n w l t)) k = Some (claim_row now w l (tok j) r))"
proof -
  let ?rs = "select_batch now locked tie n t"
  from claim_rows_cases [OF select_batch_distinct [OF assms], of now w l tok 0 now locked tie n t k]
  consider "map_of (snd (claim_batch now locked tie tok n w l t)) k = map_of t k"
    | j where "j < length ?rs" "k = ob_id (?rs ! j)"
      "map_of (snd (claim_batch now locked tie tok n w l t)) k = Some (claim_row now w l (tok j) (?rs ! j))"
    by (auto simp: claim_batch_table)
  then show ?thesis
  proof cases
    case 2
    then have "?rs ! j \<in> set ?rs" by simp
    then have "claimable now (?rs ! j)" "k \<notin> set locked" "map_of t k = Some (?rs ! j)"
      using select_batch_sub [of now locked tie n t] outbox_keyedD [OF assms] 2(2) by auto
    with 2 show ?thesis by metis
  qed simp
qed

lemma guarded_update_row:
  "map_of (snd (guarded_update eid token upd t)) k = map_of t k \<or>
    (\<exists>r. k = eid \<and> map_of t k = Some r \<and> ob_status r = ''claimed'' \<and> ob_claim_token r = Some token \<and>
       map_of (snd (guarded_update eid token upd t)) k = Some (upd r))"
  by (auto simp: guarded_update_def split: option.splits)

lemma guarded_update_keyed:
  assumes "outbox_keyed t" "\<And>r. ob_id (upd r) = ob_id r"
  shows "outbox_keyed (snd (guarded_update eid token upd t))"
  using assms
  by (auto simp: guarded_update_def dest: outbox_keyed_map_of intro!: outbox_keyed_put split: option.splits)

lemma mark_completed_table:
  "snd (mark_completed now eid token t0 t) = t \<or>
   snd (mark_completed now eid token t0 t) = snd (guarded_update eid token (complete_row now) t)"
  by (auto simp: mark_completed_def split: sum.splits)

lemma mark_failed_table:
  "snd (mark_failed now eid token err t0 t) = t \<or>
   (\<exists>d. snd (mark_failed now eid token err t0 t) = snd (guarded_update eid token (fail_row now d err) t))"
  by (auto simp: mark_failed_def split: sum.splits)

text \<open>What one step of the repository does to one row: nothing, a claim, a completion or a failure.\<close>

lemma repository_step_row:
  assumes "repository_step (t, now) (t', now')" "outbox_keyed t" "map_of t k = Some r"
  shows "map_of t' k = Some r \<or>
    (\<exists>w l token. claimable now r \<and> map_of t' k = Some (claim_row now w l token r)) \<or>
    (ob_status r = ''claimed'' \<and> map_of t' k = Some (complete_row now r)) \<or>
    (\<exists>d err. ob_status r = ''claimed'' \<and> map_of t' k = Some (fail_row now d err r))"
  using assms(1)
proof cases
  case (ob_add e d)
  then have "oe_id e \<notin> set (keys t)" and t': "t' = put (oe_id e) (row_of_event e) t"
    by (auto simp: outbox_add_def split: if_splits)
  then have "k \<noteq> oe_id e" using assms(3) by (metis list.set_map map_of_eq_None_iff option.distinct(1))
  then show ?thesis using assms(3) t' by simp
next
  case (ob_claim locked tie tok n w l)
  then show ?thesis using claim_batch_row [OF assms(2), of now locked tie tok n w l k] assms(3) by auto
next
  case (ob_complete eid token t0)
  then show ?thesis
    using mark_completed_table [of now eid token t0 t] guarded_update_row [of eid token "complete_row now" t k] assms(3)
    by auto
next
  case (ob_fail eid token err t0)
  then consider "t' = t" | d where "t' = snd (guarded_update eid token (fail_row now d err) t)"
    using mark_failed_table [of now eid token err t0 t] by auto
  then show ?thesis
  proof cases
    case (2 d)
    then show ?thesis using guarded_update_row [of eid token "fail_row now d err" t k] assms(3) by auto
  qed (use assms in simp)
qed (use assms in auto)

lemma repository_step_new:
  assumes "repository_step (t, now) (t', now')" "outbox_keyed t" "map_of t k = None" "map_of t' k = Some r"
  shows "\<exists>e. oe_status e = EvPending \<and> r = row_of_event e"
  using assms(1)
proof cases
  case (ob_add e d)
  then show ?thesis using assms(3,4) by (auto simp: outbox_add_def split: if_splits)
next
  case (ob_claim locked tie tok n w l)
  then show ?thesis using claim_batch_row [OF assms(2), of now locked tie tok n w l k] assms(3,4) by auto
next
  case (ob_complete eid token t0)
  then show ?thesis
    using mark_completed_table [of now eid token t0 t] guarded_update_row [of eid token "complete_row now" t k] assms(3,4)
    by auto
next
  case (ob_fail eid token err t0)
  then show ?thesis
    using mark_failed_table [of now eid token err t0 t]
      guarded_update_row [of eid token "fail_row now d err" t k for d] assms(3,4)
    by (metis option.distinct(1))
qed (use assms in auto)

lemma repository_step_keyed:
  assumes "repository_step (t, now) (t', now')" "outbox_keyed t"
  shows "outbox_keyed t'"
  using assms(1)
proof cases
  case (ob_add e d)
  then show ?thesis using assms(2)
    by (auto simp: outbox_add_def row_of_event_def intro!: outbox_keyed_put split: if_splits)
next
  case (ob_claim locked tie tok n w l)
  then show ?thesis using claim_rows_keyed [OF assms(2)] by (simp add: claim_batch_table)
next
  case (ob_complete eid token t0)
  then show ?thesis using mark_completed_table [of now eid token t0 t] assms(2) guarded_update_keyed
    by (metis other_row_simps(1))
next
  case (ob_fail eid token err t0)
  then show ?thesis using mark_failed_table [of now eid token err t0 t] assms(2) guarded_update_keyed
    by (metis other_row_simps(4))
qed (use assms in auto)

text \<open>The consumer: its claim overwrites the rows it selected, its marks overwrite any row.\<close>

lemma processing_simps [simp, row_simps]:
  "ob_id (processing_row now r) = ob_id r" "ob_status (processing_row now r) = ''processing''"
  "ob_id (done_row now r) = ob_id r" "ob_status (done_row now r) = ''completed''"
  "ob_completed_at (done_row now r) = Some now"
  "ob_id (retry_row err r) = ob_id r" "ob_status (retry_row err r) = ''pending''"
  by (simp_all add: processing_row_def done_row_def retry_row_def)

lemma put_all_row:
  "map_of (foldl (\<lambda>t r. put (ob_id r) (f r) t) t rs) k = map_of t k \<or>
   (\<exists>r \<in> set rs. ob_id r = k \<and> map_of (foldl (\<lambda>t r. put (ob_id r) (f r) t) t rs) k = Some (f r))"
proof (induction rs arbitrary: t)
  case (Cons r rs)
  from Cons.IH [of "put (ob_id r) (f r) t"] show ?case by (cases "ob_id r = k") auto
qed simp

lemma put_all_keyed:
  "outbox_keyed t \<Longrightarrow> (\<And>r. ob_id (f r) = ob_id r) \<Longrightarrow> outbox_keyed (foldl (\<lambda>t r. put (ob_id r) (f r) t) t rs)"
  by (induction rs arbitrary: t) (simp_all add: outbox_keyed_put)

lemma consumer_select_sub:
  "set (consumer_select locked tie n t) \<subseteq> {r \<in> set (vals t). ob_status r = ''pending'' \<and> ob_id r \<notin> set locked}"
  unfolding consumer_select_def by (rule set_take_subset_of) auto

lemma consumer_claim_table:
  "snd (consumer_claim_batch fresh now locked tie n t) =
   foldl (\<lambda>t r. put (ob_id r) (processing_row now r) t) t (consumer_select locked tie n t)"
  by (simp add: consumer_claim_batch_def Let_def)

lemma consumer_step_row:
  assumes "consumer_step (t, now) (t', now')" "outbox_keyed t"
  shows "map_of t' k = map_of t k \<or>
    (\<exists>r. map_of t k = Some r \<and>
      ((ob_status r = ''pending'' \<and> map_of t' k = Some (processing_row now r)) \<or>
       map_of t' k = Some (done_row now r) \<or> (\<exists>err. map_of t' k = Some (retry_row err r))))"
  using assms(1)
proof cases
  case (oc_claim fresh locked tie n)
  let ?rs = "consumer_select locked tie n t"
  from put_all_row [of "processing_row now" t ?rs k] consumer_select_sub [of locked tie n t] oc_claim
  show ?thesis using outbox_keyedD [OF assms(2)] unfolding consumer_claim_table by fastforce
qed (auto simp: consumer_mark_completed_def consumer_mark_failed_def split: option.splits)

lemma consumer_step_keyed: "consumer_step (t, now) (t', now') \<Longrightarrow> outbox_keyed t \<Longrightarrow> outbox_keyed t'"
  by (erule consumer_step.cases)
     (auto simp: consumer_claim_table consumer_mark_completed_def consumer_mark_failed_def
       dest: outbox_keyed_map_of intro!: put_all_keyed outbox_keyed_put split: option.splits)

text \<open>One step of either: a stored row keeps its core and its attempts never fall; a new row is a
  producer's.\<close>

lemma core_simps [simp]:
  "event_core (claim_row now w l token r) = event_core r" "event_core (complete_row now r) = event_core r"
  "event_core (fail_row now d err r) = event_core r" "event_core (processing_row now r) = event_core r"
  "event_core (done_row now r) = event_core r" "event_core (retry_row err r) = event_core r"
  by (simp_all add: event_core_def claim_row_def complete_row_def fail_row_def processing_row_def done_row_def
      retry_row_def)

lemma attempts_mono [simp]:
  "ob_attempts (complete_row now r) = ob_attempts r" "ob_attempts (processing_row now r) = ob_attempts r"
  "ob_attempts (done_row now r) = ob_attempts r" "ob_attempts (retry_row err r) = Suc (ob_attempts r)"
  by (simp_all add: complete_row_def processing_row_def done_row_def retry_row_def)

lemma row_inv_steps:
  "row_inv (claim_row now w l token r)" "row_inv (complete_row now r)" "row_inv (fail_row now d err r)"
  "row_inv (processing_row now r)" "row_inv (done_row now r)" "row_inv (retry_row err r)"
  by (simp_all add: row_inv_def)

lemma row_inv_new: "oe_status e = EvPending \<Longrightarrow> row_inv (row_of_event e)"
  by (simp add: row_inv_def row_of_event_def)

lemma outbox_step_row:
  assumes "outbox_step (t, now) (t', now')" "outbox_keyed t" "map_of t k = Some r"
  shows "\<exists>r'. map_of t' k = Some r' \<and> event_core r' = event_core r \<and> ob_attempts r \<le> ob_attempts r' \<and>
    (row_inv r \<longrightarrow> row_inv r')"
proof (cases "repository_step (t, now) (t', now')")
  case True
  from repository_step_row [OF this assms(2,3)] show ?thesis by (auto simp: row_inv_steps)
next
  case False
  then have "consumer_step (t, now) (t', now')" using assms(1) by (simp add: outbox_step_def)
  from consumer_step_row [OF this assms(2), of k] assms(3) show ?thesis by (auto simp: row_inv_steps)
qed

lemma outbox_step_new:
  assumes "outbox_step (t, now) (t', now')" "outbox_keyed t" "map_of t k = None" "map_of t' k = Some r"
  shows "\<exists>e. oe_status e = EvPending \<and> r = row_of_event e"
  using assms repository_step_new consumer_step_row [of t now t' now' k]
  by (metis option.distinct(1) outbox_step_def)

lemma outbox_step_keyed: "outbox_step (t, now) (t', now') \<Longrightarrow> outbox_keyed t \<Longrightarrow> outbox_keyed t'"
  using repository_step_keyed consumer_step_keyed by (auto simp: outbox_step_def)

lemma outbox_step_inv: "outbox_inv s \<Longrightarrow> outbox_step s s' \<Longrightarrow> outbox_inv s'"
proof (cases s; cases s')
  fix t now t' now'
  assume inv: "outbox_inv s" and st: "outbox_step s s'" and s: "s = (t, now)" "s' = (t', now')"
  have keyed: "outbox_keyed t" using inv s by (simp add: outbox_inv_def)
  have "row_inv r" if "map_of t' k = Some r" for k r
  proof (cases "map_of t k")
    case None
    then show ?thesis using outbox_step_new [OF st [unfolded s] keyed None that] row_inv_new by blast
  next
    case (Some r0)
    then have "row_inv r0" using inv s by (simp add: outbox_inv_def)
    then show ?thesis using outbox_step_row [OF st [unfolded s] keyed Some] that by auto
  qed
  then show ?thesis using s outbox_step_keyed [OF st [unfolded s] keyed] by (simp add: outbox_inv_def)
qed

interpretation outboxes: invariant_system outbox_start outbox_step outbox_inv
proof unfold_locales
  show "outbox_start s \<Longrightarrow> outbox_inv s" for s
    by (simp add: outbox_start_def outbox_inv_def outbox_keyed_def)
qed (rule outbox_step_inv)


section \<open>Properties\<close>

text \<open>\<^verbatim>\<open>claim_batch\<close> on a table keyed by event id: it looks at exactly the
  unlocked rows that are pending or claimed with an expired lease and available, oldest first and at
  most the batch size of them; each of those gets the worker's claim with its own token, a lease of
  the asked length and one more attempt, and no other row changes.\<close>

theorem claim_batch_spec:
  assumes "outbox_keyed t"
  shows "let rows = select_batch now locked tie n t; t' = snd (claim_batch now locked tie tok n w l t) in
    sorted (map ob_created_at rows) \<and> length rows \<le> n \<and>
    (\<forall>r \<in> set rows. claimable now r \<and> ob_id r \<notin> set locked) \<and>
    (\<forall>i < length rows. map_of t' (ob_id (rows ! i)) = Some (claim_row now w l (tok i) (rows ! i))) \<and>
    (\<forall>k. k \<notin> ob_id ` set rows \<longrightarrow> map_of t' k = map_of t k) \<and>
    fst (claim_batch now locked tie tok n w l t)
      = rmap to_domain (map (\<lambda>i. claim_row now w l (tok i) (rows ! i)) [0..<length rows])"
proof -
  let ?rows = "select_batch now locked tie n t"
  let ?c = "claim_rows now w l tok 0 ?rows t"
  have d: "distinct (map ob_id ?rows)" using assms by (rule select_batch_distinct)
  have t': "snd (claim_batch now locked tie tok n w l t) = snd ?c" by (simp add: claim_batch_table)
  have "fst ?c = map (\<lambda>i. claim_row now w l (tok i) (?rows ! i)) [0..<length ?rows]"
    by (rule nth_equalityI) (simp_all add: claim_rows_nth)
  then have res: "fst (claim_batch now locked tie tok n w l t)
      = rmap to_domain (map (\<lambda>i. claim_row now w l (tok i) (?rows ! i)) [0..<length ?rows])"
    by (auto simp: claim_batch_def Let_def case_prod_beta)
  have claimed: "\<forall>i < length ?rows.
      map_of (snd ?c) (ob_id (?rows ! i)) = Some (claim_row now w l (tok i) (?rows ! i))"
    using claim_rows_claimed [OF d, of _ now w l tok 0 t] by simp
  have other: "\<forall>k. k \<notin> ob_id ` set ?rows \<longrightarrow> map_of (snd ?c) k = map_of t k"
    by (simp add: claim_rows_other)
  have sel: "\<forall>r \<in> set ?rows. claimable now r \<and> ob_id r \<notin> set locked"
    using select_batch_sub by blast
  have len: "length ?rows \<le> n" by (simp add: select_batch_def)
  show ?thesis
    unfolding Let_def t' using select_batch_oldest len sel claimed other res by blast
qed

definition demo_event :: outbox_event where
  "demo_event = \<lparr>oe_id = 5, oe_aggregate_type = ''document'', oe_aggregate_id = 9,
     oe_type = DocumentParsed, oe_payload = [], oe_status = EvPending, oe_attempts = 0,
     oe_last_error = None, oe_created_at = 10, oe_claimed_at = None, oe_claim_token = None,
     oe_completed_at = None\<rparr>"

definition demo_outbox :: outbox where
  "demo_outbox = [(5, row_of_event demo_event)]"

definition demo_claimed :: outbox where
  "demo_claimed = snd (claim_batch 20 [] id (\<lambda>i. 100 + i) 10 ''w'' 30 demo_outbox)"

lemma demo_outbox_keyed: "outbox_keyed demo_outbox"
  by (simp add: demo_outbox_def outbox_keyed_def row_of_event_def demo_event_def)

lemma demo_claimed_eq: "demo_claimed = [(5, claim_row 20 ''w'' 30 100 (row_of_event demo_event))]"
  by (simp add: demo_claimed_def claim_batch_table select_batch_def demo_outbox_def claimable_def
      row_of_event_def demo_event_def)

lemma demo_select: "select_batch 20 [] id 10 demo_outbox = [row_of_event demo_event]"
  by (simp add: select_batch_def demo_outbox_def claimable_def row_of_event_def demo_event_def)

theorem claim_batch_spec_witness:
  "outbox_keyed demo_outbox \<and>
   map_of demo_claimed (ob_id (row_of_event demo_event))
     = Some (claim_row 20 ''w'' 30 100 (row_of_event demo_event))"
  using claim_batch_spec [OF demo_outbox_keyed, of 20 "[]" id 10 "\<lambda>i. 100 + i" "''w''" 30] demo_outbox_keyed
  unfolding Let_def demo_claimed_def [symmetric] demo_select by simp

text \<open>C11: Mutual exclusion of leases. After a row has been claimed at some time, no claim by any
  worker before the lease runs out returns that row, as long as it has not been completed or failed
  meanwhile.\<close>

theorem lease_excludes_other_workers:
  assumes "map_of t k = Some (claim_row now w l token r)" and "outbox_keyed t"
    and "now' < plus_seconds now l"
  shows "map_of (snd (claim_batch now' locked tie tok n w' l' t)) k = Some (claim_row now w l token r) \<and>
    k \<notin> ob_id ` set (select_batch now' locked tie n t)"
proof
  have not: "\<not> claimable now' (claim_row now w l token r)"
    using assms(3) by (simp add: claimable_def)
  then show "map_of (snd (claim_batch now' locked tie tok n w' l' t)) k = Some (claim_row now w l token r)"
    using claim_batch_row [OF assms(2), of now' locked tie tok n w' l' k] assms(1) by auto
  show "k \<notin> ob_id ` set (select_batch now' locked tie n t)"
  proof
    assume "k \<in> ob_id ` set (select_batch now' locked tie n t)"
    then obtain r' where "r' \<in> set (vals t)" "claimable now' r'" "ob_id r' = k"
      using select_batch_sub by blast
    then show False using outbox_keyedD [OF assms(2)] assms(1) not by fastforce
  qed
qed

theorem lease_excludes_other_workers_witness:
  "map_of (snd (claim_batch 21 [] id (\<lambda>i. 200 + i) 10 ''v'' 30 demo_claimed)) 5
     = Some (claim_row 20 ''w'' 30 100 (row_of_event demo_event))"
proof -
  have "map_of demo_claimed 5 = Some (claim_row 20 ''w'' 30 100 (row_of_event demo_event))"
    by (simp add: demo_claimed_eq)
  moreover have "outbox_keyed demo_claimed"
    by (simp add: demo_claimed_eq outbox_keyed_def row_of_event_def demo_event_def)
  moreover have "(21::int) < plus_seconds 20 30" by (simp add: plus_seconds_def)
  ultimately show ?thesis by (rule lease_excludes_other_workers [THEN conjunct1])
qed

text \<open>C12: Protection against stale workers. A worker whose token is no longer the row's token can
  neither complete nor fail the event, whatever it had read before: the call raises and the table
  stays as it is.\<close>

theorem stale_token_changes_nothing:
  assumes "map_of t eid = Some r" and "ob_claim_token r \<noteq> Some token"
  shows "snd (mark_completed now eid token t0 t) = t \<and> snd (mark_failed now eid token err t0 t) = t \<and>
    \<not> is_ok (fst (mark_completed now eid token t0 t)) \<and> \<not> is_ok (fst (mark_failed now eid token err t0 t))"
  using assms
  by (auto simp: mark_completed_def mark_failed_def guarded_update_def split: sum.splits)

theorem stale_token_changes_nothing_witness:
  "snd (mark_completed 60 5 99 demo_claimed demo_claimed) = demo_claimed \<and>
   \<not> is_ok (fst (mark_completed 60 5 99 demo_claimed demo_claimed))"
proof -
  have "map_of demo_claimed 5 = Some (claim_row 20 ''w'' 30 100 (row_of_event demo_event))"
    by (simp add: demo_claimed_eq)
  moreover have "ob_claim_token (claim_row 20 ''w'' 30 100 (row_of_event demo_event)) \<noteq> Some 99" by simp
  ultimately show ?thesis using stale_token_changes_nothing [of demo_claimed 5 _ 99 60 demo_claimed] by blast
qed

lemma completed_stays:
  assumes "repository_step\<^sup>*\<^sup>* s s'" "outbox_keyed (fst s)"
    and "map_of (fst s) k = Some r" and "ob_status r = ''completed''"
  shows "map_of (fst s') k = Some r \<and> outbox_keyed (fst s')"
  using assms
proof (induction rule: rtranclp_induct)
  case (step y z)
  obtain t now t' now' where yz: "y = (t, now)" "z = (t', now')" by (metis surj_pair)
  have t: "map_of t k = Some r" "outbox_keyed t" using step yz by simp_all
  note st = step.hyps(2) [unfolded yz]
  from repository_step_row [OF st t(2,1)] repository_step_keyed [OF st t(2)] show ?case
    using step.prems(3) yz by (auto simp: claimable_def)
qed simp

lemma outbox_steps_row:
  assumes "outbox_step\<^sup>*\<^sup>* s s'" "outbox_inv s" "map_of (fst s) k = Some r"
  shows "\<exists>r'. map_of (fst s') k = Some r' \<and> event_core r' = event_core r \<and> ob_attempts r \<le> ob_attempts r'"
  using assms
proof (induction rule: rtranclp_induct)
  case (step y z)
  obtain t now t' now' where yz: "y = (t, now)" "z = (t', now')" by (metis surj_pair)
  have "outbox_inv y" using outboxes.steps_inv step by blast
  then have keyed: "outbox_keyed t" using yz by (simp add: outbox_inv_def)
  from step yz obtain r' where r': "map_of t k = Some r'" "event_core r' = event_core r" "ob_attempts r \<le> ob_attempts r'"
    by auto
  from outbox_step_row [OF step.hyps(2) [unfolded yz] keyed r'(1)] show ?case
    using r' yz by fastforce
qed simp

text \<open>C36: In every reachable state of the outbox, with any producers, workers, consumers and clock,
  a row is stored under its event id, its status is one of four, a claimed row has a token, a lease
  and an attempt, and a completed row its completion time. Whatever happens then, the event is not
  removed, its identity, type, payload and creation time do not change and its attempts never fall;
  and as long as only the repository runs (the consumer checks no token and can reopen any event), a
  completed event is never claimed, failed or changed again.\<close>

theorem reachable_outbox:
  assumes "reach outbox_start outbox_step s" and "map_of (fst s) k = Some r"
  shows "ob_id r = k \<and> ob_status r \<in> {''pending'', ''processing'', ''claimed'', ''completed''} \<and>
    (ob_status r = ''claimed'' \<longrightarrow> ob_claim_token r \<noteq> None \<and> ob_lease r \<noteq> None \<and> ob_attempts r > 0) \<and>
    (ob_status r = ''completed'' \<longrightarrow> ob_completed_at r \<noteq> None) \<and>
    (outbox_step\<^sup>*\<^sup>* s s' \<longrightarrow>
       (\<exists>r'. map_of (fst s') k = Some r' \<and> event_core r' = event_core r \<and> ob_attempts r \<le> ob_attempts r')) \<and>
    (ob_status r = ''completed'' \<longrightarrow> repository_step\<^sup>*\<^sup>* s s' \<longrightarrow> map_of (fst s') k = Some r)"
proof -
  have inv: "outbox_inv s" using outboxes.reach_inv assms(1) by blast
  then have keyed: "outbox_keyed (fst s)" and row: "row_inv r" using assms(2) by (auto simp: outbox_inv_def)
  show ?thesis
    using outbox_keyed_map_of [OF keyed assms(2)] row completed_stays [OF _ keyed assms(2)]
      outbox_steps_row [OF _ inv assms(2)]
    by (simp add: row_inv_def)
qed

lemma demo_reach: "reach outbox_start outbox_step (demo_outbox, 20)"
proof (rule reach_step [where s = "([], 20)"])
  show "reach outbox_start outbox_step ([], 20)"
    by (rule reach_start) (simp add: outbox_start_def)
  have "outbox_add demo_event [] = (to_domain (row_of_event demo_event), demo_outbox)"
    by (simp add: outbox_add_def demo_outbox_def demo_event_def)
  moreover have "\<exists>d. to_domain (row_of_event demo_event) = Inr d"
    by (simp add: to_domain_def row_of_event_def demo_event_def event_status_of_def mk_outbox_event_def)
  ultimately show "outbox_step ([], 20) (demo_outbox, 20)"
    by (auto intro!: ob_add simp: demo_event_def outbox_step_def)
qed

theorem reachable_outbox_witness:
  "\<exists>s r. reach outbox_start outbox_step s \<and> map_of (fst s) 5 = Some r \<and> ob_status r = ''claimed'' \<and>
     ob_claim_token r \<noteq> None \<and> ob_lease r \<noteq> None"
proof -
  let ?r = "claim_row 20 ''w'' 30 100 (row_of_event demo_event)"
  have "outbox_step (demo_outbox, 20) (demo_claimed, 20)"
    unfolding demo_claimed_def outbox_step_def by (rule disjI1, rule ob_claim)
  then have re: "reach outbox_start outbox_step (demo_claimed, 20)" by (rule reach_step [OF demo_reach])
  have m: "map_of (fst (demo_claimed, 20::int)) 5 = Some ?r" by (simp add: demo_claimed_eq)
  show ?thesis using reachable_outbox [OF re m] re m by fastforce
qed

text \<open>C37: Progress. In every reachable state, take an event that is neither completed nor in the hands of
  the consumer without tokens, that is available, whose lease is over and that no other transaction
  holds locked. If fewer than \<^verbatim>\<open>n\<close> such events come before it in the order of creation
  (and of \<^verbatim>\<open>tie\<close> among equals), the next claim of \<^verbatim>\<open>n\<close> events takes it: the row is
  claimed for this worker with one of its new tokens, a new lease and one more attempt.\<close>

theorem outbox_progress:
  assumes "reach outbox_start outbox_step s" and "map_of (fst s) k = Some r"
    and "ob_status r \<noteq> ''completed''" and "ob_status r \<noteq> ''processing''" and "ob_available_at r \<le> now"
    and "\<And>lease. ob_lease r = Some lease \<Longrightarrow> lease \<le> now" and "k \<notin> set locked"
    and "card {q \<in> set (vals (fst s)). claimable now q \<and> ob_id q \<notin> set locked \<and> ob_id q \<noteq> k \<and>
           claim_key tie q \<le> claim_key tie r} < n"
  shows "\<exists>i < n. map_of (snd (claim_batch now locked tie tok n w l (fst s))) k = Some (claim_row now w l (tok i) r)"
proof -
  have inv: "outbox_inv s" using outboxes.reach_inv assms(1) by blast
  then have keyed: "outbox_keyed (fst s)" and "row_inv r" using assms(2) by (auto simp: outbox_inv_def)
  then have c: "claimable now r" using assms(3-6) by (auto simp: row_inv_def claimable_def)
  have kr: "ob_id r = k" "r \<in> set (vals (fst s))" using outbox_keyed_map_of [OF keyed assms(2)] by auto
  let ?xs = "filter (\<lambda>r. claimable now r \<and> ob_id r \<notin> set locked) (vals (fst s))"
  let ?rows = "select_batch now locked tie n (fst s)"
  have dist: "distinct ?xs" using outbox_keyed_distinct [OF keyed] by (rule distinct_filter)
  have "{q \<in> set ?xs. q \<noteq> r \<and> claim_key tie q \<le> claim_key tie r} =
      {q \<in> set (vals (fst s)). claimable now q \<and> ob_id q \<notin> set locked \<and> ob_id q \<noteq> k \<and> claim_key tie q \<le> claim_key tie r}"
    using outbox_keyedD [OF keyed] assms(2) kr(1) by fastforce
  then have few: "card {q \<in> set ?xs. q \<noteq> r \<and> claim_key tie q \<le> claim_key tie r} < n" using assms(8) by simp
  have "r \<in> set ?xs" using c kr assms(7) by simp
  then have "r \<in> set ?rows" unfolding select_batch_def by (rule sort_key_take [OF dist _ few])
  then obtain i where i: "i < length ?rows" "?rows ! i = r" by (meson in_set_conv_nth)
  have "i < n" using i(1) by (simp add: select_batch_def)
  then show ?thesis
    using claim_rows_claimed [OF select_batch_distinct [OF keyed] i(1), of now w l tok 0 "fst s"] i(2) kr(1)
    unfolding claim_batch_table by auto
qed

theorem outbox_progress_witness:
  "\<exists>i < 1. map_of (snd (claim_batch 20 [] id (\<lambda>i. 100 + i) 1 ''w'' 30 demo_outbox)) 5
     = Some (claim_row 20 ''w'' 30 (100 + i) (row_of_event demo_event))"
proof -
  have m: "map_of (fst (demo_outbox, 20::int)) 5 = Some (row_of_event demo_event)"
    by (simp add: demo_outbox_def)
  have none: "{q \<in> set (vals demo_outbox). claimable 20 q \<and> ob_id q \<notin> set [] \<and> ob_id q \<noteq> 5 \<and>
      claim_key id q \<le> claim_key id (row_of_event demo_event)} = {}"
    by (auto simp: demo_outbox_def row_of_event_def demo_event_def)
  show ?thesis
    using outbox_progress [OF demo_reach m, of 20 "[]" id 1 "\<lambda>i. 100 + i" "''w''" 30] none
    by (simp add: row_of_event_def demo_event_def)
qed

text \<open>The retry delay is two to the number of attempts plus one seconds, capped at one hour, and
  grows with the attempts; from 1023 attempts on the float power overflows, so
  \<^verbatim>\<open>mark_failed\<close> raises and the event stays claimed.\<close>

theorem backoff_bounds:
  "backoff_seconds a =
     (if a \<ge> 1023 then Inl (OverflowError ''Numerical result out of range'')
      else Inr (if a \<le> 10 then 2 ^ Suc a else 3600))"
proof (cases "a \<le> 10")
  case True
  then have "(2::int) ^ Suc a \<le> 2 ^ 11" by (intro power_increasing) simp_all
  then have "min 3600 ((2::int) ^ Suc a) = 2 ^ Suc a" by simp
  then show ?thesis using True by (simp add: backoff_seconds_def)
next
  case False
  then have "(2::int) ^ 12 \<le> 2 ^ (a + 1)" by (intro power_increasing) simp_all
  then show ?thesis using False by (simp add: backoff_seconds_def)
qed

text \<open>The consumer without tokens writes a status outside the enum: a batch that is not empty,
  read back with its update, raises, while its rows are already committed as
  \<^verbatim>\<open>processing\<close>, a status that neither kind of claim selects again.\<close>

theorem consumer_strands_events:
  assumes "consumer_select locked tie n t \<noteq> []"
  shows "\<not> is_ok (fst (consumer_claim_batch True now locked tie n t)) \<and>
    event_status_of (ob_status (processing_row now r)) = Inl (ValueError ''processing is not a valid OutboxEventStatus'') \<and>
    \<not> claimable now' (processing_row now r) \<and> ob_status (processing_row now r) \<noteq> ''pending''"
proof -
  obtain q qs where "consumer_select locked tie n t = q # qs" using assms by (meson neq_Nil_conv)
  then show ?thesis
    by (simp add: consumer_claim_batch_def Let_def to_domain_def processing_row_def event_status_of_def claimable_def)
qed

theorem consumer_strands_events_witness:
  "consumer_select [] id 1 demo_outbox \<noteq> [] \<and>
   \<not> is_ok (fst (consumer_claim_batch True 20 [] id 1 demo_outbox))"
proof -
  have h: "consumer_select [] id 1 demo_outbox \<noteq> []"
    by (simp add: consumer_select_def demo_outbox_def row_of_event_def demo_event_def)
  show ?thesis using h consumer_strands_events [OF h] by simp
qed

end
