(* ===== verification/Ingestion.thy ===== *)
theory Ingestion
  imports Html DocumentStore Outbox
begin

text \<open>
  The ingestion service (\<^verbatim>\<open>src/groundgraph/application/ingestion/services.py\<close>), its
  unit of work (\<^verbatim>\<open>infrastructure/postgres/unit_of_work.py\<close>), the registration of sources
  (\<^verbatim>\<open>source_registration.py\<close>) and the one-node workflow
  (\<^verbatim>\<open>workflows/ingestion_graph.py\<close>). The file system, the decoders and readers of
  third-party packages, the hash, the clock and fresh ids are arguments.
\<close>

section \<open>Unit of work\<close>

text \<open>The transaction of \<^verbatim>\<open>PostgresUnitOfWork\<close>: commit on return, roll back on an
  exception.\<close>

type_synonym pg = "doc_db \<times> outbox"

definition run_uow :: "('s \<Rightarrow> (exn + 'a) \<times> 's) \<Rightarrow> 's \<Rightarrow> (exn + 'a) \<times> 's" where
  "run_uow body s = (case body s of (Inl e, _) \<Rightarrow> (Inl e, s) | (Inr a, s') \<Rightarrow> (Inr a, s'))"

section \<open>Registration\<close>

definition register_source ::
  "source_type \<Rightarrow> uuid \<Rightarrow> string \<Rightarrow> string \<Rightarrow> string \<Rightarrow> string list \<Rightarrow> doc_db \<Rightarrow> (exn + source_descriptor) \<times> doc_db" where
  "register_source ty fresh uri cls tenant principals db =
     (case mk_source \<lparr>src_id = fresh, src_type = ty, src_uri = uri, src_classification = cls, src_tenant = tenant,
            src_principals = principals, src_active = True, src_deactivated_at = None\<rparr> of
        Inl e \<Rightarrow> (Inl e, db)
      | Inr s \<Rightarrow> find_or_create_source s db)"

definition register_filesystem_source ::
  "uuid \<Rightarrow> string \<Rightarrow> string \<Rightarrow> string \<Rightarrow> string list \<Rightarrow> doc_db \<Rightarrow> (exn + source_descriptor) \<times> doc_db" where
  "register_filesystem_source = register_source Filesystem"

definition register_object_upload_source ::
  "uuid \<Rightarrow> string \<Rightarrow> string \<Rightarrow> string \<Rightarrow> string list \<Rightarrow> doc_db \<Rightarrow> (exn + source_descriptor) \<times> doc_db" where
  "register_object_upload_source = register_source ObjectStoreSrc"

section \<open>Acquisition\<close>

text \<open>A file system as the code uses it: resolving a path gives its components.\<close>

record file_system =
  fs_resolve :: "string \<Rightarrow> string list"
  fs_symlink :: "string \<Rightarrow> bool"
  fs_size :: "string list \<Rightarrow> nat"
  fs_read :: "string list \<Rightarrow> exn + string"

definition path_str :: "string list \<Rightarrow> string" where
  "path_str ps = concat (map (\<lambda>p. CHR ''/'' # p) ps)"

definition max_file_size :: nat where
  "max_file_size = 100 * 1024 * 1024"

definition resolve_safe_path :: "file_system \<Rightarrow> string \<Rightarrow> string \<Rightarrow> exn + string list" where
  "resolve_safe_path fs base file =
     (if fs_symlink fs file then Inl (ValueError ''symlink not allowed'')
      else if \<not> startswith (fs_resolve fs file) (fs_resolve fs base)
      then Inl (ValueError ''file path outside source root'')
      else Inr (fs_resolve fs file))"

definition check_size :: "file_system \<Rightarrow> string list \<Rightarrow> exn + unit" where
  "check_size fs p =
     (if fs_size fs p > max_file_size then Inl (ValueError ''file exceeds maximum size'') else Inr ())"

definition acquire_and_validate ::
  "file_system \<Rightarrow> (string \<Rightarrow> string) \<Rightarrow> uuid \<Rightarrow> string \<Rightarrow> doc_db \<Rightarrow> exn + string \<times> string \<times> string \<times> source_descriptor" where
  "acquire_and_validate fs sha sid file db =
     (case get_source sid db of
        None \<Rightarrow> Inl (ValueError ''source not found'')
      | Some src \<Rightarrow>
          rbind (resolve_safe_path fs (src_uri src) file) (\<lambda>p.
          rbind (check_size fs p) (\<lambda>_.
          rbind (fs_read fs p) (\<lambda>raw. Inr (raw, sha raw, path_str p, src)))))"

section \<open>Parsing by media type\<close>

text \<open>What the decoder and the third-party readers make of the bytes.\<close>

record readers =
  rd_decode :: "string \<Rightarrow> string"
  rd_pdf :: "string \<Rightarrow> exn + bool \<times> string list"
  rd_docx :: "string \<Rightarrow> exn + (string \<times> string option) list \<times> nat list \<times> string option"
  rd_epub :: "string \<Rightarrow> exn + string list \<times> string option list"

definition parse_media :: "readers \<Rightarrow> string \<Rightarrow> string \<Rightarrow> exn + parsed_content" where
  "parse_media rd media raw =
     rbind (get_with_reason media) (\<lambda>m.
       if m = ''text/plain'' then Inr (parse_text (rd_decode rd raw))
       else if m = ''text/markdown'' then Inr (parse_markdown (rd_decode rd raw))
       else if m = ''text/html'' then Inr (parse_html (rd_decode rd raw))
       else if m = ''application/pdf'' then parse_pdf (rd_pdf rd raw)
       else if m = ''application/epub+zip'' then parse_epub (rd_epub rd raw)
       else if m = ''text/x-python'' then Inr (parse_py (rd_decode rd raw))
       else if m = ''text/typescript'' then Inr (parse_ts (rd_decode rd raw))
       else parse_docx (rd_docx rd raw))"

section \<open>The transaction\<close>

record ingestion_result =
  ir_document :: uuid
  ir_version :: uuid
  ir_new :: bool
  ir_tenant :: string

text \<open>What one call draws: fresh ids and the time.\<close>

record draws =
  dr_doc :: uuid
  dr_ver :: uuid
  dr_event :: uuid
  dr_check :: uuid
  dr_chunk :: "nat \<Rightarrow> uuid"
  dr_now :: int

fun create_chunks :: "chunk list \<Rightarrow> doc_db \<Rightarrow> (exn + unit) \<times> doc_db" where
  "create_chunks [] db = (Inr (), db)"
| "create_chunks (c # cs) db =
     (case create_chunk c db of (Inl e, db') \<Rightarrow> (Inl e, db') | (Inr _, db') \<Rightarrow> create_chunks cs db')"

definition parsed_event :: "draws \<Rightarrow> uuid \<Rightarrow> uuid \<Rightarrow> uuid \<Rightarrow> string \<Rightarrow> outbox_event" where
  "parsed_event dr did vid sid tenant =
     \<lparr>oe_id = dr_event dr, oe_aggregate_type = ''document'', oe_aggregate_id = did, oe_type = DocumentParsed,
      oe_payload = [(''document_id'', JStr (show_nat did)), (''version_id'', JStr (show_nat vid)),
                    (''source_id'', JStr (show_nat sid)), (''tenant_id'', JStr tenant)],
      oe_status = EvPending, oe_attempts = 0, oe_last_error = None, oe_created_at = dr_now dr,
      oe_claimed_at = None, oe_claim_token = None, oe_completed_at = None\<rparr>"

definition ingest_metadata :: "string \<Rightarrow> string \<Rightarrow> parsed_content \<Rightarrow> (string \<times> json) list" where
  "ingest_metadata file loc c =
     dict_of ([(''file_path'', JStr file), (''canonical_locator'', JStr loc)] @ pc_metadata c)"

definition idempotent_hit :: "uuid \<Rightarrow> string \<Rightarrow> string \<Rightarrow> doc_db \<Rightarrow> (uuid \<times> uuid) option \<Rightarrow> bool" where
  "idempotent_hit sid loc cs db existing =
     (case existing of
        None \<Rightarrow> False
      | Some (d, v) \<Rightarrow> (case get_document_version d v db of Some cur \<Rightarrow> pd_checksum cur = cs | None \<Rightarrow> False))"

definition resume_point :: "uuid \<Rightarrow> string \<Rightarrow> string \<Rightarrow> doc_db \<Rightarrow> exn + (uuid \<times> uuid) option" where
  "resume_point sid loc cs db =
     (case get_checkpoint sid loc cs db of
        None \<Rightarrow> Inr None
      | Some ck \<Rightarrow>
          if ic_status ck \<noteq> PERSISTED then Inr None
          else (case (ic_document_id ck, ic_version_id ck) of
                  (Some d, Some _) \<Rightarrow>
                    (case get_document d db of
                       Some doc \<Rightarrow> Inr (if pd_checksum doc = cs then Some (d, pd_version_id doc) else None)
                     | None \<Rightarrow> Inr None)
                | _ \<Rightarrow> Inl AssertionError))"

text \<open>The rest of the transaction, when the content is not the current one: parse, upsert, record
  the checkpoint, and for a new version store the chunks and the event.\<close>

definition store_version ::
  "readers \<Rightarrow> (string \<Rightarrow> string) \<Rightarrow> chunker_config \<Rightarrow> draws \<Rightarrow> source_descriptor \<Rightarrow> uuid \<Rightarrow> string \<Rightarrow> string \<Rightarrow> string \<Rightarrow>
   string \<Rightarrow> string \<Rightarrow> uuid \<Rightarrow> uuid \<Rightarrow> pg \<Rightarrow> (exn + ingestion_result) \<times> pg" where
  "store_version rd sha cfg dr src sid file media raw cs loc did vid s =
     (case parse_media rd media raw of
        Inl e \<Rightarrow> (Inl e, s)
      | Inr c \<Rightarrow>
         (case upsert_document
            \<lparr>pd_document_id = did, pd_version_id = vid, pd_source_id = sid, pd_locator = loc,
             pd_title = pc_title c, pd_media_type = media, pd_checksum = cs, pd_content = pc_body c,
             pd_metadata = ingest_metadata file loc c, pd_effective_at = Some (Aware (dr_now dr))\<rparr> (fst s) of
            (Inl e, db) \<Rightarrow> (Inl e, (db, snd s))
          | (Inr (doc, new), db) \<Rightarrow>
             let cdid = pd_document_id doc; cvid = pd_version_id doc;
                 db1 = snd (upsert_checkpoint (dr_check dr) (dr_now dr) sid loc cs PERSISTED (Some cdid) (Some cvid) None db);
                 res = \<lparr>ir_document = cdid, ir_version = cvid, ir_new = new, ir_tenant = src_tenant src\<rparr>
             in if \<not> new then (Inr res, (db1, snd s))
                else (case create_chunks (chunk_document sha cfg (dr_chunk dr) c cdid cvid (src_principals src)) db1 of
                        (Inl e, db2) \<Rightarrow> (Inl e, (db2, snd s))
                      | (Inr _, db2) \<Rightarrow>
                         (case outbox_add (parsed_event dr cdid cvid sid (src_tenant src)) (snd s) of
                            (Inl e, t) \<Rightarrow> (Inl e, (db2, t))
                          | (Inr _, t) \<Rightarrow> (Inr res, (db2, t))))))"

definition ingest_tx ::
  "readers \<Rightarrow> (string \<Rightarrow> string) \<Rightarrow> chunker_config \<Rightarrow> draws \<Rightarrow> source_descriptor \<Rightarrow> uuid \<Rightarrow> string \<Rightarrow> string \<Rightarrow> string \<Rightarrow>
   string \<Rightarrow> string \<Rightarrow> pg \<Rightarrow> (exn + ingestion_result) \<times> pg" where
  "ingest_tx rd sha cfg dr src sid file media raw cs loc s =
     (case resume_point sid loc cs (fst s) of
        Inl e \<Rightarrow> (Inl e, s)
      | Inr (Some (d, v)) \<Rightarrow>
          (Inr \<lparr>ir_document = d, ir_version = v, ir_new = False, ir_tenant = src_tenant src\<rparr>, s)
      | Inr None \<Rightarrow>
          let existing = find_active_document sid loc (fst s)
          in if idempotent_hit sid loc cs (fst s) existing
             then (let (d, v) = the existing
                   in (Inr \<lparr>ir_document = d, ir_version = v, ir_new = False, ir_tenant = src_tenant src\<rparr>,
                       (snd (upsert_checkpoint (dr_check dr) (dr_now dr) sid loc cs PERSISTED (Some d) (Some v) None (fst s)), snd s)))
             else store_version rd sha cfg dr src sid file media raw cs loc
                    (case existing of Some (d, _) \<Rightarrow> d | None \<Rightarrow> dr_doc dr) (dr_ver dr) s)"

text \<open>\<^verbatim>\<open>_ingest_file_impl\<close>: the raw bytes go to the object store first, outside the
  transaction.\<close>

record ing_state =
  is_pg :: pg
  is_objects :: "(string, string) dict"

definition ingest_file_impl ::
  "file_system \<Rightarrow> readers \<Rightarrow> (string \<Rightarrow> string) \<Rightarrow> chunker_config \<Rightarrow> draws \<Rightarrow> uuid \<Rightarrow> string \<Rightarrow> string \<Rightarrow> ing_state \<Rightarrow>
   (exn + ingestion_result \<times> nat) \<times> ing_state" where
  "ingest_file_impl fs rd sha cfg dr sid file media s =
     (case acquire_and_validate fs sha sid file (fst (is_pg s)) of
        Inl e \<Rightarrow> (Inl e, s)
      | Inr (raw, cs, loc, src) \<Rightarrow>
          let key = ''sources/'' @ show_nat sid @ ''/'' @ cs @ ''/raw'';
              s1 = (if key \<in> set (keys (is_objects s)) then s
                    else s\<lparr>is_objects := put key raw (is_objects s)\<rparr>)
          in (case run_uow (ingest_tx rd sha cfg dr src sid file media raw cs loc) (is_pg s1) of
                (r, pg) \<Rightarrow> (rbind r (\<lambda>res. Inr (res, length raw)), s1\<lparr>is_pg := pg\<rparr>)))"

section \<open>The quality report\<close>

record ingestion_report =
  rep_chunks :: nat
  rep_empty :: nat
  rep_duplicates :: nat
  rep_missing_acl :: nat
  rep_extracted :: nat

fun report_loop :: "string list \<Rightarrow> ingestion_report \<Rightarrow> chunk list \<Rightarrow> ingestion_report" where
  "report_loop seen r [] = r"
| "report_loop seen r (c # cs) =
     report_loop (if ck_checksum c \<in> set seen then seen else ck_checksum c # seen)
       (r\<lparr>rep_empty := rep_empty r + (if strip (ck_content c) = [] then 1 else 0),
          rep_duplicates := rep_duplicates r + (if ck_checksum c \<in> set seen then 1 else 0),
          rep_missing_acl := rep_missing_acl r + (if ck_principals c = [] then 1 else 0)\<rparr>) cs"

definition generate_report :: "ingestion_result \<Rightarrow> doc_db \<Rightarrow> ingestion_report" where
  "generate_report res db =
     (let cs = list_chunks (ir_document res) (ir_version res) db
      in report_loop [] \<lparr>rep_chunks = length cs, rep_empty = 0, rep_duplicates = 0, rep_missing_acl = 0,
           rep_extracted = sum_list (map (\<lambda>c. length (ck_content c)) cs)\<rparr> cs)"

definition ingest_file ::
  "file_system \<Rightarrow> readers \<Rightarrow> (string \<Rightarrow> string) \<Rightarrow> chunker_config \<Rightarrow> draws \<Rightarrow> uuid \<Rightarrow> string \<Rightarrow> string \<Rightarrow> ing_state \<Rightarrow>
   (exn + ingestion_result \<times> ingestion_report) \<times> ing_state" where
  "ingest_file fs rd sha cfg dr sid file media s =
     (case ingest_file_impl fs rd sha cfg dr sid file media s of
        (r, s') \<Rightarrow> (rbind r (\<lambda>(res, _). Inr (res, generate_report res (fst (is_pg s')))), s'))"

section \<open>The workflow node (workflows/ingestion_graph.py)\<close>

record ingestion_state =
  st_source :: "uuid option"
  st_file :: "string option"
  st_media :: string
  st_document :: "uuid option"
  st_version :: "uuid option"
  st_new :: bool
  st_error :: "string option"

definition ingest_node ::
  "(uuid \<Rightarrow> string \<Rightarrow> string \<Rightarrow> ing_state \<Rightarrow> (exn + ingestion_result \<times> ingestion_report) \<times> ing_state) \<Rightarrow>
   ingestion_state \<Rightarrow> ing_state \<Rightarrow> ingestion_state \<times> ing_state" where
  "ingest_node ingest st s =
     (case st_source st of
        None \<Rightarrow> (st\<lparr>st_error := Some ''source_id is required''\<rparr>, s)
      | Some sid \<Rightarrow>
         (case st_file st of
            None \<Rightarrow> (st\<lparr>st_error := Some ''file_path is required''\<rparr>, s)
          | Some file \<Rightarrow>
             if file = [] then (st\<lparr>st_error := Some ''file_path is required''\<rparr>, s)
             else (case ingest sid file (st_media st) s of
                     (Inl e, s') \<Rightarrow> (st\<lparr>st_error := Some (exn_str e)\<rparr>, s')
                   | (Inr (res, _), s') \<Rightarrow>
                       (st\<lparr>st_document := Some (ir_document res), st_version := Some (ir_version res),
                           st_new := ir_new res\<rparr>, s'))))"

section \<open>Lemmas\<close>

lemma create_chunks_ok:
  "create_chunks cs db = (Inr u, db') \<Longrightarrow>
   t_sources db' = t_sources db \<and> t_docs db' = t_docs db \<and> t_versions db' = t_versions db \<and>
   t_checks db' = t_checks db \<and> vals (t_chunks db') = vals (t_chunks db) @ cs"
proof (induction cs db rule: create_chunks.induct)
  case (2 c cs db)
  have new: "k \<notin> fst ` set d \<Longrightarrow> vals (put k v d) = vals d @ [v]" for k v and d :: "(uuid \<times> chunk) list"
    by (induction d) auto
  from 2 show ?case
    by (auto simp: create_chunk_def new split: if_splits option.splits)
qed simp

lemma get_document_cong:
  assumes "t_docs db = t_docs db'" "t_versions db = t_versions db'"
  shows "get_document k db = get_document k db'"
  unfolding get_document_def get_current_version_def assms ..

lemma resume_after_checkpoint:
  assumes "get_document d db = Some doc" and "pd_checksum doc = cs"
    and "map_of (t_checks db) (sid, loc, cs) = Some ck"
    and "ic_status ck = PERSISTED" "ic_document_id ck = Some d" "ic_version_id ck = Some v"
  shows "resume_point sid loc cs db = Inr (Some (d, pd_version_id doc))"
  using assms by (simp add: resume_point_def get_checkpoint_def)

lemma checkpoint_written:
  "\<exists>ck. map_of (t_checks (snd (upsert_checkpoint f now sid loc cs st d v e db))) (sid, loc, cs) = Some ck \<and>
     ic_status ck = st \<and> ic_document_id ck = d \<and> ic_version_id ck = v"
  by (simp add: upsert_checkpoint_def Let_def)

lemma checkpoint_rest [simp]:
  "t_docs (snd (upsert_checkpoint f now sid loc cs st d v e db)) = t_docs db"
  "t_versions (snd (upsert_checkpoint f now sid loc cs st d v e db)) = t_versions db"
  "t_chunks (snd (upsert_checkpoint f now sid loc cs st d v e db)) = t_chunks db"
  "t_sources (snd (upsert_checkpoint f now sid loc cs st d v e db)) = t_sources db"
  by (simp_all add: upsert_checkpoint_def Let_def)

text \<open>What a successful ingestion leaves behind, on each of its three ways.\<close>

definition ingested :: "string \<Rightarrow> uuid \<Rightarrow> string \<Rightarrow> ingestion_result \<Rightarrow> doc_db \<Rightarrow> bool" where
  "ingested cs sid loc r db \<longleftrightarrow>
     (\<exists>doc. get_document (ir_document r) db = Some doc \<and> pd_checksum doc = cs \<and> pd_version_id doc = ir_version r) \<and>
     resume_point sid loc cs db = Inr (Some (ir_document r, ir_version r)) \<and>
     (\<exists>ck. get_checkpoint sid loc cs db = Some ck \<and> ic_status ck = PERSISTED \<and>
        ic_document_id ck = Some (ir_document r) \<and> ic_version_id ck = Some (ir_version r))"

lemma hit_ingested:
  assumes inv: "doc_inv db" and hit: "idempotent_hit sid loc cs db (Some (d, v))"
    and f: "find_active_document sid loc db = Some (d, v)"
    and db': "t_docs db' = t_docs db" "t_versions db' = t_versions db"
    and ck: "\<exists>ck. map_of (t_checks db') (sid, loc, cs) = Some ck \<and> ic_status ck = PERSISTED \<and>
      ic_document_id ck = Some d \<and> ic_version_id ck = Some v"
    and r: "ir_document r = d" "ir_version r = v"
  shows "ingested cs sid loc r db'"
proof -
  from f obtain row where row: "map_of (t_docs db) d = Some row" "d_current row = Some v"
    using find_row_SomeD [OF _ doc_inv_keyed(2) [OF inv]]
    by (auto simp: find_active_document_def split: option.splits)
  from hit row obtain x where x: "map_of (t_versions db) v = Some x" "v_checksum x = cs"
    by (auto simp: idempotent_hit_def get_document_version_def to_parsed_def split: option.splits if_splits)
  then have "v_id x = v" using keyed_map_of [OF doc_inv_keyed(3) [OF inv]] by blast
  have "get_document d db' = Some (to_parsed row x)"
    using get_document_inv [OF inv row(1)] row x get_document_cong [OF db'] by simp
  with resume_after_checkpoint [OF this] ck x \<open>v_id x = v\<close> show ?thesis
    unfolding ingested_def r by (auto simp: to_parsed_def get_checkpoint_def)
qed

lemma ingest_hit:
  assumes inv: "doc_inv (fst s)" and hit: "idempotent_hit sid loc cs (fst s) (find_active_document sid loc (fst s))"
    and "resume_point sid loc cs (fst s) = Inr None"
    and "ingest_tx rd sha cfg dr src sid file media raw cs loc s = (Inr r, s')"
  shows "ingested cs sid loc r (fst s') \<and> \<not> ir_new r \<and> ir_tenant r = src_tenant src \<and>
    t_chunks (fst s') = t_chunks (fst s) \<and> snd s' = snd s"
proof -
  from hit obtain d v where f: "find_active_document sid loc (fst s) = Some (d, v)"
    by (auto simp: idempotent_hit_def split: option.splits)
  let ?db = "snd (upsert_checkpoint (dr_check dr) (dr_now dr) sid loc cs PERSISTED (Some d) (Some v) None (fst s))"
  have r: "r = \<lparr>ir_document = d, ir_version = v, ir_new = False, ir_tenant = src_tenant src\<rparr>" "s' = (?db, snd s)"
    using assms f by (simp_all add: ingest_tx_def)
  have "ingested cs sid loc r ?db"
    using hit_ingested [OF inv hit [unfolded f] f _ _ checkpoint_written] r(1) by simp
  then show ?thesis using r by simp
qed

lemma store_version_ok:
  assumes "store_version rd sha cfg dr src sid file media raw cs loc did vid s = (Inr r, s')"
    and inv: "doc_inv (fst s)"
  shows "ingested cs sid loc r (fst s') \<and> ir_tenant r = src_tenant src \<and>
    (if ir_new r
     then \<exists>c. parse_media rd media raw = Inr c \<and>
       vals (t_chunks (fst s')) = vals (t_chunks (fst s)) @
         chunk_document sha cfg (dr_chunk dr) c (ir_document r) (ir_version r) (src_principals src) \<and>
       snd (outbox_add (parsed_event dr (ir_document r) (ir_version r) sid (src_tenant src)) (snd s)) = snd s' \<and>
       dr_event dr \<notin> set (keys (snd s))
     else t_chunks (fst s') = t_chunks (fst s) \<and> snd s' = snd s)"
proof -
  let ?p = "\<lambda>c. \<lparr>pd_document_id = did, pd_version_id = vid, pd_source_id = sid, pd_locator = loc,
             pd_title = pc_title c, pd_media_type = media, pd_checksum = cs, pd_content = pc_body c,
             pd_metadata = ingest_metadata file loc c, pd_effective_at = Some (Aware (dr_now dr))\<rparr>"
  from assms(1) obtain c doc new db where c: "parse_media rd media raw = Inr c"
    and up: "upsert_document (?p c) (fst s) = (Inr (doc, new), db)"
    by (auto simp: store_version_def split: sum.splits prod.splits)
  let ?d = "pd_document_id doc" and ?v = "pd_version_id doc"
  let ?db1 = "snd (upsert_checkpoint (dr_check dr) (dr_now dr) sid loc cs PERSISTED (Some ?d) (Some ?v) None db)"
  from upsert_document_ok [OF up inv] obtain k w row x where
    doc: "doc = (?p c)\<lparr>pd_document_id := k, pd_version_id := w\<rparr>" and post: "upsert_post (?p c) (fst s) k w row x db"
    by blast
  have get: "get_document ?d db = Some (to_parsed row x)" "v_checksum x = cs" "v_id x = ?v"
    using upsert_post_get(1) [OF inv post] post doc by (simp_all add: upsert_post_def)
  have ing: "ingested cs sid loc r db'"
    if "t_docs db' = t_docs db" "t_versions db' = t_versions db" "t_checks db' = t_checks ?db1"
      "ir_document r = ?d" "ir_version r = ?v" for db'
  proof -
    have "get_document ?d db' = Some (to_parsed row x)" using get(1) get_document_cong [OF that(1,2)] by simp
    with resume_after_checkpoint [OF this, of cs sid loc] get(2,3) checkpoint_written that show ?thesis
      unfolding ingested_def by (fastforce simp: to_parsed_def get_checkpoint_def)
  qed
  have ch: "t_chunks db = t_chunks (fst s)" using post by (simp add: upsert_post_def)
  show ?thesis
  proof (cases new)
    case False
    then have "r = \<lparr>ir_document = ?d, ir_version = ?v, ir_new = False, ir_tenant = src_tenant src\<rparr>" "s' = (?db1, snd s)"
      using assms(1) c up by (simp_all add: store_version_def Let_def)
    then show ?thesis using ing [of ?db1] ch by simp
  next
    case True
    then obtain u db2 e t where cc: "create_chunks (chunk_document sha cfg (dr_chunk dr) c ?d ?v (src_principals src)) ?db1 = (Inr u, db2)"
      and ob: "outbox_add (parsed_event dr ?d ?v sid (src_tenant src)) (snd s) = (Inr e, t)"
      and r: "r = \<lparr>ir_document = ?d, ir_version = ?v, ir_new = True, ir_tenant = src_tenant src\<rparr>" "s' = (db2, t)"
      using assms(1) c up by (auto simp: store_version_def Let_def split: sum.splits prod.splits)
    have "dr_event dr \<notin> set (keys (snd s))"
      using ob by (auto simp: outbox_add_def parsed_event_def split: if_splits)
    then show ?thesis using ing [of db2] create_chunks_ok [OF cc] ch ob c r by simp
  qed
qed

lemma ingest_tx_chunks:
  assumes inv: "doc_inv (fst s)" and tx: "ingest_tx rd sha cfg dr src sid file media raw cs loc s = (Inr r, s')"
    and k: "k \<in> set (vals (t_chunks (fst s')))" "k \<notin> set (vals (t_chunks (fst s)))"
  shows "\<exists>c ids did vid. parse_media rd media raw = Inr c \<and>
    k \<in> set (chunk_document sha cfg ids c did vid (src_principals src))"
proof -
  have res: "resume_point sid loc cs (fst s) = Inr None"
    using tx k by (auto simp: ingest_tx_def split: sum.splits option.splits)
  show ?thesis
  proof (cases "idempotent_hit sid loc cs (fst s) (find_active_document sid loc (fst s))")
    case True
    then show ?thesis using ingest_hit [OF inv True res tx] k by simp
  next
    case False
    then have "store_version rd sha cfg dr src sid file media raw cs loc
        (case find_active_document sid loc (fst s) of Some (d, _) \<Rightarrow> d | None \<Rightarrow> dr_doc dr) (dr_ver dr) s = (Inr r, s')"
      using tx res by (simp add: ingest_tx_def)
    note ok = store_version_ok [OF this inv]
    then have "ir_new r" using k by auto
    with ok obtain c where c: "parse_media rd media raw = Inr c"
      "vals (t_chunks (fst s')) = vals (t_chunks (fst s)) @
         chunk_document sha cfg (dr_chunk dr) c (ir_document r) (ir_version r) (src_principals src)" by auto
    from k(1) have "k \<in> set (chunk_document sha cfg (dr_chunk dr) c (ir_document r) (ir_version r) (src_principals src))"
      unfolding c(2) using k(2) by simp
    then show ?thesis using c(1) by blast
  qed
qed

lemma ingest_file_chunks:
  assumes "doc_inv (fst (is_pg s))" and "ingest_file fs rd sha cfg dr sid file media s = (res, s')"
    and "k \<in> set (vals (t_chunks (fst (is_pg s'))))" "k \<notin> set (vals (t_chunks (fst (is_pg s))))"
  shows "\<exists>raw cs loc src c ids did vid. acquire_and_validate fs sha sid file (fst (is_pg s)) = Inr (raw, cs, loc, src) \<and>
    parse_media rd media raw = Inr c \<and> k \<in> set (chunk_document sha cfg ids c did vid (src_principals src))"
proof -
  obtain raw cs loc src where a: "acquire_and_validate fs sha sid file (fst (is_pg s)) = Inr (raw, cs, loc, src)"
    using assms(2-4) by (auto simp: ingest_file_def ingest_file_impl_def split: sum.splits prod.splits)
  obtain r where "ingest_tx rd sha cfg dr src sid file media raw cs loc (is_pg s) = (Inr r, is_pg s')"
    using assms(2-4) a
    by (auto simp: ingest_file_def ingest_file_impl_def run_uow_def Let_def split: sum.splits prod.splits if_splits)
  from ingest_tx_chunks [OF assms(1) this assms(3,4)] a show ?thesis by blast
qed

section \<open>Properties\<close>

text \<open>Containment and size. A file is read only when it is not a symbolic link, its resolved
  path lies under the resolved root of its source, and it has at most one hundred mebibytes; the
  locator recorded for it is that resolved path.\<close>

theorem acquired_file_is_inside:
  assumes "acquire_and_validate fs sha sid file db = Inr (raw, cs, loc, src)"
  shows "\<exists>rest. fs_resolve fs file = fs_resolve fs (src_uri src) @ rest \<and> \<not> fs_symlink fs file \<and>
     fs_size fs (fs_resolve fs file) \<le> 104857600 \<and> loc = path_str (fs_resolve fs file) \<and>
     fs_read fs (fs_resolve fs file) = Inr raw \<and> cs = sha raw \<and> get_source sid db = Some src"
  using assms
  by (auto simp: acquire_and_validate_def resolve_safe_path_def check_size_def max_file_size_def startswith_iff
      split: option.splits if_splits)

definition demo_fs :: file_system where
  "demo_fs = \<lparr>fs_resolve = (\<lambda>p. if p = ''/d'' then [''d''] else [''d'', ''a'']), fs_symlink = (\<lambda>_. False),
     fs_size = (\<lambda>_. 2), fs_read = (\<lambda>_. Inr ''hi'')\<rparr>"

definition demo_readers :: readers where
  "demo_readers = \<lparr>rd_decode = (\<lambda>s. s), rd_pdf = (\<lambda>_. Inr (True, [])), rd_docx = (\<lambda>_. Inr ([], [], None)),
     rd_epub = (\<lambda>_. Inr ([], []))\<rparr>"

definition demo_draws :: "nat \<Rightarrow> draws" where
  "demo_draws n = \<lparr>dr_doc = n, dr_ver = n + 1, dr_event = n + 2, dr_check = n + 3, dr_chunk = (\<lambda>i. n + 10 + i),
     dr_now = int n\<rparr>"

definition demo_cfg :: chunker_config where
  "demo_cfg = \<lparr>cc_max_tokens = 512, cc_overlap = 64, cc_version = ''v1''\<rparr>"

theorem acquired_file_is_inside_witness:
  "acquire_and_validate demo_fs (\<lambda>s. s) 1 ''/d/a'' demo_docs0 = Inr (''hi'', ''hi'', ''/d/a'', demo_source) \<and>
   (\<exists>rest. fs_resolve demo_fs ''/d/a'' = fs_resolve demo_fs (src_uri demo_source) @ rest)"
proof -
  have a: "acquire_and_validate demo_fs (\<lambda>s. s) 1 ''/d/a'' demo_docs0 = Inr (''hi'', ''hi'', ''/d/a'', demo_source)"
    by (simp add: acquire_and_validate_def get_source_def demo_docs0_def empty_docs_def resolve_safe_path_def
        demo_fs_def check_size_def max_file_size_def path_str_def demo_source_def)
  show ?thesis using a acquired_file_is_inside [OF a] by blast
qed

text \<open>C8: Ingesting is idempotent. After a successful ingestion from consistent tables, ingesting the
  same content again, at any later time and with any fresh ids, returns the same document and version,
  reports no new version, and changes neither the document tables nor the outbox.\<close>

theorem ingest_idempotent:
  assumes "reach doc_start doc_step (fst s)"
    and "ingest_tx rd sha cfg dr src sid file media raw cs loc s = (Inr r, s')"
  shows "ingest_tx rd sha cfg dr' src sid file media raw cs loc s' = (Inr (r\<lparr>ir_new := False\<rparr>), s')"
proof -
  have inv: "doc_inv (fst s)" using documents.reach_inv [OF assms(1)] .
  have again: ?thesis if "resume_point sid loc cs (fst s') = Inr (Some (ir_document r, ir_version r))"
      "ir_tenant r = src_tenant src"
    using that by (simp add: ingest_tx_def)
  consider d v where "resume_point sid loc cs (fst s) = Inr (Some (d, v))"
    | "resume_point sid loc cs (fst s) = Inr None"
    using assms(2) by (auto simp: ingest_tx_def split: sum.splits option.splits)
  then show ?thesis
  proof cases
    case 1
    then show ?thesis using assms(2) by (intro again) (auto simp: ingest_tx_def)
  next
    case 2
    show ?thesis
    proof (cases "idempotent_hit sid loc cs (fst s) (find_active_document sid loc (fst s))")
      case True
      show ?thesis using ingest_hit [OF inv True 2 assms(2)] by (intro again) (auto simp: ingested_def)
    next
      case False
      then have st: "store_version rd sha cfg dr src sid file media raw cs loc
          (case find_active_document sid loc (fst s) of Some (d, _) \<Rightarrow> d | None \<Rightarrow> dr_doc dr) (dr_ver dr) s = (Inr r, s')"
        using assms(2) 2 by (simp add: ingest_tx_def)
      from store_version_ok [OF this inv] show ?thesis by (intro again) (auto simp: ingested_def)
    qed
  qed
qed

text \<open>C21: An ingestion that returns makes the content current: the document reads back with the
  checksum of the file under the returned version, and the checkpoint of this source, locator and checksum
  says that this document is persisted; unless the ingestion resumed from that checkpoint, it names the
  returned version too. For a new version, exactly the chunks the chunker
  makes of the parsed file are added, with the principals of the source, and one
  \<^verbatim>\<open>DocumentParsed\<close> event under a fresh id; otherwise chunks and outbox stay as they
  are. An ingestion that fails changes nothing.\<close>

theorem ingest_effect:
  assumes "reach doc_start doc_step (fst s)"
    and "run_uow (ingest_tx rd sha cfg dr src sid file media raw cs loc) s = (res, s')"
  shows "case res of
      Inl e \<Rightarrow> s' = s
    | Inr r \<Rightarrow>
       (\<exists>doc. get_document (ir_document r) (fst s') = Some doc \<and> pd_checksum doc = cs \<and>
          pd_version_id doc = ir_version r) \<and>
       (\<exists>ck. get_checkpoint sid loc cs (fst s') = Some ck \<and> ic_status ck = PERSISTED \<and>
          ic_document_id ck = Some (ir_document r) \<and>
          (resume_point sid loc cs (fst s) = Inr None \<longrightarrow> ic_version_id ck = Some (ir_version r))) \<and>
       (if ir_new r
        then resume_point sid loc cs (fst s) = Inr None \<and> (\<exists>c. parse_media rd media raw = Inr c \<and>
          vals (t_chunks (fst s')) = vals (t_chunks (fst s)) @
            chunk_document sha cfg (dr_chunk dr) c (ir_document r) (ir_version r) (src_principals src) \<and>
          snd s' = put (dr_event dr)
            (row_of_event (parsed_event dr (ir_document r) (ir_version r) sid (src_tenant src))) (snd s) \<and>
          dr_event dr \<notin> set (keys (snd s)))
        else t_chunks (fst s') = t_chunks (fst s) \<and> snd s' = snd s)"
proof (cases res)
  case (Inl e)
  then show ?thesis using assms(2) by (auto simp: run_uow_def split: prod.splits sum.splits)
next
  case (Inr r)
  have inv: "doc_inv (fst s)" using documents.reach_inv [OF assms(1)] .
  have tx: "ingest_tx rd sha cfg dr src sid file media raw cs loc s = (Inr r, s')"
    using assms(2) Inr by (auto simp: run_uow_def split: prod.splits sum.splits)
  consider d v where "resume_point sid loc cs (fst s) = Inr (Some (d, v))"
    | "resume_point sid loc cs (fst s) = Inr None"
    using tx by (auto simp: ingest_tx_def split: sum.splits option.splits)
  then show ?thesis
  proof cases
    case (1 d v)
    then have "(\<exists>doc. get_document d (fst s) = Some doc \<and> pd_checksum doc = cs \<and> pd_version_id doc = v) \<and>
        (\<exists>ck. get_checkpoint sid loc cs (fst s) = Some ck \<and> ic_status ck = PERSISTED \<and> ic_document_id ck = Some d)"
      by (auto simp: resume_point_def split: option.splits if_splits)
    then show ?thesis using tx 1 Inr by (auto simp: ingest_tx_def)
  next
    case 2
    show ?thesis
    proof (cases "idempotent_hit sid loc cs (fst s) (find_active_document sid loc (fst s))")
      case True
      show ?thesis using ingest_hit [OF inv True 2 tx] Inr by (auto simp: ingested_def)
    next
      case False
      then have st: "store_version rd sha cfg dr src sid file media raw cs loc
          (case find_active_document sid loc (fst s) of Some (d, _) \<Rightarrow> d | None \<Rightarrow> dr_doc dr) (dr_ver dr) s = (Inr r, s')"
        using tx 2 by (simp add: ingest_tx_def)
      from store_version_ok [OF this inv] Inr 2 show ?thesis
        by (auto simp: ingested_def outbox_add_def parsed_event_def split: if_splits)
    qed
  qed
qed

text \<open>C26: No markup reaches the index. Whatever an HTML file holds, every chunk that its ingestion adds to the
  tables, on any path through parser, chunker and transaction, contains no tag, occurs literally in the
  Markdown of the file that was read, and carries the principals of the source.\<close>

theorem ingested_html_has_no_tags:
  assumes "reach doc_start doc_step (fst (is_pg s))"
    and "ingest_file fs rd sha cfg dr sid file ''text/html'' s = (res, s')"
    and "k \<in> set (vals (t_chunks (fst (is_pg s'))))" "k \<notin> set (vals (t_chunks (fst (is_pg s))))"
  shows "strip_tags (ck_content k) = ck_content k \<and>
    (\<exists>raw src. fs_read fs (fs_resolve fs file) = Inr raw \<and> get_source sid (fst (is_pg s)) = Some src \<and>
       contains (ck_content k) (normalize_to_markdown (rd_decode rd raw)) \<and> ck_principals k = src_principals src)"
proof -
  from ingest_file_chunks [OF documents.reach_inv [OF assms(1)] assms(2-4)] obtain raw cs loc src c ids did vid
    where a: "acquire_and_validate fs sha sid file (fst (is_pg s)) = Inr (raw, cs, loc, src)"
      and c: "parse_media rd ''text/html'' raw = Inr c"
      and k: "k \<in> set (chunk_document sha cfg ids c did vid (src_principals src))" by blast
  from c have "pc_body c = normalize_to_markdown (rd_decode rd raw)"
    by (auto simp: parse_media_def get_with_reason_def registered_def parse_html_def parsed_def Let_def)
  with chunk_document_member [OF k] have in_md: "contains (ck_content k) (normalize_to_markdown (rd_decode rd raw))"
    and prin: "ck_principals k = src_principals src" by simp_all
  from in_md have "tagless (ck_content k)"
    using normalize_tagless [of "rd_decode rd raw"] unfolding contains_iff by (metis tagless_suffix tagless_prefix)
  then show ?thesis
    using in_md prin a strip_tags_tagless
    by (auto simp: acquire_and_validate_def resolve_safe_path_def split: option.splits if_splits)
qed

text \<open>A first run on an empty source: one chunk, one event.\<close>

definition demo_tx :: "string \<Rightarrow> string \<Rightarrow> nat \<Rightarrow> pg \<Rightarrow> (exn + ingestion_result) \<times> pg" where
  "demo_tx m raw n = ingest_tx demo_readers (\<lambda>s. s) demo_cfg (demo_draws n) demo_source 1 ''/d/a'' m raw raw ''/d/a''"

definition demo_result :: ingestion_result where
  "demo_result = \<lparr>ir_document = 50, ir_version = 51, ir_new = True, ir_tenant = ''t''\<rparr>"

lemma demo_parse: "parse_media demo_readers ''text/plain'' ''hi'' = Inr (parse_text ''hi'')"
  by (simp add: parse_media_def get_with_reason_def registered_def demo_readers_def)

lemma one_chunk:
  assumes "pc_headings c = []" and "pc_body c = ''hi''"
  shows "\<exists>k. chunk_document (\<lambda>s. s) demo_cfg ids c d v ps = [k] \<and> ck_id k = ids 0 \<and> ck_document_id k = d \<and>
     ck_version_id k = v \<and> ck_content k = ''hi''"
  using assms by (simp add: chunk_document_def split_by_heading_def chunk_text_def strip_def
      lstrip_def rstrip_def is_space_def estimate_tokens_def make_chunk_def)

lemma demo_draws_simps:
  "dr_doc (demo_draws n) = n" "dr_ver (demo_draws n) = n + 1" "dr_event (demo_draws n) = n + 2"
  "dr_chunk (demo_draws n) = (\<lambda>i. n + 10 + i)"
  by (simp_all add: demo_draws_def)

lemma demo_upsert:
  assumes "pd_document_id p = 50" "pd_version_id p = 51" "pd_source_id p = 1"
  shows "\<exists>db x. upsert_document p demo_docs0 = (Inr (p, True), db) \<and> t_chunks db = [] \<and>
    map_of (t_versions db) 51 = Some x \<and> v_doc x = 50"
  using assms by (cases p) (simp add: upsert_document_def upsert_doc_row_def upsert_version_def clear_current_def
      update_where_def find_row_def demo_docs0_def empty_docs_def)

lemma demo_tx_result:
  assumes parse: "parse_media demo_readers m raw = Inr p" and p: "pc_headings p = []" "pc_body p = ''hi''"
  shows "fst (demo_tx m raw 50 (demo_docs0, [])) = Inr demo_result"
proof -
  let ?p = "\<lparr>pd_document_id = 50, pd_version_id = 51, pd_source_id = 1, pd_locator = ''/d/a'',
     pd_title = pc_title p, pd_media_type = m, pd_checksum = raw,
     pd_content = pc_body p, pd_metadata = ingest_metadata ''/d/a'' ''/d/a'' p,
     pd_effective_at = Some (Aware (dr_now (demo_draws 50)))\<rparr>"
  obtain c where c: "chunk_document (\<lambda>s. s) demo_cfg (\<lambda>i. 60 + i) p 50 51 [''p''] = [c]"
    "ck_id c = 60" "ck_document_id c = 50" "ck_version_id c = 51"
    using one_chunk [OF p, of "\<lambda>i. 60 + i" 50 51 "[''p'']"] by auto
  obtain db x where db: "upsert_document ?p demo_docs0 = (Inr (?p, True), db)" "t_chunks db = []"
    "map_of (t_versions db) 51 = Some x" "v_doc x = 50" using demo_upsert [of ?p] by auto
  have "fst (outbox_add (parsed_event (demo_draws 50) 50 51 1 ''t'') []) = Inr (parsed_event (demo_draws 50) 50 51 1 ''t'')"
    by (simp add: outbox_add_def to_domain_def row_of_event_def parsed_event_def event_status_of_def mk_outbox_event_def)
  then obtain t' where t': "outbox_add (parsed_event (demo_draws 50) 50 51 1 ''t'') [] =
      (Inr (parsed_event (demo_draws 50) 50 51 1 ''t''), t')" by (metis prod.collapse)
  have start: "resume_point 1 ''/d/a'' raw demo_docs0 = Inr None" "find_active_document 1 ''/d/a'' demo_docs0 = None"
    by (simp_all add: resume_point_def get_checkpoint_def find_active_document_def find_row_def demo_docs0_def empty_docs_def)
  have src: "src_principals demo_source = [''p'']" "src_tenant demo_source = ''t''"
    by (simp_all add: demo_source_def)
  show ?thesis
    unfolding demo_tx_def ingest_tx_def fst_conv start sum.case option.case Let_def idempotent_hit_def if_False
      store_version_def parse demo_draws_simps
    using c db(2-4) t' by (simp add: db(1) create_chunk_def src demo_result_def del: One_nat_def)
qed

lemma demo_text_result: "fst (demo_tx ''text/plain'' ''hi'' 50 (demo_docs0, [])) = Inr demo_result"
  by (rule demo_tx_result [OF demo_parse]) (simp_all add: parse_text_def parsed_def)

lemma demo_start: "reach doc_start doc_step (fst (demo_docs0, [] :: outbox))"
  using demo_docs0_reach by simp

theorem ingest_idempotent_witness:
  "demo_tx ''text/plain'' ''hi'' 90 (snd (demo_tx ''text/plain'' ''hi'' 50 (demo_docs0, []))) =
     (Inr (demo_result\<lparr>ir_new := False\<rparr>), snd (demo_tx ''text/plain'' ''hi'' 50 (demo_docs0, [])))"
proof -
  have "demo_tx ''text/plain'' ''hi'' 50 (demo_docs0, []) = (Inr demo_result, snd (demo_tx ''text/plain'' ''hi'' 50 (demo_docs0, [])))"
    using demo_text_result by (metis prod.collapse)
  with demo_start show ?thesis unfolding demo_tx_def by (intro ingest_idempotent)
qed

theorem ingest_effect_witness:
  "\<exists>doc. get_document 50 (fst (snd (demo_tx ''text/plain'' ''hi'' 50 (demo_docs0, [])))) = Some doc \<and> pd_checksum doc = ''hi''"
proof -
  let ?tx = "ingest_tx demo_readers (\<lambda>s. s) demo_cfg (demo_draws 50) demo_source 1 ''/d/a'' ''text/plain'' ''hi'' ''hi'' ''/d/a''"
  have "run_uow ?tx (demo_docs0, []) = (Inr demo_result, snd (demo_tx ''text/plain'' ''hi'' 50 (demo_docs0, [])))"
    using demo_text_result unfolding demo_tx_def by (auto simp: run_uow_def split: prod.splits)
  with demo_start show ?thesis using ingest_effect by (fastforce simp: demo_result_def)
qed

theorem ingested_html_has_no_tags_witness:
  "\<exists>k s'. snd (ingest_file (demo_fs\<lparr>fs_read := (\<lambda>_. Inr ''<p>hi</p>'')\<rparr>) demo_readers (\<lambda>s. s) demo_cfg (demo_draws 50)
       1 ''/d/a'' ''text/html'' \<lparr>is_pg = (demo_docs0, []), is_objects = []\<rparr>) = s' \<and>
     vals (t_chunks (fst (is_pg s'))) = [k] \<and> ck_content k = ''hi'' \<and> strip_tags (ck_content k) = ck_content k"
proof -
  let ?fs = "demo_fs\<lparr>fs_read := (\<lambda>_. Inr ''<p>hi</p>'')\<rparr>" and ?s = "\<lparr>is_pg = (demo_docs0, []), is_objects = []\<rparr> :: ing_state"
  have body: "pc_headings (parse_html ''<p>hi</p>'') = []" "pc_body (parse_html ''<p>hi</p>'') = ''hi''"
    by code_simp+
  have parse: "parse_media demo_readers ''text/html'' ''<p>hi</p>'' = Inr (parse_html ''<p>hi</p>'')"
    by (simp add: parse_media_def get_with_reason_def registered_def demo_readers_def)
  have a: "acquire_and_validate ?fs (\<lambda>s. s) 1 ''/d/a'' demo_docs0 = Inr (''<p>hi</p>'', ''<p>hi</p>'', ''/d/a'', demo_source)"
    by (simp add: acquire_and_validate_def get_source_def demo_docs0_def empty_docs_def resolve_safe_path_def
        demo_fs_def check_size_def max_file_size_def path_str_def demo_source_def)
  obtain s2 where tx: "demo_tx ''text/html'' ''<p>hi</p>'' 50 (demo_docs0, []) = (Inr demo_result, s2)"
    using demo_tx_result [OF parse body] by (metis prod.collapse)
  obtain k where k: "chunk_document (\<lambda>s. s) demo_cfg (dr_chunk (demo_draws 50)) (parse_html ''<p>hi</p>'') 50 51 [''p''] = [k]"
    "ck_content k = ''hi''" using one_chunk [OF body] by blast
  let ?r = "ingest_file ?fs demo_readers (\<lambda>s. s) demo_cfg (demo_draws 50) 1 ''/d/a'' ''text/html'' ?s"
  have run: "is_pg (snd ?r) = s2"
    using a tx by (simp add: ingest_file_def ingest_file_impl_def run_uow_def demo_tx_def split: prod.splits)
  have "run_uow (demo_tx ''text/html'' ''<p>hi</p>'' 50) (demo_docs0, []) = (Inr demo_result, s2)"
    using tx by (simp add: run_uow_def)
  from ingest_effect [OF demo_start this [unfolded demo_tx_def]] parse k
  have ch: "vals (t_chunks (fst s2)) = [k]" by (simp add: demo_result_def demo_source_def demo_docs0_def empty_docs_def)
  have start: "reach doc_start doc_step (fst (is_pg ?s))" and new: "k \<notin> set (vals (t_chunks (fst (is_pg ?s))))"
    using demo_start by (simp_all add: demo_docs0_def empty_docs_def)
  have "k \<in> set (vals (t_chunks (fst (is_pg (snd ?r)))))" unfolding run ch by simp
  from ingested_html_has_no_tags [OF start surjective_pairing this new] have "strip_tags (ck_content k) = ck_content k" ..
  with ch k(2) run show ?thesis by (intro exI [of _ k] exI [of _ "snd ?r"]) simp
qed

end
