(* ===== verification/GraphStore.thy ===== *)
theory GraphStore
  imports Tables Domain
begin

text \<open>
  The knowledge graph in Neo4j: \<^verbatim>\<open>infrastructure/neo4j/repository.py\<close> and the
  transaction of \<^verbatim>\<open>unit_of_work.py\<close>. Nodes are tables by id (a \<^verbatim>\<open>MERGE\<close>
  on the id replaces the row), relationships are lists of pairs without duplicates, and a
  \<^verbatim>\<open>MATCH\<close> is a join over them. The locale states what readers of facts rely on.
\<close>

section \<open>The graph\<close>

record graph_db =
  g_entities :: "canonical_entity tbl"
  g_facts :: "knowledge_fact tbl"
  g_subject_of :: "(uuid \<times> uuid) list"
  g_object :: "(uuid \<times> uuid) list"
  g_superseded :: "(uuid \<times> uuid) list"
  g_mentions :: "entity_mention tbl"
  g_chunks :: "uuid list"
  g_mentioned_in :: "(uuid \<times> uuid) list"

definition empty_graph :: graph_db where
  "empty_graph = \<lparr>g_entities = [], g_facts = [], g_subject_of = [], g_object = [], g_superseded = [],
     g_mentions = [], g_chunks = [], g_mentioned_in = []\<rparr>"

definition merge_edge :: "'a \<Rightarrow> 'a list \<Rightarrow> 'a list" where
  "merge_edge e es = (if e \<in> set es then es else es @ [e])"

definition create_entity :: "canonical_entity \<Rightarrow> graph_db \<Rightarrow> graph_db" where
  "create_entity e g = g\<lparr>g_entities := put (ce_id e) e (g_entities g)\<rparr>"

definition get_entity :: "uuid \<Rightarrow> graph_db \<Rightarrow> canonical_entity option" where
  "get_entity eid g = map_of (g_entities g) eid"

definition find_entities :: "string option \<Rightarrow> string option \<Rightarrow> graph_db \<Rightarrow> canonical_entity list" where
  "find_entities name ty g =
     take 100 (filter (\<lambda>e. (name = None \<or> Some (ce_name e) = name) \<and> (ty = None \<or> Some (ce_type e) = ty))
       (vals (g_entities g)))"

text \<open>\<^verbatim>\<open>_FACT_MERGE\<close>: each \<^verbatim>\<open>MATCH\<close> without a row ends the rest of the statement.\<close>

definition create_fact :: "knowledge_fact \<Rightarrow> graph_db \<Rightarrow> graph_db" where
  "create_fact f g =
     (let g1 = g\<lparr>g_facts := put (kf_id f) f (g_facts g)\<rparr>
      in if kf_subject f \<notin> set (keys (g_entities g)) then g1
         else let g2 = g1\<lparr>g_subject_of := merge_edge (kf_subject f, kf_id f) (g_subject_of g)\<rparr>
              in if kf_object f \<notin> set (keys (g_entities g)) then g2
                 else g2\<lparr>g_object := merge_edge (kf_id f, kf_object f) (g_object g)\<rparr>)"

text \<open>Reading a fact validates it again.\<close>

definition get_fact :: "uuid \<Rightarrow> graph_db \<Rightarrow> exn + knowledge_fact option" where
  "get_fact fid g =
     (case map_of (g_facts g) fid of None \<Rightarrow> Inr None | Some f \<Rightarrow> rbind (mk_fact f) (\<lambda>f. Inr (Some f)))"

text \<open>An empty list of principals on the fact admits every caller that names a principal.\<close>

definition fact_visible :: "string list \<Rightarrow> knowledge_fact \<Rightarrow> bool" where
  "fact_visible allowed f \<longleftrightarrow> list_ex (\<lambda>p. p \<in> set (kf_principals f) \<or> kf_principals f = []) allowed"

definition fact_matches ::
  "string option \<Rightarrow> fact_status option \<Rightarrow> string list option \<Rightarrow> string option \<Rightarrow> knowledge_fact \<Rightarrow> bool" where
  "fact_matches predicate status allowed tenant f \<longleftrightarrow>
     (case predicate of None \<Rightarrow> True | Some p \<Rightarrow> p = [] \<or> kf_predicate f = p) \<and>
     (case status of None \<Rightarrow> True | Some st \<Rightarrow> kf_status f = st) \<and>
     (case tenant of None \<Rightarrow> True | Some t \<Rightarrow> kf_tenant f = t) \<and>
     (case allowed of None \<Rightarrow> True | Some ps \<Rightarrow> fact_visible ps f)"

definition fact_rows ::
  "uuid option \<Rightarrow> string option \<Rightarrow> uuid option \<Rightarrow> fact_status option \<Rightarrow> string list option \<Rightarrow> string option \<Rightarrow>
   graph_db \<Rightarrow> knowledge_fact list" where
  "fact_rows subj predicate obj status allowed tenant g =
     concat (map (\<lambda>(s, fid). concat (map (\<lambda>(fid', t).
       (case map_of (g_facts g) fid of
          Some f \<Rightarrow> if fid' = fid \<and> (subj = None \<or> subj = Some s) \<and> (obj = None \<or> obj = Some t)
                      \<and> fact_matches predicate status allowed tenant f then [f] else []
        | None \<Rightarrow> [])) (g_object g))) (g_subject_of g))"

definition find_facts ::
  "uuid option \<Rightarrow> string option \<Rightarrow> uuid option \<Rightarrow> fact_status option \<Rightarrow> string list option \<Rightarrow> string option \<Rightarrow>
   graph_db \<Rightarrow> exn + knowledge_fact list" where
  "find_facts subj predicate obj status allowed tenant g =
     rmap mk_fact (take 100 (fact_rows subj predicate obj status allowed tenant g))"

text \<open>\<^verbatim>\<open>_FACT_UPDATE_STATUS\<close>: when \<^verbatim>\<open>superseded_by\<close> names no fact, the optional match gives a
  null node, the server refuses to make a relationship to it, and the whole statement fails.\<close>

definition status_refused :: "uuid \<Rightarrow> uuid option \<Rightarrow> graph_db \<Rightarrow> bool" where
  "status_refused fid newer g \<longleftrightarrow> fid \<in> set (keys (g_facts g)) \<and>
     (case newer of None \<Rightarrow> False | Some n \<Rightarrow> n \<notin> set (keys (g_facts g)))"

definition set_status :: "uuid \<Rightarrow> fact_status \<Rightarrow> uuid option \<Rightarrow> graph_db \<Rightarrow> graph_db" where
  "set_status fid st newer g =
     (if status_refused fid newer g then g
      else case map_of (g_facts g) fid of
        None \<Rightarrow> g
      | Some f \<Rightarrow>
          let g1 = g\<lparr>g_facts := put fid (f\<lparr>kf_status := st\<rparr>) (g_facts g)\<rparr>
          in (case newer of
                Some n \<Rightarrow> g1\<lparr>g_superseded := merge_edge (fid, n) (g_superseded g)\<rparr>
              | None \<Rightarrow> g1))"

definition update_fact_status ::
  "uuid \<Rightarrow> fact_status \<Rightarrow> uuid option \<Rightarrow> graph_db \<Rightarrow> (exn + knowledge_fact) \<times> graph_db" where
  "update_fact_status fid st newer g =
     (if status_refused fid newer g then (Inl (DriverError ''Failed to create relationship, node `new` is missing''), g)
      else
       let g' = set_status fid st newer g
       in (rbind (get_fact fid g') (\<lambda>r. case r of
             None \<Rightarrow> Inl (ValueError ''Fact not found after status update'') | Some f \<Rightarrow> Inr f), g'))"

definition create_mention :: "entity_mention \<Rightarrow> graph_db \<Rightarrow> graph_db" where
  "create_mention m g =
     (let g1 = g\<lparr>g_mentions := put (em_id m) m (g_mentions g)\<rparr>
      in if em_chunk_id m \<in> set (g_chunks g)
         then g1\<lparr>g_mentioned_in := merge_edge (em_id m, em_chunk_id m) (g_mentioned_in g)\<rparr> else g1)"

definition find_mentions :: "uuid \<Rightarrow> graph_db \<Rightarrow> exn + entity_mention list" where
  "find_mentions cid g =
     rmap mk_mention (List.map_filter (\<lambda>(m, c). if c = cid \<and> c \<in> set (g_chunks g) then map_of (g_mentions g) m else None)
       (g_mentioned_in g))"

section \<open>The unit of work\<close>

record graph_uow =
  u_store :: graph_db
  u_tx :: "graph_db option"
  u_finished :: bool
  u_active :: bool

definition uow_enter :: "graph_db \<Rightarrow> graph_uow" where
  "uow_enter g = \<lparr>u_store = g, u_tx = Some g, u_finished = False, u_active = True\<rparr>"

text \<open>A repository of its own, with the driver and no transaction, works on the store.\<close>

definition detached :: "graph_db \<Rightarrow> graph_uow" where
  "detached g = \<lparr>u_store = g, u_tx = None, u_finished = False, u_active = True\<rparr>"

text \<open>\<^verbatim>\<open>_run_write\<close>, after \<^verbatim>\<open>_ensure_tx_active\<close>.\<close>

definition uow_write :: "(graph_db \<Rightarrow> graph_db) \<Rightarrow> graph_uow \<Rightarrow> (exn + unit) \<times> graph_uow" where
  "uow_write f u =
     (if \<not> u_active u then (Inl (RuntimeError ''Neo4j transaction is no longer active''), u)
      else case u_tx u of
          None \<Rightarrow> (Inl (RuntimeError ''Neo4j writes require Neo4jUnitOfWork''), u)
        | Some g \<Rightarrow> (Inr (), u\<lparr>u_tx := Some (f g)\<rparr>))"

text \<open>\<^verbatim>\<open>_run_read_single\<close> and \<^verbatim>\<open>_run_read_data\<close>, for a query \<^verbatim>\<open>f\<close>.\<close>

definition uow_read :: "(graph_db \<Rightarrow> exn + 'a) \<Rightarrow> graph_uow \<Rightarrow> exn + 'a" where
  "uow_read f u =
     (if \<not> u_active u then Inl (RuntimeError ''Neo4j transaction is no longer active'')
      else f (case u_tx u of None \<Rightarrow> u_store u | Some g \<Rightarrow> g))"

text \<open>A second end of a finished transaction is refused by the driver.\<close>

definition uow_commit :: "graph_uow \<Rightarrow> (exn + unit) \<times> graph_uow" where
  "uow_commit u =
     (case u_tx u of
        None \<Rightarrow> (Inl (RuntimeError ''unit of work not started''), u)
      | Some g \<Rightarrow> if u_finished u then (Inl (RuntimeError ''Transaction closed''), u)
                  else (Inr (), u\<lparr>u_store := g, u_finished := True, u_active := False\<rparr>))"

definition uow_rollback :: "graph_uow \<Rightarrow> (exn + unit) \<times> graph_uow" where
  "uow_rollback u =
     (case u_tx u of
        None \<Rightarrow> (Inl (RuntimeError ''unit of work not started''), u)
      | Some g \<Rightarrow> if u_finished u then (Inl (RuntimeError ''Transaction closed''), u)
                  else (Inr (), u\<lparr>u_finished := True, u_active := False\<rparr>))"

definition uow_exit :: "bool \<Rightarrow> graph_uow \<Rightarrow> graph_uow" where
  "uow_exit raised u =
     (let store = (case u_tx u of Some g \<Rightarrow> if \<not> u_finished u \<and> \<not> raised then g else u_store u | None \<Rightarrow> u_store u)
      in u\<lparr>u_store := store, u_tx := None, u_active := False\<rparr>)"

section \<open>What readers of facts rely on\<close>

lemma fact_matches_scope:
  "fact_matches predicate (Some st) (Some ps) (Some t) f \<Longrightarrow> kf_status f = st \<and> kf_tenant f = t \<and> fact_visible ps f"
  by (simp add: fact_matches_def)

lemma fact_ok_verified: "fact_ok f \<Longrightarrow> kf_status f = FVerified \<Longrightarrow> kf_evidence_ids f \<noteq> []"
  by (auto simp: fact_ok_def)

locale fact_source =
  fixes facts :: "uuid option \<Rightarrow> string option \<Rightarrow> uuid option \<Rightarrow> fact_status option \<Rightarrow> string list option \<Rightarrow>
    string option \<Rightarrow> exn + knowledge_fact list"
  assumes facts_match: "facts subj predicate obj status allowed tenant = Inr fs \<Longrightarrow> f \<in> set fs \<Longrightarrow>
      fact_matches predicate status allowed tenant f"
    and facts_valid: "facts subj predicate obj status allowed tenant = Inr fs \<Longrightarrow> f \<in> set fs \<Longrightarrow> fact_ok f"
begin

lemma facts_verified:
  "facts subj predicate obj (Some FVerified) (Some ps) (Some t) = Inr fs \<Longrightarrow> f \<in> set fs \<Longrightarrow>
   kf_status f = FVerified \<and> kf_tenant f = t \<and> fact_visible ps f \<and> kf_evidence_ids f \<noteq> []"
  by (simp add: facts_match [THEN fact_matches_scope] facts_valid [THEN fact_ok_verified])

end

lemma fact_rows_match:
  "f \<in> set (fact_rows subj predicate obj status allowed tenant g) \<Longrightarrow>
   fact_matches predicate status allowed tenant f \<and> (\<exists>s t fid. (s, fid) \<in> set (g_subject_of g) \<and>
     (fid, t) \<in> set (g_object g) \<and> map_of (g_facts g) fid = Some f \<and>
     (subj = None \<or> subj = Some s) \<and> (obj = None \<or> obj = Some t))"
  by (auto simp: fact_rows_def split: option.splits if_splits) blast+

lemma find_facts_rows:
  assumes "find_facts subj predicate obj status allowed tenant g = Inr fs" "f \<in> set fs"
  shows "f \<in> set (fact_rows subj predicate obj status allowed tenant g) \<and> fact_ok f"
proof -
  obtain x where "x \<in> set (take 100 (fact_rows subj predicate obj status allowed tenant g))" "mk_fact x = Inr f"
    using rmap_Inr_mem [OF assms(1) [unfolded find_facts_def] assms(2)] by auto
  then show ?thesis by (auto simp: mk_fact_iff dest: in_set_takeD)
qed

interpretation neo4j: fact_source "\<lambda>subj predicate obj status allowed tenant. find_facts subj predicate obj status allowed tenant g" for g
  using find_facts_rows fact_rows_match by unfold_locales blast+

section \<open>Writers in any order\<close>

datatype graph_op =
    WriteEntity canonical_entity | WriteFact knowledge_fact
  | WriteStatus uuid fact_status "uuid option" | WriteMention entity_mention

fun apply_op :: "graph_op \<Rightarrow> graph_db \<Rightarrow> graph_db" where
  "apply_op (WriteEntity e) g = create_entity e g"
| "apply_op (WriteFact f) g = create_fact f g"
| "apply_op (WriteStatus fid st newer) g = set_status fid st newer g"
| "apply_op (WriteMention m) g = create_mention m g"

definition graph_start :: "graph_db \<Rightarrow> bool" where
  "graph_start g \<longleftrightarrow> g = empty_graph"

definition graph_step :: "graph_db \<Rightarrow> graph_db \<Rightarrow> bool" where
  "graph_step g g' \<longleftrightarrow> (\<exists>op. g' = apply_op op g)"

definition graph_inv :: "graph_db \<Rightarrow> bool" where
  "graph_inv g \<longleftrightarrow> g_chunks g = [] \<and> g_mentioned_in g = [] \<and>
     keyed ce_id (g_entities g) \<and> keyed kf_id (g_facts g) \<and>
     (\<forall>(s, f) \<in> set (g_subject_of g). s \<in> set (keys (g_entities g)) \<and> f \<in> set (keys (g_facts g))) \<and>
     (\<forall>(f, t) \<in> set (g_object g). t \<in> set (keys (g_entities g)) \<and> f \<in> set (keys (g_facts g)))"

lemma set_merge_edge [simp]: "set (merge_edge e es) = insert e (set es)"
  by (auto simp: merge_edge_def)

lemma graph_inv_op:
  assumes "graph_inv g"
  shows "graph_inv (apply_op op g)"
proof (cases op)
  case (WriteEntity e)
  then show ?thesis using assms by (auto simp: graph_inv_def create_entity_def keyed_put simp del: set_map)
next
  case (WriteFact f)
  then show ?thesis using assms
    by (auto simp: graph_inv_def create_fact_def Let_def keyed_put simp del: set_map)
next
  case (WriteStatus fid st newer)
  show ?thesis
  proof (cases "map_of (g_facts g) fid")
    case None
    then show ?thesis using assms WriteStatus by (simp add: set_status_def)
  next
    case (Some f)
    then have "kf_id (f\<lparr>kf_status := st\<rparr>) = fid" using assms keyed_map_of by (auto simp: graph_inv_def)
    then show ?thesis using assms WriteStatus Some
      by (auto simp: graph_inv_def set_status_def Let_def keyed_put simp del: set_map split: option.splits)
  qed
next
  case (WriteMention m)
  then show ?thesis using assms by (simp add: graph_inv_def create_mention_def Let_def)
qed

interpretation graphs: invariant_system graph_start graph_step graph_inv
  by unfold_locales (auto simp: graph_start_def empty_graph_def graph_step_def graph_inv_op, simp add: graph_inv_def)

section \<open>Lemmas about edges\<close>

lemma put_put: "put k v (put k v d) = put k v d"
  by (induction d) auto

lemma merge_merge: "merge_edge e (merge_edge e es) = merge_edge e es"
  by (simp add: merge_edge_def)

text \<open>Only writing the fact itself adds its edges.\<close>

lemma subject_edges_op:
  "(s, fid) \<in> set (g_subject_of (apply_op op g)) \<Longrightarrow> (\<And>f. op = WriteFact f \<Longrightarrow> kf_id f \<noteq> fid) \<Longrightarrow>
   (s, fid) \<in> set (g_subject_of g)"
  by (cases op) (auto simp: create_entity_def create_fact_def Let_def set_status_def create_mention_def
      split: option.splits if_splits)

lemma object_edges_op:
  "(fid, t) \<in> set (g_object (apply_op op g)) \<Longrightarrow> (\<And>f. op = WriteFact f \<Longrightarrow> kf_id f \<noteq> fid) \<Longrightarrow>
   (fid, t) \<in> set (g_object g)"
  by (cases op) (auto simp: create_entity_def create_fact_def Let_def set_status_def create_mention_def
      split: option.splits if_splits)

lemma edges_run:
  "\<forall>f. WriteFact f \<in> set ops \<longrightarrow> kf_id f \<noteq> fid \<Longrightarrow>
   ((s, fid) \<in> set (g_subject_of (fold apply_op ops g)) \<longrightarrow> (s, fid) \<in> set (g_subject_of g)) \<and>
   ((fid, t) \<in> set (g_object (fold apply_op ops g)) \<longrightarrow> (fid, t) \<in> set (g_object g))"
proof (induction ops arbitrary: g)
  case (Cons op ops)
  have "(s, fid) \<in> set (g_subject_of (apply_op op g)) \<longrightarrow> (s, fid) \<in> set (g_subject_of g)"
    "(fid, t) \<in> set (g_object (apply_op op g)) \<longrightarrow> (fid, t) \<in> set (g_object g)"
    using subject_edges_op object_edges_op Cons.prems by auto
  then show ?case using Cons.IH [of "apply_op op g"] Cons.prems by auto
qed simp

section \<open>Properties\<close>

text \<open>C18: What \<^verbatim>\<open>find_facts\<close> returns is authorised and valid. Called with a tenant,
  a list of principals and the status \<^verbatim>\<open>verified\<close>, every fact it returns is a stored,
  connected fact of that tenant with that status, names one of the principals or no principal at
  all, and has evidence.\<close>

theorem find_facts_authorised:
  assumes "find_facts subj predicate obj (Some FVerified) (Some ps) (Some t) g = Inr fs" and "f \<in> set fs"
  shows "kf_status f = FVerified \<and> kf_tenant f = t \<and> kf_evidence_ids f \<noteq> [] \<and>
    (\<exists>p \<in> set ps. p \<in> set (kf_principals f) \<or> kf_principals f = []) \<and>
    (\<exists>s o' fid. (s, fid) \<in> set (g_subject_of g) \<and> (fid, o') \<in> set (g_object g) \<and>
       map_of (g_facts g) fid = Some f \<and> (subj = None \<or> subj = Some s) \<and> (obj = None \<or> obj = Some o'))"
  using neo4j.facts_verified [OF assms] fact_rows_match [OF conjunct1 [OF find_facts_rows [OF assms]]]
  by (auto simp: fact_visible_def list_ex_iff)

definition demo_entity :: "uuid \<Rightarrow> canonical_entity" where
  "demo_entity n = \<lparr>ce_id = n, ce_type = ''Service'', ce_name = ''svc'', ce_aliases = [], ce_attributes = []\<rparr>"

definition demo_fact :: knowledge_fact where
  "demo_fact = \<lparr>kf_id = 9, kf_subject = 1, kf_predicate = ''DEPENDS_ON'', kf_object = 2, kf_status = FVerified,
     kf_confidence = 1, kf_evidence_ids = [4], kf_valid_from = None, kf_valid_to = None,
     kf_observed_at = Aware 0, kf_method = Rule, kf_ontology_version = ''v'', kf_tenant = ''t'',
     kf_principals = [''p'']\<rparr>"

definition demo_graph :: graph_db where
  "demo_graph = create_fact demo_fact (create_entity (demo_entity 2) (create_entity (demo_entity 1) empty_graph))"

lemma demo_find: "find_facts (Some 1) None None (Some FVerified) (Some [''p'']) (Some ''t'') demo_graph = Inr [demo_fact]"
proof -
  have "mk_fact demo_fact = Inr demo_fact" by (simp add: mk_fact_iff fact_ok_def demo_fact_def)
  moreover have "fact_rows (Some 1) None None (Some FVerified) (Some [''p'']) (Some ''t'') demo_graph = [demo_fact]"
    by (simp add: fact_rows_def demo_graph_def create_fact_def create_entity_def empty_graph_def demo_entity_def
        merge_edge_def fact_matches_def fact_visible_def demo_fact_def Let_def)
  ultimately show ?thesis by (simp add: find_facts_def)
qed

theorem find_facts_authorised_witness:
  "find_facts (Some 1) None None (Some FVerified) (Some [''p'']) (Some ''t'') demo_graph = Inr [demo_fact] \<and>
   kf_status demo_fact = FVerified \<and> kf_tenant demo_fact = ''t''"
  using demo_find find_facts_authorised [OF demo_find, of demo_fact] by simp

text \<open>Order of events. A fact written while one of its entities is missing gets no complete pair
  of edges, and no later write of anything but the fact itself, the missing entity included, ever
  makes \<^verbatim>\<open>find_facts\<close> return it.\<close>

theorem fact_before_entity_lost:
  assumes "kf_subject f \<notin> set (keys (g_entities g)) \<or> kf_object f \<notin> set (keys (g_entities g))"
    and "\<forall>s t. (s, kf_id f) \<notin> set (g_subject_of g) \<and> (kf_id f, t) \<notin> set (g_object g)"
    and "\<forall>h. WriteFact h \<in> set ops \<longrightarrow> kf_id h \<noteq> kf_id f"
    and "keyed kf_id (g_facts (fold apply_op ops (create_fact f g)))"
    and "find_facts subj predicate obj status allowed tenant (fold apply_op ops (create_fact f g)) = Inr fs"
  shows "kf_id f \<notin> kf_id ` set fs"
proof
  let ?g = "fold apply_op ops (create_fact f g)"
  assume "kf_id f \<in> kf_id ` set fs"
  then obtain h where h: "h \<in> set fs" "kf_id h = kf_id f" by auto
  from fact_rows_match [OF conjunct1 [OF find_facts_rows [OF assms(5) h(1)]]] obtain s t fid where
    e: "(s, fid) \<in> set (g_subject_of ?g)" "(fid, t) \<in> set (g_object ?g)" "map_of (g_facts ?g) fid = Some h" by blast
  have "fid = kf_id f" using keyed_map_of [OF assms(4) e(3)] h(2) by simp
  then have "(s, kf_id f) \<in> set (g_subject_of (create_fact f g))" "(kf_id f, t) \<in> set (g_object (create_fact f g))"
    using e(1,2) edges_run [OF assms(3)] by blast+
  then show False using assms(1,2) by (auto simp: create_fact_def Let_def split: if_splits)
qed

theorem fact_before_entity_lost_witness:
  "find_facts None None None None None None
     (fold apply_op [WriteEntity (demo_entity 2)] (create_fact demo_fact (create_entity (demo_entity 1) empty_graph))) = Inr []"
proof -
  let ?st = "create_entity (demo_entity 1) empty_graph" and ?ops = "[WriteEntity (demo_entity 2)]"
  let ?g = "fold apply_op ?ops (create_fact demo_fact ?st)"
  have r: "find_facts None None None None None None ?g = Inr []"
    by (simp add: find_facts_def fact_rows_def create_fact_def create_entity_def empty_graph_def demo_entity_def
        demo_fact_def merge_edge_def Let_def)
  have "kf_subject demo_fact \<notin> set (keys (g_entities ?st)) \<or> kf_object demo_fact \<notin> set (keys (g_entities ?st))"
    by (simp add: create_entity_def empty_graph_def demo_entity_def demo_fact_def)
  moreover have "\<forall>s t. (s, kf_id demo_fact) \<notin> set (g_subject_of ?st) \<and> (kf_id demo_fact, t) \<notin> set (g_object ?st)"
    by (simp add: create_entity_def empty_graph_def)
  moreover have "\<forall>h. WriteFact h \<in> set ?ops \<longrightarrow> kf_id h \<noteq> kf_id demo_fact" by simp
  moreover have "keyed kf_id (g_facts ?g)"
    by (simp add: create_entity_def create_fact_def empty_graph_def Let_def keyed_def)
  ultimately show ?thesis using fact_before_entity_lost [OF _ _ _ _ r] r by blast
qed

text \<open>Mentions are never found. No statement of the program creates a chunk node, so in every
  reachable graph the write of a mention makes no relationship and \<^verbatim>\<open>find_mentions\<close>
  returns nothing for any chunk.\<close>

theorem mentions_never_found:
  assumes "reach graph_start graph_step g"
  shows "find_mentions cid (create_mention m g) = Inr []"
proof -
  have "graph_inv g" using graphs.reach_inv [OF assms] .
  then have "graph_inv (create_mention m g)" using graph_inv_op [of g "WriteMention m"] by simp
  then show ?thesis by (simp add: find_mentions_def graph_inv_def List.map_filter_def)
qed

theorem mentions_never_found_witness:
  "find_mentions 3 (create_mention \<lparr>em_id = 1, em_chunk_id = 3, em_surface = ''a'', em_candidate_type = ''T'',
     em_locator = None, em_confidence = 1\<rparr> empty_graph) = Inr []"
  by (rule mentions_never_found [OF reach_start]) (simp add: graph_start_def)

text \<open>Writing an entity, a fact or a mention a second time changes nothing, so delivering an
  event more than once is harmless.\<close>

theorem graph_writes_idempotent:
  "create_entity e (create_entity e g) = create_entity e g \<and>
   create_fact f (create_fact f g) = create_fact f g \<and>
   create_mention m (create_mention m g) = create_mention m g"
  by (auto simp: create_entity_def create_fact_def create_mention_def put_put merge_merge Let_def)

text \<open>The unit of work is all or nothing. Whatever is written in the block, without an exception
  and without a call to commit or rollback the store becomes the written graph; with an exception it
  is the graph of before; after a commit further writes raise and the exit keeps what was
  committed.\<close>

theorem graph_uow_atomic:
  "uow_write f (uow_enter g) = (Inr (), (uow_enter g)\<lparr>u_tx := Some (f g)\<rparr>) \<and>
   u_store (uow_exit False (snd (uow_write f (uow_enter g)))) = f g \<and>
   u_store (uow_exit True (snd (uow_write f (uow_enter g)))) = g \<and>
   (let c = snd (uow_commit (snd (uow_write f (uow_enter g)))) in
      \<not> is_ok (fst (uow_write h c)) \<and> snd (uow_write h c) = c \<and> u_store (uow_exit raised c) = f g)"
  by (simp add: uow_write_def uow_enter_def uow_exit_def uow_commit_def Let_def)

text \<open>Isolation. Inside the block a repository reads what it wrote while a repository of its own still reads
  the graph of before; after the block a kept repository can neither read nor write, and one of its own
  reads the new graph and cannot write.\<close>

theorem graph_uow_isolation:
  "let u = snd (uow_write f (uow_enter g)); after = uow_exit False u in
     uow_read h u = h (f g) \<and> uow_read h (detached (u_store u)) = h g \<and>
     \<not> is_ok (uow_read h after) \<and> \<not> is_ok (fst (uow_write f2 after)) \<and>
     uow_read h (detached (u_store after)) = h (f g) \<and> \<not> is_ok (fst (uow_write f2 (detached (u_store after))))"
  by (simp add: uow_write_def uow_enter_def uow_exit_def uow_read_def detached_def Let_def)

end
