(* ===== verification/Knowledge.thy ===== *)
theory Knowledge
  imports GraphStore TextLines Security "HOL-Library.List_Lexorder" "HOL-Library.Char_ord"
begin

text \<open>
  From text to knowledge: the ontology loader (\<^verbatim>\<open>domain/ontology/loader.py\<close>), the
  extractors of entities and facts (\<^verbatim>\<open>application/extraction/\<close>) with their regular
  expressions and the edit distance of the resolver, and the extraction workflow
  (\<^verbatim>\<open>workflows/extraction_graph.py\<close>). The YAML parser, the language model and the
  schema check of its reply are arguments.
\<close>

section \<open>Ontology (loader.py)\<close>

record type_attribute =
  ta_name :: string
  ta_type :: string
  ta_required :: bool

record entity_type =
  et_name :: string
  et_description :: string
  et_attributes :: "type_attribute list"

record predicate_def =
  pr_name :: string
  pr_description :: string
  pr_domain :: "string list"
  pr_range :: "string list"
  pr_symmetric :: bool

record constraint_def =
  cn_description :: string
  cn_expression :: string

record ontology =
  on_version :: string
  on_types :: "entity_type list"
  on_predicates :: "predicate_def list"
  on_constraints :: "constraint_def list"

definition has_attribute :: "string \<Rightarrow> entity_type \<Rightarrow> bool" where
  "has_attribute n t = list_ex (\<lambda>a. ta_name a = n) (et_attributes t)"

definition get_entity_type :: "string \<Rightarrow> ontology \<Rightarrow> entity_type option" where
  "get_entity_type n ont = find (\<lambda>t. et_name t = n) (on_types ont)"

definition get_predicate :: "string \<Rightarrow> ontology \<Rightarrow> predicate_def option" where
  "get_predicate n ont = find (\<lambda>p. pr_name p = n) (on_predicates ont)"

definition is_valid_predicate :: "string \<Rightarrow> ontology \<Rightarrow> bool" where
  "is_valid_predicate n ont \<longleftrightarrow> get_predicate n ont \<noteq> None"

definition is_valid_entity_type :: "string \<Rightarrow> ontology \<Rightarrow> bool" where
  "is_valid_entity_type n ont \<longleftrightarrow> get_entity_type n ont \<noteq> None"

text \<open>Python's operations on the values the YAML parser returns. \<^verbatim>\<open>str\<close> of a value that
  is not a string is the argument \<^verbatim>\<open>repr\<close>.\<close>

fun json_str :: "(json \<Rightarrow> string) \<Rightarrow> json \<Rightarrow> string" where
  "json_str repr (JStr s) = s"
| "json_str repr v = repr v"

fun json_true :: "json \<Rightarrow> bool" where
  "json_true JNull = False"
| "json_true (JBool b) = b"
| "json_true (JInt n) = (n \<noteq> 0)"
| "json_true (JFloat r) = (r \<noteq> 0)"
| "json_true (JStr s) = (s \<noteq> [])"
| "json_true (JList xs) = (xs \<noteq> [])"
| "json_true (JObj es) = (es \<noteq> [])"

fun json_iter :: "json \<Rightarrow> exn + json list" where
  "json_iter (JList xs) = Inr xs"
| "json_iter (JObj es) = Inr (map (\<lambda>e. JStr (fst e)) es)"
| "json_iter (JStr s) = Inr (map (\<lambda>c. JStr [c]) s)"
| "json_iter _ = Inl (TypeError ''object is not iterable'')"

fun json_get :: "string \<Rightarrow> json \<Rightarrow> json \<Rightarrow> exn + json" where
  "json_get k d (JObj es) = Inr (case map_of es k of Some v \<Rightarrow> v | None \<Rightarrow> d)"
| "json_get k d _ = Inl (AttributeError ''object has no attribute get'')"

fun json_index :: "string \<Rightarrow> json \<Rightarrow> exn + json" where
  "json_index k (JObj es) = (case map_of es k of Some v \<Rightarrow> Inr v | None \<Rightarrow> Inl (KeyError k))"
| "json_index k _ = Inl (TypeError ''indices must be integers'')"

text \<open>\<^verbatim>\<open>[f(x) for x in raw.get(k, [])]\<close>.\<close>

definition each :: "string \<Rightarrow> (json \<Rightarrow> exn + 'a) \<Rightarrow> json \<Rightarrow> exn + 'a list" where
  "each k f raw = rbind (json_get k (JList []) raw) (\<lambda>v. rbind (json_iter v) (rmap f))"

definition get_str :: "(json \<Rightarrow> string) \<Rightarrow> string \<Rightarrow> json \<Rightarrow> exn + string" where
  "get_str repr k raw = rbind (json_get k (JStr []) raw) (\<lambda>v. Inr (json_str repr v))"

definition parse_attribute :: "(json \<Rightarrow> string) \<Rightarrow> json \<Rightarrow> exn + type_attribute" where
  "parse_attribute repr a =
     rbind (json_index ''name'' a) (\<lambda>n. rbind (json_index ''type'' a) (\<lambda>t.
     rbind (json_get ''required'' (JBool False) a) (\<lambda>r.
       Inr \<lparr>ta_name = json_str repr n, ta_type = json_str repr t, ta_required = json_true r\<rparr>)))"

definition parse_entity_type :: "(json \<Rightarrow> string) \<Rightarrow> json \<Rightarrow> exn + entity_type" where
  "parse_entity_type repr raw =
     rbind (each ''attributes'' (parse_attribute repr) raw) (\<lambda>attrs.
     rbind (json_index ''name'' raw) (\<lambda>n. rbind (get_str repr ''description'' raw) (\<lambda>d.
       Inr \<lparr>et_name = json_str repr n, et_description = d, et_attributes = attrs\<rparr>)))"

definition parse_predicate :: "(json \<Rightarrow> string) \<Rightarrow> json \<Rightarrow> exn + predicate_def" where
  "parse_predicate repr raw =
     rbind (json_index ''name'' raw) (\<lambda>n. rbind (get_str repr ''description'' raw) (\<lambda>d.
     rbind (each ''domain'' (\<lambda>v. Inr (json_str repr v)) raw) (\<lambda>dom.
     rbind (each ''range'' (\<lambda>v. Inr (json_str repr v)) raw) (\<lambda>ran.
     rbind (json_get ''symmetric'' (JBool False) raw) (\<lambda>s.
       Inr \<lparr>pr_name = json_str repr n, pr_description = d, pr_domain = dom, pr_range = ran,
            pr_symmetric = json_true s\<rparr>)))))"

definition parse_constraint :: "(json \<Rightarrow> string) \<Rightarrow> json \<Rightarrow> exn + constraint_def" where
  "parse_constraint repr raw =
     rbind (get_str repr ''description'' raw) (\<lambda>d. rbind (json_index ''expression'' raw) (\<lambda>e.
       Inr \<lparr>cn_description = d, cn_expression = json_str repr e\<rparr>))"

text \<open>The directory: the file names under \<^verbatim>\<open>versions/\<close>, if it exists, and the parsed
  \<^verbatim>\<open>entity_types.yaml\<close>, if it exists.\<close>

record ontology_dir =
  od_versions :: "string list option"
  od_types :: "json option"

definition latest_version :: "ontology_dir \<Rightarrow> string" where
  "latest_version d =
     (case od_versions d of
        None \<Rightarrow> ''v0.1.0''
      | Some names \<Rightarrow>
          (case sort (filter (\<lambda>n. endswith n ''.yaml'') names) of
             [] \<Rightarrow> ''v0.1.0''
           | fs \<Rightarrow> take (length (last fs) - 5) (last fs)))"

definition load_ontology :: "(json \<Rightarrow> string) \<Rightarrow> string option \<Rightarrow> ontology_dir \<Rightarrow> exn + ontology" where
  "load_ontology repr version d =
     (let v = (case version of Some v \<Rightarrow> v | None \<Rightarrow> latest_version d)
      in case od_types d of
           None \<Rightarrow> Inl (FileNotFound ''Ontology not found'')
         | Some raw \<Rightarrow>
             rbind (json_get ''version'' JNull raw) (\<lambda>w.
               if w \<noteq> JStr v then Inl (ValueError ''Ontology version mismatch'')
               else rbind (each ''entity_types'' (parse_entity_type repr) raw) (\<lambda>ts.
                    rbind (each ''predicates'' (parse_predicate repr) raw) (\<lambda>ps.
                    rbind (each ''constraints'' (parse_constraint repr) raw) (\<lambda>cs.
                      Inr \<lparr>on_version = v, on_types = ts, on_predicates = ps, on_constraints = cs\<rparr>)))))"

text \<open>The cached singleton: a failed load is not cached.\<close>

definition get_ontology :: "(json \<Rightarrow> string) \<Rightarrow> ontology_dir \<Rightarrow> ontology option \<Rightarrow> (exn + ontology) \<times> ontology option" where
  "get_ontology repr d cache =
     (case cache of
        Some ont \<Rightarrow> (Inr ont, cache)
      | None \<Rightarrow> (case load_ontology repr None d of Inl e \<Rightarrow> (Inl e, None) | Inr ont \<Rightarrow> (Inr ont, Some ont)))"

section \<open>Rule-based extractor (deterministic_extractor.py)\<close>

text \<open>
  A pattern gives the length of its match at a position, from the character before and the text
  from there on. A greedy class followed by alternatives backtracks over shorter runs.
\<close>

type_synonym pattern = "char option \<Rightarrow> string \<Rightarrow> nat option"

definition upper :: "char \<Rightarrow> bool" where
  "upper c = (let n = of_char c :: nat in 65 \<le> n \<and> n \<le> 90)"

definition digit :: "char \<Rightarrow> bool" where
  "digit c = (let n = of_char c :: nat in 48 \<le> n \<and> n \<le> 57)"

definition opt_word :: "char option \<Rightarrow> bool" where
  "opt_word c = (case c of Some c \<Rightarrow> word_char c | None \<Rightarrow> False)"

definition char_at :: "nat \<Rightarrow> string \<Rightarrow> char option" where
  "char_at i s = (if i < length s then Some (s ! i) else None)"

text \<open>\<^verbatim>\<open>\b\<close> between the character before and the text, and at position \<^verbatim>\<open>i > 0\<close>.\<close>

definition boundary :: "char option \<Rightarrow> string \<Rightarrow> bool" where
  "boundary prev s \<longleftrightarrow> opt_word prev \<noteq> opt_word (char_at 0 s)"

definition boundary_at :: "nat \<Rightarrow> string \<Rightarrow> bool" where
  "boundary_at i s \<longleftrightarrow> opt_word (char_at (i - 1) s) \<noteq> opt_word (char_at i s)"

text \<open>After \<^verbatim>\<open>lo\<close> characters that are matched, a run of the class (at least
  \<^verbatim>\<open>least\<close> long, the longest first), one of the suffixes and a word boundary.\<close>

definition run_then_suffix :: "nat \<Rightarrow> (char \<Rightarrow> bool) \<Rightarrow> nat \<Rightarrow> string list \<Rightarrow> string \<Rightarrow> nat option" where
  "run_then_suffix lo cls least suffixes s =
     first_some (\<lambda>k. first_some (\<lambda>suf.
         if startswith (drop (lo + k) s) suf \<and> boundary_at (lo + k + length suf) s
         then Some (lo + k + length suf) else None) suffixes)
       (rev [least..<Suc (length (takeWhile cls (drop lo s)))])"

definition system_pattern :: pattern where
  "system_pattern prev s =
     (if boundary prev s \<and> s \<noteq> [] \<and> upper (hd s)
      then run_then_suffix 1 ascii_alnum 1 [''DB'', ''API'', ''SDK'', ''CLI'', ''UI'', ''Service''] s else None)"

definition database_pattern :: pattern where
  "database_pattern prev s =
     (if boundary prev s
      then first_some (\<lambda>w. if startswith s w \<and> boundary_at (length w) s then Some (length w) else None)
        [''PostgreSQL'', ''MySQL'', ''MongoDB'', ''Redis'', ''Neo4j'', ''Pgvector'', ''Elasticsearch'']
      else None)"

definition url_char :: "char \<Rightarrow> bool" where
  "url_char c \<longleftrightarrow> \<not> is_space c \<and> c \<notin> {CHR 0x27, CHR 0x22, CHR ''<'', CHR ''>''}"

definition service_pattern :: pattern where
  "service_pattern prev s =
     (if boundary prev s
      then first_some (\<lambda>w. let n = length (takeWhile url_char (drop (length w) s))
             in if startswith s w \<and> n > 0 then Some (length w + n) else None)
        [''https://'', ''http://'', ''/api/'']
      else None)"

definition config_pattern :: pattern where
  "config_pattern prev s =
     (if boundary prev s \<and> s \<noteq> [] \<and> upper (hd s)
      then run_then_suffix 1 (\<lambda>c. upper c \<or> digit c \<or> c = CHR ''_'') 0
        [''_URL'', ''_HOST'', ''_PORT'', ''_KEY'', ''_SECRET'', ''_TOKEN''] s else None)"

definition repo_pattern :: pattern where
  "repo_pattern prev s =
     (let host = ''https://github.com/'';
          own = takeWhile (\<lambda>c. ascii_alnum c \<or> c \<in> {CHR ''_'', CHR ''-''}) (drop (length host) s);
          rest = drop (length host + length own) s;
          name = takeWhile (\<lambda>c. ascii_alnum c \<or> c \<in> {CHR ''_'', CHR ''.'', CHR ''-''}) (tl rest)
      in if startswith s host \<and> own \<noteq> [] \<and> startswith rest ''/'' \<and> name \<noteq> []
         then Some (length host + length own + 1 + length name) else None)"

definition entity_patterns :: "(string \<times> pattern) list" where
  "entity_patterns = [(''SoftwareSystem'', system_pattern), (''Database'', database_pattern),
     (''Service'', service_pattern), (''Configuration'', config_pattern), (''Repository'', repo_pattern)]"

text \<open>\<^verbatim>\<open>finditer\<close>: the matches from left to right, without overlap.\<close>

function finditer :: "pattern \<Rightarrow> char option \<Rightarrow> string \<Rightarrow> string list" where
  "finditer p prev [] = []"
| "finditer p prev (c # cs) =
     (case p prev (c # cs) of
        Some (Suc n) \<Rightarrow> take (Suc n) (c # cs) # finditer p (Some (last (c # take n cs))) (drop n cs)
      | _ \<Rightarrow> finditer p (Some c) cs)"
  by pat_completeness auto
termination finditer by (relation "measure (\<lambda>(p, prev, s). length s)") auto

definition rule_extract ::
  "ontology \<Rightarrow> (nat \<Rightarrow> uuid) \<Rightarrow> string \<Rightarrow> uuid \<Rightarrow> exn + entity_mention list" where
  "rule_extract ont fresh text chunk =
     (let found = concat (map (\<lambda>(ty, p). map (Pair ty) (filter (\<lambda>m. length m \<ge> 2 \<and> is_valid_entity_type ty ont)
            (finditer p None text))) entity_patterns)
      in rmap (\<lambda>(i, ty, m). mk_mention
           \<lparr>em_id = fresh i, em_chunk_id = chunk, em_surface = m, em_candidate_type = ty, em_locator = Some m,
            em_confidence = 9 / 10\<rparr>) (zip [0..<length found] found))"

section \<open>Entity resolution (entity_resolver.py)\<close>

text \<open>One row of the table of \<^verbatim>\<open>_levenshtein\<close>: \<^verbatim>\<open>cur\<close> is the last entry
  written, \<^verbatim>\<open>prev\<close> the rest of the row above.\<close>

fun lev_row :: "char \<Rightarrow> nat \<Rightarrow> string \<Rightarrow> nat list \<Rightarrow> nat list" where
  "lev_row ca cur (cb # bs) (p # q # prev) =
     (let v = min (min (q + 1) (cur + 1)) (p + (if ca \<noteq> cb then 1 else 0)) in v # lev_row ca v bs (q # prev))"
| "lev_row ca cur bs prev = []"

fun lev_rows :: "nat \<Rightarrow> string \<Rightarrow> string \<Rightarrow> nat list \<Rightarrow> nat list" where
  "lev_rows i [] b prev = prev"
| "lev_rows i (ca # as) b prev = lev_rows (Suc i) as b ((i + 1) # lev_row ca (i + 1) b prev)"

definition lev_table :: "string \<Rightarrow> string \<Rightarrow> nat" where
  "lev_table a b = (if b = [] then length a else last (lev_rows 0 a b [0..<length b + 1]))"

definition levenshtein :: "string \<Rightarrow> string \<Rightarrow> nat" where
  "levenshtein a b = (if length a < length b then lev_table b a else lev_table a b)"

definition string_similarity :: "string \<Rightarrow> string \<Rightarrow> rat" where
  "string_similarity a b =
     (let al = lower a; bl = lower b
      in if al = bl then 1
         else if contains al bl \<or> contains bl al then 9 / 10
         else let n = max (length a) (length b)
              in if n = 0 then 0 else 1 - of_nat (levenshtein al bl) / of_nat n)"

record resolver =
  rv_graph :: bool         \<comment> \<open>a repository is configured\<close>
  rv_fuzzy :: rat
  rv_review :: rat
  rv_read_only :: bool

definition find_candidates :: "resolver \<Rightarrow> string \<Rightarrow> string \<Rightarrow> graph_db \<Rightarrow> (canonical_entity \<times> rat) list" where
  "find_candidates rv surface ty g =
     (if \<not> rv_graph rv then []
      else concat (map (\<lambda>e. filter (\<lambda>c. snd c \<ge> 1 / 2)
             (map (\<lambda>n. (e, string_similarity surface n)) (ce_name e # ce_aliases e)))
           (find_entities None (Some ty) g)))"

text \<open>\<^verbatim>\<open>max(candidates, key=...)\<close>: the first of the largest.\<close>

fun best_candidate :: "'a \<times> rat \<Rightarrow> ('a \<times> rat) list \<Rightarrow> 'a \<times> rat" where
  "best_candidate c [] = c"
| "best_candidate c (d # ds) = best_candidate (if snd d > snd c then d else c) ds"

definition create_new :: "resolver \<Rightarrow> uuid \<Rightarrow> string \<Rightarrow> string \<Rightarrow> graph_db \<Rightarrow> canonical_entity option \<times> graph_db" where
  "create_new rv fresh name ty g =
     (let e = \<lparr>ce_id = fresh, ce_type = ty, ce_name = name, ce_aliases = [name], ce_attributes = []\<rparr>
      in (Some e, if rv_graph rv \<and> \<not> rv_read_only rv then create_entity e g else g))"

definition resolve :: "resolver \<Rightarrow> uuid \<Rightarrow> entity_mention \<Rightarrow> graph_db \<Rightarrow> canonical_entity option \<times> graph_db" where
  "resolve rv fresh m g =
     (let surface = strip (em_surface m)
      in if surface = [] then (None, g)
         else case find_candidates rv surface (em_candidate_type m) g of
             [] \<Rightarrow> create_new rv fresh surface (em_candidate_type m) g
           | c # cs \<Rightarrow> (let (e, score) = best_candidate c cs
               in if score \<ge> rv_fuzzy rv then (Some e, g)
                  else if score \<ge> rv_review rv then (None, g)
                  else create_new rv fresh surface (em_candidate_type m) g))"

section \<open>Model-based extractors (llm_extractor.py, fact_extractor.py)\<close>

text \<open>\<^verbatim>\<open>chat\<close> is the call of the model and \<^verbatim>\<open>parse\<close> the JSON parser with the
  schema; a failure of either gives no results.\<close>

definition llm_prompt :: string where
  "llm_prompt = ''You are an entity extraction assistant. Given the text, extract all named entities '' @
     ''that match the following types: Person, SoftwareSystem, Repository, Service, Database, '' @
     ''Configuration, Document, Concept.'' @ [CHR 0x0A, CHR 0x0A] @
     ''Return a JSON object with an '' @ [CHR 0x27] @ ''entities'' @ [CHR 0x27] @ '' array. Each entity must have:'' @ [CHR 0x0A] @
     ''- surface_form: the exact text of the mention'' @ [CHR 0x0A] @
     ''- entity_type: one of the valid types'' @ [CHR 0x0A] @
     ''- confidence: a number between 0 and 1'' @ [CHR 0x0A, CHR 0x0A] @
     ''Only extract entities you are confident about.''"

record entity_output =
  eo_surface :: string
  eo_type :: string
  eo_confidence :: rat

definition ask :: "(string \<Rightarrow> string \<Rightarrow> exn + string) \<Rightarrow> (string \<Rightarrow> exn + 'a list) \<Rightarrow> string \<Rightarrow> string \<Rightarrow> 'a list" where
  "ask chat parse sys user =
     (case rbind (chat sys user) (\<lambda>raw. parse (if raw = [] then ''{}'' else raw)) of
        Inl _ \<Rightarrow> [] | Inr xs \<Rightarrow> xs)"

definition llm_extract ::
  "(string \<Rightarrow> string \<Rightarrow> exn + string) \<Rightarrow> (string \<Rightarrow> exn + entity_output list) \<Rightarrow> (nat \<Rightarrow> uuid) \<Rightarrow> string \<Rightarrow> uuid \<Rightarrow>
   exn + entity_mention list" where
  "llm_extract chat parse fresh text chunk =
     (if strip text = [] then Inr []
      else let outs = filter (\<lambda>x. eo_confidence x \<ge> 1 / 2) (ask chat parse llm_prompt (take 4000 text))
           in rmap (\<lambda>(i, x). mk_mention
                \<lparr>em_id = fresh i, em_chunk_id = chunk, em_surface = eo_surface x, em_candidate_type = eo_type x,
                 em_locator = None, em_confidence = eo_confidence x\<rparr>) (zip [0..<length outs] outs))"

definition fact_prompt :: string where
  "fact_prompt = ''You are a fact extraction assistant. Given a document and a list of entities, '' @
     ''extract factual relationships (triples: subject-predicate-object).'' @ [CHR 0x0A, CHR 0x0A] @
     ''Valid predicates: depends_on, implements, deploys, documents, owns, configures, '' @
     ''references, supersedes'' @ [CHR 0x0A] @
     ''Return a JSON object with a '' @ [CHR 0x27] @ ''facts'' @ [CHR 0x27] @ '' array. Each fact must have:'' @ [CHR 0x0A] @
     ''- subject: the exact surface form of the subject entity'' @ [CHR 0x0A] @
     ''- predicate: one of the valid predicates'' @ [CHR 0x0A] @
     ''- object: the exact surface form of the object entity'' @ [CHR 0x0A] @
     ''- confidence: a number between 0 and 1''"

definition fact_question :: "string list \<Rightarrow> string list \<Rightarrow> string \<Rightarrow> string" where
  "fact_question entities preds text =
     ''Entities: '' @ join_with '', '' entities @ [CHR 0x0A, CHR 0x0A] @
     ''Valid predicates: '' @ join_with '', '' preds @ [CHR 0x0A, CHR 0x0A] @
     ''Document:'' @ [CHR 0x0A] @ take 4000 text"

record fact_output =
  fo_subject :: string
  fo_predicate :: string
  fo_object :: string
  fo_confidence :: rat

text \<open>What the caller fixes for the facts of one text.\<close>

record fact_context =
  fc_ids :: "(string, uuid) dict"
  fc_evidence :: "uuid list"
  fc_version :: "string option"
  fc_tenant :: "string option"
  fc_principals :: "string list option"

definition usable_fact :: "ontology \<Rightarrow> fact_context \<Rightarrow> fact_output \<Rightarrow> bool" where
  "usable_fact ont cx x \<longleftrightarrow>
     fo_confidence x \<ge> 1 / 2 \<and> fo_predicate x \<in> set (map pr_name (on_predicates ont)) \<and>
     map_of (fc_ids cx) (fo_subject x) \<noteq> None \<and> map_of (fc_ids cx) (fo_object x) \<noteq> None"

definition fact_of_output ::
  "ontology \<Rightarrow> fact_context \<Rightarrow> int \<Rightarrow> (nat \<Rightarrow> uuid) \<Rightarrow> nat \<times> fact_output \<Rightarrow> exn + knowledge_fact" where
  "fact_of_output ont cx now fresh ix =
     (case ix of (i, x) \<Rightarrow> mk_fact
       \<lparr>kf_id = fresh i, kf_subject = the (map_of (fc_ids cx) (fo_subject x)), kf_predicate = fo_predicate x,
        kf_object = the (map_of (fc_ids cx) (fo_object x)), kf_status = FCandidate, kf_confidence = fo_confidence x,
        kf_evidence_ids = fc_evidence cx, kf_valid_from = None, kf_valid_to = None, kf_observed_at = Aware now,
        kf_method = Llm,
        kf_ontology_version = (case fc_version cx of Some v \<Rightarrow> if v = [] then on_version ont else v | None \<Rightarrow> on_version ont),
        kf_tenant = (case fc_tenant cx of Some t \<Rightarrow> t | None \<Rightarrow> []),
        kf_principals = (case fc_principals cx of Some ps \<Rightarrow> ps | None \<Rightarrow> [])\<rparr>)"

definition extract_facts ::
  "(string \<Rightarrow> string \<Rightarrow> exn + string) \<Rightarrow> (string \<Rightarrow> exn + fact_output list) \<Rightarrow> ontology \<Rightarrow> int \<Rightarrow> (nat \<Rightarrow> uuid) \<Rightarrow>
   string \<Rightarrow> string list \<Rightarrow> fact_context \<Rightarrow> exn + knowledge_fact list" where
  "extract_facts chat parse ont now fresh text entities cx =
     (if strip text = [] \<or> entities = [] then Inr []
      else let preds = map pr_name (on_predicates ont);
               outs = filter (usable_fact ont cx) (ask chat parse fact_prompt (fact_question entities preds text))
           in rmap (fact_of_output ont cx now fresh) (zip [0..<length outs] outs))"

section \<open>Edit distance\<close>

text \<open>A script of \<^verbatim>\<open>n\<close> insertions, deletions and substitutions that turns one text
  into the other.\<close>

inductive edits :: "nat \<Rightarrow> string \<Rightarrow> string \<Rightarrow> bool" where
  ed_nil: "edits 0 [] []"
| ed_keep: "edits n xs ys \<Longrightarrow> edits n (x # xs) (x # ys)"
| ed_subst: "edits n xs ys \<Longrightarrow> edits (Suc n) (x # xs) (y # ys)"
| ed_insert: "edits n xs ys \<Longrightarrow> edits (Suc n) xs (y # ys)"
| ed_delete: "edits n xs ys \<Longrightarrow> edits (Suc n) (x # xs) ys"

fun edit_dist :: "string \<Rightarrow> string \<Rightarrow> nat" where
  "edit_dist xs [] = length xs"
| "edit_dist [] ys = length ys"
| "edit_dist (x # xs) (y # ys) =
     min (min (edit_dist xs (y # ys) + 1) (edit_dist (x # xs) ys + 1)) (edit_dist xs ys + (if x \<noteq> y then 1 else 0))"

lemma edit_dist_Nil [simp]: "edit_dist [] ys = length ys"
  by (cases ys) simp_all

lemma edits_delete_all: "edits (length xs) xs []"
  by (induction xs) (auto intro: edits.intros)

lemma edits_insert_all: "edits (length ys) [] ys"
  by (induction ys) (auto intro: edits.intros)

lemma edits_edit_dist: "edits (edit_dist xs ys) xs ys"
proof (induction xs ys rule: edit_dist.induct)
  case (3 x xs y ys)
  show ?case
    using ed_delete [OF 3(1)] ed_insert [OF 3(2)] ed_subst [OF 3(3)] ed_keep [OF 3(3)] by (auto simp: min_def)
next
  case (2 y ys)
  then show ?case using edits_insert_all [of "y # ys"] by simp
qed (simp add: edits_delete_all)

lemma edit_dist_Cons_le:
  "edit_dist (x # xs) ys \<le> Suc (edit_dist xs ys)" "edit_dist xs (y # ys) \<le> Suc (edit_dist xs ys)"
  "edit_dist (x # xs) (y # ys) \<le> edit_dist xs ys + (if x \<noteq> y then 1 else 0)"
  by (cases ys; simp) (cases xs; simp)+

lemma edit_dist_least: "edits n xs ys \<Longrightarrow> edit_dist xs ys \<le> n"
proof (induction rule: edits.induct)
  case (ed_keep n xs ys x)
  then show ?case using edit_dist_Cons_le(3) [of x xs x ys] by (simp del: edit_dist.simps)
next
  case (ed_subst n xs ys x y)
  then show ?case using edit_dist_Cons_le(3) [of x xs y ys] by (simp del: edit_dist.simps split: if_splits)
next
  case (ed_insert n xs ys y)
  then show ?case using edit_dist_Cons_le(2) [of xs y ys] by (simp del: edit_dist.simps)
next
  case (ed_delete n xs ys x)
  then show ?case using edit_dist_Cons_le(1) [of x xs ys] by (simp del: edit_dist.simps)
qed simp

lemma edits_append: "edits n xs ys \<Longrightarrow> edits m us vs \<Longrightarrow> edits (n + m) (xs @ us) (ys @ vs)"
  by (induction rule: edits.induct) (auto intro: edits.intros)

lemma edits_rev: "edits n xs ys \<Longrightarrow> edits n (rev xs) (rev ys)"
proof (induction rule: edits.induct)
  case (ed_keep n xs ys x)
  then show ?case using edits_append [OF _ edits.ed_keep [OF ed_nil], of n "rev xs" "rev ys" x] by simp
next
  case (ed_subst n xs ys x y)
  then show ?case using edits_append [OF _ edits.ed_subst [OF ed_nil], of n "rev xs" "rev ys" x y] by simp
next
  case (ed_insert n xs ys y)
  then show ?case using edits_append [OF _ edits.ed_insert [OF ed_nil], of n "rev xs" "rev ys" y] by simp
next
  case (ed_delete n xs ys x)
  then show ?case using edits_append [OF _ edits.ed_delete [OF ed_nil], of n "rev xs" "rev ys" x] by simp
qed (simp add: ed_nil)

lemma edits_sym: "edits n xs ys \<Longrightarrow> edits n ys xs"
  by (induction rule: edits.induct) (auto intro: edits.intros)

lemma edit_dist_rev [simp]: "edit_dist (rev xs) (rev ys) = edit_dist xs ys"
proof (rule antisym)
  show "edit_dist (rev xs) (rev ys) \<le> edit_dist xs ys" by (intro edit_dist_least edits_rev edits_edit_dist)
  show "edit_dist xs ys \<le> edit_dist (rev xs) (rev ys)"
    using edit_dist_least [OF edits_rev [OF edits_edit_dist [of "rev xs" "rev ys"]]] by simp
qed

lemma edit_dist_sym: "edit_dist xs ys = edit_dist ys xs"
  by (rule antisym) (rule edit_dist_least [OF edits_sym [OF edits_edit_dist]])+

lemma edit_dist_max: "edit_dist xs ys \<le> max (length xs) (length ys)"
proof (induction xs ys rule: edit_dist.induct)
  case (3 x xs y ys)
  have "edit_dist (x # xs) (y # ys) \<le> Suc (edit_dist xs ys)"
    using edit_dist_Cons_le(3) [of x xs y ys] by (simp del: edit_dist.simps split: if_splits)
  then show ?case using 3(3) by (simp del: edit_dist.simps)
qed simp_all

text \<open>The table holds the distances between prefixes.\<close>

definition prefix_row :: "string \<Rightarrow> string \<Rightarrow> string \<Rightarrow> nat list" where
  "prefix_row u w b = map (\<lambda>j. edit_dist (rev u) (rev (w @ take j b))) [0..<Suc (length b)]"

lemma prefix_row_Nil [simp]: "prefix_row u w [] = [edit_dist (rev u) (rev w)]"
  by (simp add: prefix_row_def del: edit_dist_rev)

lemma prefix_row_Cons: "prefix_row u w (c # b) = edit_dist (rev u) (rev w) # prefix_row u (w @ [c]) b"
proof -
  have "[0..<Suc (length (c # b))] = 0 # map Suc [0..<Suc (length b)]"
    by (simp add: upt_conv_Cons map_Suc_upt del: upt_Suc)
  then show ?thesis by (simp add: prefix_row_def comp_def del: upt_Suc edit_dist_rev)
qed

lemma lev_row_prefix:
  "lev_row ca (edit_dist (rev (u @ [ca])) (rev w)) b (prefix_row u w b) = tl (prefix_row (u @ [ca]) w b)"
proof (induction b arbitrary: w)
  case (Cons c b)
  obtain p q where row: "prefix_row u (w @ [c]) b = edit_dist (rev u) (rev (w @ [c])) # q"
    by (cases b) (simp_all add: prefix_row_Cons del: edit_dist_rev)
  have v: "min (min (edit_dist (rev u) (rev (w @ [c])) + 1) (edit_dist (rev (u @ [ca])) (rev w) + 1))
      (edit_dist (rev u) (rev w) + (if ca \<noteq> c then 1 else 0)) = edit_dist (rev (u @ [ca])) (rev (w @ [c]))"
    by (simp del: edit_dist_rev)
  have hd: "prefix_row (u @ [ca]) (w @ [c]) b = edit_dist (rev (u @ [ca])) (rev (w @ [c])) # tl (prefix_row (u @ [ca]) (w @ [c]) b)"
    by (cases b) (simp_all add: prefix_row_Cons del: edit_dist_rev)
  show ?case
    unfolding prefix_row_Cons row lev_row.simps Let_def v list.sel(3)
    unfolding row [symmetric] Cons.IH by (rule hd [symmetric])
qed simp

lemma lev_rows_prefix: "lev_rows (length u) a b (prefix_row u [] b) = prefix_row (u @ a) [] b"
proof (induction a arbitrary: u)
  case (Cons ca a)
  have "edit_dist (rev (u @ [ca])) (rev []) = length u + 1" by simp
  then have "(length u + 1) # lev_row ca (length u + 1) b (prefix_row u [] b) = prefix_row (u @ [ca]) [] b"
    using lev_row_prefix [of ca u "[]" b] by (cases b) (simp_all add: prefix_row_Cons del: edit_dist_rev)
  then show ?case using Cons.IH [of "u @ [ca]"] by simp
qed simp

lemma lev_table_dist: "lev_table a b = edit_dist a b"
proof (cases "b = []")
  case False
  have "prefix_row [] [] b = [0..<length b + 1]"
    unfolding prefix_row_def by (rule map_idI [THEN trans]) (auto simp: min_def simp del: upt_Suc)
  then have "lev_rows 0 a b [0..<length b + 1] = prefix_row a [] b" using lev_rows_prefix [of "[]" a b] by simp
  then show ?thesis using False by (simp add: lev_table_def prefix_row_def)
qed (simp add: lev_table_def)

lemma levenshtein_dist: "levenshtein a b = edit_dist a b"
  using edit_dist_sym [of a b] by (simp add: levenshtein_def lev_table_dist)

text \<open>C28: the distance the resolver computes with a two-row table, after swapping its arguments, is the
  least number of single-character insertions, deletions and substitutions that turn one text into
  the other.\<close>

theorem levenshtein_least: "levenshtein a b = (LEAST n. edits n a b)"
  unfolding levenshtein_dist by (rule Least_equality [symmetric]) (auto intro: edits_edit_dist edit_dist_least)

lemma string_similarity_bounds: "0 \<le> string_similarity a b \<and> string_similarity a b \<le> 1"
proof -
  have d: "levenshtein (lower a) (lower b) \<le> max (length a) (length b)"
    using edit_dist_max [of "lower a" "lower b"] by (simp add: levenshtein_dist)
  define q :: rat where "q = of_nat (levenshtein (lower a) (lower b)) / of_nat (max (length a) (length b))"
  have "0 \<le> q" by (simp add: q_def)
  moreover have "q \<le> 1"
  proof (cases "max (length a) (length b) = 0")
    case False
    then have "0 < (of_nat (max (length a) (length b)) :: rat)" by (simp only: of_nat_0_less_iff)
    then show ?thesis unfolding q_def by (subst divide_le_eq_1_pos) (use d in \<open>simp_all only: of_nat_le_iff\<close>)
  qed (simp add: q_def)
  ultimately show ?thesis unfolding string_similarity_def Let_def q_def [symmetric] by auto
qed

section \<open>What the resolver returns\<close>

lemma best_candidate_mem: "best_candidate c ds \<in> set (c # ds)"
proof (induction ds arbitrary: c)
  case (Cons d ds)
  show ?case using Cons.IH [of c] Cons.IH [of d] by auto
qed simp

lemma best_candidate_max: "x \<in> set (c # ds) \<Longrightarrow> snd x \<le> snd (best_candidate c ds)"
proof (induction ds arbitrary: c x)
  case (Cons d ds)
  let ?b = "if snd d > snd c then d else c"
  have b: "snd ?b \<le> snd (best_candidate ?b ds)" by (rule Cons.IH) simp
  have "snd c \<le> snd ?b" "snd d \<le> snd ?b" by auto
  then show ?case using Cons.prems b Cons.IH [of x ?b] by (auto simp del: if_split)
qed simp

lemma candidate_iff:
  "(e, q) \<in> set (find_candidates rv surface ty g) \<longleftrightarrow>
   rv_graph rv \<and> e \<in> set (find_entities None (Some ty) g) \<and> q \<ge> 1 / 2 \<and>
   (\<exists>n \<in> insert (ce_name e) (set (ce_aliases e)). q = string_similarity surface n)"
  by (auto simp: find_candidates_def)

lemma find_entities_typed: "e \<in> set (find_entities name (Some ty) g) \<Longrightarrow> ce_type e = ty \<and> e \<in> set (vals (g_entities g))"
  by (auto simp: find_entities_def dest: in_set_takeD)

definition names_of :: "canonical_entity \<Rightarrow> string set" where
  "names_of e = insert (ce_name e) (set (ce_aliases e))"

definition fresh_entity :: "uuid \<Rightarrow> string \<Rightarrow> string \<Rightarrow> canonical_entity" where
  "fresh_entity i name ty = \<lparr>ce_id = i, ce_type = ty, ce_name = name, ce_aliases = [name], ce_attributes = []\<rparr>"

definition resolved_existing :: "resolver \<Rightarrow> entity_mention \<Rightarrow> graph_db \<Rightarrow> canonical_entity \<Rightarrow> bool" where
  "resolved_existing rv m g e \<longleftrightarrow>
     e \<in> set (vals (g_entities g)) \<and> ce_type e = em_candidate_type m \<and>
     (\<exists>n \<in> names_of e. string_similarity (strip (em_surface m)) n \<ge> rv_fuzzy rv)"

definition nothing_similar :: "resolver \<Rightarrow> entity_mention \<Rightarrow> graph_db \<Rightarrow> bool" where
  "nothing_similar rv m g \<longleftrightarrow>
     (rv_graph rv \<longrightarrow> (\<forall>e \<in> set (find_entities None (Some (em_candidate_type m)) g). \<forall>n \<in> names_of e.
        string_similarity (strip (em_surface m)) n < max (1 / 2) (rv_review rv)))"

lemma candidate_scores:
  assumes "rv_graph rv" "e \<in> set (find_entities None (Some ty) g)" "n \<in> names_of e"
  shows "string_similarity s n < 1 / 2 \<or> (e, string_similarity s n) \<in> set (find_candidates rv s ty g)"
  using assms by (fastforce simp: candidate_iff names_of_def)

lemma resolve_cases:
  assumes "resolve rv fresh m g = (r, g')"
  shows "(r = None \<and> g' = g) \<or> (\<exists>e. r = Some e \<and> g' = g \<and> resolved_existing rv m g e) \<or>
    (r = Some (fresh_entity fresh (strip (em_surface m)) (em_candidate_type m)) \<and> nothing_similar rv m g \<and>
     g' = (if rv_graph rv \<and> \<not> rv_read_only rv
           then create_entity (fresh_entity fresh (strip (em_surface m)) (em_candidate_type m)) g else g))"
proof (cases "strip (em_surface m) = []")
  case True
  then show ?thesis using assms by (simp add: resolve_def)
next
  case False
  let ?s = "strip (em_surface m)" and ?ty = "em_candidate_type m"
  let ?new = "create_new rv fresh ?s ?ty g"
  have new: "?new = (Some (fresh_entity fresh ?s ?ty), if rv_graph rv \<and> \<not> rv_read_only rv then create_entity (fresh_entity fresh ?s ?ty) g else g)"
    by (simp add: create_new_def fresh_entity_def Let_def)
  note r = assms [unfolded resolve_def Let_def if_not_P [OF False]]
  show ?thesis
  proof (cases "find_candidates rv ?s ?ty g")
    case Nil
    have "nothing_similar rv m g" unfolding nothing_similar_def
    proof (intro impI ballI)
      fix e n assume a: "rv_graph rv" "e \<in> set (find_entities None (Some ?ty) g)" "n \<in> names_of e"
      show "string_similarity ?s n < max (1 / 2) (rv_review rv)"
        using candidate_scores [OF a, of ?s] Nil by (simp add: max_def)
    qed
    then show ?thesis using r Nil new by simp
  next
    case (Cons c cs)
    obtain e q where b: "best_candidate c cs = (e, q)" by fastforce
    have eq: "(e, q) \<in> set (find_candidates rv ?s ?ty g)" using best_candidate_mem [of c cs] Cons b by simp
    from r Cons b have r': "(if q \<ge> rv_fuzzy rv then (Some e, g) else if q \<ge> rv_review rv then (None, g) else ?new) = (r, g')" by simp
    consider (f) "q \<ge> rv_fuzzy rv" | (v) "\<not> q \<ge> rv_fuzzy rv" "q \<ge> rv_review rv" | (n) "\<not> q \<ge> rv_fuzzy rv" "\<not> q \<ge> rv_review rv" by blast
    then show ?thesis
    proof cases
      case f
      have "resolved_existing rv m g e"
        using eq f find_entities_typed by (auto simp: candidate_iff resolved_existing_def names_of_def)
      moreover have "r = Some e" "g' = g" using r' f by auto
      ultimately show ?thesis by blast
    next
      case v
      then show ?thesis using r' by simp
    next
      case n
      have "nothing_similar rv m g" unfolding nothing_similar_def
      proof (intro impI ballI)
        fix e' n' assume a: "rv_graph rv" "e' \<in> set (find_entities None (Some ?ty) g)" "n' \<in> names_of e'"
        have "string_similarity ?s n' < 1 / 2 \<or> string_similarity ?s n' \<le> q"
          using candidate_scores [OF a, of ?s] best_candidate_max [of _ c cs] Cons b by fastforce
        then show "string_similarity ?s n' < max (1 / 2) (rv_review rv)" using n by (auto simp: max_def)
      qed
      then show ?thesis using r' n new by simp
    qed
  qed
qed

text \<open>Resolving a mention gives one of three results. Nothing, and the graph is unchanged; a stored
  entity of the mention's type with a name or alias at least as similar as the fuzzy threshold, and
  the graph is unchanged; or a new entity of that name and type, when no stored name is similar
  enough even for review, and the graph gets it unless the resolver only reads.\<close>

theorem resolve_spec:
  assumes "resolve rv fresh m g = (r, g')"
  shows "(r = None \<and> g' = g) \<or> (\<exists>e. r = Some e \<and> g' = g \<and> resolved_existing rv m g e) \<or>
    (r = Some (fresh_entity fresh (strip (em_surface m)) (em_candidate_type m)) \<and> nothing_similar rv m g \<and>
     g' = (if rv_graph rv \<and> \<not> rv_read_only rv
           then create_entity (fresh_entity fresh (strip (em_surface m)) (em_candidate_type m)) g else g))"
  using assms by (rule resolve_cases)

definition demo_mention :: "string \<Rightarrow> entity_mention" where
  "demo_mention s = \<lparr>em_id = 90, em_chunk_id = 91, em_surface = s, em_candidate_type = ''Database'', em_locator = None,
     em_confidence = 1\<rparr>"

definition demo_resolver :: resolver where
  "demo_resolver = \<lparr>rv_graph = True, rv_fuzzy = 85 / 100, rv_review = 7 / 10, rv_read_only = False\<rparr>"

definition redis_graph :: graph_db where
  "redis_graph = create_entity \<lparr>ce_id = 7, ce_type = ''Database'', ce_name = ''Redis'', ce_aliases = [], ce_attributes = []\<rparr> empty_graph"

theorem resolve_spec_witness:
  "(\<exists>e. resolve demo_resolver 8 (demo_mention ''redis'') redis_graph = (Some e, redis_graph) \<and> ce_id e = 7) \<and>
   resolve demo_resolver 8 (demo_mention ''Redos'') redis_graph = (None, redis_graph) \<and>
   (\<exists>r g'. resolve demo_resolver 8 (demo_mention ''Mysql'') redis_graph = (r, g') \<and>
     ((r = None \<and> g' = redis_graph) \<or> (\<exists>e. r = Some e \<and> g' = redis_graph \<and> resolved_existing demo_resolver (demo_mention ''Mysql'') redis_graph e) \<or>
      (r = Some (fresh_entity 8 ''Mysql'' ''Database'') \<and> nothing_similar demo_resolver (demo_mention ''Mysql'') redis_graph \<and>
       g' = create_entity (fresh_entity 8 ''Mysql'' ''Database'') redis_graph)))"
proof (intro conjI)
  have "(case resolve demo_resolver 8 (demo_mention ''redis'') redis_graph of
      (Some e, g) \<Rightarrow> ce_id e = 7 \<and> g = redis_graph | (None, _) \<Rightarrow> False)" by code_simp
  then show "\<exists>e. resolve demo_resolver 8 (demo_mention ''redis'') redis_graph = (Some e, redis_graph) \<and> ce_id e = 7"
    by (auto split: prod.splits option.splits)
  show "resolve demo_resolver 8 (demo_mention ''Redos'') redis_graph = (None, redis_graph)" by code_simp
  let ?m = "demo_mention ''Mysql''"
  have s: "strip (em_surface ?m) = ''Mysql''" "em_candidate_type ?m = ''Database''" by code_simp+
  have n: "rv_graph demo_resolver \<and> \<not> rv_read_only demo_resolver" by code_simp
  obtain r g' where r: "resolve demo_resolver 8 ?m redis_graph = (r, g')" by fastforce
  show "\<exists>r g'. resolve demo_resolver 8 ?m redis_graph = (r, g') \<and>
     ((r = None \<and> g' = redis_graph) \<or> (\<exists>e. r = Some e \<and> g' = redis_graph \<and> resolved_existing demo_resolver ?m redis_graph e) \<or>
      (r = Some (fresh_entity 8 ''Mysql'' ''Database'') \<and> nothing_similar demo_resolver ?m redis_graph \<and>
       g' = create_entity (fresh_entity 8 ''Mysql'' ''Database'') redis_graph))"
    using resolve_spec [OF r] unfolding s if_P [OF n] using r by blast
qed

lemma read_only_resolver: "rv_read_only rv \<Longrightarrow> snd (resolve rv fresh m g) = g"
  using resolve_cases [of rv fresh m g "fst (resolve rv fresh m g)" "snd (resolve rv fresh m g)"] by auto

section \<open>What the extractors return\<close>

lemma zip_index_mem: "(i, x) \<in> set (zip [0..<length xs] xs) \<Longrightarrow> x \<in> set xs"
  by (rule set_zip_rightD)

text \<open>C40: every fact the model-based extractor returns is well typed: it satisfies the contract of a
  fact, its predicate is one of the ontology, its ends are known entities, it is a candidate with
  the text's evidence, and its tenant and principals are the caller's.\<close>

theorem extracted_facts_typed:
  assumes "extract_facts chat parse ont now fresh text entities cx = Inr fs" and "f \<in> set fs"
  shows "fact_ok f \<and> is_valid_predicate (kf_predicate f) ont \<and>
    kf_subject f \<in> ran (map_of (fc_ids cx)) \<and> kf_object f \<in> ran (map_of (fc_ids cx)) \<and>
    kf_status f = FCandidate \<and> kf_evidence_ids f = fc_evidence cx \<and>
    (case fc_tenant cx of Some t \<Rightarrow> kf_tenant f = t | None \<Rightarrow> kf_tenant f = []) \<and>
    (case fc_principals cx of Some ps \<Rightarrow> kf_principals f = ps | None \<Rightarrow> kf_principals f = [])"
proof -
  have ne: "\<not> (strip text = [] \<or> entities = [])" using assms by (auto simp: extract_facts_def)
  note x = assms(1) [unfolded extract_facts_def if_not_P [OF ne] Let_def]
  from rmap_Inr_mem [OF x assms(2)] obtain i y where
    y: "usable_fact ont cx y" and f: "fact_of_output ont cx now fresh (i, y) = Inr f"
    by (auto dest!: zip_index_mem)
  have v: "is_valid_predicate (fo_predicate y) ont"
    using y by (auto simp: usable_fact_def is_valid_predicate_def get_predicate_def find_None_iff)
  have ids: "the (map_of (fc_ids cx) (fo_subject y)) \<in> ran (map_of (fc_ids cx))"
    "the (map_of (fc_ids cx) (fo_object y)) \<in> ran (map_of (fc_ids cx))"
    using y by (auto simp: usable_fact_def ran_def)
  from f v ids show ?thesis
    by (auto simp: fact_of_output_def mk_fact_iff split: option.splits)
qed

definition demo_ontology :: ontology where
  "demo_ontology = \<lparr>on_version = ''v1'', on_types = [], on_predicates =
     [\<lparr>pr_name = ''owns'', pr_description = [], pr_domain = [], pr_range = [], pr_symmetric = False\<rparr>], on_constraints = []\<rparr>"

definition demo_context :: fact_context where
  "demo_context = \<lparr>fc_ids = [(''A'', 1), (''B'', 2)], fc_evidence = [5], fc_version = None, fc_tenant = Some ''t'',
     fc_principals = Some [''p'']\<rparr>"

definition demo_reply :: "string \<Rightarrow> exn + fact_output list" where
  "demo_reply s = Inr [\<lparr>fo_subject = ''A'', fo_predicate = ''owns'', fo_object = ''B'', fo_confidence = 9 / 10\<rparr>,
     \<lparr>fo_subject = ''A'', fo_predicate = ''eats'', fo_object = ''B'', fo_confidence = 9 / 10\<rparr>]"

theorem extracted_facts_typed_witness:
  "\<exists>f. extract_facts (\<lambda>_ _. Inr ''x'') demo_reply demo_ontology 0 id ''text'' [''A'', ''B''] demo_context = Inr [f] \<and>
     fact_ok f \<and> is_valid_predicate (kf_predicate f) demo_ontology \<and> kf_tenant f = ''t'' \<and> kf_principals f = [''p'']"
proof -
  let ?x = "extract_facts (\<lambda>_ _. Inr ''x'') demo_reply demo_ontology 0 id ''text'' [''A'', ''B''] demo_context"
  have "(case ?x of Inr fs \<Rightarrow> length fs = 1 | Inl _ \<Rightarrow> False)" by code_simp
  then obtain f where f: "?x = Inr [f]" by (auto split: sum.splits simp: length_Suc_conv)
  have t: "fc_tenant demo_context = Some ''t''" "fc_principals demo_context = Some [''p'']" by (simp_all add: demo_context_def)
  from extracted_facts_typed [OF f, of f] f t show ?thesis by simp
qed

text \<open>The failures of the model and of the schema give no mentions, but a confidence above one passes
  the filter and raises from the contract of a mention.\<close>

lemma rmap_Inl_iff: "(\<exists>e. rmap f xs = Inl e) \<longleftrightarrow> (\<exists>x \<in> set xs. \<exists>e. f x = Inl e)"
proof (induction xs)
  case (Cons x xs)
  then show ?case by (cases "f x"; cases "rmap f xs") auto
qed simp

text \<open>The model-based entity extractor raises exactly when the text is not blank and the model
  reports a confidence above one, although every other fault of the reply gives an empty result.\<close>

theorem llm_extract_raises_iff:
  "(\<exists>e. llm_extract chat parse fresh text chunk = Inl e) \<longleftrightarrow>
   strip text \<noteq> [] \<and> list_ex (\<lambda>x. eo_confidence x > 1) (ask chat parse llm_prompt (take 4000 text))"
proof (cases "strip text = []")
  case False
  have z: "(\<exists>x \<in> set (zip [0..<length ys] ys). P (snd x)) \<longleftrightarrow> (\<exists>y \<in> set ys. P y)" for P :: "entity_output \<Rightarrow> bool" and ys
  proof -
    have e: "snd ` set (zip [0..<length ys] ys) = set ys" by (simp flip: set_map)
    show ?thesis unfolding e [symmetric] by blast
  qed
  let ?P = "\<lambda>x. eo_confidence x > 1"
  have m: "(\<exists>e. (case ix of (i, x) \<Rightarrow> mk_mention
      \<lparr>em_id = fresh i, em_chunk_id = chunk, em_surface = eo_surface x, em_candidate_type = eo_type x,
       em_locator = None, em_confidence = eo_confidence x\<rparr>) = Inl e) \<longleftrightarrow> eo_confidence (snd ix) < 0 \<or> ?P (snd ix)" for ix
    by (cases ix) (auto simp: mk_mention_def)
  show ?thesis
    unfolding llm_extract_def if_not_P [OF False] Let_def rmap_Inl_iff m z [of _ "\<lambda>x. eo_confidence x < 0 \<or> 1 < eo_confidence x"]
    using False by (fastforce simp: list_ex_iff)
qed (simp add: llm_extract_def)

text \<open>Versions are compared as texts, so \<^verbatim>\<open>v0.9.0\<close> is later than \<^verbatim>\<open>v0.10.0\<close>; and an
  endpoint path is found only when a word character precedes it.\<close>

lemma latest_version_lexicographic:
  "latest_version \<lparr>od_versions = Some [''v0.9.0.yaml'', ''v0.10.0.yaml''], od_types = None\<rparr> = ''v0.9.0''"
  by code_simp

lemma api_path_needs_word: "\<not> opt_word prev \<Longrightarrow> service_pattern prev (''/api/'' @ s) = None"
  by (simp add: service_pattern_def boundary_def char_at_def opt_word_def word_char_def)

end
