(* ===== verification/Projection.thy ===== *)
theory Projection
  imports Knowledge Outbox
begin

text \<open>
  Knowledge from a chunk to the graph: the extraction workflow
  (\<^verbatim>\<open>workflows/extraction_graph.py\<close>), the emitter that writes its results to the outbox
  (\<^verbatim>\<open>outbox_emitter.py\<close>) and the projector and worker that read them back into the graph
  (\<^verbatim>\<open>outbox_graph_projector.py\<close>). The abstract specification of the whole pipeline is a
  list of graph operations; the worker refines it. The conversions of pydantic and the printing of
  dates are arguments.
\<close>

section \<open>Extraction workflow (extraction_graph.py)\<close>

record extraction_state =
  xs_chunk :: "uuid option"
  xs_content :: string
  xs_tenant :: string
  xs_principals :: "string list"
  xs_entities :: "entity_mention list"
  xs_resolved :: "canonical_entity list"
  xs_ambiguous :: "entity_mention list"
  xs_facts :: "knowledge_fact list"

definition extract_node ::
  "(string \<Rightarrow> uuid option \<Rightarrow> exn + entity_mention list) \<Rightarrow> extraction_state \<Rightarrow> exn + extraction_state" where
  "extract_node extract st =
     rbind (extract (xs_content st) (xs_chunk st)) (\<lambda>ms. Inr (st\<lparr>xs_entities := ms\<rparr>))"

text \<open>The resolver's repository is bound to an open unit of work, so its writes succeed.\<close>

fun resolve_all ::
  "resolver \<Rightarrow> (nat \<Rightarrow> uuid) \<Rightarrow> nat \<Rightarrow> entity_mention list \<Rightarrow> graph_db \<Rightarrow>
   canonical_entity list \<times> entity_mention list \<times> graph_db" where
  "resolve_all rv fresh i [] g = ([], [], g)"
| "resolve_all rv fresh i (m # ms) g =
     (let (r, g1) = resolve rv (fresh i) m g; (es, as, g2) = resolve_all rv fresh (Suc i) ms g1
      in case r of None \<Rightarrow> (es, m # as, g2) | Some e \<Rightarrow> (e # es, as, g2))"

definition resolve_node ::
  "resolver \<Rightarrow> (nat \<Rightarrow> uuid) \<Rightarrow> extraction_state \<Rightarrow> graph_db \<Rightarrow> extraction_state \<times> graph_db" where
  "resolve_node rv fresh st g =
     (let (es, as, g') = resolve_all rv fresh 0 (xs_entities st) g in (st\<lparr>xs_resolved := es, xs_ambiguous := as\<rparr>, g'))"

definition fact_node ::
  "(string \<Rightarrow> string list \<Rightarrow> fact_context \<Rightarrow> exn + knowledge_fact list) \<Rightarrow> extraction_state \<Rightarrow> exn + extraction_state" where
  "fact_node extract st =
     (let ids = dict_of (map (\<lambda>e. (ce_name e, ce_id e)) (xs_resolved st))
      in rbind (extract (xs_content st) (keys ids)
           \<lparr>fc_ids = ids, fc_evidence = (case xs_chunk st of Some c \<Rightarrow> [c] | None \<Rightarrow> []), fc_version = None,
            fc_tenant = Some (xs_tenant st), fc_principals = Some (xs_principals st)\<rparr>)
         (\<lambda>fs. Inr (st\<lparr>xs_facts := fs\<rparr>)))"

section \<open>Emitter (outbox_emitter.py)\<close>

text \<open>A fresh row: the columns the emitter leaves out take the table's defaults.\<close>

definition emitted_row :: "uuid \<Rightarrow> int \<Rightarrow> string \<Rightarrow> uuid \<Rightarrow> event_type \<Rightarrow> (string \<times> json) list \<Rightarrow> outbox_row" where
  "emitted_row fresh now agg aid ty payload =
     \<lparr>ob_id = fresh, ob_aggregate_type = agg, ob_aggregate_id = aid, ob_type = ty, ob_payload = payload,
      ob_status = ''pending'', ob_attempts = 0, ob_last_error = None, ob_available_at = now, ob_created_at = now,
      ob_claimed_by = None, ob_claim_token = None, ob_claimed_at = None, ob_lease = None, ob_completed_at = None\<rparr>"

definition jopt :: "string option \<Rightarrow> json" where
  "jopt x = (case x of Some s \<Rightarrow> JStr s | None \<Rightarrow> JNull)"

definition mention_payload :: "entity_mention \<Rightarrow> (string \<times> json) list" where
  "mention_payload m =
     [(''mention_id'', JStr (show_nat (em_id m))), (''chunk_id'', JStr (show_nat (em_chunk_id m))),
      (''surface_form'', JStr (em_surface m)), (''candidate_type'', JStr (em_candidate_type m)),
      (''locator'', jopt (em_locator m)), (''extraction_confidence'', JFloat (em_confidence m))]"

definition entity_payload :: "canonical_entity \<Rightarrow> (string \<times> json) list" where
  "entity_payload e =
     [(''entity_id'', JStr (show_nat (ce_id e))), (''entity_type'', JStr (ce_type e)),
      (''canonical_name'', JStr (ce_name e)), (''aliases'', JList (map JStr (ce_aliases e))),
      (''attributes'', JObj (ce_attributes e))]"

fun fact_status_value :: "fact_status \<Rightarrow> string" where
  "fact_status_value FCandidate = ''candidate''"
| "fact_status_value FVerified = ''verified''"
| "fact_status_value FRejected = ''rejected''"
| "fact_status_value FSuperseded = ''superseded''"

fun method_value :: "extraction_method \<Rightarrow> string" where
  "method_value Structured = ''structured''"
| "method_value Rule = ''rule''"
| "method_value Llm = ''llm''"
| "method_value Human = ''human''"

definition fact_payload :: "(datetime \<Rightarrow> string) \<Rightarrow> knowledge_fact \<Rightarrow> (string \<times> json) list" where
  "fact_payload isof f =
     [(''fact_id'', JStr (show_nat (kf_id f))), (''subject_id'', JStr (show_nat (kf_subject f))),
      (''predicate'', JStr (kf_predicate f)), (''object_id'', JStr (show_nat (kf_object f))),
      (''status'', JStr (fact_status_value (kf_status f))), (''confidence'', JFloat (kf_confidence f)),
      (''evidence_ids'', JList (map (\<lambda>i. JStr (show_nat i)) (kf_evidence_ids f))),
      (''valid_from'', jopt (map_option isof (kf_valid_from f))), (''valid_to'', jopt (map_option isof (kf_valid_to f))),
      (''observed_at'', JStr (isof (kf_observed_at f))), (''extraction_method'', JStr (method_value (kf_method f))),
      (''ontology_version'', JStr (kf_ontology_version f)), (''tenant_id'', JStr (kf_tenant f)),
      (''allowed_principals'', JList (map JStr (kf_principals f)))]"

text \<open>The three \<^verbatim>\<open>emit\<close> methods, by the graph operation that the event stands for.\<close>

definition emit_mention :: "uuid \<Rightarrow> int \<Rightarrow> entity_mention \<Rightarrow> outbox_row" where
  "emit_mention fresh now m = emitted_row fresh now ''mention'' (em_id m) EntityMentioned (mention_payload m)"

definition emit_entity :: "uuid \<Rightarrow> int \<Rightarrow> canonical_entity \<Rightarrow> outbox_row" where
  "emit_entity fresh now e = emitted_row fresh now ''entity'' (ce_id e) EntityResolved (entity_payload e)"

definition emit_fact :: "(datetime \<Rightarrow> string) \<Rightarrow> uuid \<Rightarrow> int \<Rightarrow> knowledge_fact \<Rightarrow> outbox_row" where
  "emit_fact isof fresh now f = emitted_row fresh now ''fact'' (kf_id f) FactCandidate (fact_payload isof f)"

definition emit_rows :: "(datetime \<Rightarrow> string) \<Rightarrow> (nat \<Rightarrow> uuid) \<Rightarrow> int \<Rightarrow> extraction_state \<Rightarrow> outbox_row list" where
  "emit_rows isof fresh now st =
     (let makers = map (\<lambda>m i. emit_mention i now m) (xs_entities st) @ map (\<lambda>e i. emit_entity i now e) (xs_resolved st) @
            map (\<lambda>f i. emit_fact isof i now f) (xs_facts st)
      in map (\<lambda>(i, mk). mk (fresh i)) (zip [0..<length makers] makers))"

text \<open>\<^verbatim>\<open>session.add\<close>, once per event.\<close>

definition emit_node :: "(datetime \<Rightarrow> string) \<Rightarrow> (nat \<Rightarrow> uuid) \<Rightarrow> int \<Rightarrow> extraction_state \<Rightarrow> outbox \<Rightarrow> outbox" where
  "emit_node isof fresh now st t = foldl (\<lambda>t r. put (ob_id r) r t) t (emit_rows isof fresh now st)"

text \<open>The compiled graph: a straight line of the four nodes.\<close>

definition run_extraction ::
  "(string \<Rightarrow> uuid option \<Rightarrow> exn + entity_mention list) \<Rightarrow> resolver \<Rightarrow>
   (string \<Rightarrow> string list \<Rightarrow> fact_context \<Rightarrow> exn + knowledge_fact list) \<Rightarrow> (datetime \<Rightarrow> string) \<Rightarrow>
   (nat \<Rightarrow> uuid) \<Rightarrow> (nat \<Rightarrow> uuid) \<Rightarrow> int \<Rightarrow> extraction_state \<Rightarrow> graph_db \<times> outbox \<Rightarrow>
   (exn + extraction_state) \<times> graph_db \<times> outbox" where
  "run_extraction extract rv facts isof ids events now st0 s =
     (case extract_node extract st0 of
        Inl e \<Rightarrow> (Inl e, s)
      | Inr st1 \<Rightarrow>
         (let (st2, g) = resolve_node rv ids st1 (fst s)
          in case fact_node facts st2 of
               Inl e \<Rightarrow> (Inl e, g, snd s)
             | Inr st3 \<Rightarrow> (Inr st3, g, emit_node isof events now st3 (snd s))))"

section \<open>Projector (outbox_graph_projector.py)\<close>

text \<open>The conversions of the contracts' field types, and \<^verbatim>\<open>datetime.fromisoformat\<close>.\<close>

record conversions =
  py_uuid :: "json \<Rightarrow> exn + uuid"
  py_float :: "json \<Rightarrow> exn + rat"
  py_text :: "json \<Rightarrow> exn + string"
  py_list :: "json \<Rightarrow> exn + json list"
  py_object :: "json \<Rightarrow> exn + (string \<times> json) list"
  py_time :: "json \<Rightarrow> exn + datetime"
  py_iso :: "string \<Rightarrow> exn + datetime"

type_synonym payload = "(string \<times> json) list"

definition need :: "string \<Rightarrow> payload \<Rightarrow> exn + json" where
  "need k p = (case map_of p k of Some v \<Rightarrow> Inr v | None \<Rightarrow> Inl (KeyError k))"

definition get_or :: "string \<Rightarrow> json \<Rightarrow> payload \<Rightarrow> json" where
  "get_or k d p = (case map_of p k of Some v \<Rightarrow> v | None \<Rightarrow> d)"

definition py_texts :: "conversions \<Rightarrow> json \<Rightarrow> exn + string list" where
  "py_texts co v = rbind (py_list co v) (rmap (py_text co))"

definition py_opt :: "(json \<Rightarrow> exn + 'a) \<Rightarrow> json \<Rightarrow> exn + 'a option" where
  "py_opt f v = (if v = JNull then Inr None else rbind (f v) (\<lambda>x. Inr (Some x)))"

definition mention_of :: "conversions \<Rightarrow> payload \<Rightarrow> exn + entity_mention" where
  "mention_of co p =
     rbind (need ''mention_id'' p) (\<lambda>a. rbind (need ''chunk_id'' p) (\<lambda>b.
     rbind (need ''surface_form'' p) (\<lambda>c. rbind (need ''candidate_type'' p) (\<lambda>d.
     rbind (py_uuid co a) (\<lambda>i. rbind (py_uuid co b) (\<lambda>ch. rbind (py_text co c) (\<lambda>s. rbind (py_text co d) (\<lambda>ty.
     rbind (py_opt (py_text co) (get_or ''locator'' JNull p)) (\<lambda>loc.
     rbind (py_float co (get_or ''extraction_confidence'' (JFloat (1 / 2)) p)) (\<lambda>q.
       mk_mention \<lparr>em_id = i, em_chunk_id = ch, em_surface = s, em_candidate_type = ty, em_locator = loc,
                   em_confidence = q\<rparr>))))))))))"

definition entity_of :: "conversions \<Rightarrow> payload \<Rightarrow> exn + canonical_entity" where
  "entity_of co p =
     rbind (need ''entity_id'' p) (\<lambda>a. rbind (need ''entity_type'' p) (\<lambda>b. rbind (need ''canonical_name'' p) (\<lambda>c.
     rbind (py_uuid co a) (\<lambda>i. rbind (py_text co b) (\<lambda>ty. rbind (py_text co c) (\<lambda>n.
     rbind (py_texts co (get_or ''aliases'' (JList []) p)) (\<lambda>as.
     rbind (py_object co (get_or ''attributes'' (JObj []) p)) (\<lambda>at'.
       Inr \<lparr>ce_id = i, ce_type = ty, ce_name = n, ce_aliases = as, ce_attributes = at'\<rparr>))))))))"

definition fact_status_of :: "json \<Rightarrow> exn + fact_status" where
  "fact_status_of v =
     (if v = JStr ''candidate'' then Inr FCandidate else if v = JStr ''verified'' then Inr FVerified
      else if v = JStr ''rejected'' then Inr FRejected else if v = JStr ''superseded'' then Inr FSuperseded
      else Inl (ValueError ''status''))"

definition method_of :: "json \<Rightarrow> exn + extraction_method" where
  "method_of v =
     (if v = JStr ''structured'' then Inr Structured else if v = JStr ''rule'' then Inr Rule
      else if v = JStr ''llm'' then Inr Llm else if v = JStr ''human'' then Inr Human
      else Inl (ValueError ''extraction_method''))"

text \<open>A text bound of the validity interval is parsed before the contract sees it.\<close>

definition bound_of :: "conversions \<Rightarrow> json \<Rightarrow> exn + datetime option" where
  "bound_of co v = (case v of JStr s \<Rightarrow> rbind (py_iso co s) (\<lambda>d. Inr (Some d)) | _ \<Rightarrow> py_opt (py_time co) v)"

definition fact_of :: "conversions \<Rightarrow> int \<Rightarrow> payload \<Rightarrow> exn + knowledge_fact" where
  "fact_of co now p =
     rbind (bound_of co (get_or ''valid_from'' JNull p)) (\<lambda>vf. rbind (bound_of co (get_or ''valid_to'' JNull p)) (\<lambda>vt.
     rbind (need ''fact_id'' p) (\<lambda>a. rbind (need ''subject_id'' p) (\<lambda>b. rbind (need ''predicate'' p) (\<lambda>c.
     rbind (need ''object_id'' p) (\<lambda>d. rbind (need ''tenant_id'' p) (\<lambda>e.
     rbind (py_uuid co a) (\<lambda>i. rbind (py_uuid co b) (\<lambda>s. rbind (py_text co c) (\<lambda>pr. rbind (py_uuid co d) (\<lambda>ob.
     rbind (fact_status_of (get_or ''status'' (JStr ''candidate'') p)) (\<lambda>st.
     rbind (py_float co (get_or ''confidence'' (JFloat (1 / 2)) p)) (\<lambda>q.
     rbind (rbind (py_list co (get_or ''evidence_ids'' (JList []) p)) (rmap (py_uuid co))) (\<lambda>evs.
     rbind (let v = get_or ''observed_at'' JNull p in if json_true v then py_time co v else Inr (Aware now)) (\<lambda>t.
     rbind (method_of (get_or ''extraction_method'' (JStr ''llm'') p)) (\<lambda>m.
     rbind (py_text co (get_or ''ontology_version'' (JStr ''v0.1.0'') p)) (\<lambda>ov.
     rbind (py_text co e) (\<lambda>tn. rbind (py_texts co (get_or ''allowed_principals'' (JList []) p)) (\<lambda>ps.
       mk_fact \<lparr>kf_id = i, kf_subject = s, kf_predicate = pr, kf_object = ob, kf_status = st, kf_confidence = q,
         kf_evidence_ids = evs, kf_valid_from = vf, kf_valid_to = vt, kf_observed_at = t, kf_method = m,
         kf_ontology_version = ov, kf_tenant = tn, kf_principals = ps\<rparr>)))))))))))))))))))"

text \<open>The operation an event stands for; the other event types are logged and skipped.\<close>

definition project_op :: "conversions \<Rightarrow> int \<Rightarrow> event_type \<Rightarrow> payload \<Rightarrow> exn + graph_op option" where
  "project_op co now ty p =
     (case ty of
        EntityMentioned \<Rightarrow> rbind (mention_of co p) (\<lambda>m. Inr (Some (WriteMention m)))
      | EntityResolved \<Rightarrow> rbind (entity_of co p) (\<lambda>e. Inr (Some (WriteEntity e)))
      | FactCandidate \<Rightarrow> rbind (fact_of co now p) (\<lambda>f. Inr (Some (WriteFact f)))
      | _ \<Rightarrow> Inr None)"

definition project_event :: "conversions \<Rightarrow> int \<Rightarrow> outbox_event \<Rightarrow> graph_uow \<Rightarrow> (exn + unit) \<times> graph_uow" where
  "project_event co now ev u =
     (case project_op co now (oe_type ev) (oe_payload ev) of
        Inl e \<Rightarrow> (Inl e, u)
      | Inr None \<Rightarrow> (Inr (), u)
      | Inr (Some op) \<Rightarrow> uow_write (apply_op op) u)"

section \<open>Worker (outbox_graph_projector.py)\<close>

definition record_failure :: "int \<Rightarrow> outbox_event \<Rightarrow> exn \<Rightarrow> outbox \<Rightarrow> (exn + unit) \<times> outbox" where
  "record_failure now ev e t =
     (case oe_claim_token ev of
        None \<Rightarrow> (Inl AssertionError, t)
      | Some tok \<Rightarrow> mark_failed now (oe_id ev) tok (exn_str e) t t)"

definition process_event ::
  "conversions \<Rightarrow> int \<Rightarrow> outbox_event \<Rightarrow> graph_db \<times> outbox \<Rightarrow> (exn + unit) \<times> graph_db \<times> outbox" where
  "process_event co now ev s =
     (case s of (g, t) \<Rightarrow>
       (case project_event co now ev (uow_enter g) of
          (Inl e, u) \<Rightarrow> (let (r, t') = record_failure now ev e t in (r, u_store (uow_exit True u), t'))
        | (Inr _, u) \<Rightarrow>
           (let g' = u_store (uow_exit False u)
            in case oe_claim_token ev of
                 None \<Rightarrow> (let (r, t') = record_failure now ev AssertionError t in (r, g', t'))
               | Some tok \<Rightarrow>
                   (case mark_completed now (oe_id ev) tok t t of
                      (Inr _, t') \<Rightarrow> (Inr (), g', t')
                    | (Inl e, _) \<Rightarrow> (let (r, t') = record_failure now ev e t in (r, g', t'))))))"

text \<open>The events of a batch, at the times of the clock; an escaping exception ends the round.\<close>

fun process_all ::
  "conversions \<Rightarrow> (nat \<Rightarrow> int) \<Rightarrow> nat \<Rightarrow> outbox_event list \<Rightarrow> graph_db \<times> outbox \<Rightarrow> (exn + unit) \<times> graph_db \<times> outbox" where
  "process_all co clk i [] s = (Inr (), s)"
| "process_all co clk i (ev # evs) s =
     (case process_event co (clk i) ev s of
        (Inl e, s') \<Rightarrow> (Inl e, s')
      | (Inr _, s') \<Rightarrow> process_all co clk (Suc i) evs s')"

text \<open>One round of \<^verbatim>\<open>start\<close>; a failed claim is rolled back.\<close>

definition worker_round ::
  "conversions \<Rightarrow> int \<Rightarrow> (nat \<Rightarrow> int) \<Rightarrow> uuid list \<Rightarrow> (uuid \<Rightarrow> nat) \<Rightarrow> (nat \<Rightarrow> uuid) \<Rightarrow>
   graph_db \<times> outbox \<Rightarrow> (exn + unit) \<times> graph_db \<times> outbox" where
  "worker_round co now clk locked tie tok s =
     (case claim_batch now locked tie tok 100 ''graph-projector'' 30 (snd s) of
        (Inl e, _) \<Rightarrow> (Inl e, s)
      | (Inr evs, t) \<Rightarrow> process_all co clk 0 evs (fst s, t))"

section \<open>Emitted events read back\<close>

text \<open>What the projector relies on: the conversions accept the values the emitter writes, and
  \<^verbatim>\<open>fromisoformat\<close> undoes \<^verbatim>\<open>isoformat\<close>.\<close>

definition conversions_ok :: "conversions \<Rightarrow> (datetime \<Rightarrow> string) \<Rightarrow> bool" where
  "conversions_ok co isof \<longleftrightarrow>
     (\<forall>i. py_uuid co (JStr (show_nat i)) = Inr i) \<and> (\<forall>q. py_float co (JFloat q) = Inr q) \<and>
     (\<forall>s. py_text co (JStr s) = Inr s) \<and> (\<forall>xs. py_list co (JList xs) = Inr xs) \<and>
     (\<forall>es. py_object co (JObj es) = Inr es) \<and>
     (\<forall>d. isof d \<noteq> [] \<and> py_iso co (isof d) = Inr d \<and> py_time co (JStr (isof d)) = Inr d)"

lemma rmap_inverse: "(\<And>x. f (g x) = Inr x) \<Longrightarrow> rmap f (map g xs) = Inr xs"
  by (induction xs) simp_all

lemma py_texts_written: "conversions_ok co isof \<Longrightarrow> py_texts co (JList (map JStr ss)) = Inr ss"
  by (simp add: conversions_ok_def py_texts_def rmap_inverse)

lemma py_opt_written: "conversions_ok co isof \<Longrightarrow> py_opt (py_text co) (jopt x) = Inr x"
  by (cases x) (simp_all add: conversions_ok_def py_opt_def jopt_def)

lemma bound_of_written: "conversions_ok co isof \<Longrightarrow> bound_of co (jopt (map_option isof x)) = Inr x"
  by (cases x) (simp_all add: conversions_ok_def bound_of_def py_opt_def jopt_def)

lemma fact_status_of_value [simp]: "fact_status_of (JStr (fact_status_value st)) = Inr st"
  by (cases st) (simp_all add: fact_status_of_def)

lemma method_of_value [simp]: "method_of (JStr (method_value m)) = Inr m"
  by (cases m) (simp_all add: method_of_def)

lemma mention_written:
  assumes "conversions_ok co isof"
  shows "mention_of co (mention_payload m) = mk_mention m"
  using assms py_opt_written [OF assms]
  by (cases m) (simp add: mention_of_def mention_payload_def need_def get_or_def conversions_ok_def)

lemma entity_written:
  assumes "conversions_ok co isof"
  shows "entity_of co (entity_payload e) = Inr e"
  using assms py_texts_written [OF assms]
  by (simp add: entity_of_def entity_payload_def need_def get_or_def conversions_ok_def)

lemma fact_written:
  assumes "conversions_ok co isof"
  shows "fact_of co now (fact_payload isof f) = mk_fact f"
  using assms py_texts_written [OF assms] bound_of_written [OF assms]
  by (cases f) (simp add: fact_of_def fact_payload_def need_def get_or_def conversions_ok_def rmap_inverse)

section \<open>Refinement: the outbox carries graph operations\<close>

fun op_row :: "(datetime \<Rightarrow> string) \<Rightarrow> int \<Rightarrow> uuid \<Rightarrow> graph_op \<Rightarrow> outbox_row" where
  "op_row isof now i (WriteMention m) = emit_mention i now m"
| "op_row isof now i (WriteEntity e) = emit_entity i now e"
| "op_row isof now i (WriteFact f) = emit_fact isof i now f"
| "op_row isof now i (WriteStatus fid st newer) = emitted_row i now [] fid FactCandidate []"

fun emittable :: "graph_op \<Rightarrow> bool" where
  "emittable (WriteMention m) \<longleftrightarrow> 0 \<le> em_confidence m \<and> em_confidence m \<le> 1"
| "emittable (WriteEntity e) \<longleftrightarrow> True"
| "emittable (WriteFact f) \<longleftrightarrow> fact_ok f"
| "emittable (WriteStatus fid st newer) \<longleftrightarrow> False"

text \<open>The abstract result of an extraction: its graph operations in order.\<close>

definition extraction_ops :: "extraction_state \<Rightarrow> graph_op list" where
  "extraction_ops st = map WriteMention (xs_entities st) @ map WriteEntity (xs_resolved st) @ map WriteFact (xs_facts st)"

lemma op_row_simps [simp]:
  "ob_id (op_row isof now i op) = i" "ob_status (op_row isof now i op) = ''pending''"
  "ob_available_at (op_row isof now i op) = now" "ob_created_at (op_row isof now i op) = now"
  by (cases op; simp add: emit_mention_def emit_entity_def emit_fact_def emitted_row_def)+

lemma zip_upt_map: "zip [a..<a + length xs] (map f xs) = map (\<lambda>(i, x). (i, f x)) (zip [a..<a + length xs] xs)"
  by (simp add: zip_map2)

lemma emit_rows_ops:
  "emit_rows isof fresh now st =
   map (\<lambda>(i, op). op_row isof now (fresh i) op) (zip [0..<length (extraction_ops st)] (extraction_ops st))"
proof -
  have "map (\<lambda>m i. emit_mention i now m) (xs_entities st) @ map (\<lambda>e i. emit_entity i now e) (xs_resolved st) @
      map (\<lambda>f i. emit_fact isof i now f) (xs_facts st) = map (\<lambda>op i. op_row isof now i op) (extraction_ops st)"
    by (simp add: extraction_ops_def)
  then show ?thesis by (simp add: emit_rows_def zip_map2 case_prod_beta)
qed

lemma project_emitted:
  assumes "conversions_ok co isof" and "emittable op"
  shows "project_op co now (ob_type (op_row isof n0 i op)) (ob_payload (op_row isof n0 i op)) = Inr (Some op)"
proof (cases op)
  case (WriteEntity e)
  then show ?thesis using entity_written [OF assms(1)] by (simp add: project_op_def emit_entity_def emitted_row_def)
next
  case (WriteFact f)
  then show ?thesis using fact_written [OF assms(1)] assms(2)
    by (simp add: project_op_def emit_fact_def emitted_row_def mk_fact_iff)
next
  case (WriteMention m)
  then show ?thesis using mention_written [OF assms(1)] assms(2)
    by (simp add: project_op_def emit_mention_def emitted_row_def mk_mention_def)
qed (use assms in simp)

text \<open>C32: a round trip through the outbox: the event emitted for a mention, an entity or a valid fact is
  projected to the same write of the graph, whatever the time and the event's identifier.\<close>

theorem emitted_event_round_trip:
  assumes "conversions_ok co isof" and "emittable op" and "oe_type ev = ob_type (op_row isof n0 i op)"
    and "oe_payload ev = ob_payload (op_row isof n0 i op)"
  shows "project_event co now ev (uow_enter g) = (Inr (), (uow_enter g)\<lparr>u_tx := Some (apply_op op g)\<rparr>)"
  using project_emitted [OF assms(1,2)] assms(3,4)
  by (simp add: project_event_def uow_write_def uow_enter_def)

section \<open>The worker refines the operations\<close>

lemma process_event_ok:
  assumes "project_op co now (oe_type ev) (oe_payload ev) = Inr (Some op)"
    and "map_of t (oe_id ev) = Some r" "ob_status r = ''claimed''" "ob_claim_token r = Some tok" "oe_claim_token ev = Some tok"
  shows "process_event co now ev (g, t) = (Inr (), apply_op op g, put (oe_id ev) (complete_row now r) t)"
proof -
  have "mark_completed now (oe_id ev) tok t t = (Inr (), put (oe_id ev) (complete_row now r) t)"
    using assms by (simp add: mark_completed_def guard_claim_def guarded_update_def)
  then show ?thesis using assms
    by (simp add: process_event_def project_event_def uow_write_def uow_enter_def uow_exit_def)
qed

definition held :: "outbox \<Rightarrow> outbox_event \<Rightarrow> bool" where
  "held t ev \<longleftrightarrow> (\<exists>r tok. map_of t (oe_id ev) = Some r \<and> ob_status r = ''claimed'' \<and> ob_claim_token r = Some tok \<and>
     oe_claim_token ev = Some tok)"

lemma process_all_ok:
  assumes "list_all2 (\<lambda>ev op. \<forall>now. project_op co now (oe_type ev) (oe_payload ev) = Inr (Some op)) evs ops"
    and "distinct (map oe_id evs)" and "\<forall>ev \<in> set evs. held t ev"
  shows "\<exists>t'. process_all co clk i evs (g, t) = (Inr (), foldl (\<lambda>g op. apply_op op g) g ops, t') \<and>
    (\<forall>ev \<in> set evs. \<exists>r. map_of t' (oe_id ev) = Some r \<and> ob_status r = ''completed'') \<and>
    (\<forall>k. k \<notin> oe_id ` set evs \<longrightarrow> map_of t' k = map_of t k)"
  using assms
proof (induction evs arbitrary: ops i g t)
  case (Cons ev evs)
  from Cons.prems(1) obtain op ops' where o: "ops = op # ops'"
    "\<forall>now. project_op co now (oe_type ev) (oe_payload ev) = Inr (Some op)"
    "list_all2 (\<lambda>ev op. \<forall>now. project_op co now (oe_type ev) (oe_payload ev) = Inr (Some op)) evs ops'"
    by (auto simp: list_all2_Cons1)
  from Cons.prems(3) obtain r tok where r: "map_of t (oe_id ev) = Some r" "ob_status r = ''claimed''"
    "ob_claim_token r = Some tok" "oe_claim_token ev = Some tok" by (auto simp: held_def)
  let ?t = "put (oe_id ev) (complete_row (clk i) r) t"
  have step: "process_event co (clk i) ev (g, t) = (Inr (), apply_op op g, ?t)"
    using process_event_ok [OF spec [OF o(2)] r] .
  have ne: "oe_id e \<noteq> oe_id ev" if "e \<in> set evs" for e
    using Cons.prems(2) that by (metis distinct.simps(2) list.simps(9) image_eqI list.set_map)
  have h: "\<forall>e \<in> set evs. held ?t e"
  proof
    fix e assume e: "e \<in> set evs"
    then have "held t e" using Cons.prems(3) by simp
    then show "held ?t e" using ne [OF e] by (simp add: held_def)
  qed
  from Cons.IH [OF o(3) _ h, of "Suc i" "apply_op op g"] Cons.prems(2) obtain t' where
    t': "process_all co clk (Suc i) evs (apply_op op g, ?t) = (Inr (), foldl (\<lambda>g op. apply_op op g) (apply_op op g) ops', t')"
    "\<forall>e \<in> set evs. \<exists>r. map_of t' (oe_id e) = Some r \<and> ob_status r = ''completed''"
    "\<forall>k. k \<notin> oe_id ` set evs \<longrightarrow> map_of t' k = map_of ?t k" by auto
  have "map_of t' (oe_id ev) = Some (complete_row (clk i) r)" using t'(3) Cons.prems(2) by simp
  then have "\<forall>e \<in> set (ev # evs). \<exists>r. map_of t' (oe_id e) = Some r \<and> ob_status r = ''completed''"
    using t'(2) by simp
  moreover have "\<forall>k. k \<notin> oe_id ` set (ev # evs) \<longrightarrow> map_of t' k = map_of t k" using t'(3) by simp
  moreover have "process_all co clk i (ev # evs) (g, t) = (Inr (), foldl (\<lambda>g op. apply_op op g) g ops, t')"
    using step t'(1) o(1) by simp
  ultimately show ?case by blast
qed simp

lemma put_fresh: "k \<notin> set (keys d) \<Longrightarrow> put k v d = d @ [(k, v)]"
  by (induction d) auto

lemma foldl_put_fresh:
  "distinct (map ob_id rs) \<Longrightarrow> ob_id ` set rs \<inter> set (keys t) = {} \<Longrightarrow>
   foldl (\<lambda>t r. put (ob_id r) r t) t rs = t @ map (\<lambda>r. (ob_id r, r)) rs"
proof (induction rs arbitrary: t)
  case (Cons r rs)
  have "put (ob_id r) r t = t @ [(ob_id r, r)]" using Cons.prems(2) by (intro put_fresh) auto
  then show ?case using Cons.prems Cons.IH [of "t @ [(ob_id r, r)]"] by auto
qed simp

lemma to_domain_claimed:
  "to_domain (claim_row now w l tok r) = Inr e \<longleftrightarrow>
   e = \<lparr>oe_id = ob_id r, oe_aggregate_type = ob_aggregate_type r, oe_aggregate_id = ob_aggregate_id r,
      oe_type = ob_type r, oe_payload = ob_payload r, oe_status = EvClaimed, oe_attempts = int (Suc (ob_attempts r)),
      oe_last_error = ob_last_error r, oe_created_at = ob_created_at r, oe_claimed_at = Some now,
      oe_claim_token = Some tok, oe_completed_at = ob_completed_at r\<rparr>"
  by (auto simp: to_domain_def claim_row_def event_status_of_def mk_outbox_event_def)

definition claimed_event :: "int \<Rightarrow> uuid \<Rightarrow> outbox_row \<Rightarrow> outbox_event" where
  "claimed_event now tok r =
     \<lparr>oe_id = ob_id r, oe_aggregate_type = ob_aggregate_type r, oe_aggregate_id = ob_aggregate_id r,
      oe_type = ob_type r, oe_payload = ob_payload r, oe_status = EvClaimed, oe_attempts = int (Suc (ob_attempts r)),
      oe_last_error = ob_last_error r, oe_created_at = ob_created_at r, oe_claimed_at = Some now,
      oe_claim_token = Some tok, oe_completed_at = ob_completed_at r\<rparr>"

lemma claimed_event_simps [simp]:
  "oe_id (claimed_event now tok r) = ob_id r" "oe_type (claimed_event now tok r) = ob_type r"
  "oe_payload (claimed_event now tok r) = ob_payload r" "oe_claim_token (claimed_event now tok r) = Some tok"
  by (simp_all add: claimed_event_def)

lemma rmap_claimed:
  "rmap to_domain (fst (claim_rows now w l tok i rs t)) =
   Inr (map (\<lambda>(j, r). claimed_event now (tok j) r) (zip [i..<i + length rs] rs))"
proof (induction rs arbitrary: i t)
  case (Cons r rs)
  have "[i..<i + length (r # rs)] = i # [Suc i..<Suc i + length rs]"
    using upt_conv_Cons [of i "i + length (r # rs)"] by simp
  moreover have "to_domain (claim_row now w l (tok i) r) = Inr (claimed_event now (tok i) r)"
    unfolding to_domain_claimed claimed_event_def by (rule refl)
  ultimately show ?case using Cons.IH [of "Suc i"] by simp
qed simp

text \<open>A batch of freshly emitted rows is claimed whole, in the order of the ties.\<close>

lemma claim_batch_emitted:
  assumes ids: "distinct (map ob_id rs)" "ob_id ` set rs \<inter> set (keys t) = {}" "length rs \<le> n"
    and idle: "\<forall>r \<in> set (vals t). \<not> claimable now r" and rows: "\<forall>r \<in> set rs. claimable now r \<and> ob_created_at r = n0"
    and ne: "rs \<noteq> []" and order: "qs = sort_key (\<lambda>r. tie (ob_id r)) rs"
  shows "\<exists>t'. claim_batch now [] tie tok n w l (t @ map (\<lambda>r. (ob_id r, r)) rs) =
      (Inr (map (\<lambda>(j, r). claimed_event now (tok j) r) (zip [0..<length qs] qs)), t') \<and>
    (\<forall>j < length qs. map_of t' (ob_id (qs ! j)) = Some (claim_row now w l (tok j) (qs ! j))) \<and>
    (\<forall>k. k \<notin> ob_id ` set rs \<longrightarrow> map_of t' k = map_of (t @ map (\<lambda>r. (ob_id r, r)) rs) k)"
proof -
  let ?t = "t @ map (\<lambda>r. (ob_id r, r)) rs"
  have v: "vals ?t = vals t @ rs" by (simp add: comp_def)
  have f: "filter (\<lambda>r. claimable now r \<and> ob_id r \<notin> set []) (vals ?t) = rs"
    unfolding v using idle rows by (simp add: filter_empty_conv)
  have s: "sort_key (claim_key tie) rs = qs"
    unfolding order using rows by (intro sort_key_cong_le) (simp add: claim_key_def less_eq_prod_def)
  have len: "length qs = length rs" and set_qs: "set qs = set rs" by (simp_all add: order)
  have d: "distinct (map ob_id qs)" unfolding order using ids(1) by (simp add: distinct_map)
  have sel: "select_batch now [] tie n ?t = qs" unfolding select_batch_def f s using ids(3) len by simp
  let ?c = "claim_rows now w l tok 0 qs ?t"
  have "qs \<noteq> []" using ne len by auto
  then have "claim_batch now [] tie tok n w l ?t = (rmap to_domain (fst ?c), snd ?c)"
    by (simp add: claim_batch_def sel case_prod_beta)
  moreover have "rmap to_domain (fst ?c) = Inr (map (\<lambda>(j, r). claimed_event now (tok j) r) (zip [0..<length qs] qs))"
    using rmap_claimed [of now w l tok 0 qs ?t] by simp
  ultimately show ?thesis using claim_rows_claimed [OF d, of _ now w l tok 0 ?t] claim_rows_other [of _ qs now w l tok 0 ?t] set_qs
    by (intro exI [of _ "snd ?c"]) simp
qed

text \<open>The operations of an extraction in the order in which its events are claimed: they share their
  creation time, so only \<^verbatim>\<open>tie\<close> orders them.\<close>

definition claim_order :: "(uuid \<Rightarrow> nat) \<Rightarrow> (nat \<Rightarrow> uuid) \<Rightarrow> nat \<Rightarrow> nat list" where
  "claim_order tie fresh m = sort_key (\<lambda>i. tie (fresh i)) [0..<m]"

definition claimed_ops :: "(uuid \<Rightarrow> nat) \<Rightarrow> (nat \<Rightarrow> uuid) \<Rightarrow> graph_op list \<Rightarrow> graph_op list" where
  "claimed_ops tie fresh ops = map (\<lambda>i. ops ! i) (claim_order tie fresh (length ops))"

lemma claim_order_simps [simp]:
  "length (claim_order tie fresh m) = m" "set (claim_order tie fresh m) = {0..<m}"
  "i < m \<Longrightarrow> claim_order tie fresh m ! i < m"
proof -
  show l: "length (claim_order tie fresh m) = m" and s: "set (claim_order tie fresh m) = {0..<m}"
    by (simp_all add: claim_order_def)
  show "i < m \<Longrightarrow> claim_order tie fresh m ! i < m" using l s nth_mem by (metis atLeastLessThan_iff)
qed

lemma mset_claimed_ops: "mset (claimed_ops tie fresh ops) = mset ops"
proof -
  have "mset (claimed_ops tie fresh ops) = mset (map (\<lambda>i. ops ! i) [0..<length ops])"
    unfolding claimed_ops_def claim_order_def mset_map by simp
  then show ?thesis by (simp add: map_nth)
qed

text \<open>The rows that \<^verbatim>\<open>emit_node\<close> adds.\<close>

lemma emitted_rows:
  assumes "inj fresh" and "range fresh \<inter> set (keys t) = {}"
  shows "length (emit_rows isof fresh n0 st) = length (extraction_ops st)"
    and "map ob_id (emit_rows isof fresh n0 st) = map fresh [0..<length (extraction_ops st)]"
    and "distinct (map ob_id (emit_rows isof fresh n0 st))"
    and "ob_id ` set (emit_rows isof fresh n0 st) = fresh ` {0..<length (extraction_ops st)}"
    and "ob_id ` set (emit_rows isof fresh n0 st) \<inter> set (keys t) = {}"
    and "emit_node isof fresh n0 st t = t @ map (\<lambda>r. (ob_id r, r)) (emit_rows isof fresh n0 st)"
    and "n0 \<le> now \<Longrightarrow> \<forall>r \<in> set (emit_rows isof fresh n0 st). claimable now r \<and> ob_created_at r = n0"
proof -
  let ?ops = "extraction_ops st" and ?rs = "emit_rows isof fresh n0 st"
  show len: "length ?rs = length ?ops" by (simp add: emit_rows_ops)
  show ids: "map ob_id ?rs = map fresh [0..<length ?ops]"
    by (rule nth_equalityI) (simp_all add: emit_rows_ops)
  show d: "distinct (map ob_id ?rs)" unfolding ids using inj_on_subset [OF assms(1)] by (simp add: distinct_map)
  show set_ids: "ob_id ` set ?rs = fresh ` {0..<length ?ops}" using arg_cong [OF ids, of set] by simp
  show new: "ob_id ` set ?rs \<inter> set (keys t) = {}" using set_ids assms(2) by blast
  show "emit_node isof fresh n0 st t = t @ map (\<lambda>r. (ob_id r, r)) ?rs"
    unfolding emit_node_def by (rule foldl_put_fresh [OF d new])
  show "n0 \<le> now \<Longrightarrow> \<forall>r \<in> set ?rs. claimable now r \<and> ob_created_at r = n0"
    by (auto simp: emit_rows_ops claimable_def)
qed

lemma emit_rows_nth:
  "emit_rows isof fresh n0 st =
   map (\<lambda>i. op_row isof n0 (fresh i) (extraction_ops st ! i)) [0..<length (extraction_ops st)]"
  by (rule nth_equalityI) (simp_all add: emit_rows_ops)

lemma emitted_order:
  "sort_key (\<lambda>r. tie (ob_id r)) (emit_rows isof fresh n0 st) =
   map (\<lambda>i. op_row isof n0 (fresh i) (extraction_ops st ! i)) (claim_order tie fresh (length (extraction_ops st)))"
  by (simp add: emit_rows_nth sort_key_map claim_order_def)


text \<open>A concrete choice of the conversions: decimal identifiers, and dates printed by a letter for
  their kind and sign and their distance from the epoch.\<close>

definition demo_iso :: "datetime \<Rightarrow> string" where
  "demo_iso d = (case d of
     Aware n \<Rightarrow> (if n < 0 then ''B'' else ''A'') @ show_nat (nat (abs n))
   | Naive n \<Rightarrow> (if n < 0 then ''D'' else ''C'') @ show_nat (nat (abs n)))"

definition demo_read :: "string \<Rightarrow> exn + datetime" where
  "demo_read s =
     (let n = int (read_nat (tl s))
      in if startswith s ''A'' then Inr (Aware n) else if startswith s ''B'' then Inr (Aware (- n))
         else if startswith s ''C'' then Inr (Naive n) else if startswith s ''D'' then Inr (Naive (- n))
         else Inl (ValueError ''Invalid isoformat string''))"

definition demo_conversions :: conversions where
  "demo_conversions =
     \<lparr>py_uuid = (\<lambda>v. case v of JStr s \<Rightarrow> if show_nat (read_nat s) = s then Inr (read_nat s) else Inl (ValueError ''uuid'')
                     | _ \<Rightarrow> Inl (ValueError ''uuid'')),
      py_float = (\<lambda>v. case v of JFloat q \<Rightarrow> Inr q | JInt n \<Rightarrow> Inr (of_int n) | _ \<Rightarrow> Inl (ValueError ''float'')),
      py_text = (\<lambda>v. case v of JStr s \<Rightarrow> Inr s | _ \<Rightarrow> Inl (ValueError ''str'')),
      py_list = (\<lambda>v. case v of JList xs \<Rightarrow> Inr xs | _ \<Rightarrow> Inl (ValueError ''list'')),
      py_object = (\<lambda>v. case v of JObj es \<Rightarrow> Inr es | _ \<Rightarrow> Inl (ValueError ''dict'')),
      py_time = (\<lambda>v. case v of JStr s \<Rightarrow> demo_read s | _ \<Rightarrow> Inl (ValueError ''datetime'')), py_iso = demo_read\<rparr>"

lemma demo_read_iso: "demo_read (demo_iso d) = Inr d"
  by (cases d) (simp_all add: demo_read_def demo_iso_def read_show_nat)

lemma demo_conversions_ok: "conversions_ok demo_conversions demo_iso"
proof -
  have "demo_iso d \<noteq> []" for d by (simp add: demo_iso_def split: datetime.splits)
  then show ?thesis by (simp add: conversions_ok_def demo_conversions_def demo_read_iso read_show_nat)
qed

theorem emitted_event_round_trip_witness:
  "project_event demo_conversions 5 (claimed_event 5 6 (op_row demo_iso 0 3 (WriteFact demo_fact))) (uow_enter empty_graph) =
     (Inr (), (uow_enter empty_graph)\<lparr>u_tx := Some (create_fact demo_fact empty_graph)\<rparr>)"
  using emitted_event_round_trip [OF demo_conversions_ok, of "WriteFact demo_fact"
      "claimed_event 5 6 (op_row demo_iso 0 3 (WriteFact demo_fact))" 0 3 5 empty_graph]
  by (simp add: demo_fact_def fact_ok_def)

definition demo_extraction :: extraction_state where
  "demo_extraction = \<lparr>xs_chunk = Some 91, xs_content = ''Redis'', xs_tenant = ''t'', xs_principals = [], xs_entities = [demo_mention ''Redis''],
     xs_resolved = [fresh_entity 1 ''Redis'' ''Database''], xs_ambiguous = [], xs_facts = []\<rparr>"


end
