(* ===== verification/GraphNodes.thy ===== *)
theory GraphNodes
  imports Projection
begin

text \<open>
  How the Neo4j repository keeps its records: the parameters that \<^verbatim>\<open>create_entity\<close>,
  \<^verbatim>\<open>create_fact\<close>, \<^verbatim>\<open>create_mention\<close> and \<^verbatim>\<open>update_fact_status\<close> of
  \<^verbatim>\<open>infrastructure/neo4j/repository.py\<close> send, the properties that the \<^verbatim>\<open>SET\<close>
  clauses leave on the nodes, and the readers \<^verbatim>\<open>_dict_to_entity\<close> and
  \<^verbatim>\<open>_dict_to_fact\<close>. The theory of the graph store keeps records; what is shown here is that
  the nodes simulate it, whatever was written before. JSON text is an argument.
\<close>

section \<open>Properties of nodes\<close>

datatype property = PropStr string | PropNum rat | PropTime datetime | PropStrs "string list"

type_synonym node = "(string, property) dict"
type_synonym params = "(string \<times> property option) list"

text \<open>\<^verbatim>\<open>SET n.k = $k\<close>: setting a property to null removes it.\<close>

definition set_property :: "string \<times> property option \<Rightarrow> node \<Rightarrow> node" where
  "set_property p n =
     (case snd p of None \<Rightarrow> filter (\<lambda>(k, _). k \<noteq> fst p) n | Some v \<Rightarrow> put (fst p) v n)"

definition set_properties :: "params \<Rightarrow> node \<Rightarrow> node" where
  "set_properties ps n = fold set_property ps n"

text \<open>\<^verbatim>\<open>MERGE (n:Label {key: $key}) SET ...\<close>\<close>

definition merge_node :: "string \<Rightarrow> string \<Rightarrow> params \<Rightarrow> (string, node) dict \<Rightarrow> (string, node) dict" where
  "merge_node key ident ps ns =
     put ident (set_properties ps (case map_of ns ident of Some n \<Rightarrow> n | None \<Rightarrow> [(key, PropStr ident)])) ns"

record graph_nodes =
  gn_entities :: "(string, node) dict"
  gn_facts :: "(string, node) dict"
  gn_mentions :: "(string, node) dict"

section \<open>Writing\<close>

definition entity_params :: "(json \<Rightarrow> string) \<Rightarrow> canonical_entity \<Rightarrow> params" where
  "entity_params dumps e =
     [(''entity_type'', Some (PropStr (ce_type e))), (''canonical_name'', Some (PropStr (ce_name e))),
      (''aliases'', Some (PropStrs (ce_aliases e))),
      (''attributes'', Some (PropStr (if ce_attributes e = [] then ''{}'' else dumps (JObj (ce_attributes e)))))]"

definition fact_params :: "knowledge_fact \<Rightarrow> params" where
  "fact_params f =
     [(''subject_id'', Some (PropStr (show_nat (kf_subject f)))), (''predicate'', Some (PropStr (kf_predicate f))),
      (''object_id'', Some (PropStr (show_nat (kf_object f)))), (''status'', Some (PropStr (fact_status_value (kf_status f)))),
      (''confidence'', Some (PropNum (kf_confidence f))), (''evidence_ids'', Some (PropStrs (map show_nat (kf_evidence_ids f)))),
      (''valid_from'', map_option PropTime (kf_valid_from f)), (''valid_to'', map_option PropTime (kf_valid_to f)),
      (''observed_at'', Some (PropTime (kf_observed_at f))), (''extraction_method'', Some (PropStr (method_value (kf_method f)))),
      (''ontology_version'', Some (PropStr (kf_ontology_version f))), (''allowed_principals'', Some (PropStrs (kf_principals f))),
      (''tenant_id'', Some (PropStr (kf_tenant f)))]"

definition mention_params :: "entity_mention \<Rightarrow> params" where
  "mention_params m =
     [(''chunk_id'', Some (PropStr (show_nat (em_chunk_id m)))), (''surface_form'', Some (PropStr (em_surface m))),
      (''candidate_type'', Some (PropStr (em_candidate_type m))), (''locator'', map_option PropStr (em_locator m)),
      (''extraction_confidence'', Some (PropNum (em_confidence m)))]"

text \<open>The statement of \<^verbatim>\<open>update_fact_status\<close> on the nodes of facts.\<close>

definition set_node_status :: "uuid \<Rightarrow> fact_status \<Rightarrow> uuid option \<Rightarrow> (string, node) dict \<Rightarrow> (string, node) dict" where
  "set_node_status fid st newer ns =
     (case map_of ns (show_nat fid) of
        None \<Rightarrow> ns
      | Some n \<Rightarrow>
          if (case newer of None \<Rightarrow> False | Some i \<Rightarrow> show_nat i \<notin> set (keys ns)) then ns
          else put (show_nat fid) (set_property (''status'', Some (PropStr (fact_status_value st))) n) ns)"

fun apply_node_op :: "(json \<Rightarrow> string) \<Rightarrow> graph_op \<Rightarrow> graph_nodes \<Rightarrow> graph_nodes" where
  "apply_node_op dumps (WriteEntity e) gn =
     gn\<lparr>gn_entities := merge_node ''entity_id'' (show_nat (ce_id e)) (entity_params dumps e) (gn_entities gn)\<rparr>"
| "apply_node_op dumps (WriteFact f) gn =
     gn\<lparr>gn_facts := merge_node ''fact_id'' (show_nat (kf_id f)) (fact_params f) (gn_facts gn)\<rparr>"
| "apply_node_op dumps (WriteStatus fid st newer) gn =
     gn\<lparr>gn_facts := set_node_status fid st newer (gn_facts gn)\<rparr>"
| "apply_node_op dumps (WriteMention m) gn =
     gn\<lparr>gn_mentions := merge_node ''mention_id'' (show_nat (em_id m)) (mention_params m) (gn_mentions gn)\<rparr>"

section \<open>Reading\<close>

text \<open>\<^verbatim>\<open>node[k]\<close>, and what pydantic makes of a property.\<close>

definition prop_of :: "string \<Rightarrow> node \<Rightarrow> exn + property" where
  "prop_of k n = (case map_of n k of Some v \<Rightarrow> Inr v | None \<Rightarrow> Inl (KeyError k))"

definition prop_str :: "property \<Rightarrow> exn + string" where
  "prop_str v = (case v of PropStr s \<Rightarrow> Inr s | _ \<Rightarrow> Inl (ValueError ''Input should be a valid string''))"

definition uuid_of_text :: "string \<Rightarrow> exn + uuid" where
  "uuid_of_text s = (if show_nat (read_nat s) = s then Inr (read_nat s) else Inl (ValueError ''Input should be a valid UUID''))"

definition prop_uuid :: "property \<Rightarrow> exn + uuid" where
  "prop_uuid v = (case v of PropStr s \<Rightarrow> uuid_of_text s | _ \<Rightarrow> Inl (ValueError ''Input should be a valid UUID''))"

definition prop_num :: "property \<Rightarrow> exn + rat" where
  "prop_num v = (case v of PropNum q \<Rightarrow> Inr q | _ \<Rightarrow> Inl (ValueError ''Input should be a valid number''))"

definition prop_time :: "property \<Rightarrow> exn + datetime" where
  "prop_time v = (case v of PropTime d \<Rightarrow> Inr d | _ \<Rightarrow> Inl (ValueError ''Input should be a valid datetime''))"

definition prop_strs :: "property \<Rightarrow> exn + string list" where
  "prop_strs v = (case v of PropStrs ss \<Rightarrow> Inr ss | _ \<Rightarrow> Inl (ValueError ''Input should be a valid list''))"

definition prop_opt :: "(property \<Rightarrow> exn + 'a) \<Rightarrow> property option \<Rightarrow> exn + 'a option" where
  "prop_opt f v = (case v of None \<Rightarrow> Inr None | Some p \<Rightarrow> rbind (f p) (\<lambda>x. Inr (Some x)))"

definition dict_to_fact :: "node \<Rightarrow> exn + knowledge_fact" where
  "dict_to_fact n =
     rbind (prop_of ''fact_id'' n) (\<lambda>a. rbind (prop_of ''subject_id'' n) (\<lambda>b. rbind (prop_of ''predicate'' n) (\<lambda>c.
     rbind (prop_of ''object_id'' n) (\<lambda>d. rbind (prop_of ''status'' n) (\<lambda>e. rbind (prop_of ''confidence'' n) (\<lambda>g.
     rbind (prop_of ''observed_at'' n) (\<lambda>h. rbind (prop_of ''extraction_method'' n) (\<lambda>i.
     rbind (prop_of ''ontology_version'' n) (\<lambda>j. rbind (prop_of ''tenant_id'' n) (\<lambda>k.
     rbind (prop_uuid a) (\<lambda>fid. rbind (prop_uuid b) (\<lambda>subj. rbind (prop_str c) (\<lambda>pr. rbind (prop_uuid d) (\<lambda>obj.
     rbind (rbind (prop_str e) (\<lambda>s. fact_status_of (JStr s))) (\<lambda>st. rbind (prop_num g) (\<lambda>q.
     rbind (rbind (prop_strs (case map_of n ''evidence_ids'' of Some v \<Rightarrow> v | None \<Rightarrow> PropStrs [])) (rmap uuid_of_text)) (\<lambda>evs.
     rbind (prop_opt prop_time (map_of n ''valid_from'')) (\<lambda>vf. rbind (prop_opt prop_time (map_of n ''valid_to'')) (\<lambda>vt.
     rbind (prop_time h) (\<lambda>t. rbind (rbind (prop_str i) (\<lambda>s. method_of (JStr s))) (\<lambda>m. rbind (prop_str j) (\<lambda>ov.
     rbind (prop_strs (case map_of n ''allowed_principals'' of Some v \<Rightarrow> v | None \<Rightarrow> PropStrs [])) (\<lambda>ps.
     rbind (prop_str k) (\<lambda>tn.
       mk_fact \<lparr>kf_id = fid, kf_subject = subj, kf_predicate = pr, kf_object = obj, kf_status = st, kf_confidence = q,
         kf_evidence_ids = evs, kf_valid_from = vf, kf_valid_to = vt, kf_observed_at = t, kf_method = m,
         kf_ontology_version = ov, kf_tenant = tn, kf_principals = ps\<rparr>))))))))))))))))))))))))"

text \<open>\<^verbatim>\<open>node.get(k)\<close> of an entity: a missing property is \<^verbatim>\<open>None\<close>, which the
  contract rejects; missing or empty aliases and attributes are empty.\<close>

definition got_prop :: "string \<Rightarrow> (property \<Rightarrow> exn + 'a) \<Rightarrow> node \<Rightarrow> exn + 'a" where
  "got_prop k f n = (case map_of n k of Some v \<Rightarrow> f v | None \<Rightarrow> Inl (ValueError ''Input should not be None''))"

definition dict_to_entity :: "(string \<Rightarrow> exn + json) \<Rightarrow> node \<Rightarrow> exn + canonical_entity" where
  "dict_to_entity loads n =
     rbind (case map_of n ''attributes'' of
              None \<Rightarrow> Inr (JObj [])
            | Some v \<Rightarrow> rbind (prop_str v) (\<lambda>s. if s = [] then Inr (JObj []) else loads s)) (\<lambda>atts.
     rbind (got_prop ''entity_id'' prop_uuid n) (\<lambda>i. rbind (got_prop ''entity_type'' prop_str n) (\<lambda>ty.
     rbind (got_prop ''canonical_name'' prop_str n) (\<lambda>nm.
     rbind (prop_strs (case map_of n ''aliases'' of Some v \<Rightarrow> v | None \<Rightarrow> PropStrs [])) (\<lambda>as.
       (case atts of
          JObj a \<Rightarrow> Inr \<lparr>ce_id = i, ce_type = ty, ce_name = nm, ce_aliases = as, ce_attributes = a\<rparr>
        | _ \<Rightarrow> Inl (ValueError ''Input should be a valid dictionary'')))))))"

definition dict_to_mention :: "node \<Rightarrow> exn + entity_mention" where
  "dict_to_mention n =
     rbind (prop_of ''mention_id'' n) (\<lambda>a. rbind (prop_of ''chunk_id'' n) (\<lambda>b. rbind (prop_of ''surface_form'' n) (\<lambda>c.
     rbind (prop_of ''candidate_type'' n) (\<lambda>d. rbind (prop_of ''extraction_confidence'' n) (\<lambda>e.
     rbind (prop_uuid a) (\<lambda>i. rbind (prop_uuid b) (\<lambda>ck. rbind (prop_str c) (\<lambda>s. rbind (prop_str d) (\<lambda>ty.
     rbind (prop_opt prop_str (map_of n ''locator'')) (\<lambda>l. rbind (prop_num e) (\<lambda>q.
       mk_mention \<lparr>em_id = i, em_chunk_id = ck, em_surface = s, em_candidate_type = ty, em_locator = l,
         em_confidence = q\<rparr>)))))))))))"

definition read_fact :: "uuid \<Rightarrow> graph_nodes \<Rightarrow> exn + knowledge_fact option" where
  "read_fact fid gn =
     (case map_of (gn_facts gn) (show_nat fid) of None \<Rightarrow> Inr None | Some n \<Rightarrow> rbind (dict_to_fact n) (\<lambda>f. Inr (Some f)))"

definition read_entity :: "(string \<Rightarrow> exn + json) \<Rightarrow> uuid \<Rightarrow> graph_nodes \<Rightarrow> exn + canonical_entity option" where
  "read_entity loads eid gn =
     (case map_of (gn_entities gn) (show_nat eid) of
        None \<Rightarrow> Inr None | Some n \<Rightarrow> rbind (dict_to_entity loads n) (\<lambda>e. Inr (Some e)))"

section \<open>The simulation\<close>

text \<open>A node holds exactly the properties of a record, and its identifier.\<close>

definition carries :: "string \<Rightarrow> string \<Rightarrow> params \<Rightarrow> node \<Rightarrow> bool" where
  "carries key ident ps n \<longleftrightarrow>
     map_of n key = Some (PropStr ident) \<and> (\<forall>(k, v) \<in> set ps. map_of n k = v)"

lemma map_of_filter_key: "map_of (filter (\<lambda>(k, _). k \<noteq> k0) n) k = (if k = k0 then None else map_of n k)"
  by (induction n) auto

lemma map_of_set_property: "map_of (set_property (k, v) n) = (map_of n)(k := v)"
  by (cases v) (auto simp: set_property_def map_of_filter_key fun_eq_iff)

lemma map_of_set_properties_other: "k \<notin> fst ` set ps \<Longrightarrow> map_of (set_properties ps n) k = map_of n k"
  unfolding set_properties_def
proof (induction ps arbitrary: n)
  case (Cons p ps)
  then show ?case by (cases p) (simp add: map_of_set_property)
qed simp

lemma map_of_set_properties:
  "distinct (map fst ps) \<Longrightarrow> (k, v) \<in> set ps \<Longrightarrow> map_of (set_properties ps n) k = v"
proof (induction ps arbitrary: n)
  case (Cons p ps)
  obtain k' v' where p: "p = (k', v')" by (cases p)
  have step: "set_properties (p # ps) n = set_properties ps (set_property p n)" by (simp add: set_properties_def)
  show ?case
  proof (cases "(k, v) \<in> set ps")
    case True
    then show ?thesis using Cons unfolding step by simp
  next
    case False
    then have "k = k'" "v = v'" using Cons.prems p by auto
    moreover have "k' \<notin> fst ` set ps" using Cons.prems(1) p by simp
    ultimately show ?thesis unfolding step by (simp add: p map_of_set_properties_other map_of_set_property)
  qed
qed simp

lemma carries_merge:
  assumes "distinct (map fst ps)" and "key \<notin> fst ` set ps"
    and "\<And>n. map_of ns ident = Some n \<Longrightarrow> map_of n key = Some (PropStr ident)"
  shows "\<exists>n. map_of (merge_node key ident ps ns) ident = Some n \<and> carries key ident ps n"
proof -
  let ?n = "case map_of ns ident of Some n \<Rightarrow> n | None \<Rightarrow> [(key, PropStr ident)]"
  have "map_of ?n key = Some (PropStr ident)" using assms(3) by (simp split: option.split)
  then have "carries key ident ps (set_properties ps ?n)"
    using assms(1,2) by (auto simp: carries_def map_of_set_properties map_of_set_properties_other)
  then show ?thesis by (simp add: merge_node_def)
qed

text \<open>One table of nodes simulates one table of records.\<close>

definition simulates :: "string \<Rightarrow> ('a \<Rightarrow> params) \<Rightarrow> (string, node) dict \<Rightarrow> 'a tbl \<Rightarrow> bool" where
  "simulates key par ns t \<longleftrightarrow>
     (\<forall>i. rel_option (\<lambda>n r. carries key (show_nat i) (par r) n) (map_of ns (show_nat i)) (map_of t i))"

lemma simulates_Nil: "simulates key par [] []"
  by (simp add: simulates_def)

lemma simulates_cases:
  assumes "simulates key par ns t"
  obtains "map_of ns (show_nat i) = None" "map_of t i = None"
  | n r where "map_of ns (show_nat i) = Some n" "map_of t i = Some r" "carries key (show_nat i) (par r) n"
  using assms [unfolded simulates_def, rule_format, of i] by (auto elim: option.rel_cases)

lemma simulates_merge:
  assumes "simulates key par ns t" and "distinct (map fst (par r))" and "key \<notin> fst ` set (par r)"
  shows "simulates key par (merge_node key (show_nat i) (par r) ns) (put i r t)"
  unfolding simulates_def
proof
  fix j
  have "map_of n key = Some (PropStr (show_nat i))" if "map_of ns (show_nat i) = Some n" for n
    by (rule simulates_cases [OF assms(1), of i]) (use that in \<open>auto simp: carries_def\<close>)
  from carries_merge [OF assms(2,3) this] obtain n where
    n: "map_of (merge_node key (show_nat i) (par r) ns) (show_nat i) = Some n" "carries key (show_nat i) (par r) n" by blast
  show "rel_option (\<lambda>n r. carries key (show_nat j) (par r) n)
      (map_of (merge_node key (show_nat i) (par r) ns) (show_nat j)) (map_of (put i r t) j)"
  proof (cases "j = i")
    case True
    then show ?thesis using n by simp
  next
    case False
    then show ?thesis using assms(1) by (simp add: simulates_def merge_node_def)
  qed
qed

lemma simulates_keys: "simulates key par ns t \<Longrightarrow> show_nat i \<in> set (keys ns) \<longleftrightarrow> i \<in> set (keys t)"
  by (erule simulates_cases [of _ _ _ _ i]) (force simp: map_of_eq_None_iff dest: map_of_SomeD)+

text \<open>Writing the status changes one property.\<close>

lemma carries_status:
  "carries ''fact_id'' ident (fact_params f) n \<Longrightarrow>
   carries ''fact_id'' ident (fact_params (f\<lparr>kf_status := st\<rparr>))
     (set_property (''status'', Some (PropStr (fact_status_value st))) n)"
  by (simp add: carries_def fact_params_def map_of_set_property)

lemma simulates_status:
  assumes "simulates ''fact_id'' fact_params ns (g_facts g)"
  shows "simulates ''fact_id'' fact_params (set_node_status fid st newer ns) (g_facts (set_status fid st newer g))"
proof (rule simulates_cases [OF assms, of fid])
  assume none: "map_of ns (show_nat fid) = None" "map_of (g_facts g) fid = None"
  then show ?thesis using assms by (simp add: set_node_status_def set_status_def)
next
  fix n f assume nf: "map_of ns (show_nat fid) = Some n" "map_of (g_facts g) fid = Some f"
    "carries ''fact_id'' (show_nat fid) (fact_params f) n"
  have there: "fid \<in> set (keys (g_facts g))" using nf(2) by (force dest: map_of_SomeD)
  show ?thesis
  proof (cases "status_refused fid newer g")
    case True
    then have "set_node_status fid st newer ns = ns"
      using nf(1) simulates_keys [OF assms] by (auto simp: set_node_status_def status_refused_def split: option.splits)
    then show ?thesis using True assms by (simp add: set_status_def)
  next
    case False
    then have "set_node_status fid st newer ns =
        put (show_nat fid) (set_property (''status'', Some (PropStr (fact_status_value st))) n) ns"
      using nf(1) there simulates_keys [OF assms] by (auto simp: set_node_status_def status_refused_def split: option.splits)
    moreover have "g_facts (set_status fid st newer g) = put fid (f\<lparr>kf_status := st\<rparr>) (g_facts g)"
      using False nf(2) by (simp add: set_status_def Let_def split: option.split)
    ultimately show ?thesis using assms carries_status [OF nf(3)] by (simp add: simulates_def)
  qed
qed

definition no_nodes :: graph_nodes where
  "no_nodes = \<lparr>gn_entities = [], gn_facts = [], gn_mentions = []\<rparr>"

definition nodes_simulate :: "(json \<Rightarrow> string) \<Rightarrow> graph_nodes \<Rightarrow> graph_db \<Rightarrow> bool" where
  "nodes_simulate dumps gn g \<longleftrightarrow>
     simulates ''entity_id'' (entity_params dumps) (gn_entities gn) (g_entities g) \<and>
     simulates ''fact_id'' fact_params (gn_facts gn) (g_facts g) \<and>
     simulates ''mention_id'' mention_params (gn_mentions gn) (g_mentions g)"

lemma nodes_simulate_empty: "nodes_simulate dumps no_nodes empty_graph"
  by (simp add: nodes_simulate_def no_nodes_def empty_graph_def simulates_Nil)

lemma set_status_rest [simp]:
  "g_entities (set_status fid st newer g) = g_entities g" "g_mentions (set_status fid st newer g) = g_mentions g"
  by (simp_all add: set_status_def Let_def split: option.split)

lemma nodes_simulate_op:
  assumes "nodes_simulate dumps gn g"
  shows "nodes_simulate dumps (apply_node_op dumps op gn) (apply_op op g)"
proof (cases op)
  case (WriteEntity e)
  have "simulates ''entity_id'' (entity_params dumps)
      (merge_node ''entity_id'' (show_nat (ce_id e)) (entity_params dumps e) (gn_entities gn)) (put (ce_id e) e (g_entities g))"
    using assms by (intro simulates_merge) (auto simp: nodes_simulate_def entity_params_def)
  then show ?thesis using assms WriteEntity by (simp add: nodes_simulate_def create_entity_def)
next
  case (WriteFact f)
  have "simulates ''fact_id'' fact_params
      (merge_node ''fact_id'' (show_nat (kf_id f)) (fact_params f) (gn_facts gn)) (put (kf_id f) f (g_facts g))"
    using assms by (intro simulates_merge) (auto simp: nodes_simulate_def fact_params_def)
  then show ?thesis using assms WriteFact by (simp add: nodes_simulate_def create_fact_def Let_def)
next
  case (WriteStatus fid st newer)
  then show ?thesis using assms simulates_status by (simp add: nodes_simulate_def)
next
  case (WriteMention m)
  have "simulates ''mention_id'' mention_params
      (merge_node ''mention_id'' (show_nat (em_id m)) (mention_params m) (gn_mentions gn)) (put (em_id m) m (g_mentions g))"
    using assms by (intro simulates_merge) (auto simp: nodes_simulate_def mention_params_def)
  then show ?thesis using assms WriteMention by (simp add: nodes_simulate_def create_mention_def Let_def)
qed

lemma nodes_simulate_run:
  "nodes_simulate dumps gn g \<Longrightarrow> nodes_simulate dumps (fold (apply_node_op dumps) ops gn) (fold apply_op ops g)"
  by (induction ops arbitrary: gn g) (simp_all add: nodes_simulate_op)

section \<open>What the readers make of a simulating node\<close>

lemma uuid_of_show [simp]: "uuid_of_text (show_nat i) = Inr i"
  by (simp add: uuid_of_text_def read_show_nat)

lemma prop_opt_map: "(\<And>x. f (c x) = Inr x) \<Longrightarrow> prop_opt f (map_option c v) = Inr v"
  by (cases v) (simp_all add: prop_opt_def)

lemma dict_to_fact_carries:
  assumes "carries ''fact_id'' (show_nat i) (fact_params f) n"
  shows "dict_to_fact n = mk_fact (f\<lparr>kf_id := i\<rparr>)"
proof -
  have "prop_opt prop_time (map_option PropTime v) = Inr v" for v
    by (rule prop_opt_map) (simp add: prop_time_def)
  then show ?thesis using assms
    by (cases f) (simp add: dict_to_fact_def carries_def fact_params_def prop_of_def prop_uuid_def prop_str_def
        prop_num_def prop_strs_def prop_time_def rmap_inverse)
qed

lemma dict_to_mention_carries:
  assumes "carries ''mention_id'' (show_nat i) (mention_params m) n"
  shows "dict_to_mention n = mk_mention (m\<lparr>em_id := i\<rparr>)"
proof -
  have "prop_opt prop_str (map_option PropStr v) = Inr v" for v
    by (rule prop_opt_map) (simp add: prop_str_def)
  then show ?thesis using assms
    by (cases m) (simp add: dict_to_mention_def carries_def mention_params_def prop_of_def prop_uuid_def prop_str_def prop_num_def)
qed

text \<open>The JSON library reads back what it wrote for the attributes of an entity.\<close>

definition json_round_trip :: "(json \<Rightarrow> string) \<Rightarrow> (string \<Rightarrow> exn + json) \<Rightarrow> (string \<times> json) list \<Rightarrow> bool" where
  "json_round_trip dumps loads a \<longleftrightarrow>
     loads ''{}'' = Inr (JObj []) \<and> dumps (JObj a) \<noteq> [] \<and> loads (dumps (JObj a)) = Inr (JObj a)"

lemma dict_to_entity_carries:
  assumes "carries ''entity_id'' (show_nat i) (entity_params dumps e) n" and "json_round_trip dumps loads (ce_attributes e)"
  shows "dict_to_entity loads n = Inr (e\<lparr>ce_id := i\<rparr>)"
  using assms
  by (cases e) (simp add: dict_to_entity_def carries_def entity_params_def got_prop_def prop_uuid_def prop_str_def
      prop_strs_def json_round_trip_def)

lemma entities_op:
  "g_entities (apply_op op g) = (case op of WriteEntity e \<Rightarrow> put (ce_id e) e (g_entities g) | _ \<Rightarrow> g_entities g)"
  by (cases op) (simp_all add: create_entity_def create_fact_def create_mention_def Let_def)

lemma vals_put_mem: "x \<in> set (vals (put k v d)) \<Longrightarrow> x = v \<or> x \<in> set (vals d)"
  by (induction d) (auto split: if_splits)

lemma written_entities:
  "e \<in> set (vals (g_entities (fold apply_op ops g))) \<Longrightarrow> e \<in> set (vals (g_entities g)) \<or> WriteEntity e \<in> set ops"
proof (induction ops arbitrary: g)
  case (Cons op ops)
  have "e \<in> set (vals (g_entities (apply_op op g))) \<Longrightarrow> e \<in> set (vals (g_entities g)) \<or> op = WriteEntity e"
    unfolding entities_op by (cases op) (auto dest: vals_put_mem simp del: set_map)
  then show ?case using Cons.IH [of "apply_op op g"] Cons.prems by auto
qed simp

lemma graph_inv_run: "graph_inv g \<Longrightarrow> graph_inv (fold apply_op ops g)"
  by (induction ops arbitrary: g) (simp_all add: graph_inv_op)

section \<open>Property\<close>

text \<open>C6: The nodes of the graph store the records. After any sequence of writes, overwriting and changes of
  status included, reading a fact, an entity or a mention from the properties that the statements left on
  its node gives what the store of records gives, so no property of an earlier version survives, and no
  value is lost or changed on its way through the parameters, as far as the JSON library reads back the
  attributes it wrote.\<close>

theorem nodes_store_the_records:
  assumes "\<forall>e. WriteEntity e \<in> set ops \<longrightarrow> json_round_trip dumps loads (ce_attributes e)"
  shows "let gn = fold (apply_node_op dumps) ops no_nodes; g = fold apply_op ops empty_graph in
     read_fact i gn = get_fact i g \<and> read_entity loads i gn = Inr (get_entity i g) \<and>
     rel_option (\<lambda>n m. dict_to_mention n = mk_mention (m\<lparr>em_id := i\<rparr>)) (map_of (gn_mentions gn) (show_nat i)) (map_of (g_mentions g) i)"
proof -
  let ?gn = "fold (apply_node_op dumps) ops no_nodes" and ?g = "fold apply_op ops empty_graph"
  have sim: "nodes_simulate dumps ?gn ?g" by (rule nodes_simulate_run [OF nodes_simulate_empty])
  have inv: "graph_inv ?g" by (rule graph_inv_run) (simp add: graph_inv_def empty_graph_def)
  have "read_fact i ?gn = get_fact i ?g"
  proof (rule simulates_cases [of "''fact_id''" fact_params "gn_facts ?gn" "g_facts ?g" i])
    fix n f assume nf: "map_of (gn_facts ?gn) (show_nat i) = Some n" "map_of (g_facts ?g) i = Some f"
      "carries ''fact_id'' (show_nat i) (fact_params f) n"
    have "kf_id f = i" using inv nf(2) keyed_map_of by (auto simp: graph_inv_def)
    then have "f\<lparr>kf_id := i\<rparr> = f" by (cases f) simp
    then show ?thesis using nf dict_to_fact_carries [OF nf(3)] by (simp add: read_fact_def get_fact_def)
  qed (use sim in \<open>auto simp: nodes_simulate_def read_fact_def get_fact_def\<close>)
  moreover have "read_entity loads i ?gn = Inr (get_entity i ?g)"
  proof (rule simulates_cases [of "''entity_id''" "entity_params dumps" "gn_entities ?gn" "g_entities ?g" i])
    fix n e assume ne: "map_of (gn_entities ?gn) (show_nat i) = Some n" "map_of (g_entities ?g) i = Some e"
      "carries ''entity_id'' (show_nat i) (entity_params dumps e) n"
    have "ce_id e = i" using inv ne(2) keyed_map_of by (auto simp: graph_inv_def)
    then have "e\<lparr>ce_id := i\<rparr> = e" by (cases e) simp
    moreover have "json_round_trip dumps loads (ce_attributes e)"
      using written_entities [of e ops empty_graph] assms map_of_SomeD [OF ne(2)] by (force simp: empty_graph_def)
    ultimately show ?thesis using ne dict_to_entity_carries [OF ne(3)] by (simp add: read_entity_def get_entity_def)
  qed (use sim in \<open>auto simp: nodes_simulate_def read_entity_def get_entity_def\<close>)
  moreover have "rel_option (\<lambda>n m. dict_to_mention n = mk_mention (m\<lparr>em_id := i\<rparr>))
      (map_of (gn_mentions ?gn) (show_nat i)) (map_of (g_mentions ?g) i)"
    using sim dict_to_mention_carries unfolding nodes_simulate_def simulates_def by (blast intro: option.rel_mono_strong)
  ultimately show ?thesis unfolding Let_def by blast
qed

text \<open>An entity with an attribute, and a fact that is superseded after it was written.\<close>

definition demo_dumps :: "json \<Rightarrow> string" where
  "demo_dumps j = (if j = JObj [(''a'', JBool True)] then ''{a: true}'' else ''null'')"

definition demo_loads :: "string \<Rightarrow> exn + json" where
  "demo_loads s =
     (if s = ''{}'' then Inr (JObj []) else if s = ''{a: true}'' then Inr (JObj [(''a'', JBool True)])
      else Inl (ValueError ''Expecting value''))"

definition demo_ops :: "graph_op list" where
  "demo_ops =
     [WriteEntity (demo_entity 1\<lparr>ce_attributes := [(''a'', JBool True)]\<rparr>), WriteFact demo_fact,
      WriteStatus 9 FSuperseded None]"

theorem nodes_store_the_records_witness:
  "read_fact 9 (fold (apply_node_op demo_dumps) demo_ops no_nodes) = Inr (Some (demo_fact\<lparr>kf_status := FSuperseded\<rparr>)) \<and>
   read_entity demo_loads 1 (fold (apply_node_op demo_dumps) demo_ops no_nodes) =
     Inr (Some (demo_entity 1\<lparr>ce_attributes := [(''a'', JBool True)]\<rparr>))"
proof -
  let ?g = "fold apply_op demo_ops empty_graph"
  have rt: "\<forall>e. WriteEntity e \<in> set demo_ops \<longrightarrow> json_round_trip demo_dumps demo_loads (ce_attributes e)"
    by (simp add: demo_ops_def json_round_trip_def demo_loads_def demo_dumps_def)
  have "get_fact 9 ?g = Inr (Some (demo_fact\<lparr>kf_status := FSuperseded\<rparr>))"
    "get_entity 1 ?g = Some (demo_entity 1\<lparr>ce_attributes := [(''a'', JBool True)]\<rparr>)"
    by (simp_all add: demo_ops_def get_fact_def get_entity_def create_fact_def create_entity_def set_status_def
        status_refused_def empty_graph_def demo_fact_def demo_entity_def Let_def mk_fact_iff fact_ok_def)
  with nodes_store_the_records [OF rt, of 9] nodes_store_the_records [OF rt, of 1] show ?thesis
    by (simp add: Let_def)
qed

end
