(* ===== verification/Fusion.thy ===== *)
theory Fusion
  imports GraphStore Complex_Main
begin

text \<open>
  Rank fusion and graph evidence: \<^verbatim>\<open>application/retrieval/fusion.py\<close> and
  \<^verbatim>\<open>application/retrieval/graph_fusion.py\<close>. Scores are exact rationals. The graph
  traversal takes the repository's reads as functions, and its facts satisfy what the locale of
  fact sources promises.
\<close>

section \<open>Reciprocal rank fusion (fusion.py)\<close>

record retrieved_chunk =
  rc_chunk :: uuid
  rc_source :: uuid
  rc_document :: "uuid option"
  rc_version :: "uuid option"
  rc_content :: string
  rc_vector :: "rat option"
  rc_keyword :: "rat option"
  rc_principals :: "string list"

record fusion_result =
  fr_chunk :: uuid
  fr_source :: uuid
  fr_document :: "uuid option"
  fr_version :: "uuid option"
  fr_content :: string
  fr_vector :: "rat option"
  fr_keyword :: "rat option"
  fr_rrf :: rat
  fr_principals :: "string list"

definition rrf_k :: nat where "rrf_k = 60"

definition fresh_entry :: "bool \<Rightarrow> retrieved_chunk \<Rightarrow> fusion_result" where
  "fresh_entry vec c =
     \<lparr>fr_chunk = rc_chunk c, fr_source = rc_source c, fr_document = rc_document c, fr_version = rc_version c,
      fr_content = rc_content c, fr_vector = (if vec then rc_vector c else None),
      fr_keyword = (if vec then None else rc_keyword c), fr_rrf = 0, fr_principals = rc_principals c\<rparr>"

definition add_rank :: "nat \<Rightarrow> bool \<Rightarrow> nat \<Rightarrow> retrieved_chunk \<Rightarrow> fusion_result \<Rightarrow> fusion_result" where
  "add_rank k vec rank c r =
     (let r' = r\<lparr>fr_rrf := fr_rrf r + 1 / of_nat (k + rank)\<rparr>
      in if vec then r'\<lparr>fr_vector := rc_vector c\<rparr> else r'\<lparr>fr_keyword := rc_keyword c\<rparr>)"

fun rrf_loop :: "nat \<Rightarrow> bool \<Rightarrow> nat \<Rightarrow> retrieved_chunk list \<Rightarrow> (uuid, fusion_result) dict \<Rightarrow> (uuid, fusion_result) dict" where
  "rrf_loop k vec rank [] d = d"
| "rrf_loop k vec rank (c # cs) d =
     (let r = (case map_of d (rc_chunk c) of Some r \<Rightarrow> r | None \<Rightarrow> fresh_entry vec c)
      in rrf_loop k vec (Suc rank) cs (put (rc_chunk c) (add_rank k vec rank c r) d))"

definition reciprocal_rank_fusion :: "nat \<Rightarrow> retrieved_chunk list \<Rightarrow> retrieved_chunk list \<Rightarrow> fusion_result list" where
  "reciprocal_rank_fusion k vector keyword =
     sort_desc fr_rrf (vals (rrf_loop k False 1 keyword (rrf_loop k True 1 vector [])))"

text \<open>The formula of the docstring: the sum of the reciprocal ranks.\<close>

fun rank_sum :: "nat \<Rightarrow> nat \<Rightarrow> uuid \<Rightarrow> retrieved_chunk list \<Rightarrow> rat" where
  "rank_sum k rank cid [] = 0"
| "rank_sum k rank cid (c # cs) =
     (if rc_chunk c = cid then 1 / of_nat (k + rank) else 0) + rank_sum k (Suc rank) cid cs"

definition entry_score :: "(uuid, fusion_result) dict \<Rightarrow> uuid \<Rightarrow> rat" where
  "entry_score d cid = (case map_of d cid of Some r \<Rightarrow> fr_rrf r | None \<Rightarrow> 0)"

definition fusion_inv :: "(uuid, fusion_result) dict \<Rightarrow> bool" where
  "fusion_inv d \<longleftrightarrow> keyed fr_chunk d"

lemma fr_add_rank [simp]:
  "fr_chunk (add_rank k vec n c r) = fr_chunk r" "fr_rrf (add_rank k vec n c r) = fr_rrf r + 1 / of_nat (k + n)"
  "fr_source (add_rank k vec n c r) = fr_source r" "fr_principals (add_rank k vec n c r) = fr_principals r"
  "fr_content (add_rank k vec n c r) = fr_content r"
  "fr_document (add_rank k vec n c r) = fr_document r" "fr_version (add_rank k vec n c r) = fr_version r"
  by (simp_all add: add_rank_def Let_def)

lemma rrf_loop_inv: "keyed fr_chunk d \<Longrightarrow> keyed fr_chunk (rrf_loop k vec rank cs d)"
proof (induction k vec rank cs d rule: rrf_loop.induct)
  case (2 k vec rank c cs d)
  have "fr_chunk (case map_of d (rc_chunk c) of Some r \<Rightarrow> r | None \<Rightarrow> fresh_entry vec c) = rc_chunk c"
    using keyed_map_of [OF 2(2)] by (auto simp: fresh_entry_def split: option.splits)
  then show ?case using 2 by (simp add: Let_def keyed_put)
qed simp

lemma rrf_loop_score:
  "entry_score (rrf_loop k vec rank cs d) cid = entry_score d cid + rank_sum k rank cid cs"
proof (induction k vec rank cs d rule: rrf_loop.induct)
  case (2 k vec rank c cs d)
  show ?case using 2 [OF refl]
    by (auto simp: Let_def entry_score_def fresh_entry_def split: option.splits)
qed simp

lemma rrf_loop_keys: "set (keys (rrf_loop k vec rank cs d)) = set (keys d) \<union> rc_chunk ` set cs"
  by (induction k vec rank cs d rule: rrf_loop.induct) (auto simp: Let_def simp del: set_map)

text \<open>An entry keeps the identity, content and principals of the chunk that made it.\<close>

definition from_chunk :: "retrieved_chunk \<Rightarrow> fusion_result \<Rightarrow> bool" where
  "from_chunk c r \<longleftrightarrow> fr_chunk r = rc_chunk c \<and> fr_source r = rc_source c \<and> fr_principals r = rc_principals c \<and>
     fr_content r = rc_content c \<and> fr_document r = rc_document c \<and> fr_version r = rc_version c"

lemma rrf_loop_origin:
  "\<forall>r \<in> set (vals d). \<exists>c \<in> C. from_chunk c r \<Longrightarrow> set cs \<subseteq> C \<Longrightarrow> keyed fr_chunk d \<Longrightarrow>
   \<forall>r \<in> set (vals (rrf_loop k vec rank cs d)). \<exists>c \<in> C. from_chunk c r"
proof (induction k vec rank cs d rule: rrf_loop.induct)
  case (2 k vec rank c cs d)
  let ?r = "case map_of d (rc_chunk c) of Some r \<Rightarrow> r | None \<Rightarrow> fresh_entry vec c"
  have "\<exists>c \<in> C. from_chunk c ?r"
  proof (cases "map_of d (rc_chunk c)")
    case None
    then show ?thesis using 2(3) by (auto simp: from_chunk_def fresh_entry_def)
  next
    case (Some r)
    then have "r \<in> set (vals d)" by (metis image_set imageI map_of_SomeD snd_conv)
    then show ?thesis using 2(2) Some by (simp del: set_map)
  qed
  then have new: "\<exists>c' \<in> C. from_chunk c' (add_rank k vec rank c ?r)" by (auto simp: from_chunk_def)
  let ?d = "put (rc_chunk c) (add_rank k vec rank c ?r) d"
  have "\<forall>r \<in> set (vals ?d). \<exists>c \<in> C. from_chunk c r"
    using new 2(2) put_pairs [of d "rc_chunk c"] 2(4) by (auto simp: keyed_def)
  moreover have "keyed fr_chunk ?d"
    using rrf_loop_inv [OF 2(4), of k vec rank "[c]"] by (simp add: Let_def)
  moreover have "set cs \<subseteq> C" using 2(3) by simp
  ultimately have "\<forall>r \<in> set (vals (rrf_loop k vec (Suc rank) cs ?d)). \<exists>c \<in> C. from_chunk c r"
    using 2(1) [OF refl] by blast
  then show ?case by (simp only: rrf_loop.simps Let_def)
qed simp

section \<open>Graph traversal (graph_fusion.py)\<close>

definition traversal_limit :: nat where "traversal_limit = 50"

definition temporal_valid :: "knowledge_fact \<Rightarrow> int option \<Rightarrow> bool" where
  "temporal_valid f valid_at =
     (case valid_at of
        None \<Rightarrow> True
      | Some t \<Rightarrow> \<not> (case kf_valid_from f of Some a \<Rightarrow> instant a > t | None \<Rightarrow> False) \<and>
                  \<not> (case kf_valid_to f of Some b \<Rightarrow> instant b \<le> t | None \<Rightarrow> False))"

record found_fact =
  ff_fact :: knowledge_fact
  ff_depth :: nat
  ff_subject_name :: string
  ff_object_name :: string
  ff_path :: "uuid list"

type_synonym fact_reader = "uuid option \<Rightarrow> string option \<Rightarrow> uuid option \<Rightarrow> fact_status option \<Rightarrow>
  string list option \<Rightarrow> string option \<Rightarrow> exn + knowledge_fact list"

type_synonym frontier = "(uuid \<times> nat \<times> uuid list) list"

record traversal =
  tr_results :: "found_fact list"
  tr_seen :: "(uuid \<times> uuid) list"
  tr_queue :: frontier

definition entity_name :: "(uuid \<Rightarrow> canonical_entity option) \<Rightarrow> uuid \<Rightarrow> string" where
  "entity_name ent eid = (case ent eid of Some e \<Rightarrow> ce_name e | None \<Rightarrow> show_nat eid)"

text \<open>One loop over the facts of the current entity, in either direction: \<^verbatim>\<open>fwd\<close>
  says whether the entity is the subject.\<close>

fun visit_facts ::
  "(uuid \<Rightarrow> canonical_entity option) \<Rightarrow> int option \<Rightarrow> bool \<Rightarrow> uuid \<Rightarrow> nat \<Rightarrow> uuid list \<Rightarrow> knowledge_fact list \<Rightarrow>
   traversal \<Rightarrow> traversal" where
  "visit_facts ent moment fwd cur depth path [] t = t"
| "visit_facts ent moment fwd cur depth path (f # fs) t =
     (if (cur, kf_id f) \<in> set (tr_seen t) \<or> \<not> temporal_valid f moment
      then visit_facts ent moment fwd cur depth path fs t
      else let other = (if fwd then kf_object f else kf_subject f);
               path' = path @ [kf_id f];
               found = \<lparr>ff_fact = f, ff_depth = depth,
                 ff_subject_name = (if fwd then entity_name ent cur else entity_name ent other),
                 ff_object_name = (if fwd then entity_name ent other else entity_name ent cur), ff_path = path'\<rparr>
           in visit_facts ent moment fwd cur depth path fs
                \<lparr>tr_results = tr_results t @ [found], tr_seen = (cur, kf_id f) # tr_seen t,
                 tr_queue = tr_queue t @ [(other, Suc depth, path')]\<rparr>)"

definition expand ::
  "(uuid \<Rightarrow> canonical_entity option) \<Rightarrow> fact_reader \<Rightarrow> string list \<Rightarrow> int option \<Rightarrow> string list option \<Rightarrow> string option \<Rightarrow>
   uuid \<Rightarrow> nat \<Rightarrow> uuid list \<Rightarrow> traversal \<Rightarrow> exn + traversal" where
  "expand ent facts predicates moment allowed tenant cur depth path t =
     (let predicate = (case predicates of [] \<Rightarrow> None | p # _ \<Rightarrow> Some p)
      in rbind (facts (Some cur) predicate None (Some FVerified) allowed tenant) (\<lambda>out.
           let t1 = visit_facts ent moment True cur depth path out t
           in rbind (facts None predicate (Some cur) (Some FVerified) allowed tenant) (\<lambda>inc.
                Inr (visit_facts ent moment False cur depth path inc t1))))"

text \<open>Every entry taken from the queue is replaced by entries one step deeper, so the multiset of
  the distances to the maximal depth falls.\<close>

definition left_depth :: "nat \<Rightarrow> frontier \<Rightarrow> nat multiset" where
  "left_depth mx q = mset (map (\<lambda>(_, d, _). Suc mx - d) q)"

lemma visit_facts_queue:
  "\<exists>q. tr_queue (visit_facts ent moment fwd cur depth path fs t) = tr_queue t @ q \<and> (\<forall>(e, d, p) \<in> set q. d = Suc depth)"
proof (induction ent moment fwd cur depth path fs t rule: visit_facts.induct)
  case (2 ent moment fwd cur depth path f fs t)
  show ?case
  proof (cases "(cur, kf_id f) \<in> set (tr_seen t) \<or> \<not> temporal_valid f moment")
    case True
    then show ?thesis using 2(1) by simp
  next
    case False
    then show ?thesis using 2(2) [OF False refl refl refl] by (fastforce simp: Let_def)
  qed
qed simp

lemma expand_queue:
  assumes "expand ent facts predicates moment allowed tenant cur depth path t = Inr t'"
  shows "\<exists>q. tr_queue t' = tr_queue t @ q \<and> (\<forall>(e, d, p) \<in> set q. d = Suc depth)"
proof -
  from assms obtain out inc where t': "t' = visit_facts ent moment False cur depth path inc (visit_facts ent moment True cur depth path out t)"
    by (auto simp: expand_def Let_def)
  obtain q1 where q1: "tr_queue (visit_facts ent moment True cur depth path out t) = tr_queue t @ q1" "\<forall>(e, d, p) \<in> set q1. d = Suc depth"
    using visit_facts_queue by blast
  obtain q2 where "tr_queue t' = tr_queue (visit_facts ent moment True cur depth path out t) @ q2" "\<forall>(e, d, p) \<in> set q2. d = Suc depth"
    unfolding t' using visit_facts_queue by blast
  then show ?thesis using q1 by (intro exI [of _ "q1 @ q2"]) auto
qed

lemma left_depth_decreases:
  assumes "\<forall>(e, d, p) \<in> set new. d = Suc depth" and "depth \<le> mx"
  shows "(left_depth mx (q @ new), left_depth mx ((cur, depth, path) # q)) \<in> mult less_than"
proof -
  have "left_depth mx (q @ new) = left_depth mx q + left_depth mx new"
    by (simp add: left_depth_def)
  moreover have "left_depth mx ((cur, depth, path) # q) = left_depth mx q + {#Suc mx - depth#}"
    by (simp add: left_depth_def)
  moreover have "\<forall>k \<in> set_mset (left_depth mx new). \<exists>j \<in> set_mset {#Suc mx - depth#}. (k, j) \<in> less_than"
    using assms by (fastforce simp: left_depth_def)
  ultimately show ?thesis
    using one_step_implies_mult [of "{#Suc mx - depth#}" "left_depth mx new" less_than "left_depth mx q"] by simp
qed

function traverse_loop ::
  "(uuid \<Rightarrow> canonical_entity option) \<Rightarrow> fact_reader \<Rightarrow> string list \<Rightarrow> int option \<Rightarrow> nat \<Rightarrow> string list option \<Rightarrow>
   string option \<Rightarrow> found_fact list \<Rightarrow> (uuid \<times> uuid) list \<Rightarrow> frontier \<Rightarrow> exn + found_fact list" where
  "traverse_loop ent facts predicates moment mx allowed tenant results seen [] = Inr results"
| "traverse_loop ent facts predicates moment mx allowed tenant results seen ((cur, depth, path) # q) =
     (if length results \<ge> traversal_limit then Inr results
      else if depth > mx then traverse_loop ent facts predicates moment mx allowed tenant results seen q
      else (case expand ent facts predicates moment allowed tenant cur depth path
                   \<lparr>tr_results = results, tr_seen = seen, tr_queue = q\<rparr> of
              Inl e \<Rightarrow> Inl e
            | Inr t \<Rightarrow> traverse_loop ent facts predicates moment mx allowed tenant (tr_results t) (tr_seen t) (tr_queue t)))"
  by pat_completeness auto
termination traverse_loop
proof (relation "inv_image (mult less_than) (\<lambda>(_, _, _, _, mx, _, _, _, _, q). left_depth mx q)", goal_cases)
  case (2 ent facts predicates moment mx allowed tenant results seen cur depth path q)
  have "left_depth mx ((cur, depth, path) # q) = left_depth mx q + {#0#}" using 2(2) by (simp add: left_depth_def)
  then show ?case using one_step_implies_mult [of "{#0#}" "{#}" less_than "left_depth mx q"] by simp
next
  case (3 ent facts predicates moment mx allowed tenant results seen cur depth path q t)
  from expand_queue [OF 3(3)] obtain new where "tr_queue t = q @ new" "\<forall>(e, d, p) \<in> set new. d = Suc depth" by auto
  then show ?case using left_depth_decreases 3(2) by simp
qed (simp add: wf_mult)

definition traverse ::
  "(uuid \<Rightarrow> canonical_entity option) \<Rightarrow> fact_reader \<Rightarrow> string list \<Rightarrow> int option \<Rightarrow> nat \<Rightarrow> string list option \<Rightarrow>
   string option \<Rightarrow> uuid \<Rightarrow> exn + found_fact list" where
  "traverse ent facts predicates moment mx allowed tenant seed =
     traverse_loop ent facts predicates moment mx allowed tenant [] [] [(seed, 1, [])]"

text \<open>\<^verbatim>\<open>retrieve_evidence\<close>: the printed score, which depends on depth, age and
  clock, is an argument.\<close>

definition graph_evidence_of :: "(nat \<Rightarrow> knowledge_fact \<Rightarrow> string) \<Rightarrow> found_fact \<Rightarrow> exn + evidence" where
  "graph_evidence_of score_text ff =
     (let f = ff_fact ff; first = (case kf_evidence_ids f of [] \<Rightarrow> None | e # _ \<Rightarrow> Some e)
      in mk_evidence
        \<lparr>ev_id = kf_id f, ev_source = (case first of Some e \<Rightarrow> e | None \<Rightarrow> kf_id f), ev_document = None,
         ev_chunk = first, ev_version = None, ev_record = None,
         ev_content = ff_subject_name ff @ '' '' @ kf_predicate f @ '' '' @ ff_object_name ff @
           '' (confidence: '' @ score_text (ff_depth ff) f @ '')'',
         ev_method = MGraph, ev_vector_score = None, ev_rerank_score = None, ev_path = ff_path ff,
         ev_valid_from = kf_valid_from f, ev_valid_to = kf_valid_to f, ev_principals = kf_principals f\<rparr>)"

fun collect_evidence ::
  "(nat \<Rightarrow> knowledge_fact \<Rightarrow> string) \<Rightarrow> found_fact list \<Rightarrow> uuid list \<Rightarrow> evidence list \<Rightarrow> exn + uuid list \<times> evidence list" where
  "collect_evidence score_text [] seen out = Inr (seen, out)"
| "collect_evidence score_text (ff # ffs) seen out =
     (if kf_id (ff_fact ff) \<in> set seen then collect_evidence score_text ffs seen out
      else rbind (graph_evidence_of score_text ff)
             (\<lambda>e. collect_evidence score_text ffs (kf_id (ff_fact ff) # seen) (out @ [e])))"

fun retrieve_loop ::
  "(uuid \<Rightarrow> exn + found_fact list) \<Rightarrow> (nat \<Rightarrow> knowledge_fact \<Rightarrow> string) \<Rightarrow> canonical_entity list \<Rightarrow> uuid list \<Rightarrow>
   evidence list \<Rightarrow> exn + evidence list" where
  "retrieve_loop trav score_text [] seen out = Inr out"
| "retrieve_loop trav score_text (e # es) seen out =
     rbind (trav (ce_id e)) (\<lambda>ffs.
       rbind (collect_evidence score_text ffs seen out) (\<lambda>(seen', out'). retrieve_loop trav score_text es seen' out'))"

definition retrieve_evidence ::
  "(uuid \<Rightarrow> canonical_entity option) \<Rightarrow> fact_reader \<Rightarrow> (nat \<Rightarrow> knowledge_fact \<Rightarrow> string) \<Rightarrow> canonical_entity list \<Rightarrow>
   string list \<Rightarrow> int option \<Rightarrow> nat \<Rightarrow> string option \<Rightarrow> string \<Rightarrow> exn + evidence list" where
  "retrieve_evidence ent facts score_text seeds predicates moment mx tenant prin =
     (if seeds = [] then Inr []
      else retrieve_loop (traverse ent facts predicates moment mx (if prin = [] then None else Some [prin]) tenant)
             score_text seeds [] [])"

section \<open>Hybrid fusion (graph_fusion.py)\<close>

text \<open>The three keys that only entries made from graph evidence have are optional: a missing key is
  \<^const>\<open>None\<close>.\<close>

record hybrid_entry =
  he_id :: uuid
  he_source :: uuid
  he_document :: "uuid option"
  he_version :: "uuid option"
  he_chunk :: "uuid option"
  he_content :: string
  he_vector :: "rat option"
  he_keyword :: "rat option"
  he_graph :: "rat option"
  he_rrf :: rat
  he_principals :: "string list"
  he_path :: "uuid list option"
  he_valid :: "(datetime option \<times> datetime option) option"

type_synonym hybrid_scores = "(uuid, hybrid_entry) dict"

definition chunk_entry :: "bool \<Rightarrow> uuid \<Rightarrow> retrieved_chunk \<Rightarrow> hybrid_entry" where
  "chunk_entry vec eid c =
     \<lparr>he_id = eid, he_source = rc_source c, he_document = rc_document c, he_version = rc_version c,
      he_chunk = Some (rc_chunk c), he_content = rc_content c, he_vector = (if vec then rc_vector c else None),
      he_keyword = (if vec then None else rc_keyword c), he_graph = None, he_rrf = 0,
      he_principals = rc_principals c, he_path = None, he_valid = None\<rparr>"

fun hybrid_chunks :: "bool \<Rightarrow> (uuid \<Rightarrow> uuid) \<Rightarrow> nat \<Rightarrow> retrieved_chunk list \<Rightarrow> hybrid_scores \<Rightarrow> hybrid_scores" where
  "hybrid_chunks vec fresh rank [] d = d"
| "hybrid_chunks vec fresh rank (c # cs) d =
     (let r = (case map_of d (rc_chunk c) of Some r \<Rightarrow> r | None \<Rightarrow> chunk_entry vec (fresh (rc_chunk c)) c)
      in hybrid_chunks vec fresh (Suc rank) cs
           (put (rc_chunk c) (r\<lparr>he_rrf := he_rrf r + 1 / of_nat (rrf_k + rank)\<rparr>) d))"

definition graph_contrib :: "nat \<Rightarrow> rat" where
  "graph_contrib rank = 1 / of_nat (rrf_k + rank) * (3 / 2)"

definition graph_entry :: "nat \<Rightarrow> evidence \<Rightarrow> hybrid_entry" where
  "graph_entry rank g =
     \<lparr>he_id = ev_id g, he_source = ev_source g, he_document = None, he_version = None, he_chunk = None,
      he_content = ev_content g, he_vector = None, he_keyword = None, he_graph = Some (graph_contrib rank),
      he_rrf = graph_contrib rank, he_principals = ev_principals g, he_path = Some (ev_path g),
      he_valid = Some (ev_valid_from g, ev_valid_to g)\<rparr>"

text \<open>\<^verbatim>\<open>_merge_temporal\<close>: adding to a score that is \<^verbatim>\<open>None\<close> raises, and so
  does reading a missing key.\<close>

definition earlier :: "datetime option \<Rightarrow> datetime option \<Rightarrow> datetime option" where
  "earlier new old = (case (new, old) of
     (Some n, Some b) \<Rightarrow> if instant n < instant b then Some n else Some b
   | (Some n, None) \<Rightarrow> Some n | (None, _) \<Rightarrow> old)"

definition later :: "datetime option \<Rightarrow> datetime option \<Rightarrow> datetime option" where
  "later new old = (case (new, old) of
     (Some n, Some b) \<Rightarrow> if instant n > instant b then Some n else Some b
   | (Some n, None) \<Rightarrow> Some n | (None, _) \<Rightarrow> old)"

definition merge_temporal :: "nat \<Rightarrow> evidence \<Rightarrow> hybrid_entry \<Rightarrow> exn + hybrid_entry" where
  "merge_temporal rank g r =
     (case he_graph r of
        None \<Rightarrow> Inl (TypeError ''unsupported operand type(s) for +: NoneType and float'')
      | Some s \<Rightarrow>
         let r1 = r\<lparr>he_rrf := he_rrf r + graph_contrib rank, he_graph := Some (s + graph_contrib rank),
                    he_path := Some (remdups ((case he_path r of Some p \<Rightarrow> p | None \<Rightarrow> []) @ ev_path g))\<rparr>
         in (case he_valid r of
               Some (a, b) \<Rightarrow> Inr (r1\<lparr>he_valid := Some (earlier (ev_valid_from g) a, later (ev_valid_to g) b)\<rparr>)
             | None \<Rightarrow> if ev_valid_from g = None \<and> ev_valid_to g = None then Inr r1
                       else Inl (KeyError ''valid_from'')))"

fun hybrid_graph :: "nat \<Rightarrow> evidence list \<Rightarrow> hybrid_scores \<Rightarrow> exn + hybrid_scores" where
  "hybrid_graph rank [] d = Inr d"
| "hybrid_graph rank (g # gs) d =
     (case map_of d (ev_id g) of
        None \<Rightarrow> hybrid_graph (Suc rank) gs (put (ev_id g) (graph_entry rank g) d)
      | Some r \<Rightarrow> rbind (merge_temporal rank g r) (\<lambda>r'. hybrid_graph (Suc rank) gs (put (ev_id g) r' d)))"

text \<open>A score of zero is as false as a missing one.\<close>

definition truthy :: "rat option \<Rightarrow> bool" where
  "truthy s = (case s of Some x \<Rightarrow> x \<noteq> 0 | None \<Rightarrow> False)"

definition determine_method :: "hybrid_entry \<Rightarrow> retrieval_method" where
  "determine_method r = (if truthy (he_graph r) then MGraph else if truthy (he_vector r) then MVector else MKeyword)"

definition hybrid_evidence :: "hybrid_entry \<Rightarrow> exn + evidence" where
  "hybrid_evidence r = mk_evidence
     \<lparr>ev_id = he_id r, ev_source = he_source r, ev_document = he_document r, ev_chunk = he_chunk r,
      ev_version = he_version r, ev_record = None, ev_content = he_content r, ev_method = determine_method r,
      ev_vector_score = he_vector r, ev_rerank_score = None,
      ev_path = (case he_path r of Some p \<Rightarrow> p | None \<Rightarrow> []),
      ev_valid_from = (case he_valid r of Some (a, _) \<Rightarrow> a | None \<Rightarrow> None),
      ev_valid_to = (case he_valid r of Some (_, b) \<Rightarrow> b | None \<Rightarrow> None), ev_principals = he_principals r\<rparr>"

definition hybrid_rrf_fusion ::
  "(uuid \<Rightarrow> uuid) \<Rightarrow> retrieved_chunk list \<Rightarrow> retrieved_chunk list \<Rightarrow> evidence list \<Rightarrow> exn + evidence list" where
  "hybrid_rrf_fusion fresh vector keyword graph =
     rbind (hybrid_graph 1 graph (hybrid_chunks False fresh 1 keyword (hybrid_chunks True fresh 1 vector [])))
       (\<lambda>d. rmap hybrid_evidence (dedup_by he_source [] (sort_desc he_rrf (vals d))))"

text \<open>A piece of evidence made from a chunk carries the chunk's identifiers, content and principals; one made
  from a fact the fact's identifier, first evidence and principals. Fusion keeps the identity of a piece.\<close>

definition of_chunk :: "retrieved_chunk \<Rightarrow> evidence \<Rightarrow> bool" where
  "of_chunk c e \<longleftrightarrow> ev_chunk e = Some (rc_chunk c) \<and> ev_source e = rc_source c \<and> ev_document e = rc_document c \<and>
     ev_version e = rc_version c \<and> ev_content e = rc_content c \<and> ev_principals e = rc_principals c"

definition of_fact :: "knowledge_fact \<Rightarrow> evidence \<Rightarrow> bool" where
  "of_fact f e \<longleftrightarrow> ev_id e = kf_id f \<and> ev_source e = (case kf_evidence_ids f of [] \<Rightarrow> kf_id f | i # _ \<Rightarrow> i) \<and>
     ev_principals e = kf_principals f"

definition same_piece :: "evidence \<Rightarrow> evidence \<Rightarrow> bool" where
  "same_piece g e \<longleftrightarrow> ev_id e = ev_id g \<and> ev_source e = ev_source g \<and> ev_principals e = ev_principals g \<and>
     ev_content e = ev_content g"

section \<open>Lemmas about the traversal\<close>

definition found_ok :: "(knowledge_fact \<Rightarrow> bool) \<Rightarrow> int option \<Rightarrow> nat \<Rightarrow> found_fact \<Rightarrow> bool" where
  "found_ok Q moment mx ff \<longleftrightarrow> Q (ff_fact ff) \<and> temporal_valid (ff_fact ff) moment \<and> 1 \<le> ff_depth ff \<and>
     ff_depth ff \<le> mx \<and> length (ff_path ff) = ff_depth ff \<and> last (ff_path ff) = kf_id (ff_fact ff)"

definition frontier_ok :: "frontier \<Rightarrow> bool" where
  "frontier_ok q \<longleftrightarrow> (\<forall>(e, d, p) \<in> set q. 1 \<le> d \<and> length p = d - 1)"

lemma visit_facts_ok:
  "\<forall>f \<in> set fs. Q f \<Longrightarrow> 1 \<le> depth \<Longrightarrow> depth \<le> mx \<Longrightarrow> length path = depth - 1 \<Longrightarrow>
   \<forall>ff \<in> set (tr_results t). found_ok Q moment mx ff \<Longrightarrow> frontier_ok (tr_queue t) \<Longrightarrow>
   (\<forall>ff \<in> set (tr_results (visit_facts ent moment fwd cur depth path fs t)). found_ok Q moment mx ff) \<and>
   frontier_ok (tr_queue (visit_facts ent moment fwd cur depth path fs t)) \<and>
   length (tr_results (visit_facts ent moment fwd cur depth path fs t)) \<le> length (tr_results t) + length fs"
proof (induction ent moment fwd cur depth path fs t rule: visit_facts.induct)
  case (2 ent moment fwd cur depth path f fs t)
  show ?case
  proof (cases "(cur, kf_id f) \<in> set (tr_seen t) \<or> \<not> temporal_valid f moment")
    case True
    then show ?thesis using 2(1) [OF True] 2(3-) by simp
  next
    case False
    let ?other = "if fwd then kf_object f else kf_subject f"
    let ?found = "\<lparr>ff_fact = f, ff_depth = depth,
      ff_subject_name = (if fwd then entity_name ent cur else entity_name ent ?other),
      ff_object_name = (if fwd then entity_name ent ?other else entity_name ent cur), ff_path = path @ [kf_id f]\<rparr>"
    let ?t = "\<lparr>tr_results = tr_results t @ [?found], tr_seen = (cur, kf_id f) # tr_seen t,
      tr_queue = tr_queue t @ [(?other, Suc depth, path @ [kf_id f])]\<rparr>"
    have step: "visit_facts ent moment fwd cur depth path (f # fs) t = visit_facts ent moment fwd cur depth path fs ?t"
      using False by (simp add: Let_def)
    have "found_ok Q moment mx ?found" using 2(3-6) False by (simp add: found_ok_def)
    then have found: "\<forall>ff \<in> set (tr_results ?t). found_ok Q moment mx ff" using 2(7) by auto
    have queue: "frontier_ok (tr_queue ?t)" using 2(4,6,8) by (auto simp: frontier_ok_def)
    have rest: "\<forall>f \<in> set fs. Q f" using 2(3) by simp
    from 2(2) [OF False refl refl refl rest 2(4-6) found queue] show ?thesis unfolding step by auto
  qed
qed simp

lemma traverse_loop_ok:
  "(\<And>subj obj fs f. facts subj (case predicates of [] \<Rightarrow> None | p # _ \<Rightarrow> Some p) obj (Some FVerified) allowed tenant = Inr fs \<Longrightarrow>
      length fs \<le> cap \<and> (f \<in> set fs \<longrightarrow> Q f)) \<Longrightarrow>
   traverse_loop ent facts predicates moment mx allowed tenant results seen q = Inr out \<Longrightarrow>
   \<forall>ff \<in> set results. found_ok Q moment mx ff \<Longrightarrow> frontier_ok q \<Longrightarrow>
   length results < traversal_limit + 2 * cap \<Longrightarrow>
   (\<forall>ff \<in> set out. found_ok Q moment mx ff) \<and> length out < traversal_limit + 2 * cap"
proof (induction ent facts predicates moment mx allowed tenant results seen q rule: traverse_loop.induct)
  case (2 ent facts predicates moment mx allowed tenant results seen cur depth path q)
  let ?t0 = "\<lparr>tr_results = results, tr_seen = seen, tr_queue = q\<rparr>"
  have fr: "1 \<le> depth" "length path = depth - 1" "frontier_ok q" using 2(6) by (simp_all add: frontier_ok_def)
  consider "length results \<ge> traversal_limit" | "length results < traversal_limit" "depth > mx"
    | "length results < traversal_limit" "depth \<le> mx" by linarith
  then show ?case
  proof cases
    case 1
    then show ?thesis using 2(4,5,7) by simp
  next
    case c: 2
    then show ?thesis using 2(1) [OF _ c(2) 2(3) _ 2(5) fr(3) 2(7)] 2(4) by simp
  next
    case c: 3
    then obtain t where t: "expand ent facts predicates moment allowed tenant cur depth path ?t0 = Inr t"
      "traverse_loop ent facts predicates moment mx allowed tenant (tr_results t) (tr_seen t) (tr_queue t) = Inr out"
      using 2(4) by (auto split: sum.splits)
    from t(1) obtain xs ys where
      xs: "facts (Some cur) (case predicates of [] \<Rightarrow> None | p # _ \<Rightarrow> Some p) None (Some FVerified) allowed tenant = Inr xs" and
      ys: "facts None (case predicates of [] \<Rightarrow> None | p # _ \<Rightarrow> Some p) (Some cur) (Some FVerified) allowed tenant = Inr ys" and
      te: "t = visit_facts ent moment False cur depth path ys (visit_facts ent moment True cur depth path xs ?t0)"
      by (auto simp: expand_def Let_def)
    have q: "\<forall>f \<in> set xs. Q f" "\<forall>f \<in> set ys. Q f" "length xs \<le> cap" "length ys \<le> cap"
      using 2(3) [OF xs] 2(3) [OF ys] by blast+
    from visit_facts_ok [OF q(1) fr(1) c(2) fr(2), of ?t0 moment ent True cur] 2(5) fr(3)
    have v1: "\<forall>ff \<in> set (tr_results (visit_facts ent moment True cur depth path xs ?t0)). found_ok Q moment mx ff"
      "frontier_ok (tr_queue (visit_facts ent moment True cur depth path xs ?t0))"
      "length (tr_results (visit_facts ent moment True cur depth path xs ?t0)) \<le> length results + length xs" by auto
    from visit_facts_ok [OF q(2) fr(1) c(2) fr(2) v1(1,2), of ent False cur] v1(3) q c(1)
    have "\<forall>ff \<in> set (tr_results t). found_ok Q moment mx ff" "frontier_ok (tr_queue t)"
      "length (tr_results t) < traversal_limit + 2 * cap" unfolding te by auto
    then show ?thesis using 2(2) [OF _ _ t(1) 2(3) t(2)] c by simp
  qed
qed simp

lemma traverse_ok:
  assumes "\<And>subj obj fs f. facts subj (case predicates of [] \<Rightarrow> None | p # _ \<Rightarrow> Some p) obj (Some FVerified) allowed tenant = Inr fs \<Longrightarrow>
      length fs \<le> cap \<and> (f \<in> set fs \<longrightarrow> Q f)"
    and "traverse ent facts predicates moment mx allowed tenant seed = Inr out"
  shows "(\<forall>ff \<in> set out. found_ok Q moment mx ff) \<and> length out < traversal_limit + 2 * cap"
  using traverse_loop_ok [of facts predicates allowed tenant cap Q ent moment mx "[]" "[]" "[(seed, 1, [])]" out] assms
  by (simp add: traverse_def frontier_ok_def traversal_limit_def)

text \<open>What the facts of a source promise, every traversal over it keeps.\<close>

context fact_source
begin

lemma traverse_from_facts:
  assumes "traverse ent facts predicates moment mx (Some ps) (Some t) seed = Inr out" and "ff \<in> set out"
    and "\<And>subj p obj fs. facts subj p obj (Some FVerified) (Some ps) (Some t) = Inr fs \<Longrightarrow> length fs \<le> cap"
    and "\<And>subj p obj fs f. facts subj p obj (Some FVerified) (Some ps) (Some t) = Inr fs \<Longrightarrow> f \<in> set fs \<Longrightarrow> Q f"
  shows "Q (ff_fact ff)"
proof -
  have "\<forall>ff \<in> set out. found_ok Q moment mx ff"
    using traverse_ok [OF _ assms(1), of cap Q] assms(3,4) by blast
  then show ?thesis using assms(2) by (auto simp: found_ok_def)
qed

lemma traverse_authorised:
  assumes "traverse ent facts predicates moment mx (Some ps) (Some t) seed = Inr out" and "ff \<in> set out"
    and "\<And>subj p obj fs. facts subj p obj (Some FVerified) (Some ps) (Some t) = Inr fs \<Longrightarrow> length fs \<le> cap"
  shows "kf_status (ff_fact ff) = FVerified \<and> kf_tenant (ff_fact ff) = t \<and> fact_visible ps (ff_fact ff) \<and>
    kf_evidence_ids (ff_fact ff) \<noteq> [] \<and> found_ok (\<lambda>_. True) moment mx ff"
proof -
  let ?Q = "\<lambda>f. kf_status f = FVerified \<and> kf_tenant f = t \<and> fact_visible ps f \<and> kf_evidence_ids f \<noteq> []"
  have "\<forall>ff \<in> set out. found_ok ?Q moment mx ff"
    using traverse_ok [OF _ assms(1), of cap ?Q] facts_verified assms(3) by blast
  then show ?thesis using assms(2) by (auto simp: found_ok_def)
qed

end

lemma graph_evidence_of_ok:
  "graph_evidence_of score_text ff = Inr e \<Longrightarrow> ev_id e = kf_id (ff_fact ff) \<and> ev_path e = ff_path ff \<and>
     ev_principals e = kf_principals (ff_fact ff) \<and> ev_method e = MGraph \<and> of_fact (ff_fact ff) e"
  by (auto simp: graph_evidence_of_def Let_def mk_evidence_iff of_fact_def split: list.splits)

lemma collect_evidence_ok:
  "collect_evidence score_text ffs seen out = Inr (seen', out') \<Longrightarrow>
   distinct (map ev_id out) \<Longrightarrow> set seen = ev_id ` set out \<Longrightarrow>
   distinct (map ev_id out') \<and> set seen' = ev_id ` set out' \<and>
   (\<forall>e \<in> set out'. e \<in> set out \<or> (\<exists>ff \<in> set ffs. graph_evidence_of score_text ff = Inr e))"
proof (induction score_text ffs seen out arbitrary: seen' out' rule: collect_evidence.induct)
  case (2 score_text ff ffs seen out)
  show ?case
  proof (cases "kf_id (ff_fact ff) \<in> set seen")
    case True
    then show ?thesis using 2(1) [OF True _ 2(4,5)] 2(3) by auto
  next
    case False
    then obtain e where e: "graph_evidence_of score_text ff = Inr e"
      "collect_evidence score_text ffs (kf_id (ff_fact ff) # seen) (out @ [e]) = Inr (seen', out')"
      using 2(3) by auto
    have "ev_id e = kf_id (ff_fact ff)" using graph_evidence_of_ok [OF e(1)] by simp
    then have "distinct (map ev_id (out @ [e]))" "set (kf_id (ff_fact ff) # seen) = ev_id ` set (out @ [e])"
      using 2(4,5) False by auto
    from 2(2) [OF False e(2) this] e(1) show ?thesis by auto
  qed
qed simp

lemma retrieve_loop_ok:
  "retrieve_loop trav score_text es seen out = Inr res \<Longrightarrow>
   distinct (map ev_id out) \<Longrightarrow> set seen = ev_id ` set out \<Longrightarrow>
   distinct (map ev_id res) \<and>
   (\<forall>e \<in> set res. e \<in> set out \<or>
      (\<exists>x ffs ff. trav x = Inr ffs \<and> ff \<in> set ffs \<and> graph_evidence_of score_text ff = Inr e))"
proof (induction trav score_text es seen out arbitrary: res rule: retrieve_loop.induct)
  case (2 trav score_text e es seen out)
  from 2(2) obtain ffs seen' out' where t: "trav (ce_id e) = Inr ffs"
    and c: "collect_evidence score_text ffs seen out = Inr (seen', out')"
    and l: "retrieve_loop trav score_text es seen' out' = Inr res" by auto
  note co = collect_evidence_ok [OF c 2(3,4)]
  have d: "distinct (map ev_id out')" and s: "set seen' = ev_id ` set out'" using co by simp_all
  have "distinct (map ev_id res) \<and>
    (\<forall>e \<in> set res. e \<in> set out' \<or> (\<exists>x ffs ff. trav x = Inr ffs \<and> ff \<in> set ffs \<and> graph_evidence_of score_text ff = Inr e))"
    by (rule 2(1) [OF l d s])
  then show ?case using co t by blast
qed simp

lemma find_facts_cap: "find_facts subj p obj st a t g = Inr fs \<Longrightarrow> length fs \<le> 100"
  unfolding find_facts_def by (drule rmap_Inr_length) simp

section \<open>Lemmas about hybrid fusion\<close>

definition hybrid_origin :: "retrieved_chunk set \<Rightarrow> evidence set \<Rightarrow> hybrid_entry \<Rightarrow> bool" where
  "hybrid_origin C G r \<longleftrightarrow>
     (\<exists>c \<in> C. he_chunk r = Some (rc_chunk c) \<and> he_source r = rc_source c \<and> he_document r = rc_document c \<and>
        he_version r = rc_version c \<and> he_principals r = rc_principals c \<and> he_content r = rc_content c) \<or>
     (\<exists>g \<in> G. he_id r = ev_id g \<and> he_source r = ev_source g \<and> he_principals r = ev_principals g \<and>
        he_content r = ev_content g)"

lemma hybrid_origin_mono: "hybrid_origin C G r \<Longrightarrow> C \<subseteq> C' \<Longrightarrow> G \<subseteq> G' \<Longrightarrow> hybrid_origin C' G' r"
  by (auto simp: hybrid_origin_def)

lemma vals_put: "set (vals (put k v d)) \<subseteq> insert v (set (vals d))"
  by (induction d) auto

lemma vals_put_all:
  assumes "\<forall>x \<in> set (vals d). P x" and "P v"
  shows "\<forall>x \<in> set (vals (put k v d)). P x"
proof
  fix x
  assume "x \<in> set (vals (put k v d))"
  then have "x \<in> insert v (set (vals d))" using vals_put [of k v d] by (rule rev_subsetD)
  then show "P x" using assms by blast
qed

lemma map_of_vals: "map_of d k = Some v \<Longrightarrow> v \<in> set (vals d)"
  by (metis image_eqI image_set map_of_SomeD snd_conv)

lemma hybrid_chunks_origin:
  "\<forall>r \<in> set (vals d). hybrid_origin C G r \<Longrightarrow> set cs \<subseteq> C \<Longrightarrow>
   \<forall>r \<in> set (vals (hybrid_chunks vec fresh rank cs d)). hybrid_origin C G r"
proof (induction vec fresh rank cs d rule: hybrid_chunks.induct)
  case (2 vec fresh rank c cs d)
  let ?r = "case map_of d (rc_chunk c) of Some r \<Rightarrow> r | None \<Rightarrow> chunk_entry vec (fresh (rc_chunk c)) c"
  let ?r' = "?r\<lparr>he_rrf := he_rrf ?r + 1 / of_nat (rrf_k + rank)\<rparr>"
  have "hybrid_origin C G ?r"
  proof (cases "map_of d (rc_chunk c)")
    case None
    then show ?thesis using 2(3) by (auto simp: hybrid_origin_def chunk_entry_def)
  next
    case (Some r)
    then have "hybrid_origin C G r" using 2(2) map_of_vals [OF Some] by blast
    then show ?thesis using Some by (simp only: option.case)
  qed
  then have "hybrid_origin C G ?r'" by (simp add: hybrid_origin_def)
  then have "\<forall>r \<in> set (vals (put (rc_chunk c) ?r' d)). hybrid_origin C G r"
    by (rule vals_put_all [OF 2(2)])
  moreover have "set cs \<subseteq> C" using 2(3) by simp
  ultimately have "\<forall>r \<in> set (vals (hybrid_chunks vec fresh (Suc rank) cs (put (rc_chunk c) ?r' d))). hybrid_origin C G r"
    using 2(1) [OF refl] by blast
  then show ?case by (simp only: hybrid_chunks.simps Let_def)
qed simp

lemma hybrid_chunks_keys: "set (keys (hybrid_chunks vec fresh rank cs d)) = set (keys d) \<union> rc_chunk ` set cs"
  by (induction vec fresh rank cs d rule: hybrid_chunks.induct) (auto simp: Let_def simp del: set_map)

lemma hybrid_chunks_no_graph:
  "\<forall>r \<in> set (vals d). he_graph r = None \<Longrightarrow>
   \<forall>r \<in> set (vals (hybrid_chunks vec fresh rank cs d)). he_graph r = None"
proof (induction vec fresh rank cs d rule: hybrid_chunks.induct)
  case (2 vec fresh rank c cs d)
  let ?r = "case map_of d (rc_chunk c) of Some r \<Rightarrow> r | None \<Rightarrow> chunk_entry vec (fresh (rc_chunk c)) c"
  let ?r' = "?r\<lparr>he_rrf := he_rrf ?r + 1 / of_nat (rrf_k + rank)\<rparr>"
  have "he_graph ?r = None"
    using 2(2) map_of_vals [of d "rc_chunk c"] by (cases "map_of d (rc_chunk c)") (simp_all add: chunk_entry_def del: set_map)
  then have "he_graph ?r' = None" by simp
  then have "\<forall>r \<in> set (vals (put (rc_chunk c) ?r' d)). he_graph r = None" by (rule vals_put_all [OF 2(2)])
  then have "\<forall>r \<in> set (vals (hybrid_chunks vec fresh (Suc rank) cs (put (rc_chunk c) ?r' d))). he_graph r = None"
    using 2(1) [OF refl] by blast
  then show ?case by (simp only: hybrid_chunks.simps Let_def)
qed simp

lemma merge_temporal_same:
  "merge_temporal rank g r = Inr r' \<Longrightarrow> he_id r' = he_id r \<and> he_source r' = he_source r \<and>
     he_principals r' = he_principals r \<and> he_content r' = he_content r \<and> he_chunk r' = he_chunk r \<and>
     he_document r' = he_document r \<and> he_version r' = he_version r"
  by (auto simp: merge_temporal_def Let_def split: option.splits if_splits)

lemma hybrid_graph_origin:
  "\<forall>r \<in> set (vals d). hybrid_origin C G r \<Longrightarrow> set gs \<subseteq> G \<Longrightarrow> hybrid_graph rank gs d = Inr d' \<Longrightarrow>
   \<forall>r \<in> set (vals d'). hybrid_origin C G r"
proof (induction rank gs d rule: hybrid_graph.induct)
  case (2 rank g gs d)
  show ?case
  proof (cases "map_of d (ev_id g)")
    case None
    have "hybrid_origin C G (graph_entry rank g)" using 2(4) by (auto simp: hybrid_origin_def graph_entry_def)
    then have "\<forall>r \<in> set (vals (put (ev_id g) (graph_entry rank g) d)). hybrid_origin C G r"
      by (rule vals_put_all [OF 2(3)])
    moreover have "set gs \<subseteq> G" "hybrid_graph (Suc rank) gs (put (ev_id g) (graph_entry rank g) d) = Inr d'"
      using 2(4,5) None by simp_all
    ultimately show ?thesis by (rule 2(1) [OF None])
  next
    case (Some r)
    then obtain r' where r': "merge_temporal rank g r = Inr r'" "hybrid_graph (Suc rank) gs (put (ev_id g) r' d) = Inr d'"
      using 2(5) by auto
    have "hybrid_origin C G r" using 2(3) map_of_vals [OF Some] by blast
    then have "hybrid_origin C G r'" using merge_temporal_same [OF r'(1)] by (simp add: hybrid_origin_def)
    then have "\<forall>x \<in> set (vals (put (ev_id g) r' d)). hybrid_origin C G x" by (rule vals_put_all [OF 2(3)])
    moreover have "set gs \<subseteq> G" using 2(4) by simp
    ultimately show ?thesis using r'(2) by (rule 2(2) [OF Some])
  qed
qed simp


lemma hybrid_chunks_all:
  assumes "set vector \<union> set keyword \<subseteq> C"
  shows "\<forall>r \<in> set (vals (hybrid_chunks False fresh 1 keyword (hybrid_chunks True fresh 1 vector []))). hybrid_origin C {} r"
proof (rule hybrid_chunks_origin)
  show "\<forall>r \<in> set (vals (hybrid_chunks True fresh 1 vector [])). hybrid_origin C {} r"
    by (rule hybrid_chunks_origin) (use assms in simp_all)
  show "set keyword \<subseteq> C" using assms by simp
qed

lemma hybrid_evidence_of: "hybrid_evidence r = Inr e \<Longrightarrow> ev_id e = he_id r \<and> ev_source e = he_source r \<and>
    ev_principals e = he_principals r \<and> ev_content e = he_content r \<and> ev_chunk e = he_chunk r \<and>
    ev_document e = he_document r \<and> ev_version e = he_version r"
  by (auto simp: hybrid_evidence_def mk_evidence_iff)

lemma hybrid_origin_evidence:
  "hybrid_evidence r = Inr e \<Longrightarrow> hybrid_origin C G r \<longleftrightarrow> (\<exists>c \<in> C. of_chunk c e) \<or> (\<exists>g \<in> G. same_piece g e)"
  using hybrid_evidence_of by (simp add: hybrid_origin_def of_chunk_def same_piece_def conj_ac)

lemma traverse_ok_neo4j:
  assumes "traverse ent (\<lambda>s p o' st a t. find_facts s p o' st a t g) predicates moment mx (Some ps) (Some t) seed = Inr out"
    and "ff \<in> set out"
  shows "kf_status (ff_fact ff) = FVerified \<and> kf_tenant (ff_fact ff) = t \<and> fact_visible ps (ff_fact ff) \<and>
    kf_evidence_ids (ff_fact ff) \<noteq> [] \<and> found_ok (\<lambda>_. True) moment mx ff"
  by (rule neo4j.traverse_authorised [OF assms]) (rule find_facts_cap)

lemma rmap_map: "rmap f xs = Inr ys \<Longrightarrow> (\<And>x y. f x = Inr y \<Longrightarrow> g y = h x) \<Longrightarrow> map g ys = map h xs"
  by (induction xs arbitrary: ys) auto

text \<open>A demonstration graph: one fact, reached from its subject at depth one.\<close>

lemma demo_find_none: "find_facts None None (Some 1) (Some FVerified) (Some [''p'']) (Some ''t'') demo_graph = Inr []"
proof -
  have "fact_rows None None (Some 1) (Some FVerified) (Some [''p'']) (Some ''t'') demo_graph = []"
    by (simp add: fact_rows_def demo_graph_def create_fact_def create_entity_def empty_graph_def demo_entity_def
        merge_edge_def fact_matches_def fact_visible_def demo_fact_def Let_def)
  then show ?thesis by (simp add: find_facts_def)
qed

abbreviation demo_reader :: fact_reader where
  "demo_reader \<equiv> (\<lambda>s p o' st a t. find_facts s p o' st a t demo_graph)"

definition demo_found :: found_fact where
  "demo_found = \<lparr>ff_fact = demo_fact, ff_depth = 1, ff_subject_name = ''svc'', ff_object_name = ''svc'', ff_path = [9]\<rparr>"

lemma demo_traverse:
  "traverse (\<lambda>n. Some (demo_entity n)) demo_reader [] None 1 (Some [''p'']) (Some ''t'') 1 = Inr [demo_found]"
proof -
  have "kf_id demo_fact = 9" "kf_object demo_fact = 2" "temporal_valid demo_fact None"
    by (simp_all add: demo_fact_def temporal_valid_def)
  then show ?thesis
    by (simp add: traverse_def expand_def demo_find demo_find_none traversal_limit_def Let_def entity_name_def
        demo_entity_def demo_found_def flip: One_nat_def)
qed

lemma rrf_origin:
  assumes "r \<in> set (reciprocal_rank_fusion k vector keyword)"
  shows "\<exists>c \<in> set vector \<union> set keyword. from_chunk c r"
proof -
  let ?d1 = "rrf_loop k True 1 vector []" and ?C = "set vector \<union> set keyword"
  have "\<forall>r \<in> set (vals ?d1). \<exists>c \<in> ?C. from_chunk c r"
    by (rule rrf_loop_origin) simp_all
  moreover have "keyed fr_chunk ?d1" by (rule rrf_loop_inv) simp
  ultimately have "\<forall>r \<in> set (vals (rrf_loop k False 1 keyword ?d1)). \<exists>c \<in> ?C. from_chunk c r"
    by (intro rrf_loop_origin) simp_all
  then show ?thesis using assms by (simp add: reciprocal_rank_fusion_def del: set_map)
qed

lemma retrieve_evidence_ok:
  assumes "retrieve_evidence ent facts score_text seeds predicates moment mx tenant prin = Inr out" and "prin \<noteq> []"
    and "\<And>seed ffs ff. traverse ent facts predicates moment mx (Some [prin]) tenant seed = Inr ffs \<Longrightarrow> ff \<in> set ffs \<Longrightarrow> Q ff"
  shows "distinct (map ev_id out) \<and> (\<forall>e \<in> set out. \<exists>ff. Q ff \<and> graph_evidence_of score_text ff = Inr e)"
proof (cases "seeds = []")
  case True
  then show ?thesis using assms by (simp add: retrieve_evidence_def)
next
  case False
  let ?trav = "traverse ent facts predicates moment mx (Some [prin]) tenant"
  from False assms have l: "retrieve_loop ?trav score_text seeds [] [] = Inr out" by (simp add: retrieve_evidence_def)
  have "distinct (map ev_id out) \<and>
    (\<forall>e \<in> set out. e \<in> set [] \<or> (\<exists>x ffs ff. ?trav x = Inr ffs \<and> ff \<in> set ffs \<and> graph_evidence_of score_text ff = Inr e))"
    by (rule retrieve_loop_ok [OF l]) simp_all
  then show ?thesis using assms(3) by (metis empty_iff empty_set)
qed

lemma hybrid_fusion_ok:
  assumes "hybrid_rrf_fusion fresh vector keyword graph = Inr out"
  shows "distinct (map ev_source out) \<and>
    (\<forall>e \<in> set out. (\<exists>c \<in> set vector \<union> set keyword. of_chunk c e) \<or> (\<exists>g \<in> set graph. same_piece g e))"
proof -
  let ?C = "set vector \<union> set keyword" and ?G = "set graph"
  let ?d0 = "hybrid_chunks False fresh 1 keyword (hybrid_chunks True fresh 1 vector [])"
  from assms obtain d where d: "hybrid_graph 1 graph ?d0 = Inr d"
    and out: "rmap hybrid_evidence (dedup_by he_source [] (sort_desc he_rrf (vals d))) = Inr out"
    by (auto simp: hybrid_rrf_fusion_def)
  have "\<forall>r \<in> set (vals ?d0). hybrid_origin ?C ?G r"
    using hybrid_chunks_all [OF subset_refl] hybrid_origin_mono by blast
  from hybrid_graph_origin [OF this subset_refl d] have og: "\<forall>r \<in> set (vals d). hybrid_origin ?C ?G r" .
  let ?l = "dedup_by he_source [] (sort_desc he_rrf (vals d))"
  have ol: "hybrid_origin ?C ?G r" if "r \<in> set ?l" for r
    using that og dedup_by_subset [of he_source "[]" "sort_desc he_rrf (vals d)"] by (auto simp del: set_map)
  have src: "map ev_source out = map he_source ?l"
    using rmap_map [OF out, of ev_source he_source] hybrid_evidence_of by blast
  have "distinct (map ev_source out)" unfolding src by (rule dedup_by_distinct)
  moreover have "\<exists>r \<in> set ?l. hybrid_evidence r = Inr e" if "e \<in> set out" for e
    using rmap_Inr_mem [OF out that] .
  ultimately show ?thesis using ol hybrid_origin_evidence by blast
qed


section \<open>Properties\<close>

text \<open>C27: Reciprocal rank fusion. The fused list is in descending order of score, has every retrieved
  chunk exactly once, gives each the sum of its reciprocal ranks in the two lists, and each
  entry's source, principals and content are those of one retrieved chunk with its id.\<close>

theorem rrf_fusion_spec:
  assumes out_def: "out = reciprocal_rank_fusion k vector keyword"
  shows "sorted_wrt (\<lambda>x y. fr_rrf x \<ge> fr_rrf y) out \<and> distinct (map fr_chunk out) \<and>
    fr_chunk ` set out = rc_chunk ` (set vector \<union> set keyword) \<and>
    (\<forall>r \<in> set out. fr_rrf r = rank_sum k 1 (fr_chunk r) vector + rank_sum k 1 (fr_chunk r) keyword \<and>
       (\<exists>c \<in> set vector \<union> set keyword. from_chunk c r))"
proof -
  let ?d1 = "rrf_loop k True 1 vector []" and ?C = "set vector \<union> set keyword"
  let ?d = "rrf_loop k False 1 keyword ?d1"
  have kd: "keyed fr_chunk ?d" by (intro rrf_loop_inv) simp
  have og: "\<forall>r \<in> set (reciprocal_rank_fusion k vector keyword). \<exists>c \<in> ?C. from_chunk c r"
    using rrf_origin by blast
  have ks: "map fr_chunk (vals ?d) = keys ?d" using kd by (auto simp: keyed_def)
  have ids: "fr_chunk ` set (vals ?d) = set (keys ?d)" using ks by (metis set_map)
  have sc: "fr_rrf r = rank_sum k 1 (fr_chunk r) vector + rank_sum k 1 (fr_chunk r) keyword" if "r \<in> set (vals ?d)" for r
  proof -
    have "map_of ?d (fr_chunk r) = Some r" using that kd by (auto simp: keyed_def)
    then show ?thesis using rrf_loop_score [of k False 1 keyword ?d1 "fr_chunk r"] rrf_loop_score [of k True 1 vector "[]" "fr_chunk r"]
      by (simp add: entry_score_def)
  qed
  have "fr_chunk ` set (vals ?d) = rc_chunk ` ?C"
    unfolding ids rrf_loop_keys by auto
  moreover have "distinct (map fr_chunk (vals ?d))" unfolding ks using kd by (simp add: keyed_def)
  ultimately show ?thesis using og sc sorted_sort_desc unfolding out_def reciprocal_rank_fusion_def
    by (simp del: set_map)
qed


definition demo_chunk :: "uuid \<Rightarrow> rat option \<Rightarrow> rat option \<Rightarrow> retrieved_chunk" where
  "demo_chunk n v w = \<lparr>rc_chunk = n, rc_source = n + 10, rc_document = None, rc_version = None, rc_content = ''c'',
     rc_vector = v, rc_keyword = w, rc_principals = [''p'']\<rparr>"

theorem rrf_fusion_spec_witness:
  "map fr_chunk (reciprocal_rank_fusion 60 [demo_chunk 1 (Some (1/5)) None, demo_chunk 2 (Some (1/3)) None]
     [demo_chunk 2 None (Some 1)]) = [2, 1] \<and>
   fr_chunk ` set (reciprocal_rank_fusion 60 [demo_chunk 1 (Some (1/5)) None, demo_chunk 2 (Some (1/3)) None]
     [demo_chunk 2 None (Some 1)]) = {1, 2}"
proof
  let ?v = "[demo_chunk 1 (Some (1/5)) None, demo_chunk 2 (Some (1/3)) None]" and ?w = "[demo_chunk 2 None (Some 1)]"
  show "map fr_chunk (reciprocal_rank_fusion 60 ?v ?w) = [2, 1]"
    by (simp add: reciprocal_rank_fusion_def demo_chunk_def fresh_entry_def add_rank_def Let_def sort_desc_def)
  have "fr_chunk ` set (reciprocal_rank_fusion 60 ?v ?w) = rc_chunk ` (set ?v \<union> set ?w)"
    using rrf_fusion_spec [OF refl, of 60 ?v ?w] by blast
  then show "fr_chunk ` set (reciprocal_rank_fusion 60 ?v ?w) = {1, 2}" by (auto simp: demo_chunk_def)
qed

text \<open>Graph evidence is authorised. Over the stored graph, every piece of evidence that
  \<^verbatim>\<open>retrieve_evidence\<close> returns for a tenant and a principal is a verified fact of
  that tenant that the principal may see, valid at the given time, reached by a path of at most
  the maximal depth that ends in it; no fact is returned twice.\<close>

theorem graph_evidence_authorised:
  assumes "retrieve_evidence ent (\<lambda>s p o' st a t. find_facts s p o' st a t g) score_text seeds predicates moment mx
             (Some t) prin = Inr out" and "prin \<noteq> []"
  shows "distinct (map ev_id out) \<and>
    (\<forall>e \<in> set out. \<exists>f. ev_id e = kf_id f \<and> ev_principals e = kf_principals f \<and> kf_status f = FVerified \<and>
       kf_tenant f = t \<and> fact_visible [prin] f \<and> temporal_valid f moment \<and>
       1 \<le> length (ev_path e) \<and> length (ev_path e) \<le> mx \<and> last (ev_path e) = kf_id f)"
proof -
  let ?Q = "\<lambda>ff. kf_status (ff_fact ff) = FVerified \<and> kf_tenant (ff_fact ff) = t \<and> fact_visible [prin] (ff_fact ff) \<and>
    kf_evidence_ids (ff_fact ff) \<noteq> [] \<and> found_ok (\<lambda>_. True) moment mx ff"
  have "distinct (map ev_id out) \<and> (\<forall>e \<in> set out. \<exists>ff. ?Q ff \<and> graph_evidence_of score_text ff = Inr e)"
    by (rule retrieve_evidence_ok [OF assms]) (rule traverse_ok_neo4j)
  moreover have "\<exists>f. ev_id e = kf_id f \<and> ev_principals e = kf_principals f \<and> kf_status f = FVerified \<and>
       kf_tenant f = t \<and> fact_visible [prin] f \<and> temporal_valid f moment \<and>
       1 \<le> length (ev_path e) \<and> length (ev_path e) \<le> mx \<and> last (ev_path e) = kf_id f"
    if "?Q ff" "graph_evidence_of score_text ff = Inr e" for e ff
    using graph_evidence_of_ok [OF that(2)] that(1) by (auto simp: found_ok_def)
  ultimately show ?thesis by metis
qed

definition demo_score :: "nat \<Rightarrow> knowledge_fact \<Rightarrow> string" where "demo_score d f = ''1.0''"

theorem graph_evidence_authorised_witness:
  "\<exists>e. retrieve_evidence (\<lambda>n. Some (demo_entity n)) demo_reader demo_score [demo_entity 1] [] None 1 (Some ''t'') ''p'' = Inr [e] \<and>
       ev_id e = 9 \<and> length (ev_path e) \<le> 1"
proof -
  obtain e where e: "graph_evidence_of demo_score demo_found = Inr e"
    by (simp add: graph_evidence_of_def mk_evidence_iff evidence_ok_def demo_found_def demo_fact_def demo_score_def Let_def)
  have r: "retrieve_evidence (\<lambda>n. Some (demo_entity n)) demo_reader demo_score [demo_entity 1] [] None 1 (Some ''t'') ''p'' = Inr [e]"
    using demo_traverse e by (simp add: retrieve_evidence_def demo_entity_def)
  have "length (ev_path e) \<le> 1" using graph_evidence_authorised [OF r] by auto
  moreover have "ev_id e = 9" using graph_evidence_of_ok [OF e] by (simp add: demo_found_def demo_fact_def)
  ultimately show ?thesis using r by blast
qed

text \<open>The traversal is bounded. It stops expanding at fifty results and each expansion reads at
  most two pages of a hundred facts, so one seed never yields 250 results or more.\<close>

theorem traversal_bounded:
  assumes "traverse ent (\<lambda>s p o' st a t. find_facts s p o' st a t g) predicates moment mx allowed tenant seed = Inr out"
  shows "length out < 250"
proof -
  have "(\<forall>ff \<in> set out. found_ok (\<lambda>_. True) moment mx ff) \<and> length out < traversal_limit + 2 * 100"
    by (rule traverse_ok [OF _ assms]) (use find_facts_cap in blast)
  then show ?thesis by (simp add: traversal_limit_def)
qed

theorem traversal_bounded_witness:
  "traverse (\<lambda>n. Some (demo_entity n)) demo_reader [] None 1 (Some [''p'']) (Some ''t'') 1 = Inr [demo_found] \<and>
   length [demo_found] < 250"
  using demo_traverse traversal_bounded [OF demo_traverse] by blast

text \<open>Hybrid fusion. The fused evidence names every source at most once, and the source,
  principals and content of each piece are those of one retrieved chunk or of one piece of graph
  evidence: fusion never mixes the principals of two origins.\<close>

theorem hybrid_fusion_origin:
  assumes "hybrid_rrf_fusion fresh vector keyword graph = Inr out"
  shows "distinct (map ev_source out) \<and>
    (\<forall>e \<in> set out. (\<exists>c \<in> set vector \<union> set keyword. of_chunk c e) \<or> (\<exists>g \<in> set graph. same_piece g e))"
  by (rule hybrid_fusion_ok [OF assms])

definition demo_graph_evidence :: evidence where
  "demo_graph_evidence =
     \<lparr>ev_id = 9, ev_source = 4, ev_document = None, ev_chunk = Some 4, ev_version = None, ev_record = None,
      ev_content = ''g'', ev_method = MGraph, ev_vector_score = None, ev_rerank_score = None, ev_path = [9],
      ev_valid_from = None, ev_valid_to = None, ev_principals = [''q'']\<rparr>"

theorem hybrid_fusion_origin_witness:
  "\<exists>a b. hybrid_rrf_fusion (\<lambda>n. n + 100) [demo_chunk 1 (Some (1/5)) None] [] [demo_graph_evidence] = Inr [a, b] \<and>
     ev_principals a = [''q''] \<and> ev_principals b = [''p''] \<and> ev_source a \<noteq> ev_source b"
proof -
  obtain a b where ab: "hybrid_rrf_fusion (\<lambda>n. n + 100) [demo_chunk 1 (Some (1/5)) None] [] [demo_graph_evidence] = Inr [a, b]"
    and p: "ev_principals a = [''q'']" "ev_principals b = [''p'']"
    by (simp add: hybrid_rrf_fusion_def demo_chunk_def demo_graph_evidence_def chunk_entry_def graph_entry_def
        graph_contrib_def rrf_k_def sort_desc_def hybrid_evidence_def mk_evidence_def evidence_ok_def
        determine_method_def truthy_def Let_def)
  then show ?thesis using hybrid_fusion_origin [OF ab] by simp
qed

text \<open>A clash of identifiers raises. When the first piece of graph evidence has the identifier of a
  retrieved chunk, its score is added to a missing one and the fusion fails.\<close>

theorem hybrid_clash_raises:
  assumes "ev_id g \<in> rc_chunk ` (set vector \<union> set keyword)"
  shows "\<exists>e. hybrid_rrf_fusion fresh vector keyword (g # gs) = Inl e"
proof -
  let ?d1 = "hybrid_chunks True fresh 1 vector []" and ?P = "\<lambda>r. he_graph r = None"
  let ?d = "hybrid_chunks False fresh 1 keyword ?d1"
  have "set (keys ?d) = rc_chunk ` (set vector \<union> set keyword)"
    using hybrid_chunks_keys [of False fresh 1 keyword ?d1] hybrid_chunks_keys [of True fresh 1 vector "[]"] by auto
  then obtain r where r: "map_of ?d (ev_id g) = Some r"
    using assms map_of_eq_None_iff [of ?d "ev_id g"] by fastforce
  have "\<forall>r \<in> set (vals ?d). ?P r"
    by (intro hybrid_chunks_no_graph) simp
  then have "he_graph r = None" using map_of_vals [OF r] by blast
  then show ?thesis using r by (simp add: hybrid_rrf_fusion_def merge_temporal_def)
qed


theorem hybrid_clash_raises_witness:
  "\<exists>e. hybrid_rrf_fusion (\<lambda>n. n) [demo_chunk 9 (Some (1/5)) None] [] [demo_graph_evidence] = Inl e"
  by (rule hybrid_clash_raises) (simp add: demo_graph_evidence_def demo_chunk_def)

end
