(* ===== verification/Retrievers.thy ===== *)
theory Retrievers
  imports Fusion DocumentStore
begin

text \<open>
  Search over the PostgreSQL tables: the version records (\<^verbatim>\<open>version_records.py\<close>), the
  active index version (\<^verbatim>\<open>index_version_resolver.py\<close>), the vector and the keyword
  retriever and the adapters of \<^verbatim>\<open>infrastructure/composition\<close> that give the
  application its chunks. The cosine distance and the full-text match and rank of the database are
  arguments. The locale says what the application relies on: a search returns only chunks the caller
  may read.
\<close>

section \<open>Version records (version_records.py)\<close>

record prompt_row =
  pv_id :: uuid
  pv_bundle :: string
  pv_version :: string
  pv_template :: "(string \<times> json) list"
  pv_model :: string

record config_row =
  mc_id :: uuid
  mc_key :: string
  mc_version :: string
  mc_config :: "(string \<times> json) list"

record index_row =
  ix_id :: uuid
  ix_name :: string
  ix_version :: string
  ix_model :: string
  ix_dims :: int
  ix_chunker :: string
  ix_active :: bool
  ix_created :: int

text \<open>An insert fails on the primary key and on every unique constraint.\<close>

definition insert_unique ::
  "('r \<Rightarrow> uuid) \<Rightarrow> ('r \<Rightarrow> 'r \<Rightarrow> bool) \<Rightarrow> 'r \<Rightarrow> 'r tbl \<Rightarrow> (exn + uuid) \<times> 'r tbl" where
  "insert_unique idf clash r t =
     (if idf r \<in> set (keys t) \<or> list_ex (clash r) (vals t)
      then (Inl (RuntimeError ''duplicate key value violates unique constraint''), t)
      else (Inr (idf r), put (idf r) r t))"

definition create_prompt_version ::
  "uuid \<Rightarrow> string \<Rightarrow> string \<Rightarrow> (string \<times> json) list \<Rightarrow> string \<Rightarrow> prompt_row tbl \<Rightarrow> (exn + uuid) \<times> prompt_row tbl" where
  "create_prompt_version fresh bundle version template model =
     insert_unique pv_id (\<lambda>r r'. pv_bundle r = pv_bundle r' \<and> pv_version r = pv_version r')
       \<lparr>pv_id = fresh, pv_bundle = bundle, pv_version = version, pv_template = template, pv_model = model\<rparr>"

definition get_prompt_version :: "uuid \<Rightarrow> prompt_row tbl \<Rightarrow> prompt_row option" where
  "get_prompt_version vid t = map_of t vid"

definition create_model_config ::
  "uuid \<Rightarrow> string \<Rightarrow> string \<Rightarrow> (string \<times> json) list \<Rightarrow> config_row tbl \<Rightarrow> (exn + uuid) \<times> config_row tbl" where
  "create_model_config fresh key version config =
     insert_unique mc_id (\<lambda>r r'. mc_key r = mc_key r' \<and> mc_version r = mc_version r')
       \<lparr>mc_id = fresh, mc_key = key, mc_version = version, mc_config = config\<rparr>"

definition get_model_config :: "uuid \<Rightarrow> config_row tbl \<Rightarrow> config_row option" where
  "get_model_config vid t = map_of t vid"

text \<open>Two constraints on index versions: name and version are unique, and so is the name among
  the active rows. A new row is active by default.\<close>

definition index_clash :: "index_row \<Rightarrow> index_row \<Rightarrow> bool" where
  "index_clash r r' \<longleftrightarrow>
     ix_name r = ix_name r' \<and> (ix_version r = ix_version r' \<or> (ix_active r \<and> ix_active r'))"

definition create_index_version ::
  "uuid \<Rightarrow> int \<Rightarrow> string \<Rightarrow> string \<Rightarrow> string \<Rightarrow> int \<Rightarrow> string \<Rightarrow> index_row tbl \<Rightarrow> (exn + uuid) \<times> index_row tbl" where
  "create_index_version fresh now name version model dims chunker =
     insert_unique ix_id index_clash
       \<lparr>ix_id = fresh, ix_name = name, ix_version = version, ix_model = model, ix_dims = dims,
        ix_chunker = chunker, ix_active = True, ix_created = now\<rparr>"

definition get_index_version :: "uuid \<Rightarrow> index_row tbl \<Rightarrow> index_row option" where
  "get_index_version vid t = map_of t vid"

definition deactivate_previous :: "string \<Rightarrow> uuid \<Rightarrow> index_row tbl \<Rightarrow> index_row tbl" where
  "deactivate_previous name keep t =
     update_where (\<lambda>r. ix_name r = name \<and> ix_id r \<noteq> keep) (\<lambda>r. r\<lparr>ix_active := False\<rparr>) t"

text \<open>\<^verbatim>\<open>ORDER BY created_at DESC LIMIT 1\<close>.\<close>

definition newest :: "index_row list \<Rightarrow> index_row option" where
  "newest rs = (case sort_desc ix_created rs of [] \<Rightarrow> None | r # _ \<Rightarrow> Some r)"

definition resolve_active :: "string \<Rightarrow> index_row tbl \<Rightarrow> index_row option" where
  "resolve_active name t = newest (select_rows (\<lambda>r. ix_name r = name \<and> ix_active r) t)"

section \<open>Vector search (vector_retriever.py)\<close>

record embedding_row =
  em_chunk :: uuid
  em_index :: uuid
  em_vector :: "rat list"

record search_db =
  sd_docs :: doc_db
  sd_index :: "index_row tbl"
  sd_embeddings :: "embedding_row list"

definition get_active_index_version :: "uuid option \<Rightarrow> index_row tbl \<Rightarrow> index_row option" where
  "get_active_index_version vid t =
     (case vid of
        Some v \<Rightarrow> (case map_of t v of Some r \<Rightarrow> if ix_active r then Some r else None | None \<Rightarrow> None)
      | None \<Rightarrow> newest (select_rows ix_active t))"

text \<open>A negative \<^verbatim>\<open>LIMIT\<close> is an error of the database.\<close>

definition sql_limit :: "int \<Rightarrow> 'a list \<Rightarrow> exn + 'a list" where
  "sql_limit k rows = (if k < 0 then Inl (RuntimeError ''LIMIT must not be negative'') else Inr (take (nat k) rows))"

text \<open>The array operator \<^verbatim>\<open>&&\<close>.\<close>

definition overlaps :: "string list \<Rightarrow> string list \<Rightarrow> bool" where
  "overlaps xs ys = list_ex (\<lambda>x. x \<in> set ys) xs"

text \<open>The joins from a chunk to its document and the document's source.\<close>

definition owner_of :: "doc_db \<Rightarrow> chunk \<Rightarrow> (doc_row \<times> source_descriptor) option" where
  "owner_of db c =
     (case map_of (t_docs db) (ck_document_id c) of
        None \<Rightarrow> None
      | Some d \<Rightarrow> map_option (\<lambda>s. (d, s)) (map_of (t_sources db) (d_source d)))"

text \<open>The conditions both retrievers put on the joined rows; an argument that is
  \<^verbatim>\<open>None\<close> adds no condition.\<close>

definition row_allowed ::
  "string list option \<Rightarrow> uuid list option \<Rightarrow> string \<Rightarrow> chunk \<Rightarrow> doc_row \<Rightarrow> source_descriptor \<Rightarrow> bool" where
  "row_allowed principals sources tenant c d s \<longleftrightarrow>
     src_active s \<and> src_tenant s = tenant \<and> d_current d = Some (ck_version_id c) \<and>
     (case principals of Some ps \<Rightarrow> overlaps (src_principals s) ps | None \<Rightarrow> True) \<and>
     (case sources of Some ids \<Rightarrow> d_source d \<in> set ids | None \<Rightarrow> True)"

definition allowed_rows ::
  "string list option \<Rightarrow> uuid list option \<Rightarrow> string \<Rightarrow> doc_db \<Rightarrow> (chunk \<times> doc_row \<times> source_descriptor) list" where
  "allowed_rows principals sources tenant db =
     List.map_filter (\<lambda>c. case owner_of db c of
         Some (d, s) \<Rightarrow> if row_allowed principals sources tenant c d s then Some (c, d, s) else None
       | None \<Rightarrow> None) (vals (t_chunks db))"

text \<open>The result row, shared by the two retrievers: \<^verbatim>\<open>VectorSearchResult\<close> with a
  distance, \<^verbatim>\<open>KeywordSearchResult\<close> with a rank.\<close>

record search_row =
  sr_chunk :: uuid
  sr_source :: uuid
  sr_document :: uuid
  sr_version :: uuid
  sr_content :: string
  sr_score :: rat
  sr_principals :: "string list"

definition search_row_of :: "(chunk \<times> doc_row \<times> source_descriptor) \<times> rat \<Rightarrow> search_row" where
  "search_row_of r =
     (case r of ((c, d, s), score) \<Rightarrow>
       \<lparr>sr_chunk = ck_id c, sr_source = d_source d, sr_document = ck_document_id c, sr_version = ck_version_id c,
        sr_content = ck_content c, sr_score = score, sr_principals = src_principals s\<rparr>)"

text \<open>The join with the embeddings of the active index version: one row per chunk and embedding.\<close>

definition with_distance ::
  "(rat list \<Rightarrow> rat) \<Rightarrow> uuid \<Rightarrow> embedding_row list \<Rightarrow> (chunk \<times> doc_row \<times> source_descriptor) list \<Rightarrow>
   ((chunk \<times> doc_row \<times> source_descriptor) \<times> rat) list" where
  "with_distance cosd ix ems rows =
     concat (map (\<lambda>row. map (\<lambda>e. (row, cosd (em_vector e)))
       (filter (\<lambda>e. em_chunk e = ck_id (fst row) \<and> em_index e = ix) ems)) rows)"

definition vector_rows ::
  "(rat list \<Rightarrow> rat list \<Rightarrow> rat) \<Rightarrow> rat list \<Rightarrow> int \<Rightarrow> string list option \<Rightarrow> uuid list option \<Rightarrow> string \<Rightarrow>
   uuid option \<Rightarrow> search_db \<Rightarrow> exn + search_row list" where
  "vector_rows cosd qv k principals sources tenant vid db =
     (case get_active_index_version vid (sd_index db) of
        None \<Rightarrow> Inr []
      | Some ix \<Rightarrow>
          rbind (sql_limit k (sort_key snd (with_distance (\<lambda>v. cosd v qv) (ix_id ix) (sd_embeddings db)
                   (allowed_rows principals sources tenant (sd_docs db)))))
            (\<lambda>rs. Inr (map search_row_of rs)))"

definition vector_chunk :: "search_row \<Rightarrow> retrieved_chunk" where
  "vector_chunk r =
     \<lparr>rc_chunk = sr_chunk r, rc_source = sr_source r, rc_document = Some (sr_document r),
      rc_version = Some (sr_version r), rc_content = sr_content r, rc_vector = Some (sr_score r),
      rc_keyword = None, rc_principals = sr_principals r\<rparr>"

definition vector_search ::
  "(rat list \<Rightarrow> rat list \<Rightarrow> rat) \<Rightarrow> rat list \<Rightarrow> int \<Rightarrow> string list \<Rightarrow> string \<Rightarrow> uuid option \<Rightarrow> search_db \<Rightarrow>
   exn + retrieved_chunk list" where
  "vector_search cosd qv k principals tenant vid db =
     rbind (vector_rows cosd qv k (Some principals) None tenant vid db) (\<lambda>rs. Inr (map vector_chunk rs))"

definition search_with_content ::
  "(rat list \<Rightarrow> rat list \<Rightarrow> rat) \<Rightarrow> rat list \<Rightarrow> int \<Rightarrow> string list option \<Rightarrow> uuid list option \<Rightarrow> string option \<Rightarrow>
   uuid option \<Rightarrow> search_db \<Rightarrow> exn + search_row list" where
  "search_with_content cosd qv k principals sources tenant vid db =
     (case tenant of
        None \<Rightarrow> Inl (ValueError ''tenant_id is required for retrieval'')
      | Some t \<Rightarrow> if t = [] then Inl (ValueError ''tenant_id is required for retrieval'')
                  else vector_rows cosd qv k principals sources t vid db)"

section \<open>Keyword search (keyword_retriever.py)\<close>

definition keyword_search ::
  "(string \<Rightarrow> string \<Rightarrow> bool) \<Rightarrow> (string \<Rightarrow> string \<Rightarrow> rat) \<Rightarrow> string \<Rightarrow> int \<Rightarrow> string list option \<Rightarrow> uuid list option \<Rightarrow>
   string \<Rightarrow> search_db \<Rightarrow> exn + search_row list" where
  "keyword_search matches rank q k principals sources tenant db =
     (if strip q = [] then Inr []
      else rbind (sql_limit k (sort_desc snd
             (map (\<lambda>row. (row, rank (ck_content (fst row)) q))
               (filter (\<lambda>row. matches (ck_content (fst row)) q)
                 (allowed_rows principals sources tenant (sd_docs db))))))
           (\<lambda>rs. Inr (map search_row_of rs)))"

section \<open>The adapters (infrastructure/composition)\<close>

definition pg_vector_search ::
  "(rat list \<Rightarrow> rat list \<Rightarrow> rat) \<Rightarrow> rat list \<Rightarrow> int \<Rightarrow> string list \<Rightarrow> string \<Rightarrow> uuid \<Rightarrow> search_db \<Rightarrow>
   exn + retrieved_chunk list" where
  "pg_vector_search cosd qv k principals tenant vid db =
     rbind (search_with_content cosd qv k (Some principals) None (Some tenant) (Some vid) db)
       (\<lambda>rs. Inr (map vector_chunk rs))"

definition keyword_chunk :: "search_row \<Rightarrow> retrieved_chunk" where
  "keyword_chunk r =
     \<lparr>rc_chunk = sr_chunk r, rc_source = sr_source r, rc_document = Some (sr_document r),
      rc_version = Some (sr_version r), rc_content = sr_content r, rc_vector = None,
      rc_keyword = Some (sr_score r), rc_principals = sr_principals r\<rparr>"

definition pg_keyword_search ::
  "(string \<Rightarrow> string \<Rightarrow> bool) \<Rightarrow> (string \<Rightarrow> string \<Rightarrow> rat) \<Rightarrow> string \<Rightarrow> int \<Rightarrow> string list \<Rightarrow> string \<Rightarrow> search_db \<Rightarrow>
   exn + retrieved_chunk list" where
  "pg_keyword_search matches rank q k principals tenant db =
     rbind (keyword_search matches rank q k (Some principals) None tenant db)
       (\<lambda>rs. Inr (map keyword_chunk rs))"

section \<open>Authorised chunks\<close>

text \<open>A chunk the caller may read: it is stored in the current version of a document of an active
  source of the tenant, the source names one of the principals, and the chunk carries the
  source's principals.\<close>

definition chunk_authorised :: "doc_db \<Rightarrow> string list \<Rightarrow> string \<Rightarrow> retrieved_chunk \<Rightarrow> bool" where
  "chunk_authorised db ps t r \<longleftrightarrow>
     (\<exists>c d s. c \<in> set (vals (t_chunks db)) \<and> owner_of db c = Some (d, s) \<and> row_allowed (Some ps) None t c d s \<and>
        rc_chunk r = ck_id c \<and> rc_content r = ck_content c \<and> rc_source r = d_source d \<and>
        rc_document r = Some (ck_document_id c) \<and> rc_version r = Some (ck_version_id c) \<and>
        rc_principals r = src_principals s)"

lemma overlaps_iff: "overlaps xs ys \<longleftrightarrow> set xs \<inter> set ys \<noteq> {}"
  by (auto simp: overlaps_def list_ex_iff)

lemma chunk_authorised_principals:
  "chunk_authorised db ps t r \<Longrightarrow> set (rc_principals r) \<inter> set ps \<noteq> {}"
  by (auto simp: chunk_authorised_def row_allowed_def overlaps_iff)

lemma sql_limit_mem: "sql_limit k rows = Inr out \<Longrightarrow> x \<in> set out \<Longrightarrow> x \<in> set rows"
  by (auto simp: sql_limit_def split: if_splits dest: in_set_takeD)

lemma allowed_rows_mem:
  "(c, d, s) \<in> set (allowed_rows ps ids t db) \<longleftrightarrow>
     c \<in> set (vals (t_chunks db)) \<and> owner_of db c = Some (d, s) \<and> row_allowed ps ids t c d s"
  unfolding allowed_rows_def List.map_filter_def
  by (force split: option.splits if_splits)

lemma with_distance_mem: "p \<in> set (with_distance f ix ems rows) \<Longrightarrow> fst p \<in> set rows"
  by (auto simp: with_distance_def)

lemma search_row_authorised:
  assumes "row \<in> set (allowed_rows (Some ps) None t db)" and "r = search_row_of (row, score)"
  shows "chunk_authorised db ps t (vector_chunk r)" and "chunk_authorised db ps t (keyword_chunk r)"
proof -
  obtain c d s where row: "row = (c, d, s)" by (cases row)
  note m = assms(1) [unfolded row allowed_rows_mem]
  show "chunk_authorised db ps t (vector_chunk r)" "chunk_authorised db ps t (keyword_chunk r)"
    unfolding chunk_authorised_def assms(2) row
    by (rule exI [of _ c], rule exI [of _ d], rule exI [of _ s],
        use m in \<open>simp add: search_row_of_def vector_chunk_def keyword_chunk_def del: set_map\<close>)+
qed

lemma vector_rows_mem:
  assumes "vector_rows cosd qv k ps ids t vid db = Inr out" and "r \<in> set out"
  shows "\<exists>row score. row \<in> set (allowed_rows ps ids t (sd_docs db)) \<and> r = search_row_of (row, score)"
proof -
  from assms(1) obtain ix where "get_active_index_version vid (sd_index db) = Some ix"
    using assms(2) by (cases "get_active_index_version vid (sd_index db)") (auto simp: vector_rows_def)
  with assms(1) obtain rs where
    rs: "sql_limit k (sort_key snd (with_distance (\<lambda>v. cosd v qv) (ix_id ix) (sd_embeddings db) (allowed_rows ps ids t (sd_docs db)))) = Inr rs"
    "out = map search_row_of rs" by (auto simp: vector_rows_def)
  from assms(2) rs(2) obtain p where p: "p \<in> set rs" "r = search_row_of p" by auto
  have "p \<in> set (with_distance (\<lambda>v. cosd v qv) (ix_id ix) (sd_embeddings db) (allowed_rows ps ids t (sd_docs db)))"
    using sql_limit_mem [OF rs(1) p(1)] by simp
  then have "fst p \<in> set (allowed_rows ps ids t (sd_docs db))" by (rule with_distance_mem)
  then show ?thesis using p(2) by (metis prod.collapse)
qed

lemma keyword_search_mem:
  assumes "keyword_search matches rank q k ps ids t db = Inr out" and "r \<in> set out"
  shows "\<exists>row score. row \<in> set (allowed_rows ps ids t (sd_docs db)) \<and> r = search_row_of (row, score)"
proof -
  let ?l = "map (\<lambda>row. (row, rank (ck_content (fst row)) q))
    (filter (\<lambda>row. matches (ck_content (fst row)) q) (allowed_rows ps ids t (sd_docs db)))"
  from assms obtain rs where rs: "sql_limit k (sort_desc snd ?l) = Inr rs" "out = map search_row_of rs"
    using assms(2) by (cases "strip q = []") (auto simp: keyword_search_def)
  from assms(2) rs(2) obtain p where p: "p \<in> set rs" "r = search_row_of p" by auto
  have "p \<in> set ?l" using sql_limit_mem [OF rs(1) p(1)] by simp
  then have "fst p \<in> set (allowed_rows ps ids t (sd_docs db))" by auto
  then show ?thesis using p(2) by (metis prod.collapse)
qed

text \<open>What a retriever promises the application, and what follows for the fused list.\<close>

locale chunk_retriever =
  fixes search :: "'q \<Rightarrow> int \<Rightarrow> string list \<Rightarrow> string \<Rightarrow> exn + retrieved_chunk list"
    and readable :: "string list \<Rightarrow> string \<Rightarrow> retrieved_chunk \<Rightarrow> bool"
  assumes search_readable: "search q k ps t = Inr out \<Longrightarrow> r \<in> set out \<Longrightarrow> readable ps t r"
    and search_size: "search q k ps t = Inr out \<Longrightarrow> length out \<le> nat k"
begin

lemma found_readable: "search q k ps t = Inr out \<Longrightarrow> \<forall>r \<in> set out. readable ps t r"
  using search_readable by blast

end

text \<open>Two retrievers over the same store: every fused result comes from a chunk the caller may read.\<close>

locale retriever_pair =
  vec: chunk_retriever vsearch readable + kw: chunk_retriever ksearch readable
  for vsearch :: "'q \<Rightarrow> int \<Rightarrow> string list \<Rightarrow> string \<Rightarrow> exn + retrieved_chunk list"
    and ksearch :: "'w \<Rightarrow> int \<Rightarrow> string list \<Rightarrow> string \<Rightarrow> exn + retrieved_chunk list"
    and readable :: "string list \<Rightarrow> string \<Rightarrow> retrieved_chunk \<Rightarrow> bool"
begin

lemma both_readable:
  assumes "vsearch q k ps t = Inr vs" and "ksearch w k' ps t = Inr ws" and "c \<in> set vs \<union> set ws"
  shows "readable ps t c"
  using assms vec.search_readable kw.search_readable by blast

lemma fused_readable:
  assumes "vsearch q k ps t = Inr vs" and "ksearch w k' ps t = Inr ws"
    and "r \<in> set (reciprocal_rank_fusion n vs ws)"
  shows "\<exists>c. readable ps t c \<and> from_chunk c r"
  using rrf_origin [OF assms(3)] both_readable [OF assms(1,2)] by blast

end

lemma vector_rows_size: "vector_rows cosd qv k ps ids t vid db = Inr out \<Longrightarrow> length out \<le> nat k"
  by (auto simp: vector_rows_def sql_limit_def split: option.splits if_splits)

lemma keyword_search_size: "keyword_search matches rank q k ps ids t db = Inr out \<Longrightarrow> length out \<le> nat k"
  by (auto simp: keyword_search_def sql_limit_def split: if_splits)

interpretation pg: retriever_pair
  "\<lambda>qv k ps t. pg_vector_search cosd qv k ps t vid db"
  "\<lambda>q k ps t. pg_keyword_search matches rank q k ps t db"
  "chunk_authorised (sd_docs db)" for cosd vid db matches rank
proof (unfold_locales, goal_cases)
  case (1 qv k ps t out r)
  then obtain rs x where rs: "vector_rows cosd qv k (Some ps) None t (Some vid) db = Inr rs" "x \<in> set rs" "r = vector_chunk x"
    by (auto simp: pg_vector_search_def search_with_content_def split: if_splits)
  from vector_rows_mem [OF rs(1,2)] show ?case unfolding rs(3) using search_row_authorised(1) by blast
next
  case (2 qv k ps t out)
  then show ?case
    using vector_rows_size by (auto simp: pg_vector_search_def search_with_content_def split: if_splits)
next
  case (3 q k ps t out r)
  then obtain rs x where rs: "keyword_search matches rank q k (Some ps) None t db = Inr rs" "x \<in> set rs" "r = keyword_chunk x"
    by (auto simp: pg_keyword_search_def)
  from keyword_search_mem [OF rs(1,2)] show ?case unfolding rs(3) using search_row_authorised(2) by blast
next
  case (4 q k ps t out)
  then show ?case using keyword_search_size by (auto simp: pg_keyword_search_def)
qed

text \<open>The retriever of the infrastructure layer keeps the same promise as its adapter.\<close>

interpretation raw: chunk_retriever
  "\<lambda>qv k ps t. vector_search cosd qv k ps t vid db" "chunk_authorised (sd_docs db)" for cosd vid db
proof (unfold_locales, goal_cases)
  case (1 qv k ps t out r)
  then obtain rs x where rs: "vector_rows cosd qv k (Some ps) None t vid db = Inr rs" "x \<in> set rs" "r = vector_chunk x"
    by (auto simp: vector_search_def)
  from vector_rows_mem [OF rs(1,2)] show ?case unfolding rs(3) using search_row_authorised(1) by blast
next
  case (2 qv k ps t out)
  then show ?case using vector_rows_size by (auto simp: vector_search_def)
qed

section \<open>Index versions as a transition system\<close>

inductive index_step :: "index_row tbl \<Rightarrow> index_row tbl \<Rightarrow> bool" where
  step_create: "create_index_version fresh now name version model dims chunker t = (r, t') \<Longrightarrow> index_step t t'"
| step_deactivate: "index_step t (deactivate_previous name keep t)"

definition index_inv :: "index_row tbl \<Rightarrow> bool" where
  "index_inv t \<longleftrightarrow> keyed ix_id t \<and>
     (\<forall>k k' r r'. map_of t k = Some r \<longrightarrow> map_of t k' = Some r' \<longrightarrow> index_clash r r' \<longrightarrow> k = k')"

lemma index_clash_sym: "index_clash r r' \<Longrightarrow> index_clash r' r"
  by (auto simp: index_clash_def)

lemma index_inv_insert:
  assumes "index_inv t" and "insert_unique ix_id index_clash r t = (res, t')"
  shows "index_inv t'"
proof (cases "ix_id r \<in> set (keys t) \<or> list_ex (index_clash r) (vals t)")
  case True
  then show ?thesis using assms by (auto simp: insert_unique_def)
next
  case False
  then have t': "t' = put (ix_id r) r t" using assms(2) by (auto simp: insert_unique_def)
  have fresh: "\<not> index_clash r x" if "map_of t k = Some x" for k x
    using False map_of_SomeD [OF that] by (force simp: list_ex_iff)
  have k: "keyed ix_id t" using assms(1) by (simp add: index_inv_def)
  show ?thesis unfolding index_inv_def t'
    using assms(1) fresh index_clash_sym keyed_put [OF k refl] unfolding index_inv_def
    by (auto split: if_splits)
qed

lemma index_inv_deactivate: "index_inv t \<Longrightarrow> index_inv (deactivate_previous name keep t)"
  unfolding index_inv_def deactivate_previous_def map_of_update_where
  by (auto simp: keyed_update_where index_clash_def split: if_splits)

interpretation index_versions: invariant_system "\<lambda>t. t = []" index_step index_inv
proof (unfold_locales, goal_cases)
  case (1 t)
  then show ?case by (simp add: index_inv_def)
next
  case (2 t t')
  from 2(2) show ?case
    by cases (use 2(1) index_inv_insert index_inv_deactivate in \<open>auto simp: create_index_version_def\<close>)
qed

lemma newest_mem: "newest rs = Some r \<Longrightarrow> r \<in> set rs"
  unfolding newest_def by (metis list.case_eq_if list.set_sel(1) not_None_eq option.inject set_sort_desc list.simps(4))

lemma mem_not_Nil: "x \<in> set xs \<Longrightarrow> xs \<noteq> []"
  by auto

lemma newest_None: "newest rs = None \<longleftrightarrow> rs = []"
  unfolding newest_def by (metis length_sort_desc length_0_conv list.exhaust list.simps(4,5) option.distinct(1))

lemma resolve_active_mem:
  assumes "index_inv t" and "resolve_active name t = Some r"
  shows "map_of t (ix_id r) = Some r" and "ix_name r = name" and "ix_active r"
proof -
  have k: "keyed ix_id t" using assms(1) by (simp add: index_inv_def)
  have "r \<in> set (select_rows (\<lambda>r. ix_name r = name \<and> ix_active r) t)"
    using newest_mem assms(2) unfolding resolve_active_def by blast
  then show "map_of t (ix_id r) = Some r" "ix_name r = name" "ix_active r"
    unfolding select_rows_mem [OF k] by simp_all
qed

lemma resolve_active_unique:
  assumes "index_inv t" and "map_of t v = Some r" and "ix_active r"
  shows "resolve_active (ix_name r) t = Some r"
proof -
  have k: "keyed ix_id t" using assms(1) by (simp add: index_inv_def)
  have "ix_id r = v" using keyed_map_of [OF k assms(2)] .
  then have "r \<in> set (select_rows (\<lambda>x. ix_name x = ix_name r \<and> ix_active x) t)"
    unfolding select_rows_mem [OF k] using assms by simp
  then have "select_rows (\<lambda>x. ix_name x = ix_name r \<and> ix_active x) t \<noteq> []" by (rule mem_not_Nil)
  then have "newest (select_rows (\<lambda>x. ix_name x = ix_name r \<and> ix_active x) t) \<noteq> None"
    by (simp only: newest_None not_False_eq_True)
  then obtain r' where r': "resolve_active (ix_name r) t = Some r'" by (auto simp: resolve_active_def)
  have "index_clash r r'" using resolve_active_mem [OF assms(1) r'] assms(3) by (simp add: index_clash_def)
  then have "v = ix_id r'"
    using assms(1,2) resolve_active_mem(1) [OF assms(1) r'] unfolding index_inv_def by blast
  then show ?thesis using r' resolve_active_mem(1) [OF assms(1) r'] assms(2) by simp
qed

lemma resolve_active_None:
  assumes "index_inv t" and "\<And>v r. map_of t v = Some r \<Longrightarrow> ix_active r \<Longrightarrow> ix_name r \<noteq> name"
  shows "resolve_active name t = None"
  using resolve_active_mem [OF assms(1)] assms(2) by (cases "resolve_active name t") blast+

section \<open>Properties\<close>

text \<open>Index versions in any reachable state. A name has at most one active version, which is the
  one the resolver returns; and while there is one, every attempt to create the next version
  fails and leaves the table as it was.\<close>

theorem index_version_blocks_next:
  assumes "reach (\<lambda>t. t = []) index_step t" and "map_of t v = Some r" and "ix_active r"
  shows "resolve_active (ix_name r) t = Some r \<and>
    (\<forall>v' r'. map_of t v' = Some r' \<longrightarrow> ix_active r' \<longrightarrow> ix_name r' = ix_name r \<longrightarrow> v' = v) \<and>
    (\<exists>e. create_index_version fresh now (ix_name r) version model dims chunker t = (Inl e, t))"
proof -
  have inv: "index_inv t" using index_versions.reach_inv assms(1) by blast
  let ?n = "\<lparr>ix_id = fresh, ix_name = ix_name r, ix_version = version, ix_model = model, ix_dims = dims,
        ix_chunker = chunker, ix_active = True, ix_created = now\<rparr>"
  have "r \<in> set (vals t)" using map_of_SomeD [OF assms(2)] by force
  moreover have "index_clash ?n r" using assms(3) by (simp add: index_clash_def)
  ultimately have "list_ex (index_clash ?n) (vals t)" unfolding list_ex_iff by blast
  moreover have "v' = v" if "map_of t v' = Some r'" "ix_active r'" "ix_name r' = ix_name r" for v' r'
  proof -
    have "index_clash r' r" using that assms(3) by (simp add: index_clash_def)
    then show ?thesis using inv that(1) assms(2) by (simp add: index_inv_def)
  qed
  ultimately show ?thesis using resolve_active_unique [OF inv assms(2,3)]
    by (auto simp: create_index_version_def insert_unique_def)
qed

definition demo_index :: index_row where
  "demo_index = \<lparr>ix_id = 1, ix_name = ''default'', ix_version = ''v1'', ix_model = ''m'', ix_dims = 3,
     ix_chunker = ''c'', ix_active = True, ix_created = 0\<rparr>"

lemma demo_index_reach: "reach (\<lambda>t. t = []) index_step [(1, demo_index)]"
proof (rule reach_step [OF reach_start])
  show "index_step [] [(1, demo_index)]"
    by (rule step_create [of 1 0 "''default''" "''v1''" "''m''" 3 "''c''"])
      (simp add: create_index_version_def insert_unique_def demo_index_def)
qed simp

theorem index_version_blocks_next_witness:
  "resolve_active ''default'' [(1, demo_index)] = Some demo_index \<and>
   (\<exists>e. create_index_version 2 9 ''default'' ''v2'' ''m'' 3 ''c'' [(1, demo_index)] = (Inl e, [(1, demo_index)]))"
  using index_version_blocks_next [OF demo_index_reach, of 1 demo_index 2 9 "''v2''" "''m''" 3 "''c''"]
  by (simp add: demo_index_def)

end
