(* ===== verification/Answering.thy ===== *)
theory Answering
  imports TextLines Domain Complex_Main
begin

text \<open>
  The model-facing adapters and the claim validator: \<^verbatim>\<open>infrastructure/openai/\<close>
  (answer generator, reranker, embedding provider) and
  \<^verbatim>\<open>application/answering/claim_validator.py\<close>. The OpenAI client is a function from
  prompts to replies or exceptions, the parser of pydantic an argument; telemetry is left out.
\<close>

section \<open>Embedding provider (embedding_provider.py)\<close>

record embed_config =
  ec_model :: string
  ec_dimensions :: int
  ec_batch :: nat
  ec_retries :: int

text \<open>\<^verbatim>\<open>range(0, len(texts), batch_size)\<close> raises for a step of zero.\<close>

function batches :: "nat \<Rightarrow> 'a list \<Rightarrow> 'a list list" where
  "batches n xs = (if xs = [] \<or> n = 0 then [] else take n xs # batches n (drop n xs))"
  by pat_completeness auto
termination batches by (relation "measure (\<lambda>(n, xs). length xs)") auto

declare batches.simps [simp del]

text \<open>The provider's replies are a function of the number of calls made so far; the second
  component counts the calls, the third lists the pauses in seconds.\<close>

type_synonym embed_api = "nat \<Rightarrow> string list \<Rightarrow> exn + rat list list"

text \<open>One request. Only the third family of models takes the number of dimensions.\<close>

record embedding_request =
  eq_input :: "string list"
  eq_model :: string
  eq_dimensions :: "int option"

definition supports_dimensions :: "embed_config \<Rightarrow> bool" where
  "supports_dimensions cfg = startswith (ec_model cfg) ''text-embedding-3''"

definition call_api :: "embed_config \<Rightarrow> (nat \<Rightarrow> embedding_request \<Rightarrow> exn + rat list list) \<Rightarrow> embed_api" where
  "call_api cfg client n texts =
     client n \<lparr>eq_input = texts, eq_model = ec_model cfg,
       eq_dimensions = (if supports_dimensions cfg then Some (ec_dimensions cfg) else None)\<rparr>"

function embed_batch_with_retry ::
  "embed_api \<Rightarrow> int \<Rightarrow> string list \<Rightarrow> int \<Rightarrow> rat \<Rightarrow> nat \<Rightarrow> (exn + rat list list) \<times> nat \<times> rat list" where
  "embed_batch_with_retry api mx texts attempt delay n =
     (if attempt > mx then (Inl (RuntimeError ''Embedding failed''), n, [])
      else case api n texts of
          Inr r \<Rightarrow> (Inr r, Suc n, [])
        | Inl _ \<Rightarrow>
            if attempt \<ge> mx then (Inl (RuntimeError ''Embedding failed''), Suc n, [])
            else (case embed_batch_with_retry api mx texts (attempt + 1) (min (delay * 2) 30) (Suc n) of
                    (r, n', ds) \<Rightarrow> (r, n', delay # ds)))"
  by pat_completeness auto
termination embed_batch_with_retry
  by (relation "measure (\<lambda>(api, mx, texts, attempt, delay, n). nat (mx + 1 - attempt))") auto

declare embed_batch_with_retry.simps [simp del]

fun embed_loop :: "embed_api \<Rightarrow> int \<Rightarrow> string list list \<Rightarrow> nat \<Rightarrow> (exn + rat list list) \<times> nat \<times> rat list" where
  "embed_loop api mx [] n = (Inr [], n, [])"
| "embed_loop api mx (b # bs) n =
     (case embed_batch_with_retry api mx b 0 1 n of
        (Inl e, n', ds) \<Rightarrow> (Inl e, n', ds)
      | (Inr vs, n', ds) \<Rightarrow>
          (case embed_loop api mx bs n' of (r, n'', ds') \<Rightarrow> (rbind r (\<lambda>ws. Inr (vs @ ws)), n'', ds @ ds')))"

definition embed :: "embed_config \<Rightarrow> embed_api \<Rightarrow> string list \<Rightarrow> nat \<Rightarrow> (exn + rat list list) \<times> nat \<times> rat list" where
  "embed cfg api texts n =
     (if texts = [] then (Inr [], n, [])
      else if ec_batch cfg = 0 then (Inl (ValueError ''range() arg 3 must not be zero''), n, [])
      else embed_loop api (ec_retries cfg) (batches (ec_batch cfg) texts) n)"

definition embed_one :: "embed_config \<Rightarrow> embed_api \<Rightarrow> string \<Rightarrow> nat \<Rightarrow> exn + rat list" where
  "embed_one cfg api text n =
     rbind (fst (embed cfg api [text] n))
       (\<lambda>vs. case vs of [] \<Rightarrow> Inl (IndexError ''list index out of range'') | v # _ \<Rightarrow> Inr v)"

section \<open>Reranker (reranker.py)\<close>

text \<open>\<^verbatim>\<open>float(text)\<close> on the first word of the reply: decimal digits with single
  underscores between them, a fraction, an exponent, or one of the special names. The value is
  exact; \<^verbatim>\<open>nan\<close> compares false with everything.\<close>

datatype parsed_float = FinF rat | PosInf | NegInf | NanF

definition is_dec :: "char \<Rightarrow> bool" where
  "is_dec c = (let n = of_char c :: nat in 48 \<le> n \<and> n \<le> 57)"

definition dec_val :: "char \<Rightarrow> nat" where
  "dec_val c = of_char c - 48"

text \<open>A run of digits: value, number of digits, rest.\<close>

fun digits_run :: "nat \<Rightarrow> nat \<Rightarrow> string \<Rightarrow> nat \<times> nat \<times> string" where
  "digits_run v n [] = (v, n, [])"
| "digits_run v n (c # cs) =
     (if is_dec c then digits_run (10 * v + dec_val c) (Suc n) cs
      else case cs of
          d # cs' \<Rightarrow> if c = CHR ''_'' \<and> n > 0 \<and> is_dec d then digits_run (10 * v + dec_val d) (Suc n) cs'
                     else (v, n, c # cs)
        | [] \<Rightarrow> (v, n, c # cs))"

definition split_sign :: "string \<Rightarrow> bool \<times> string" where
  "split_sign s = (case s of c # cs \<Rightarrow> if c = CHR ''-'' then (True, cs) else if c = CHR ''+'' then (False, cs) else (False, s)
                   | [] \<Rightarrow> (False, []))"

definition parse_exponent :: "string \<Rightarrow> int option" where
  "parse_exponent s =
     (case s of
        [] \<Rightarrow> Some 0
      | c # cs \<Rightarrow>
          if c = CHR ''e'' \<or> c = CHR ''E'' then
            (case split_sign cs of (neg, t) \<Rightarrow>
               (case digits_run 0 0 t of (v, n, rest) \<Rightarrow>
                  if n = 0 \<or> rest \<noteq> [] then None else Some (if neg then - int v else int v)))
          else None)"

definition scale10 :: "rat \<Rightarrow> int \<Rightarrow> rat" where
  "scale10 x e = (if e \<ge> 0 then x * 10 ^ nat e else x / 10 ^ nat (- e))"

definition parse_unsigned :: "string \<Rightarrow> parsed_float option" where
  "parse_unsigned s =
     (if lower s \<in> {''inf'', ''infinity''} then Some PosInf
      else if lower s = ''nan'' then Some NanF
      else case digits_run 0 0 s of (whole, n, rest) \<Rightarrow>
        (case (case rest of c # cs \<Rightarrow> if c = CHR ''.'' then digits_run 0 0 cs else (0, 0, rest) | [] \<Rightarrow> (0, 0, [])) of
           (frc, m, rest') \<Rightarrow>
             if n + m = 0 then None
             else map_option (\<lambda>e. FinF (scale10 (of_nat whole + of_nat frc / 10 ^ m) e)) (parse_exponent rest')))"

definition negate_float :: "parsed_float \<Rightarrow> parsed_float" where
  "negate_float x = (case x of FinF r \<Rightarrow> FinF (- r) | PosInf \<Rightarrow> NegInf | NegInf \<Rightarrow> PosInf | NanF \<Rightarrow> NanF)"

definition parse_float :: "string \<Rightarrow> parsed_float option" where
  "parse_float s = (case split_sign s of (neg, t) \<Rightarrow> map_option (if neg then negate_float else id) (parse_unsigned t))"

text \<open>\<^verbatim>\<open>max(1.0, min(5.0, score))\<close>: both keep their first argument unless the second
  compares strictly better, so \<^verbatim>\<open>nan\<close> becomes 5.\<close>

definition clamp_score :: "parsed_float \<Rightarrow> rat" where
  "clamp_score x = (case x of FinF r \<Rightarrow> max 1 (min 5 r) | PosInf \<Rightarrow> 5 | NanF \<Rightarrow> 5 | NegInf \<Rightarrow> 1)"

definition score_of_reply :: "string \<Rightarrow> rat" where
  "score_of_reply reply =
     (let word = takeWhile (\<lambda>c. \<not> is_space c) (strip reply)
      in if word = [] then 1 else (case parse_float word of Some x \<Rightarrow> clamp_score x | None \<Rightarrow> 1))"

definition relevance_prompt :: "string \<Rightarrow> string \<Rightarrow> string" where
  "relevance_prompt query content =
     ''You are a relevance assessor. Rate how well the following evidence chunk '' @
     ''answers the user's question on a scale of 1 to 5.'' @ [nl, nl] @
     ''Question: '' @ query @ [nl, nl] @ ''Evidence: '' @ take 2000 content @ [nl, nl] @
     ''Respond with a single number between 1 and 5 (1=irrelevant, 5=perfectly relevant).''"

definition score_relevance :: "(string \<Rightarrow> exn + string) \<Rightarrow> string \<Rightarrow> string \<Rightarrow> exn + rat" where
  "score_relevance chat query content =
     rbind (chat (relevance_prompt query content))
       (\<lambda>reply. Inr (score_of_reply (if reply = [] then ''1'' else reply)))"

definition rerank :: "(string \<Rightarrow> exn + string) \<Rightarrow> evidence list \<Rightarrow> string \<Rightarrow> exn + evidence list" where
  "rerank chat evs query =
     (if length evs \<le> 1 then Inr evs
      else rbind (rmap (\<lambda>e. rbind (score_relevance chat query (ev_content e)) (\<lambda>s. Inr (e, s))) evs)
        (\<lambda>scored. Inr (map (\<lambda>(e, s). e\<lparr>ev_rerank_score := Some s\<rparr>) (sort_desc snd scored))))"

section \<open>Answer generator (answer_generator.py)\<close>

record claim_output =
  co_text :: string
  co_factual :: bool
  co_support :: string
  co_evidence :: "string list"

record response_output =
  ro_answer :: string
  ro_claims :: "claim_output list"

definition system_prompt :: string where
  "system_prompt =
     ''You are a factual question-answering assistant. Your role is to answer questions '' @
     ''based ONLY on the provided evidence. You must cite every factual claim.'' @ [nl, nl] @
     ''Rules:'' @ [nl] @
     ''1. Answer using ONLY the evidence provided.'' @ [nl] @
     ''2. If the evidence does not support an answer, say 'I don't know'.'' @ [nl] @
     ''3. Every factual claim must be cited using [citation_id] markers.'' @ [nl] @
     ''4. If you cannot determine the answer, respond with status 'insufficient_evidence'.'' @ [nl] @
     ''5. Be concise and precise.''"

definition evidence_context :: "evidence list \<Rightarrow> string" where
  "evidence_context evs = join_with [nl, nl] (map (\<lambda>e. ''['' @ show_nat (ev_id e) @ ''] '' @ ev_content e) evs)"

definition user_prompt :: "string \<Rightarrow> evidence list \<Rightarrow> string" where
  "user_prompt question evs =
     ''Question: '' @ question @ [nl, nl] @ ''Evidence:'' @ [nl] @ evidence_context evs @ [nl, nl] @
     ''Provide your answer in JSON format with 'answer', and 'claims' array.''"

definition evidence_map :: "evidence list \<Rightarrow> (string, evidence) dict" where
  "evidence_map evs = dict_of (map (\<lambda>e. (show_nat (ev_id e), e)) evs)"

definition mapped_ids :: "(string, evidence) dict \<Rightarrow> string list \<Rightarrow> uuid list" where
  "mapped_ids m ids = List.map_filter (\<lambda>cid. map_option ev_id (map_of m cid)) ids"

text \<open>Unknown and empty labels count as unsupported, and so does a supported claim without evidence.\<close>

definition support_of :: "string \<Rightarrow> uuid list \<Rightarrow> support" where
  "support_of label ids =
     (if ids = [] then Unsupported
      else if label = ''supported'' then Supported
      else if label = ''partially_supported'' then PartiallySupported else Unsupported)"

definition chunk_locator :: "evidence \<Rightarrow> string" where
  "chunk_locator ev =
     (case (ev_chunk ev, ev_version ev) of
        (Some c, Some v) \<Rightarrow> show_nat c @ ''@'' @ show_nat v
      | _ \<Rightarrow> (case ev_record ev of Some r \<Rightarrow> if r = [] then show_nat (ev_id ev) else r | None \<Rightarrow> show_nat (ev_id ev)))"

fun make_citations ::
  "(nat \<Rightarrow> uuid) \<Rightarrow> (string, evidence) dict \<Rightarrow> uuid \<Rightarrow> uuid list \<Rightarrow> nat \<Rightarrow> exn + citation list \<times> nat" where
  "make_citations fresh m claim [] n = Inr ([], n)"
| "make_citations fresh m claim (eid # ids) n =
     (case map_of m (show_nat eid) of
        None \<Rightarrow> Inl (KeyError (show_nat eid))
      | Some ev \<Rightarrow>
          rbind (make_citations fresh m claim ids (Suc n)) (\<lambda>(cs, n').
            Inr (\<lparr>ci_id = fresh n, ci_claim = claim, ci_evidence = eid, ci_locator = chunk_locator ev,
                  ci_principals = ev_principals ev\<rparr> # cs, n')))"

record answer_state =
  as_claims :: "answer_claim list"
  as_citations :: "citation list"
  as_claim :: uuid
  as_next :: nat

text \<open>A claim that \<^verbatim>\<open>AnswerClaim\<close> rejects is skipped.\<close>

fun claim_loop ::
  "(nat \<Rightarrow> uuid) \<Rightarrow> (string, evidence) dict \<Rightarrow> claim_output list \<Rightarrow> answer_state \<Rightarrow> exn + answer_state" where
  "claim_loop fresh m [] st = Inr st"
| "claim_loop fresh m (co # outs) st =
     (let ids = mapped_ids m (co_evidence co)
      in case mk_claim \<lparr>ac_id = as_claim st, ac_text = co_text co, ac_factual = co_factual co, ac_evidence = ids,
                        ac_support = support_of (co_support co) ids\<rparr> of
           Inl _ \<Rightarrow> claim_loop fresh m outs (st\<lparr>as_claim := fresh (as_next st), as_next := Suc (as_next st)\<rparr>)
         | Inr c \<Rightarrow>
             rbind (make_citations fresh m (as_claim st) ids (as_next st)) (\<lambda>(cits, n).
               claim_loop fresh m outs
                 \<lparr>as_claims = as_claims st @ [c], as_citations = as_citations st @ cits, as_claim = fresh n,
                  as_next = Suc n\<rparr>))"

definition supported_claim :: "answer_claim \<Rightarrow> bool" where
  "supported_claim c \<longleftrightarrow> ac_support c = Supported \<or> ac_support c = PartiallySupported"

definition refusal :: "uuid \<Rightarrow> response_status \<Rightarrow> string \<Rightarrow> query_response" where
  "refusal run st warning =
     \<lparr>qr_run = run, qr_answer = None, qr_status = st, qr_claims = [], qr_citations = [], qr_confidence = Low,
      qr_warnings = [warning]\<rparr>"

definition build_response :: "(nat \<Rightarrow> uuid) \<Rightarrow> response_output \<Rightarrow> evidence list \<Rightarrow> exn + query_response" where
  "build_response fresh out evs =
     rbind (claim_loop fresh (evidence_map evs) (ro_claims out)
              \<lparr>as_claims = [], as_citations = [], as_claim = fresh 0, as_next = 1\<rparr>)
       (\<lambda>st. let n = length (filter supported_claim (as_claims st)); run = fresh (as_next st)
         in if strip (ro_answer out) \<noteq> [] \<and> n = 0
            then mk_response (refusal run InsufficientEvidence ''LLM answer had no supported claims'')
            else mk_response
              \<lparr>qr_run = run, qr_answer = (if ro_answer out = [] then None else Some (ro_answer out)),
               qr_status = (if strip (ro_answer out) \<noteq> [] then Answered else InsufficientEvidence),
               qr_claims = as_claims st, qr_citations = as_citations st,
               qr_confidence = (if strip (ro_answer out) = [] then Low else if n \<ge> 3 then High else Medium),
               qr_warnings = []\<rparr>)"

definition generate ::
  "(nat \<Rightarrow> uuid) \<Rightarrow> (string \<Rightarrow> string \<Rightarrow> exn + string) \<Rightarrow> (string \<Rightarrow> exn + response_output) \<Rightarrow> string \<Rightarrow>
   evidence list \<Rightarrow> exn + query_response" where
  "generate fresh chat parse question evs =
     (if evs = [] then mk_response (refusal (fresh 0) InsufficientEvidence ''No evidence retrieved'')
      else case rbind (chat system_prompt (user_prompt question evs))
                  (\<lambda>raw. parse (if raw = [] then ''{}'' else raw)) of
             Inl _ \<Rightarrow> mk_response (refusal (fresh 0) RespFailed ''Answer generation failed'')
           | Inr out \<Rightarrow> build_response fresh out evs)"

section \<open>Claim validator (claim_validator.py)\<close>

definition validate_claim :: "uuid list \<Rightarrow> answer_claim \<Rightarrow> exn + answer_claim" where
  "validate_claim ids c =
     (if \<not> supported_claim c then Inr c
      else if ac_evidence c = [] then mk_claim (c\<lparr>ac_support := Unsupported\<rparr>)
      else let present = filter (\<lambda>e. e \<in> set ids) (ac_evidence c)
           in if present = [] then mk_claim (c\<lparr>ac_evidence := [], ac_support := Unsupported\<rparr>)
              else if length present < length (ac_evidence c)
              then mk_claim (c\<lparr>ac_evidence := present, ac_support := PartiallySupported\<rparr>)
              else Inr c)"

definition kept_citations :: "uuid list \<Rightarrow> citation list \<Rightarrow> answer_claim \<Rightarrow> citation list" where
  "kept_citations ids cits c = filter (\<lambda>cit. ci_claim cit = ac_id c \<and> ci_evidence cit \<in> set ids) cits"

definition validate_response :: "query_response \<Rightarrow> evidence list \<Rightarrow> exn + query_response" where
  "validate_response r evs =
     (let ids = map ev_id evs
      in rbind (rmap (validate_claim ids) (qr_claims r)) (\<lambda>claims.
           let n = length (filter (\<lambda>c. ac_support c = Unsupported) claims)
           in mk_response (r\<lparr>qr_claims := claims,
                qr_citations := concat (map (kept_citations ids (qr_citations r)) (qr_claims r)),
                qr_warnings := qr_warnings r @
                  (if n > 0 then [show_nat n @ '' unsupported claim(s) detected''] else [])\<rparr>)))"

section \<open>Lemmas about the embedding provider\<close>

lemma concat_batches: "n > 0 \<Longrightarrow> concat (batches n xs) = xs"
  by (induction n xs rule: batches.induct) (subst batches.simps, simp)

lemma batches_length: "n > 0 \<Longrightarrow> b \<in> set (batches n xs) \<Longrightarrow> b \<noteq> [] \<and> length b \<le> n"
proof (induction n xs rule: batches.induct)
  case (1 n xs)
  show ?case
  proof (cases "xs = []")
    case True
    then show ?thesis using 1(3) by (simp add: batches.simps)
  next
    case False
    then have "b = take n xs \<or> b \<in> set (batches n (drop n xs))"
      using 1(2,3) by (simp add: batches.simps [of n xs])
    then show ?thesis using 1 False by auto
  qed
qed

lemma retry_bounds:
  "embed_batch_with_retry api mx texts attempt delay n = (r, n', ds) \<Longrightarrow> 0 \<le> delay \<Longrightarrow> delay \<le> 30 \<Longrightarrow>
   n \<le> n' \<and> int n' \<le> int n + max 0 (mx + 1 - attempt) \<and> (\<forall>d \<in> set ds. 0 \<le> d \<and> d \<le> 30) \<and>
   (\<forall>vs. r = Inr vs \<longrightarrow> (\<exists>k < n'. n \<le> k \<and> api k texts = Inr vs))"
proof (induction api mx texts attempt delay n arbitrary: r n' ds rule: embed_batch_with_retry.induct)
  case (1 api mx texts attempt delay n)
  consider "attempt > mx" | v where "attempt \<le> mx" "api n texts = Inr v"
    | e where "attempt = mx" "api n texts = Inl e" | e where "attempt < mx" "api n texts = Inl e"
    by (cases "api n texts"; rule linorder_cases [of attempt mx]) auto
  then show ?case
  proof cases
    case 1
    then show ?thesis using "1.prems" by (auto simp: embed_batch_with_retry.simps)
  next
    case 2
    then show ?thesis using "1.prems" by (auto simp: embed_batch_with_retry.simps)
  next
    case 3
    then show ?thesis using "1.prems" by (auto simp: embed_batch_with_retry.simps)
  next
    case 4
    obtain r2 n2 ds2 where rec: "embed_batch_with_retry api mx texts (attempt + 1) (min (delay * 2) 30) (Suc n) = (r2, n2, ds2)"
      by (metis prod_cases3)
    have eq: "r = r2" "n' = n2" "ds = delay # ds2"
      using "1.prems"(1) 4 rec by (simp_all add: embed_batch_with_retry.simps [of api mx texts attempt])
    have d: "0 \<le> min (delay * 2) 30" "min (delay * 2) (30 :: rat) \<le> 30" using "1.prems"(2) by simp_all
    from "1.IH" [OF _ 4(2) _ rec d] 4(1)
    have IH: "Suc n \<le> n2" "int n2 \<le> int (Suc n) + max 0 (mx + 1 - (attempt + 1))" "\<forall>d \<in> set ds2. 0 \<le> d \<and> d \<le> 30"
      "\<forall>vs. r2 = Inr vs \<longrightarrow> (\<exists>k < n2. Suc n \<le> k \<and> api k texts = Inr vs)" by auto
    have "\<exists>k < n2. n \<le> k \<and> api k texts = Inr vs" if "r2 = Inr vs" for vs
      using IH(4) that Suc_leD by blast
    then show ?thesis using eq 4(1) "1.prems"(2,3) IH(1-3) by auto
  qed
qed

text \<open>The contract of the embeddings endpoint: one vector per text.\<close>

definition api_aligned :: "embed_api \<Rightarrow> bool" where
  "api_aligned api \<longleftrightarrow> (\<forall>n texts vs. api n texts = Inr vs \<longrightarrow> length vs = length texts)"

lemma call_api_aligned:
  "(\<And>n r vs. client n r = Inr vs \<Longrightarrow> length vs = length (eq_input r)) \<Longrightarrow> api_aligned (call_api cfg client)"
  by (force simp: api_aligned_def call_api_def)

lemma embed_loop_ok:
  "embed_loop api mx bs n = (r, n', ds) \<Longrightarrow> 
   n \<le> n' \<and> int n' \<le> int n + int (length bs) * max 0 (mx + 1) \<and> (\<forall>d \<in> set ds. 0 \<le> d \<and> d \<le> 30) \<and>
   (api_aligned api \<longrightarrow> (\<forall>vs. r = Inr vs \<longrightarrow> length vs = length (concat bs)))"
proof (induction api mx bs n arbitrary: r n' ds rule: embed_loop.induct)
  case (1 api mx n)
  then show ?case by auto
next
  case (2 api mx b bs n)
  obtain r1 n1 d1 where b: "embed_batch_with_retry api mx b 0 1 n = (r1, n1, d1)" by (metis prod_cases3)
  from retry_bounds [OF b] have R: "n \<le> n1" "int n1 \<le> int n + max 0 (mx + 1)" "\<forall>d \<in> set d1. 0 \<le> d \<and> d \<le> 30"
    "\<forall>vs. r1 = Inr vs \<longrightarrow> (\<exists>k < n1. n \<le> k \<and> api k b = Inr vs)" by auto
  show ?case
  proof (cases r1)
    case (Inl e)
    have eq: "r = Inl e" "n' = n1" "ds = d1" using 2(2) b Inl by simp_all
    have "max 0 (mx + 1) \<le> int (length (b # bs)) * max 0 (mx + 1)" by (simp add: distrib_right)
    then have "int n1 \<le> int n + int (length (b # bs)) * max 0 (mx + 1)" using R(2) by linarith
    then show ?thesis using R(1,3) unfolding eq by blast
  next
    case (Inr vs1)
    obtain r2 n2 d2 where l: "embed_loop api mx bs n1 = (r2, n2, d2)" by (metis prod_cases3)
    have eq: "r = rbind r2 (\<lambda>ws. Inr (vs1 @ ws))" "n' = n2" "ds = d1 @ d2" using 2(2) b Inr l by simp_all
    from 2(1) [OF b [symmetric] Inr refl l]
    have IH: "n1 \<le> n2" "int n2 \<le> int n1 + int (length bs) * max 0 (mx + 1)" "\<forall>d \<in> set d2. 0 \<le> d \<and> d \<le> 30"
      "api_aligned api \<longrightarrow> (\<forall>vs. r2 = Inr vs \<longrightarrow> length vs = length (concat bs))" by auto
    have "length vs1 = length b" if "api_aligned api"
      using that R(4) Inr unfolding api_aligned_def by blast
    then show ?thesis using eq IH R(1-3) by (auto simp: algebra_simps)
  qed
qed

lemma embed_ok:
  assumes "embed cfg api texts n = (r, n', ds)" and "ec_batch cfg > 0"
  shows "n \<le> n' \<and> int n' \<le> int n + int (length (batches (ec_batch cfg) texts)) * max 0 (ec_retries cfg + 1) \<and>
    (\<forall>d \<in> set ds. 0 \<le> d \<and> d \<le> 30) \<and>
    (api_aligned api \<longrightarrow> (\<forall>vs. r = Inr vs \<longrightarrow> length vs = length texts))"
proof (cases "texts = []")
  case True
  then show ?thesis using assms by (auto simp: embed_def batches.simps)
next
  case False
  then have l: "embed_loop api (ec_retries cfg) (batches (ec_batch cfg) texts) n = (r, n', ds)"
    using assms by (simp add: embed_def)
  show ?thesis using embed_loop_ok [OF l] unfolding concat_batches [OF assms(2)] by blast
qed

section \<open>Lemmas about the reranker\<close>

lemma clamp_score_range: "1 \<le> clamp_score x \<and> clamp_score x \<le> 5"
  by (cases x) (auto simp: clamp_score_def)

lemma score_of_reply_range: "1 \<le> score_of_reply reply \<and> score_of_reply reply \<le> 5"
  by (simp add: score_of_reply_def Let_def clamp_score_range split: option.split)

abbreviation unscored :: "evidence \<Rightarrow> evidence" where
  "unscored e \<equiv> e\<lparr>ev_rerank_score := None\<rparr>"

text \<open>What the callers of a reranker rely on: the evidence is the same but for its score and order.\<close>

locale reranker =
  fixes rr :: "evidence list \<Rightarrow> string \<Rightarrow> exn + evidence list"
  assumes rr_mset: "rr evs q = Inr out \<Longrightarrow> mset (map unscored out) = mset (map unscored evs)"
begin

lemma rr_same:
  assumes "rr evs q = Inr out" and "e \<in> set out"
  shows "\<exists>e' \<in> set evs. unscored e = unscored e'"
proof -
  have "unscored e \<in># mset (map unscored out)" using assms(2) by simp
  then show ?thesis unfolding rr_mset [OF assms(1)] by auto
qed

lemma rr_ids: "rr evs q = Inr out \<Longrightarrow> ev_id ` set out = ev_id ` set evs"
proof -
  assume "rr evs q = Inr out"
  then have "set (map unscored out) = set (map unscored evs)" by (metis rr_mset set_mset_mset)
  then have "ev_id ` unscored ` set out = ev_id ` unscored ` set evs" by simp
  then show ?thesis by (simp add: image_image)
qed

lemma rr_length: "rr evs q = Inr out \<Longrightarrow> length out = length evs"
  by (metis rr_mset size_mset length_map)

end

lemma rerank_cases:
  assumes "rerank chat evs q = Inr out" and "length evs > 1"
  shows "\<exists>ss. length ss = length evs \<and> (\<forall>s \<in> set ss. 1 \<le> s \<and> s \<le> 5) \<and>
    out = map (\<lambda>(e, s). e\<lparr>ev_rerank_score := Some s\<rparr>) (sort_desc snd (zip evs ss))"
proof -
  let ?f = "\<lambda>e. rbind (score_relevance chat q (ev_content e)) (\<lambda>s. Inr (e, s))"
  from assms obtain scored where sc: "rmap ?f evs = Inr scored"
    and out: "out = map (\<lambda>(e, s). e\<lparr>ev_rerank_score := Some s\<rparr>) (sort_desc snd scored)"
    by (auto simp: rerank_def)
  have l: "list_all2 (\<lambda>e p. ?f e = Inr p) evs scored" using sc by (simp only: rmap_Inr_iff)
  have fst: "map fst scored = evs" using l by (induction rule: list_all2_induct) auto
  have range: "1 \<le> snd p \<and> snd p \<le> 5" if "p \<in> set scored" for p
    using rmap_Inr_mem [OF sc that] score_of_reply_range by (auto simp: score_relevance_def)
  have "scored = zip evs (map snd scored)" unfolding fst [symmetric] by (simp add: zip_map_fst_snd)
  then show ?thesis using range out fst by (intro exI [of _ "map snd scored"]) (auto simp flip: length_map [of fst scored])
qed

interpretation openai: reranker "rerank chat" for chat
proof
  fix evs q out
  assume r: "rerank chat evs q = Inr out"
  show "mset (map unscored out) = mset (map unscored evs)"
  proof (cases "length evs \<le> 1")
    case True
    then show ?thesis using r by (simp add: rerank_def)
  next
    case False
    then obtain ss where ss: "length ss = length evs"
      "out = map (\<lambda>(e, s). e\<lparr>ev_rerank_score := Some s\<rparr>) (sort_desc snd (zip evs ss))"
      using rerank_cases [OF r] by auto
    have "map unscored out = map (unscored \<circ> fst) (sort_desc snd (zip evs ss))"
      unfolding ss(2) by (auto simp: case_prod_beta)
    then have "mset (map unscored out) = image_mset (unscored \<circ> fst) (mset (zip evs ss))"
      by (metis mset_map mset_sort_desc)
    also have "\<dots> = mset (map unscored (map fst (zip evs ss)))" by (simp flip: mset_map)
    finally show ?thesis using ss(1) by simp
  qed
qed

section \<open>Lemmas about the answer generator\<close>

lemma evidence_map_mem: "map_of (evidence_map evs) (show_nat i) = Some ev \<Longrightarrow> ev \<in> set evs \<and> ev_id ev = i"
  unfolding evidence_map_def by (drule dict_of_mem) auto

lemma evidence_map_key: "map_of (evidence_map evs) cid = Some ev \<Longrightarrow> ev \<in> set evs \<and> cid = show_nat (ev_id ev)"
  unfolding evidence_map_def by (drule dict_of_mem) auto

lemma mapped_ids_mem:
  assumes "i \<in> set (mapped_ids (evidence_map evs) ids)"
  shows "i \<in> ev_id ` set evs" and "\<exists>ev. map_of (evidence_map evs) (show_nat i) = Some ev"
proof -
  from assms obtain cid ev where e: "map_of (evidence_map evs) cid = Some ev" "i = ev_id ev"
    by (auto simp: mapped_ids_def List.map_filter_def)
  from evidence_map_key [OF e(1)] e show "i \<in> ev_id ` set evs" "\<exists>ev. map_of (evidence_map evs) (show_nat i) = Some ev"
    by auto
qed

lemma support_of_claim_ok: "mk_claim \<lparr>ac_id = i, ac_text = t, ac_factual = f, ac_evidence = ids, ac_support = support_of l ids\<rparr> = Inr c \<Longrightarrow>
    ac_id c = i \<and> ac_evidence c = ids \<and> claim_ok c"
  by (auto simp: mk_claim_iff)

definition citation_ok :: "evidence list \<Rightarrow> answer_claim list \<Rightarrow> citation \<Rightarrow> bool" where
  "citation_ok evs claims ci \<longleftrightarrow>
     (\<exists>ev \<in> set evs. ci_evidence ci = ev_id ev \<and> ci_principals ci = ev_principals ev \<and> ci_locator ci = chunk_locator ev) \<and>
     (\<exists>c \<in> set claims. ci_claim ci = ac_id c \<and> ci_evidence ci \<in> set (ac_evidence c))"

definition answer_inv :: "evidence list \<Rightarrow> answer_state \<Rightarrow> bool" where
  "answer_inv evs st \<longleftrightarrow>
     (\<forall>c \<in> set (as_claims st). claim_ok c \<and> set (ac_evidence c) \<subseteq> ev_id ` set evs) \<and>
     (\<forall>ci \<in> set (as_citations st). citation_ok evs (as_claims st) ci)"

lemma make_citations_ok:
  "\<forall>i \<in> set ids. \<exists>ev. map_of (evidence_map evs) (show_nat i) = Some ev \<Longrightarrow>
   \<exists>cs n'. make_citations fresh (evidence_map evs) claim ids n = Inr (cs, n') \<and>
     (\<forall>ci \<in> set cs. ci_claim ci = claim \<and> ci_evidence ci \<in> set ids \<and>
        (\<exists>ev \<in> set evs. ci_evidence ci = ev_id ev \<and> ci_principals ci = ev_principals ev \<and> ci_locator ci = chunk_locator ev))"
proof (induction ids arbitrary: n)
  case (Cons i ids)
  then obtain ev where ev: "map_of (evidence_map evs) (show_nat i) = Some ev" by auto
  from Cons obtain cs n' where "make_citations fresh (evidence_map evs) claim ids (Suc n) = Inr (cs, n')"
    "\<forall>ci \<in> set cs. ci_claim ci = claim \<and> ci_evidence ci \<in> set ids \<and>
        (\<exists>ev \<in> set evs. ci_evidence ci = ev_id ev \<and> ci_principals ci = ev_principals ev \<and> ci_locator ci = chunk_locator ev)"
    by force
  then show ?case using ev evidence_map_mem [OF ev] by auto
qed simp

text \<open>The loop never fails and keeps the invariant.\<close>

lemma claim_loop_ok:
  "answer_inv evs st \<Longrightarrow> \<exists>st'. claim_loop fresh (evidence_map evs) outs st = Inr st' \<and> answer_inv evs st'"
proof (induction outs arbitrary: st)
  case (Cons co outs)
  let ?ids = "mapped_ids (evidence_map evs) (co_evidence co)"
  let ?c = "\<lparr>ac_id = as_claim st, ac_text = co_text co, ac_factual = co_factual co, ac_evidence = ?ids,
      ac_support = support_of (co_support co) ?ids\<rparr>"
  show ?case
  proof (cases "mk_claim ?c")
    case (Inl e)
    have "answer_inv evs (st\<lparr>as_claim := fresh (as_next st), as_next := Suc (as_next st)\<rparr>)"
      using Cons.prems by (simp add: answer_inv_def)
    from Cons.IH [OF this] show ?thesis using Inl by (simp add: Let_def)
  next
    case (Inr c)
    obtain cs n' where cs: "make_citations fresh (evidence_map evs) (as_claim st) ?ids (as_next st) = Inr (cs, n')"
      "\<forall>ci \<in> set cs. ci_claim ci = as_claim st \<and> ci_evidence ci \<in> set ?ids \<and>
        (\<exists>ev \<in> set evs. ci_evidence ci = ev_id ev \<and> ci_principals ci = ev_principals ev \<and> ci_locator ci = chunk_locator ev)"
      using make_citations_ok [of ?ids evs] mapped_ids_mem(2) by blast
    let ?st = "\<lparr>as_claims = as_claims st @ [c], as_citations = as_citations st @ cs, as_claim = fresh n', as_next = Suc n'\<rparr>"
    have c: "ac_id c = as_claim st" "ac_evidence c = ?ids" "claim_ok c" using support_of_claim_ok [OF Inr] by auto
    have "set (ac_evidence c) \<subseteq> ev_id ` set evs" unfolding c(2) using mapped_ids_mem(1) by blast
    moreover have "citation_ok evs (as_claims st @ [c]) ci" if "ci \<in> set cs" for ci
      using cs(2) that c by (auto simp: citation_ok_def)
    moreover have "citation_ok evs (as_claims st @ [c]) ci" if "ci \<in> set (as_citations st)" for ci
      using Cons.prems that by (fastforce simp: answer_inv_def citation_ok_def)
    ultimately have "answer_inv evs ?st" using Cons.prems c(3) by (simp add: answer_inv_def ball_Un)
    from Cons.IH [OF this] show ?thesis using Inr cs(1) by (simp add: Let_def)
  qed
qed simp

lemma answer_start: "answer_inv evs \<lparr>as_claims = [], as_citations = [], as_claim = c, as_next = n\<rparr>"
  by (simp add: answer_inv_def)

lemma mk_refusal: "st \<noteq> Answered \<Longrightarrow> mk_response (refusal run st w) = Inr (refusal run st w)"
  by (simp add: mk_response_def refusal_def)

text \<open>Every response the generator makes is grounded; the only failure is an answer of blanks.\<close>

definition grounded :: "evidence list \<Rightarrow> query_response \<Rightarrow> bool" where
  "grounded evs r \<longleftrightarrow>
     (\<forall>c \<in> set (qr_claims r). claim_ok c \<and> set (ac_evidence c) \<subseteq> ev_id ` set evs) \<and>
     (\<forall>ci \<in> set (qr_citations r). citation_ok evs (qr_claims r) ci) \<and>
     (qr_status r = Answered \<longrightarrow> (\<exists>c \<in> set (qr_claims r). supported_claim c) \<and>
        (\<exists>a. qr_answer r = Some a \<and> strip a \<noteq> []))"

lemma grounded_refusal: "st \<noteq> Answered \<Longrightarrow> grounded evs (refusal run st w)"
  by (simp add: grounded_def refusal_def)

lemma build_response_ok:
  "(\<exists>r. build_response fresh out evs = Inr r \<and> grounded evs r \<and> (qr_status r = Answered \<or> qr_status r = InsufficientEvidence)) \<or>
   (strip (ro_answer out) = [] \<and> ro_answer out \<noteq> [] \<and>
    build_response fresh out evs = Inl (ValueError ''answer must be None when status is not answered''))"
proof -
  obtain st where st: "claim_loop fresh (evidence_map evs) (ro_claims out)
      \<lparr>as_claims = [], as_citations = [], as_claim = fresh 0, as_next = 1\<rparr> = Inr st" "answer_inv evs st"
    using claim_loop_ok [OF answer_start] by blast
  let ?n = "length (filter supported_claim (as_claims st))"
  consider "strip (ro_answer out) \<noteq> []" "?n = 0" | "strip (ro_answer out) \<noteq> []" "?n \<noteq> 0"
    | "strip (ro_answer out) = []" "ro_answer out \<noteq> []" | "ro_answer out = []" by blast
  then show ?thesis
  proof cases
    case 1
    then show ?thesis using st
      by (intro disjI1 exI [of _ "refusal (fresh (as_next st)) InsufficientEvidence ''LLM answer had no supported claims''"])
        (simp add: build_response_def Let_def mk_refusal grounded_refusal, simp add: refusal_def)
  next
    case 2
    then have ne: "ro_answer out \<noteq> []" by (auto simp: strip_def lstrip_def rstrip_def)
    from 2(2) obtain c where c: "c \<in> set (as_claims st)" "supported_claim c" by (auto simp: filter_empty_conv)
    then show ?thesis using st 2 ne
      by (intro disjI1) (auto simp: build_response_def Let_def mk_response_def grounded_def answer_inv_def)
  next
    case 3
    then show ?thesis using st by (simp add: build_response_def Let_def mk_response_def)
  next
    case 4
    then have "strip (ro_answer out) = []" by (simp add: strip_def lstrip_def rstrip_def)
    then show ?thesis using st 4
      by (intro disjI1) (simp add: build_response_def Let_def mk_response_def grounded_def answer_inv_def)
  qed
qed

lemma build_response_blank:
  "strip (ro_answer out) = [] \<Longrightarrow> ro_answer out \<noteq> [] \<Longrightarrow> \<exists>e. build_response fresh out evs = Inl e"
  using claim_loop_ok [OF answer_start, of fresh evs "ro_claims out" "fresh 0" 1]
  by (auto simp: build_response_def Let_def mk_response_def)

lemma generate_response_ok: "generate fresh chat parse question evs = Inr r \<Longrightarrow> response_ok r"
  by (auto simp: generate_def build_response_def mk_response_iff Let_def split: if_splits sum.splits)

lemma generate_grounded:
  assumes "generate fresh chat parse question evs = Inr r"
  shows "grounded evs r"
proof (cases "evs = []")
  case True
  then show ?thesis using assms mk_refusal [of InsufficientEvidence] grounded_refusal [of InsufficientEvidence]
    by (auto simp: generate_def)
next
  case False
  show ?thesis
  proof (cases "rbind (chat system_prompt (user_prompt question evs)) (\<lambda>raw. parse (if raw = [] then ''{}'' else raw))")
    case (Inl e)
    then show ?thesis using assms False mk_refusal [of RespFailed] grounded_refusal [of RespFailed]
      by (auto simp: generate_def)
  next
    case (Inr out)
    then show ?thesis using assms False build_response_ok [of fresh out evs] by (auto simp: generate_def)
  qed
qed

section \<open>Lemmas about the validator\<close>

text \<open>How much a claim is said to be supported.\<close>

instantiation support :: linorder
begin

fun support_rank :: "support \<Rightarrow> nat" where
  "support_rank Unsupported = 0"
| "support_rank PartiallySupported = 1"
| "support_rank Supported = 2"

definition less_eq_support :: "support \<Rightarrow> support \<Rightarrow> bool" where
  "less_eq_support a b \<longleftrightarrow> support_rank a \<le> support_rank b"

definition less_support :: "support \<Rightarrow> support \<Rightarrow> bool" where
  "less_support a b \<longleftrightarrow> support_rank a < support_rank b"

instance
proof
  fix a b :: support
  show "a \<le> b \<Longrightarrow> b \<le> a \<Longrightarrow> a = b"
    by (cases a; cases b) (simp_all add: less_eq_support_def)
qed (auto simp: less_eq_support_def less_support_def)

end

lemma validate_claim_ok:
  assumes "claim_ok c"
  shows "\<exists>c'. validate_claim ids c = Inr c' \<and> claim_ok c' \<and> ac_id c' = ac_id c \<and> ac_text c' = ac_text c \<and>
    ac_factual c' = ac_factual c \<and> ac_support c' \<le> ac_support c \<and>
    set (ac_evidence c') = set (ac_evidence c) \<inter> set ids"
proof -
  let ?p = "filter (\<lambda>e. e \<in> set ids) (ac_evidence c)"
  have ps: "set ?p = set (ac_evidence c) \<inter> set ids" by auto
  consider "\<not> supported_claim c" | "supported_claim c" "?p = []" | "supported_claim c" "?p \<noteq> []" "length ?p < length (ac_evidence c)"
    | "supported_claim c" "?p \<noteq> []" "length ?p = length (ac_evidence c)"
    by (metis length_filter_le le_neq_implies_less)
  then show ?thesis
  proof cases
    case 1
    then have "ac_evidence c = []" using assms by (cases "ac_support c") (auto simp: supported_claim_def claim_ok_def)
    then show ?thesis using 1 assms by (simp add: validate_claim_def)
  next
    case 2
    then have "ac_evidence c \<noteq> []" using assms by (auto simp: supported_claim_def claim_ok_def)
    then show ?thesis using 2 ps by (simp add: validate_claim_def mk_claim_def claim_ok_def less_eq_support_def)
  next
    case 3
    then have "ac_evidence c \<noteq> []" by auto
    then show ?thesis using 3 ps
      by (cases "ac_support c") (simp_all add: validate_claim_def mk_claim_def claim_ok_def less_eq_support_def supported_claim_def Let_def)
  next
    case 4
    then have "?p = ac_evidence c" by (metis filter_id_conv length_filter_less nat_less_le)
    then show ?thesis using 4 assms ps by (auto simp: validate_claim_def Let_def)
  qed
qed

lemma validate_claim_fix:
  assumes "claim_ok c" and "set (ac_evidence c) \<subseteq> set ids"
  shows "validate_claim ids c = Inr c"
proof -
  have "filter (\<lambda>e. e \<in> set ids) (ac_evidence c) = ac_evidence c" using assms(2) by (auto simp: filter_id_conv)
  then show ?thesis using assms(1) by (auto simp: validate_claim_def claim_ok_def supported_claim_def Let_def)
qed

lemma rmap_total:
  "\<forall>x \<in> set xs. \<exists>y. f x = Inr y \<and> P x y \<Longrightarrow> \<exists>ys. rmap f xs = Inr ys \<and> list_all2 P xs ys"
  by (induction xs) auto

lemma rmap_fix: "\<forall>x \<in> set xs. f x = Inr x \<Longrightarrow> rmap f xs = Inr xs"
  by (induction xs) auto

lemma kept_citations_mem:
  "ci \<in> set (concat (map (kept_citations ids cits) cs)) \<longleftrightarrow>
     ci \<in> set cits \<and> ci_evidence ci \<in> set ids \<and> (\<exists>c \<in> set cs. ci_claim ci = ac_id c)"
  by (auto simp: kept_citations_def)

section \<open>Properties\<close>

text \<open>C14: Answers are grounded. Whatever the model replies, in every response of the generator each
  claim's evidence is evidence that was given to the model, each citation points at such evidence
  with its principals and locator and belongs to a claim that names it; and a response with
  status answered has evidence, an answer that is not blank and at least one supported claim that names
  evidence.\<close>

theorem answers_grounded:
  assumes "generate fresh chat parse question evs = Inr r"
  shows "(\<forall>c \<in> set (qr_claims r). claim_ok c \<and> set (ac_evidence c) \<subseteq> ev_id ` set evs) \<and>
    (\<forall>ci \<in> set (qr_citations r). citation_ok evs (qr_claims r) ci) \<and>
    (qr_status r = Answered \<longrightarrow> evs \<noteq> [] \<and> (\<exists>a. qr_answer r = Some a \<and> strip a \<noteq> []) \<and>
       (\<exists>c \<in> set (qr_claims r). supported_claim c \<and> ac_evidence c \<noteq> []))"
proof -
  have g: "grounded evs r" by (rule generate_grounded [OF assms])
  have ne: "evs \<noteq> []" if "qr_status r = Answered"
    using assms that by (auto simp: generate_def mk_response_def refusal_def)
  have "ac_evidence c \<noteq> []" if "c \<in> set (qr_claims r)" "supported_claim c" for c
    using g that by (auto simp: grounded_def claim_ok_def supported_claim_def)
  then show ?thesis using g ne unfolding grounded_def by blast
qed

definition demo_evidence :: evidence where
  "demo_evidence =
     \<lparr>ev_id = 7, ev_source = 1, ev_document = None, ev_chunk = Some 3, ev_version = Some 2, ev_record = None,
      ev_content = ''text'', ev_method = MVector, ev_vector_score = Some (1/5), ev_rerank_score = None, ev_path = [],
      ev_valid_from = None, ev_valid_to = None, ev_principals = [''p'']\<rparr>"

definition demo_output :: "string \<Rightarrow> response_output" where
  "demo_output answer =
     \<lparr>ro_answer = answer, ro_claims =
        [\<lparr>co_text = ''t'', co_factual = True, co_support = ''supported'', co_evidence = [show_nat 7, ''made up'']\<rparr>]\<rparr>"

lemma demo_generate:
  "\<exists>r. generate (\<lambda>n. n) (\<lambda>_ _. Inr ''{}'') (\<lambda>_. Inr (demo_output ''yes'')) ''q'' [demo_evidence] = Inr r \<and>
     qr_status r = Answered"
proof -
  have d: "ev_id demo_evidence = 7" by (simp add: demo_evidence_def)
  have neq: "''made up'' \<noteq> show_nat 7" by (subst show_nat.simps) simp
  have ans: "strip ''yes'' \<noteq> []" by (simp add: strip_Nil_iff is_space_def)
  have m: "mapped_ids (evidence_map [demo_evidence]) [show_nat 7, ''made up''] = [7]"
    using neq by (simp add: mapped_ids_def List.map_filter_def evidence_map_def dict_of_def d)
  then show ?thesis using ans
    by (simp add: generate_def build_response_def demo_output_def support_of_def mk_claim_def evidence_map_def dict_of_def d
        mk_response_def supported_claim_def Let_def)
qed

theorem answers_grounded_witness:
  "\<exists>r. generate (\<lambda>n. n) (\<lambda>_ _. Inr ''{}'') (\<lambda>_. Inr (demo_output ''yes'')) ''q'' [demo_evidence] = Inr r \<and>
     qr_status r = Answered \<and> (\<exists>c. c \<in> set (qr_claims r) \<and> supported_claim c) \<and>
     (\<exists>a. qr_answer r = Some a \<and> strip a \<noteq> [])"
  using demo_generate answers_grounded by blast

text \<open>When the generator fails. Exceptions of the client and of the parser become a failed
  response; the only exception that reaches the caller is the one of an answer of blanks, which
  is given as a text although the status says there is none.\<close>

theorem generator_raises_iff:
  "(\<exists>e. generate fresh chat parse question evs = Inl e) \<longleftrightarrow>
     evs \<noteq> [] \<and> (\<exists>raw out. chat system_prompt (user_prompt question evs) = Inr raw \<and>
       parse (if raw = [] then ''{}'' else raw) = Inr out \<and> ro_answer out \<noteq> [] \<and> strip (ro_answer out) = [])"
proof (cases "evs = []")
  case True
  then show ?thesis by (simp add: generate_def mk_refusal)
next
  case False
  show ?thesis
  proof (cases "rbind (chat system_prompt (user_prompt question evs)) (\<lambda>raw. parse (if raw = [] then ''{}'' else raw))")
    case (Inl e)
    then show ?thesis using False by (auto simp: generate_def mk_refusal)
  next
    case (Inr out)
    have gen: "generate fresh chat parse question evs = build_response fresh out evs"
      unfolding generate_def Inr using False by (simp only: if_False sum.case)
    obtain raw where raw: "chat system_prompt (user_prompt question evs) = Inr raw" "parse (if raw = [] then ''{}'' else raw) = Inr out"
      using Inr by auto
    have eq: "(\<exists>e. build_response fresh out evs = Inl e) \<longleftrightarrow> ro_answer out \<noteq> [] \<and> strip (ro_answer out) = []"
      using build_response_ok [of fresh out evs] build_response_blank [of out fresh evs] by fastforce
    show ?thesis unfolding gen eq using False raw by auto
  qed
qed


definition demo_response :: query_response where
  "demo_response =
     \<lparr>qr_run = 1, qr_answer = Some ''yes'', qr_status = Answered, qr_claims =
        [\<lparr>ac_id = 5, ac_text = ''t'', ac_factual = True, ac_evidence = [7, 8], ac_support = Supported\<rparr>],
      qr_citations = [\<lparr>ci_id = 6, ci_claim = 5, ci_evidence = 8, ci_locator = ''l'', ci_principals = []\<rparr>],
      qr_confidence = Medium, qr_warnings = []\<rparr>"


text \<open>The validator accepts what the generator makes. On the evidence the answer was made from, the
  claims come back unchanged and no citation is lost.\<close>

theorem validator_accepts_generated:
  assumes "generate fresh chat parse question evs = Inr r"
  shows "\<exists>r'. validate_response r evs = Inr r' \<and> qr_claims r' = qr_claims r \<and> qr_answer r' = qr_answer r \<and>
    set (qr_citations r') = set (qr_citations r)"
proof -
  have g: "grounded evs r" by (rule generate_grounded [OF assms])
  have ok: "response_ok r" by (rule generate_response_ok [OF assms])
  have "\<forall>c \<in> set (qr_claims r). validate_claim (map ev_id evs) c = Inr c"
    using g validate_claim_fix unfolding grounded_def by simp
  from rmap_fix [OF this] have cs: "rmap (validate_claim (map ev_id evs)) (qr_claims r) = Inr (qr_claims r)" .
  let ?r = "\<lambda>w. r\<lparr>qr_citations := concat (map (kept_citations (map ev_id evs) (qr_citations r)) (qr_claims r)),
      qr_warnings := w\<rparr>"
  have "mk_response (?r w) = Inr (?r w)" for w
    using ok unfolding mk_response_iff response_ok_def by simp
  then obtain w where v: "validate_response r evs = Inr (?r w)"
    using cs by (simp add: validate_response_def Let_def)
  have "ci_evidence ci \<in> set (map ev_id evs) \<and> (\<exists>c \<in> set (qr_claims r). ci_claim ci = ac_id c)"
    if "ci \<in> set (qr_citations r)" for ci
  proof -
    have "citation_ok evs (qr_claims r) ci" using g that by (simp add: grounded_def)
    then show ?thesis by (auto simp: citation_ok_def)
  qed
  then have "set (concat (map (kept_citations (map ev_id evs) (qr_citations r)) (qr_claims r))) = set (qr_citations r)"
    by (intro set_eqI) (auto simp only: kept_citations_mem)
  then show ?thesis using v by (intro exI [of _ "?r w"]) simp
qed

theorem validator_accepts_generated_witness:
  "\<exists>r r'. generate (\<lambda>n. n) (\<lambda>_ _. Inr ''{}'') (\<lambda>_. Inr (demo_output ''yes'')) ''q'' [demo_evidence] = Inr r \<and>
     validate_response r [demo_evidence] = Inr r' \<and> qr_claims r' = qr_claims r"
  using demo_generate validator_accepts_generated by blast

text \<open>Reranking only reorders. The evidence is the same up to its rerank score, and when there is
  more than one piece every score is between 1 and 5 and the scores descend.\<close>

theorem rerank_spec:
  assumes "rerank chat evs q = Inr out"
  shows "mset (map (\<lambda>e. e\<lparr>ev_rerank_score := None\<rparr>) out) = mset (map (\<lambda>e. e\<lparr>ev_rerank_score := None\<rparr>) evs) \<and>
    (length evs > 1 \<longrightarrow> (\<forall>e \<in> set out. \<exists>s. ev_rerank_score e = Some s \<and> 1 \<le> s \<and> s \<le> 5) \<and>
       sorted_wrt (\<lambda>a b. the (ev_rerank_score a) \<ge> the (ev_rerank_score b)) out)"
proof -
  have "(\<forall>e \<in> set out. \<exists>s. ev_rerank_score e = Some s \<and> 1 \<le> s \<and> s \<le> 5) \<and>
       sorted_wrt (\<lambda>a b. the (ev_rerank_score a) \<ge> the (ev_rerank_score b)) out" if len: "length evs > 1"
  proof -
    obtain ss where ss: "length ss = length evs" "\<forall>s \<in> set ss. 1 \<le> s \<and> s \<le> 5"
      and out: "out = map (\<lambda>(e, s). e\<lparr>ev_rerank_score := Some s\<rparr>) (sort_desc snd (zip evs ss))"
      using rerank_cases [OF assms len] by blast
    have "sorted_wrt (\<lambda>x y. snd x \<ge> snd y) (sort_desc snd (zip evs ss))" by (rule sorted_sort_desc)
    then show ?thesis using ss(2) unfolding out
      by (auto simp: sorted_wrt_map case_prod_beta dest: set_zip_rightD)
  qed
  then show ?thesis using openai.rr_mset [OF assms] by blast
qed

theorem rerank_spec_witness:
  "\<exists>out. rerank (\<lambda>_. Inr ''4.5'') [demo_evidence, demo_evidence\<lparr>ev_id := 8\<rparr>] ''q'' = Inr out \<and>
     length out = 2"
proof -
  obtain out where out: "rerank (\<lambda>_. Inr ''4.5'') [demo_evidence, demo_evidence\<lparr>ev_id := 8\<rparr>] ''q'' = Inr out"
    by (simp add: rerank_def score_relevance_def)
  have "length out = 2" using arg_cong [OF conjunct1 [OF rerank_spec [OF out]], of size] by simp
  then show ?thesis using out by blast
qed

text \<open>Embedding is bounded and aligned. At most one call plus the retries is made per batch, no
  pause is longer than thirty seconds, and if the endpoint returns one vector per text so does the
  provider.\<close>

theorem embed_bounded:
  assumes "embed cfg api texts n = (r, n', ds)" and "ec_batch cfg > 0"
  shows "int n' \<le> int n + int (length (batches (ec_batch cfg) texts)) * max 0 (ec_retries cfg + 1) \<and>
    (\<forall>d \<in> set ds. d \<le> 30) \<and> (api_aligned api \<longrightarrow> (\<forall>vs. r = Inr vs \<longrightarrow> length vs = length texts))"
  using embed_ok [OF assms] by blast

definition flaky_api :: embed_api where
  "flaky_api n texts = (if n = 0 then Inl (RuntimeError ''rate limit'') else Inr (map (\<lambda>_. [1]) texts))"

theorem embed_bounded_witness:
  "embed \<lparr>ec_model = ''m'', ec_dimensions = 1, ec_batch = 100, ec_retries = 3\<rparr> flaky_api [''a'', ''b''] 0 = (Inr [[1], [1]], 2, [1]) \<and>
   (2 :: int) \<le> 0 + int (length (batches 100 [''a'', ''b''])) * 4"
proof -
  have e: "embed \<lparr>ec_model = ''m'', ec_dimensions = 1, ec_batch = 100, ec_retries = 3\<rparr> flaky_api [''a'', ''b''] 0 = (Inr [[1], [1]], 2, [1])"
    by (simp add: embed_def batches.simps embed_batch_with_retry.simps flaky_api_def)
  show ?thesis using e embed_bounded [OF e] by simp
qed

end
