(* ===== verification/Retrieval.thy ===== *)
theory Retrieval
  imports Retrievers Answering Security "HOL-Library.List_Lexorder" "HOL-Library.Char_ord"
begin

text \<open>
  From a question to an answer: the planner (\<^verbatim>\<open>retrieval_planner.py\<close>), the two retrieval
  services (\<^verbatim>\<open>retrieval_service.py\<close>, \<^verbatim>\<open>hybrid_retrieval.py\<close>) over
  their ports, and the query workflow with its bounded retry
  (\<^verbatim>\<open>workflows/query_graph.py\<close>): its nodes, the traversal that they make, and the call
  of the compiled graph, with LangGraph as an argument. The end of the theory puts the modelled adapters
  into the ports and states what the caller may see.
\<close>

section \<open>Planner (retrieval_planner.py)\<close>

definition any_of :: "string list \<Rightarrow> string \<Rightarrow> bool" where
  "any_of kws q = list_ex (\<lambda>k. contains k q) kws"

definition classify_question :: "string \<Rightarrow> resolved_entity list \<Rightarrow> question_type" where
  "classify_question question entities =
     (let q = lower question
      in if any_of [''when'', ''before'', ''after'', ''history'', ''previously'', ''old version''] q then QTemporal
         else if any_of [''depend'', ''impact'', ''affect'', ''connected to'', ''related to'', ''what services''] q
         then QRelationship
         else if any_of ['' vs '', '' versus '', '' compared ''] q then QComparison
         else if any_of ['' what if '', '' effect '', '' would ''] q then QImpact
         else if any_of ['' how '', '' why '', '' because ''] q then QFact
         else if length entities \<ge> 2 then QMultiHop
         else if any_of [''list'', ''all'', ''every'', ''which''] q then QSummary
         else QFact)"

definition select_strategy :: "question_type \<Rightarrow> resolved_entity list \<Rightarrow> strategy" where
  "select_strategy qt entities =
     (if qt \<in> {QRelationship, QMultiHop, QImpact, QTemporal} then (if entities \<noteq> [] then HybridS else GraphS)
      else if qt = QComparison then HybridS else VectorS)"

definition extract_predicates :: "string list \<Rightarrow> string \<Rightarrow> string list" where
  "extract_predicates preds question = filter (\<lambda>p. contains (lower p) (lower question)) preds"

fun graph_depth_for_type :: "question_type \<Rightarrow> int" where
  "graph_depth_for_type QRelationship = 2"
| "graph_depth_for_type QMultiHop = 3"
| "graph_depth_for_type QImpact = 2"
| "graph_depth_for_type _ = 1"

fun question_type_str :: "question_type \<Rightarrow> string" where
  "question_type_str QFact = ''fact''"
| "question_type_str QRelationship = ''relationship''"
| "question_type_str QMultiHop = ''multi_hop''"
| "question_type_str QTemporal = ''temporal''"
| "question_type_str QComparison = ''comparison''"
| "question_type_str QImpact = ''impact''"
| "question_type_str QSummary = ''summary''"
| "question_type_str QUnknown = ''unknown''"

fun strategy_str :: "strategy \<Rightarrow> string" where
  "strategy_str VectorS = ''vector''"
| "strategy_str GraphS = ''graph''"
| "strategy_str HybridS = ''hybrid''"

definition build_reason_codes ::
  "string list \<Rightarrow> string \<Rightarrow> question_type \<Rightarrow> strategy \<Rightarrow> resolved_entity list \<Rightarrow> string list" where
  "build_reason_codes preds question qt st entities =
     [''q_type='' @ question_type_str qt, ''strategy='' @ strategy_str st] @
     (if entities \<noteq> [] then
        [''entity_count='' @ show_nat (length entities),
         ''entity_types='' @ join_with '','' (sort (remdups (map re_type entities)))] else []) @
     (if extract_predicates preds question \<noteq> [] then [''predicates_matched=true''] else [])"

text \<open>Mentions that the resolver does not know are dropped.\<close>

fun resolve_mentions ::
  "(entity_mention \<Rightarrow> exn + canonical_entity option) \<Rightarrow> entity_mention list \<Rightarrow> exn + resolved_entity list" where
  "resolve_mentions resolve [] = Inr []"
| "resolve_mentions resolve (m # ms) =
     rbind (resolve m) (\<lambda>c. rbind (resolve_mentions resolve ms) (\<lambda>rs.
       Inr (case c of Some e \<Rightarrow> \<lparr>re_id = ce_id e, re_name = ce_name e, re_type = ce_type e\<rparr> # rs | None \<Rightarrow> rs)))"

definition make_plan ::
  "(string \<Rightarrow> exn + entity_mention list) \<Rightarrow> (entity_mention \<Rightarrow> exn + canonical_entity option) \<Rightarrow> string list \<Rightarrow> string \<Rightarrow>
   exn + retrieval_plan" where
  "make_plan extract resolve preds question =
     rbind (extract question) (\<lambda>ms. rbind (resolve_mentions resolve ms) (\<lambda>entities.
       let qt = classify_question question entities; st = select_strategy qt entities
       in mk_plan
         \<lparr>rp_strategy = st, rp_question_type = qt, rp_query_texts = [question], rp_entities = entities,
          rp_predicates = extract_predicates preds question, rp_max_depth = graph_depth_for_type qt, rp_top_k = 10,
          rp_limit = 10, rp_valid_at = None, rp_reasons = build_reason_codes preds question qt st entities\<rparr>))"

section \<open>Ports\<close>

record ports =
  p_embed :: "string \<Rightarrow> exn + rat list"
  p_model :: string
  p_dims :: int
  p_vector :: "rat list \<Rightarrow> int \<Rightarrow> string list \<Rightarrow> string \<Rightarrow> uuid \<Rightarrow> exn + retrieved_chunk list"
  p_keyword :: "string \<Rightarrow> int \<Rightarrow> string list \<Rightarrow> string \<Rightarrow> exn + retrieved_chunk list"
  p_rerank :: "evidence list \<Rightarrow> string \<Rightarrow> exn + evidence list"
  p_generate :: "string \<Rightarrow> evidence list \<Rightarrow> retrieval_plan \<Rightarrow> exn + query_response"
  p_index :: "string \<Rightarrow> index_row option"
  p_plan :: "string \<Rightarrow> exn + retrieval_plan"
  p_entity :: "uuid \<Rightarrow> canonical_entity option"
  p_facts :: fact_reader
  p_score_text :: "nat \<Rightarrow> knowledge_fact \<Rightarrow> string"
  p_fresh :: "nat \<Rightarrow> uuid"

text \<open>\<^verbatim>\<open>x or default\<close> on numbers and strings, and slices with a negative bound.\<close>

definition or_int :: "int option \<Rightarrow> int \<Rightarrow> int" where
  "or_int x d = (case x of Some k \<Rightarrow> if k = 0 then d else k | None \<Rightarrow> d)"

definition or_str :: "string option \<Rightarrow> string \<Rightarrow> string" where
  "or_str x d = (case x of Some s \<Rightarrow> if s = [] then d else s | None \<Rightarrow> d)"

definition py_take :: "int \<Rightarrow> 'a list \<Rightarrow> 'a list" where
  "py_take n xs = (if n \<ge> 0 then take (nat n) xs else take (length xs - nat (- n)) xs)"

lemma py_take_mem: "x \<in> set (py_take n xs) \<Longrightarrow> x \<in> set xs"
  by (auto simp: py_take_def split: if_splits dest: in_set_takeD)

section \<open>Vector retrieval service (retrieval_service.py)\<close>

definition resolve_index_version :: "ports \<Rightarrow> string \<Rightarrow> exn + index_row" where
  "resolve_index_version P name =
     (case p_index P name of
        None \<Rightarrow> Inl (RuntimeError ''No active IndexVersion found'')
      | Some ix \<Rightarrow>
          if ix_model ix \<noteq> p_model P then Inl (RuntimeError ''embedding_model mismatch'')
          else if ix_dims ix \<noteq> p_dims P then Inl (RuntimeError ''embedding_dimensions mismatch'')
          else Inr ix)"

definition fused_evidence :: "(nat \<Rightarrow> uuid) \<Rightarrow> nat \<times> fusion_result \<Rightarrow> exn + evidence" where
  "fused_evidence fresh ir =
     (case ir of (i, r) \<Rightarrow> mk_evidence
       \<lparr>ev_id = fresh i, ev_source = fr_source r, ev_document = fr_document r, ev_chunk = Some (fr_chunk r),
        ev_version = fr_version r, ev_record = None, ev_content = fr_content r,
        ev_method = (if truthy (fr_vector r) then MVector else MKeyword), ev_vector_score = fr_vector r,
        ev_rerank_score = None, ev_path = [], ev_valid_from = None, ev_valid_to = None,
        ev_principals = fr_principals r\<rparr>)"

definition evidence_of_fused :: "(nat \<Rightarrow> uuid) \<Rightarrow> fusion_result list \<Rightarrow> exn + evidence list" where
  "evidence_of_fused fresh rs = rmap (fused_evidence fresh) (zip [0..<length rs] rs)"

definition vector_plan :: "string \<Rightarrow> int \<Rightarrow> int \<Rightarrow> exn + retrieval_plan" where
  "vector_plan question k n = mk_plan
     \<lparr>rp_strategy = VectorS, rp_question_type = QFact, rp_query_texts = [question], rp_entities = [],
      rp_predicates = [], rp_max_depth = 2, rp_top_k = k, rp_limit = n, rp_valid_at = None, rp_reasons = []\<rparr>"

text \<open>\<^verbatim>\<open>query\<close> up to the answer: the plan and the reranked evidence that the generator is given.\<close>

definition vector_retrieve ::
  "settings \<Rightarrow> ports \<Rightarrow> string \<Rightarrow> string \<Rightarrow> string \<Rightarrow> string option \<Rightarrow> int option \<Rightarrow> int option \<Rightarrow>
   exn + retrieval_plan \<times> evidence list" where
  "vector_retrieve cfg P question prin tenant index_name top_k limit =
     (if tenant = [] then Inl (ValueError ''tenant_id is required for retrieval'')
      else let k = or_int top_k (s_vector_top_k cfg); n = or_int limit (s_final_limit cfg)
       in rbind (resolve_index_version P (or_str index_name (s_index_name cfg))) (\<lambda>ix.
          rbind (p_embed P question) (\<lambda>qv.
          rbind (p_vector P qv k [prin] tenant (ix_id ix)) (\<lambda>vs.
          rbind (p_keyword P question (s_keyword_top_k cfg) [prin] tenant) (\<lambda>ws.
          rbind (evidence_of_fused (p_fresh P) (py_take n (reciprocal_rank_fusion rrf_k vs ws))) (\<lambda>evs.
          rbind (p_rerank P evs question) (\<lambda>evs'.
          rbind (vector_plan question k n) (\<lambda>plan. Inr (plan, evs')))))))))"

definition vector_query ::
  "settings \<Rightarrow> ports \<Rightarrow> string \<Rightarrow> string \<Rightarrow> string \<Rightarrow> string option \<Rightarrow> int option \<Rightarrow> int option \<Rightarrow> exn + query_response" where
  "vector_query cfg P question prin tenant index_name top_k limit =
     rbind (vector_retrieve cfg P question prin tenant index_name top_k limit) (\<lambda>(plan, evs).
       p_generate P question evs plan)"

definition embed_chunks ::
  "(string list \<Rightarrow> exn + rat list list) \<Rightarrow> (string \<Rightarrow> exn + uuid) \<Rightarrow> (string \<times> string) list \<Rightarrow> exn + (uuid \<times> rat list) list" where
  "embed_chunks emb parse_uuid chunks =
     rbind (emb (map snd chunks)) (\<lambda>vs.
       if length vs \<noteq> length chunks then Inl (ValueError ''zip() arguments have different lengths'')
       else rmap (\<lambda>((cid, _), v). rbind (parse_uuid cid) (\<lambda>u. Inr (u, v))) (zip chunks vs))"

section \<open>Hybrid retrieval service (hybrid_retrieval.py)\<close>

definition active_index :: "ports \<Rightarrow> string \<Rightarrow> exn + index_row" where
  "active_index P name =
     (case p_index P name of
        None \<Rightarrow> Inl (RuntimeError ''No active IndexVersion'')
      | Some ix \<Rightarrow> if ix_model ix \<noteq> p_model P then Inl (ValueError ''Embedding model mismatch'') else Inr ix)"

definition resolve_active_index_version :: "settings \<Rightarrow> ports \<Rightarrow> string option \<Rightarrow> exn + uuid \<times> string" where
  "resolve_active_index_version cfg P name =
     rbind (active_index P (or_str name (s_index_name cfg))) (\<lambda>ix. Inr (ix_id ix, ix_model ix))"

definition resolve_entities :: "ports \<Rightarrow> retrieval_plan \<Rightarrow> canonical_entity list" where
  "resolve_entities P plan = List.map_filter (\<lambda>e. p_entity P (re_id e)) (rp_entities plan)"

definition retrieve_graph_evidence :: "ports \<Rightarrow> retrieval_plan \<Rightarrow> string \<Rightarrow> string \<Rightarrow> exn + evidence list" where
  "retrieve_graph_evidence P plan prin tenant =
     retrieve_evidence (p_entity P) (p_facts P) (p_score_text P) (resolve_entities P plan) (rp_predicates plan)
       (map_option instant (rp_valid_at plan)) (nat (rp_max_depth plan)) (Some tenant) prin"

definition gather_evidence ::
  "ports \<Rightarrow> retrieval_plan \<Rightarrow> string \<Rightarrow> string \<Rightarrow> int \<Rightarrow> retrieved_chunk list \<Rightarrow> retrieved_chunk list \<Rightarrow> exn + evidence list" where
  "gather_evidence P plan prin tenant n vs ws =
     rbind (if rp_strategy plan \<in> {GraphS, HybridS} \<and> rp_entities plan \<noteq> []
            then retrieve_graph_evidence P plan prin tenant else Inr []) (\<lambda>gs.
       case rp_strategy plan of
         HybridS \<Rightarrow> rbind (hybrid_rrf_fusion (p_fresh P) vs ws gs) (\<lambda>es. Inr (py_take n es))
       | GraphS \<Rightarrow> Inr (py_take n gs)
       | VectorS \<Rightarrow> evidence_of_fused (p_fresh P) (py_take n (reciprocal_rank_fusion rrf_k vs ws)))"

text \<open>What both entry points do before the answer: the plan and the reranked evidence.\<close>

definition hybrid_retrieve ::
  "settings \<Rightarrow> ports \<Rightarrow> string \<Rightarrow> string \<Rightarrow> string \<Rightarrow> string option \<Rightarrow> int option \<Rightarrow> int option \<Rightarrow>
   exn + retrieval_plan \<times> evidence list" where
  "hybrid_retrieve cfg P question prin tenant index_name top_k limit =
     (if tenant = [] then Inl (ValueError ''tenant_id is required for retrieval'')
      else let k = or_int top_k (s_vector_top_k cfg); n = or_int limit (s_final_limit cfg)
       in rbind (p_plan P question) (\<lambda>plan.
          rbind (active_index P (or_str index_name (s_index_name cfg))) (\<lambda>ix.
          rbind (p_embed P question) (\<lambda>qv.
          rbind (p_vector P qv k [prin] tenant (ix_id ix)) (\<lambda>vs.
          rbind (p_keyword P question (s_keyword_top_k cfg) [prin] tenant) (\<lambda>ws.
          rbind (gather_evidence P plan prin tenant n vs ws) (\<lambda>evs.
          rbind (p_rerank P (dedup_by ev_id [] evs) question) (\<lambda>evs'. Inr (plan, evs')))))))))"

definition query_with_evidence ::
  "settings \<Rightarrow> ports \<Rightarrow> string \<Rightarrow> string \<Rightarrow> string \<Rightarrow> string option \<Rightarrow> int option \<Rightarrow> int option \<Rightarrow>
   exn + query_response \<times> evidence list" where
  "query_with_evidence cfg P question prin tenant index_name top_k limit =
     rbind (hybrid_retrieve cfg P question prin tenant index_name top_k limit) (\<lambda>(plan, evs).
       rbind (p_generate P question evs plan) (\<lambda>r. Inr (r, evs)))"

definition hybrid_query ::
  "settings \<Rightarrow> ports \<Rightarrow> string \<Rightarrow> string \<Rightarrow> string \<Rightarrow> string option \<Rightarrow> int option \<Rightarrow> int option \<Rightarrow> exn + query_response" where
  "hybrid_query cfg P question prin tenant index_name top_k limit =
     rbind (hybrid_retrieve cfg P question prin tenant index_name top_k limit) (\<lambda>(plan, evs).
       p_generate P question evs plan)"

section \<open>Query workflow (query_graph.py)\<close>

text \<open>The service's outcome is a function of the number of the attempt.\<close>

type_synonym service = "nat \<Rightarrow> exn + query_response \<times> evidence list"

record wf_state =
  ws_response :: "query_response option"
  ws_evidence :: "evidence list"
  ws_error :: "string option"
  ws_retries :: nat

datatype route = ToRetry | ToFail | ToDone

definition execute_node :: "service \<Rightarrow> wf_state \<Rightarrow> wf_state" where
  "execute_node svc st =
     (case svc (ws_retries st) of
        Inl e \<Rightarrow> st\<lparr>ws_error := Some (exn_str e)\<rparr>
      | Inr (r, evs) \<Rightarrow> st\<lparr>ws_response := Some r, ws_evidence := evs, ws_error := None\<rparr>)"

definition validate_node :: "wf_state \<Rightarrow> exn + wf_state" where
  "validate_node st =
     (case ws_response st of
        None \<Rightarrow> Inr st
      | Some r \<Rightarrow>
          rbind (validate_response r (ws_evidence st)) (\<lambda>v.
            let bad = filter (\<lambda>c. ac_factual c \<and> ac_support c = Unsupported) (qr_claims v)
            in if bad = [] then Inr (st\<lparr>ws_response := Some v\<rparr>)
               else rbind (mk_response
                   \<lparr>qr_run = qr_run v, qr_answer = None, qr_status = InsufficientEvidence, qr_claims = [],
                    qr_citations = [], qr_confidence = Low, qr_warnings = qr_warnings v @
                      map (\<lambda>c. ''Unsupported factual claim: '' @ take 50 (ac_text c)) (take 3 bad)\<rparr>)
                 (\<lambda>v'. Inr (st\<lparr>ws_response := Some v'\<rparr>))))"

definition decide_route :: "nat \<Rightarrow> wf_state \<Rightarrow> route" where
  "decide_route mx st =
     (let again = (if ws_retries st < mx then ToRetry else ToFail)
      in if ws_error st \<noteq> None then again
         else case ws_response st of
             None \<Rightarrow> ToFail
           | Some r \<Rightarrow> (case qr_status r of
                 RespFailed \<Rightarrow> ToFail
               | ClarificationRequired \<Rightarrow> ToDone
               | InsufficientEvidence \<Rightarrow> again
               | Answered \<Rightarrow> ToDone))"

definition retry_node :: "wf_state \<Rightarrow> wf_state" where
  "retry_node st = st\<lparr>ws_retries := Suc (ws_retries st)\<rparr>"

definition fail_node :: "uuid \<Rightarrow> wf_state \<Rightarrow> exn + wf_state" where
  "fail_node run st =
     rbind (mk_response (refusal run RespFailed (or_str (ws_error st) ''Query workflow failed after retries'')))
       (\<lambda>r. Inr (st\<lparr>ws_response := Some r\<rparr>))"

lemma validate_node_retries: "validate_node st = Inr st' \<Longrightarrow> ws_retries st' = ws_retries st"
  by (auto simp: validate_node_def Let_def split: option.splits if_splits)

lemma execute_node_retries [simp]: "ws_retries (execute_node svc st) = ws_retries st"
  by (simp add: execute_node_def split: sum.splits prod.splits)

lemma decide_route_retry: "decide_route mx st = ToRetry \<Longrightarrow> ws_retries st < mx"
  by (auto simp: decide_route_def Let_def split: if_splits option.splits response_status.splits)

function run_graph :: "service \<Rightarrow> uuid \<Rightarrow> nat \<Rightarrow> wf_state \<Rightarrow> exn + wf_state" where
  "run_graph svc run mx st =
     (case validate_node (execute_node svc st) of
        Inl e \<Rightarrow> Inl e
      | Inr st1 \<Rightarrow>
         (case decide_route mx st1 of
            ToRetry \<Rightarrow> run_graph svc run mx (retry_node st1)
          | ToFail \<Rightarrow> fail_node run st1
          | ToDone \<Rightarrow> Inr st1))"
  by pat_completeness auto
termination run_graph
proof (relation "measure (\<lambda>(svc, run, mx, st). mx - ws_retries st)", goal_cases)
  case (2 svc run mx st st1)
  then show ?case
    using validate_node_retries [OF 2(1)] decide_route_retry [OF 2(2)] by (simp add: retry_node_def)
qed simp

declare run_graph.simps [simp del]

text \<open>
  The compiled graph is an object of LangGraph, which is not part of the program: an argument
  \<^verbatim>\<open>lg\<close> that is told whether the graph was compiled with a checkpointer, the
  \<^verbatim>\<open>thread_id\<close> of the call's configuration, the traversal of the nodes and the initial
  state. \<^const>\<open>run_graph\<close> is the traversal of a call that LangGraph admits. LangGraph documents that
  a graph with a checkpointer is not run without a thread: the call raises
  \<^verbatim>\<open>ValueError\<close>. The program compiles with \<^verbatim>\<open>MemorySaver()\<close> and calls
  \<^verbatim>\<open>ainvoke(state)\<close> without a configuration.
\<close>

type_synonym langgraph =
  "bool \<Rightarrow> string option \<Rightarrow> (wf_state \<Rightarrow> exn + wf_state) \<Rightarrow> wf_state \<Rightarrow> exn + wf_state"

definition needs_thread :: "langgraph \<Rightarrow> bool" where
  "needs_thread lg \<longleftrightarrow> (\<forall>steps st. \<exists>m. lg True None steps st = Inl (ValueError m))"

definition ainvoke :: "langgraph \<Rightarrow> service \<Rightarrow> uuid \<Rightarrow> nat \<Rightarrow> exn + query_response" where
  "ainvoke lg svc run mx =
     rbind (lg True None (run_graph svc run mx) \<lparr>ws_response = None, ws_evidence = [], ws_error = None, ws_retries = 0\<rparr>)
       (\<lambda>st. case ws_response st of
          Some r \<Rightarrow> Inr r
        | None \<Rightarrow> mk_response (refusal run RespFailed ''Query workflow produced no response''))"

section \<open>What the caller may see\<close>

text \<open>A fact that grants access: verified, of the tenant, with the principal or no principal at all.\<close>

definition fact_grants :: "string \<Rightarrow> string \<Rightarrow> knowledge_fact \<Rightarrow> bool" where
  "fact_grants prin tenant f \<longleftrightarrow> kf_status f = FVerified \<and> kf_tenant f = tenant \<and> fact_visible [prin] f"

text \<open>A piece of evidence is readable when it carries the identifiers, content and principals of a readable
  chunk, or the identifier, first evidence and principals of a fact that grants access.\<close>

definition evidence_readable ::
  "(retrieved_chunk \<Rightarrow> bool) \<Rightarrow> (knowledge_fact \<Rightarrow> bool) \<Rightarrow> evidence \<Rightarrow> bool" where
  "evidence_readable C F e \<longleftrightarrow> (\<exists>c. C c \<and> of_chunk c e) \<or> (\<exists>f. F f \<and> of_fact f e)"

lemma evidence_readable_unscored: "unscored e = unscored e' \<Longrightarrow> evidence_readable C F e \<longleftrightarrow> evidence_readable C F e'"
proof -
  assume u: "unscored e = unscored e'"
  have "ev_id e = ev_id e'" "ev_source e = ev_source e'" "ev_principals e = ev_principals e'" "ev_content e = ev_content e'"
    "ev_chunk e = ev_chunk e'" "ev_document e = ev_document e'" "ev_version e = ev_version e'"
    using arg_cong [OF u, of ev_id] arg_cong [OF u, of ev_source] arg_cong [OF u, of ev_principals] arg_cong [OF u, of ev_content]
      arg_cong [OF u, of ev_chunk] arg_cong [OF u, of ev_document] arg_cong [OF u, of ev_version] by simp_all
  then show ?thesis by (simp add: evidence_readable_def of_chunk_def of_fact_def)
qed

lemma evidence_of_fused_readable:
  assumes "evidence_of_fused fresh rs = Inr es" and "\<And>r. r \<in> set rs \<Longrightarrow> \<exists>c. C c \<and> from_chunk c r" and "e \<in> set es"
  shows "evidence_readable C F e"
proof -
  from rmap_Inr_mem [OF assms(1) [unfolded evidence_of_fused_def] assms(3)]
  obtain i r where r: "(i, r) \<in> set (zip [0..<length rs] rs)" "fused_evidence fresh (i, r) = Inr e" by auto
  from r(1) have "r \<in> set rs" by (rule set_zip_rightD)
  then obtain c where "C c" "from_chunk c r" using assms(2) by blast
  then show ?thesis using r(2)
    by (auto simp: fused_evidence_def mk_evidence_iff evidence_readable_def from_chunk_def of_chunk_def)
qed

locale secure_ports =
  retriever_pair "\<lambda>(qv, ix) k ps t. p_vector P qv k ps t ix" "p_keyword P" C + reranker "p_rerank P" +
  fact_source "p_facts P"
  for P :: ports and C :: "string list \<Rightarrow> string \<Rightarrow> retrieved_chunk \<Rightarrow> bool" +
  fixes stored :: "knowledge_fact \<Rightarrow> bool" and page :: nat
  assumes facts_page: "p_facts P subj predicate obj status allowed tenant = Inr fs \<Longrightarrow> length fs \<le> page"
    and facts_stored: "p_facts P subj predicate obj status allowed tenant = Inr fs \<Longrightarrow> f \<in> set fs \<Longrightarrow> stored f"
begin

text \<open>The facts a caller may read: stored ones that grant the access.\<close>

abbreviation readable_fact :: "string \<Rightarrow> string \<Rightarrow> knowledge_fact \<Rightarrow> bool" where
  "readable_fact prin tenant \<equiv> (\<lambda>f. stored f \<and> fact_grants prin tenant f)"

lemma chunks_readable:
  assumes "p_vector P qv k [prin] tenant ix = Inr vs" and "p_keyword P q k' [prin] tenant = Inr ws"
    and "c \<in> set vs \<union> set ws"
  shows "C [prin] tenant c"
  using both_readable [of "(qv, ix)" k "[prin]" tenant vs q k' ws c] assms by simp

lemma fused_from_readable:
  assumes "p_vector P qv k [prin] tenant ix = Inr vs" and "p_keyword P q k' [prin] tenant = Inr ws"
    and "r \<in> set (reciprocal_rank_fusion n vs ws)"
  shows "\<exists>c. C [prin] tenant c \<and> from_chunk c r"
  using fused_readable [of "(qv, ix)" k "[prin]" tenant vs q k' ws r n] assms by simp

lemma graph_readable:
  assumes "retrieve_graph_evidence P plan prin tenant = Inr gs" and "prin \<noteq> []" and "e \<in> set gs"
  shows "evidence_readable D (readable_fact prin tenant) e"
proof -
  let ?Q = "\<lambda>ff. readable_fact prin tenant (ff_fact ff)"
  have "distinct (map ev_id gs) \<and> (\<forall>e \<in> set gs. \<exists>ff. ?Q ff \<and> graph_evidence_of (p_score_text P) ff = Inr e)"
  proof (rule retrieve_evidence_ok [OF assms(1) [unfolded retrieve_graph_evidence_def] assms(2)])
    fix seed ffs ff
    assume t: "traverse (p_entity P) (p_facts P) (rp_predicates plan) (map_option instant (rp_valid_at plan))
      (nat (rp_max_depth plan)) (Some [prin]) (Some tenant) seed = Inr ffs" "ff \<in> set ffs"
    from traverse_authorised [OF t facts_page] traverse_from_facts [OF t facts_page facts_stored]
    show "?Q ff" by (simp add: fact_grants_def)
  qed
  then obtain ff where "?Q ff" "graph_evidence_of (p_score_text P) ff = Inr e" using assms(3) by blast
  then show ?thesis using graph_evidence_of_ok unfolding evidence_readable_def by metis
qed

lemma gather_readable:
  assumes v: "p_vector P qv k [prin] tenant ix = Inr vs" and w: "p_keyword P q k' [prin] tenant = Inr ws"
    and g: "gather_evidence P plan prin tenant n vs ws = Inr es" and "prin \<noteq> []" and e: "e \<in> set es"
  shows "evidence_readable (C [prin] tenant) (readable_fact prin tenant) e"
proof -
  let ?R = "evidence_readable (C [prin] tenant) (readable_fact prin tenant)"
  from g obtain gs where
    gs: "(if rp_strategy plan \<in> {GraphS, HybridS} \<and> rp_entities plan \<noteq> []
            then retrieve_graph_evidence P plan prin tenant else Inr []) = Inr gs"
    and es: "(case rp_strategy plan of
         HybridS \<Rightarrow> rbind (hybrid_rrf_fusion (p_fresh P) vs ws gs) (\<lambda>es. Inr (py_take n es))
       | GraphS \<Rightarrow> Inr (py_take n gs)
       | VectorS \<Rightarrow> evidence_of_fused (p_fresh P) (py_take n (reciprocal_rank_fusion rrf_k vs ws))) = Inr es"
    unfolding gather_evidence_def rbind_Inr_iff by blast
  have G: "?R x" if "x \<in> set gs" for x
  proof (cases "rp_strategy plan \<in> {GraphS, HybridS} \<and> rp_entities plan \<noteq> []")
    case True
    from gs have "retrieve_graph_evidence P plan prin tenant = Inr gs" unfolding if_P [OF True] .
    then show ?thesis by (rule graph_readable [OF _ assms(4) that])
  next
    case False
    from gs have "gs = []" unfolding if_not_P [OF False] by simp
    then show ?thesis using that by simp
  qed
  show ?thesis
  proof (cases "rp_strategy plan")
    case VectorS
    show ?thesis
    proof (rule evidence_of_fused_readable [OF _ _ e])
      show "evidence_of_fused (p_fresh P) (py_take n (reciprocal_rank_fusion rrf_k vs ws)) = Inr es"
        using es VectorS by simp
      fix r
      assume "r \<in> set (py_take n (reciprocal_rank_fusion rrf_k vs ws))"
      then have "r \<in> set (reciprocal_rank_fusion rrf_k vs ws)" by (rule py_take_mem)
      then show "\<exists>c. C [prin] tenant c \<and> from_chunk c r" by (rule fused_from_readable [OF v w])
    qed
  next
    case GraphS
    then have "es = py_take n gs" using es by simp
    then have "e \<in> set gs" using e by (simp add: py_take_mem)
    then show ?thesis by (rule G)
  next
    case HybridS
    then obtain fs where fs: "hybrid_rrf_fusion (p_fresh P) vs ws gs = Inr fs" "es = py_take n fs" using es by auto
    have "e \<in> set fs" using e fs(2) by (simp add: py_take_mem)
    then have "(\<exists>c \<in> set vs \<union> set ws. of_chunk c e) \<or> (\<exists>g \<in> set gs. same_piece g e)"
      using hybrid_fusion_ok [OF fs(1)] by blast
    then show ?thesis
    proof
      assume "\<exists>c \<in> set vs \<union> set ws. of_chunk c e"
      then show ?thesis using chunks_readable [OF v w] unfolding evidence_readable_def by blast
    next
      assume "\<exists>g \<in> set gs. same_piece g e"
      then obtain g where g: "g \<in> set gs" "same_piece g e" by blast
      from gs g(1) have "retrieve_graph_evidence P plan prin tenant = Inr gs" by (auto split: if_splits)
      then have "evidence_readable (\<lambda>_. False) (readable_fact prin tenant) g" by (rule graph_readable [OF _ assms(4) g(1)])
      then show ?thesis using g(2) by (auto simp: evidence_readable_def same_piece_def of_fact_def)
    qed
  qed
qed

lemma hybrid_retrieve_readable:
  assumes "hybrid_retrieve cfg P question prin tenant index_name top_k limit = Inr (plan, evs)" and "prin \<noteq> []"
    and "e \<in> set evs"
  shows "evidence_readable (C [prin] tenant) (readable_fact prin tenant) e"
proof -
  have "tenant \<noteq> []" using assms(1) by (auto simp: hybrid_retrieve_def)
  note q = assms(1) [unfolded hybrid_retrieve_def if_not_P [OF this] Let_def rbind_Inr_iff sum.inject prod.inject]
  from q obtain vid qv vs ws es where
    v: "p_vector P qv (or_int top_k (s_vector_top_k cfg)) [prin] tenant vid = Inr vs" and
    w: "p_keyword P question (s_keyword_top_k cfg) [prin] tenant = Inr ws" and
    g: "gather_evidence P plan prin tenant (or_int limit (s_final_limit cfg)) vs ws = Inr es" and
    r: "p_rerank P (dedup_by ev_id [] es) question = Inr evs" by (elim exE conjE) (hypsubst, rule that, assumption+)
  obtain e' where e': "e' \<in> set (dedup_by ev_id [] es)" "unscored e = unscored e'" using rr_same [OF r assms(3)] by blast
  from e'(1) have "e' \<in> set es" by (rule subsetD [OF dedup_by_subset])
  then have "evidence_readable (C [prin] tenant) (readable_fact prin tenant) e'"
    by (rule gather_readable [OF v w g assms(2)])
  then show ?thesis using evidence_readable_unscored [OF e'(2)] by simp
qed

text \<open>Evidence that the hybrid service hands on has no identifier twice.\<close>

lemma hybrid_retrieve_distinct:
  assumes "hybrid_retrieve cfg P question prin tenant index_name top_k limit = Inr (plan, evs)"
  shows "distinct (map ev_id evs)"
proof -
  obtain es where r: "p_rerank P (dedup_by ev_id [] es) question = Inr evs"
    using assms by (auto simp: hybrid_retrieve_def Let_def split: if_splits)
  have "mset (map ev_id (map unscored evs)) = mset (map ev_id (map unscored (dedup_by ev_id [] es)))"
    using rr_mset [OF r] by (metis mset_map)
  then have "mset (map ev_id evs) = mset (map ev_id (dedup_by ev_id [] es))" by (simp add: comp_def)
  then show ?thesis using dedup_by_distinct [of ev_id "[]" es] by (metis mset_eq_imp_distinct_iff)
qed

lemma vector_retrieve_readable:
  assumes "vector_retrieve cfg P question prin tenant index_name top_k limit = Inr (plan, evs)" and "e \<in> set evs"
  shows "evidence_readable (C [prin] tenant) (\<lambda>_. False) e"
proof -
  have "tenant \<noteq> []" using assms(1) by (auto simp: vector_retrieve_def)
  note q = assms(1) [unfolded vector_retrieve_def if_not_P [OF this] Let_def rbind_Inr_iff sum.inject prod.inject]
  from q obtain vid qv vs ws es where
    v: "p_vector P qv (or_int top_k (s_vector_top_k cfg)) [prin] tenant vid = Inr vs" and
    w: "p_keyword P question (s_keyword_top_k cfg) [prin] tenant = Inr ws" and
    f: "evidence_of_fused (p_fresh P) (py_take (or_int limit (s_final_limit cfg)) (reciprocal_rank_fusion rrf_k vs ws)) = Inr es" and
    r: "p_rerank P es question = Inr evs" by (elim exE conjE) (hypsubst, rule that, assumption+)
  have "evidence_readable (C [prin] tenant) (\<lambda>_. False) e" if "e \<in> set es" for e
  proof (rule evidence_of_fused_readable [OF f _ that])
    fix r
    assume "r \<in> set (py_take (or_int limit (s_final_limit cfg)) (reciprocal_rank_fusion rrf_k vs ws))"
    then have "r \<in> set (reciprocal_rank_fusion rrf_k vs ws)" by (rule py_take_mem)
    then show "\<exists>c. C [prin] tenant c \<and> from_chunk c r" by (rule fused_from_readable [OF v w])
  qed
  then show ?thesis using rr_same [OF r assms(2)] evidence_readable_unscored by blast
qed

end

end
