(* ===== verification/ExecutionStore.thy ===== *)
theory ExecutionStore
  imports Domain "HOL-Library.Option_ord"
begin

text \<open>
  The execution repository of
  \<^verbatim>\<open>src/groundgraph/infrastructure/postgres/execution_store.py\<close>: run and step rows,
  guarded status changes (an \<^verbatim>\<open>UPDATE ... WHERE status = expected\<close>), and the session
  that a request commits or rolls back. A row is the domain record it is read back as; the statuses
  are stored by value, which is injective. A step row also has its \<^verbatim>\<open>created_at\<close>.
  The clock is an argument.
\<close>

section \<open>Tables and sessions\<close>

record exec_db =
  db_runs :: "(uuid, execution_run) dict"
  db_steps :: "(uuid, execution_step \<times> int) dict"

record session =
  cur :: exec_db
  committed :: exec_db

definition commit :: "session \<Rightarrow> session" where
  "commit s = s\<lparr>committed := cur s\<rparr>"

definition rollback :: "session \<Rightarrow> session" where
  "rollback s = s\<lparr>cur := committed s\<rparr>"

definition commit_if :: "bool \<Rightarrow> session \<Rightarrow> session" where
  "commit_if c s = (if c then commit s else s)"

lemma session_simps [simp, row_simps]:
  "cur (commit s) = cur s" "committed (commit s) = cur s"
  "cur (rollback s) = committed s" "committed (rollback s) = committed s"
  "cur (commit_if c s) = cur s" "committed (commit_if c s) = (if c then cur s else committed s)"
  by (simp_all add: commit_def rollback_def commit_if_def)

section \<open>Runs\<close>

text \<open>The primary key rejects a second row with the same id. The input and output of a run are
  validated JSON already, so their snapshot is the value itself.\<close>

definition create_run :: "execution_run \<Rightarrow> bool \<Rightarrow> session \<Rightarrow> (exn + execution_run) \<times> session" where
  "create_run run c s =
     (if er_id run \<in> set (keys (db_runs (cur s)))
      then (Inl (RuntimeError ''duplicate key value violates unique constraint''), s)
      else (Inr run, commit_if c (s\<lparr>cur := (cur s)\<lparr>db_runs := put (er_id run) run (db_runs (cur s))\<rparr>\<rparr>)))"

definition get_run :: "uuid \<Rightarrow> session \<Rightarrow> execution_run option" where
  "get_run rid s = map_of (db_runs (cur s)) rid"

text \<open>\<^verbatim>\<open>ORDER BY started_at DESC\<close>: PostgreSQL puts the null values first.\<close>

definition started_desc :: "execution_run \<Rightarrow> int option" where
  "started_desc r = map_option uminus (er_started_at r)"

definition list_recent_runs :: "nat \<Rightarrow> session \<Rightarrow> execution_run list" where
  "list_recent_runs limit s = take limit (sort_key started_desc (vals (db_runs (cur s))))"

text \<open>
  The values written by \<^verbatim>\<open>update_run_status\<close>: the new status, \<^verbatim>\<open>finished_at\<close> for a
  terminal status, and the arguments that are not None. The output is a Python object: its snapshot
  may raise, before the statement runs.
\<close>

definition run_update_values ::
  "int \<Rightarrow> run_status \<Rightarrow> string option \<Rightarrow> string option \<Rightarrow> (heap \<times> pyval) option
     \<Rightarrow> exn + (execution_run \<Rightarrow> execution_run)" where
  "run_update_values now new ecode emsg out =
     (let base = (\<lambda>r. r\<lparr>er_status := new,
             er_finished_at := (if run_terminal new then Some now else er_finished_at r),
             er_error_code := (case ecode of Some c \<Rightarrow> Some c | None \<Rightarrow> er_error_code r),
             er_error_message := (case emsg of Some m \<Rightarrow> Some m | None \<Rightarrow> er_error_message r)\<rparr>)
      in case out of
           None \<Rightarrow> Inr base
         | Some (h, v) \<Rightarrow> rbind (snapshot_json_object h v) (\<lambda>js. Inr (\<lambda>r. (base r)\<lparr>er_output := js\<rparr>)))"

definition update_run_status ::
  "int \<Rightarrow> uuid \<Rightarrow> run_status \<Rightarrow> run_status \<Rightarrow> string option \<Rightarrow> string option
     \<Rightarrow> (heap \<times> pyval) option \<Rightarrow> bool \<Rightarrow> session \<Rightarrow> (exn + execution_run) \<times> session" where
  "update_run_status now rid expected new ecode emsg out c s =
     (if new \<notin> set (allowed_run_transitions expected)
      then (Inl (InvalidTransition ''illegal execution_run transition''), s)
      else case run_update_values now new ecode emsg out of
        Inl e \<Rightarrow> (Inl e, s)
      | Inr upd \<Rightarrow>
         (case map_of (db_runs (cur s)) rid of
            None \<Rightarrow> (Inl (NotFound ''ExecutionRun not found''), s)
          | Some r \<Rightarrow>
             if er_status r \<noteq> expected
             then (Inl (ConcurrencyConflict ''ExecutionRun status changed''), s)
             else let r' = upd r;
                      s' = commit_if c (s\<lparr>cur := (cur s)\<lparr>db_runs := put rid r' (db_runs (cur s))\<rparr>\<rparr>)
                  in (mk_run r', s')))"

section \<open>Steps\<close>

definition create_step :: "int \<Rightarrow> execution_step \<Rightarrow> session \<Rightarrow> (exn + execution_step) \<times> session" where
  "create_step now st s =
     (if es_id st \<in> set (keys (db_steps (cur s)))
      then (Inl (RuntimeError ''duplicate key value violates unique constraint''), s)
      else if es_run_id st \<notin> set (keys (db_runs (cur s)))
      then (Inl (RuntimeError ''insert or update violates foreign key constraint''), s)
      else (Inr st, s\<lparr>cur := (cur s)\<lparr>db_steps := put (es_id st) (st, now) (db_steps (cur s))\<rparr>\<rparr>))"

definition get_step :: "uuid \<Rightarrow> session \<Rightarrow> execution_step option" where
  "get_step sid s = map_option fst (map_of (db_steps (cur s)) sid)"

definition get_steps_for_run :: "uuid \<Rightarrow> session \<Rightarrow> execution_step list" where
  "get_steps_for_run rid s =
     map fst (sort_key snd (filter (\<lambda>(st, _). es_run_id st = rid) (vals (db_steps (cur s)))))"

definition step_update_values ::
  "int \<Rightarrow> step_status \<Rightarrow> string option \<Rightarrow> string option \<Rightarrow> execution_step \<Rightarrow> execution_step" where
  "step_update_values now new ecode emsg st =
     st\<lparr>es_status := new,
        es_finished_at := (if step_terminal new then Some now else es_finished_at st),
        es_error_code := (case ecode of Some c \<Rightarrow> Some c | None \<Rightarrow> es_error_code st),
        es_error_message := (case emsg of Some m \<Rightarrow> Some m | None \<Rightarrow> es_error_message st)\<rparr>"

definition update_step_status ::
  "int \<Rightarrow> uuid \<Rightarrow> step_status \<Rightarrow> step_status \<Rightarrow> string option \<Rightarrow> string option
     \<Rightarrow> session \<Rightarrow> (exn + execution_step) \<times> session" where
  "update_step_status now sid expected new ecode emsg s =
     (if new \<notin> set (allowed_step_transitions expected)
      then (Inl (InvalidTransition ''illegal execution_step transition''), s)
      else case map_of (db_steps (cur s)) sid of
         None \<Rightarrow> (Inl (NotFound ''ExecutionStep not found''), s)
       | Some (st, t) \<Rightarrow>
          if es_status st \<noteq> expected
          then (Inl (ConcurrencyConflict ''ExecutionStep status changed''), s)
          else let st' = step_update_values now new ecode emsg st
               in (mk_step st', s\<lparr>cur := (cur s)\<lparr>db_steps := put sid (st', t) (db_steps (cur s))\<rparr>\<rparr>))"

definition reconstruct_dag :: "uuid \<Rightarrow> session \<Rightarrow> exn + execution_run \<times> execution_step list" where
  "reconstruct_dag rid s =
     (case get_run rid s of
        None \<Rightarrow> Inl (ValueError ''ExecutionRun not found'')
      | Some r \<Rightarrow> Inr (r, get_steps_for_run rid s))"

section \<open>Lemmas about one operation\<close>

lemma run_update_values_status:
  "run_update_values now new ecode emsg out = Inr upd \<Longrightarrow>
     er_status (upd r) = new \<and> er_id (upd r) = er_id r \<and> er_tenant (upd r) = er_tenant r \<and>
     er_principal (upd r) = er_principal r \<and> er_input (upd r) = er_input r \<and>
     (run_terminal new \<longrightarrow> er_finished_at (upd r) = Some now)"
  by (auto simp: run_update_values_def Let_def split: option.splits)

lemma run_update_values_total:
  "run_update_values now new ecode emsg None \<noteq> Inl e"
  by (simp add: run_update_values_def Let_def)

text \<open>A status change that succeeds wrote exactly one row, from the expected status, along the
  table.\<close>

lemma update_run_status_ok:
  assumes "update_run_status now rid expected new ecode emsg out c s = (Inr r', s')"
  shows "\<exists>r. map_of (db_runs (cur s)) rid = Some r \<and> er_status r = expected \<and>
     new \<in> set (allowed_run_transitions expected) \<and> er_status r' = new \<and>
     map_of (db_runs (cur s')) = (map_of (db_runs (cur s)))(rid \<mapsto> r') \<and>
     db_steps (cur s') = db_steps (cur s) \<and> mk_run r' = Inr r' \<and>
     er_id r' = er_id r \<and> er_tenant r' = er_tenant r \<and> er_principal r' = er_principal r"
  using assms
  by (auto simp: update_run_status_def Let_def mk_run_iff dest: run_update_values_status
      split: if_splits sum.splits option.splits)

lemma update_run_status_err:
  assumes "update_run_status now rid expected new ecode emsg out c s = (Inl e, s')"
  shows "s' = s"
  using assms
  by (auto simp: update_run_status_def Let_def mk_run_def dest: run_update_values_status
      split: if_splits sum.splits option.splits)

lemma create_run_ok:
  assumes "create_run run c s = (Inr r, s')"
  shows "r = run \<and> er_id run \<notin> set (keys (db_runs (cur s))) \<and>
     map_of (db_runs (cur s')) = (map_of (db_runs (cur s)))(er_id run \<mapsto> run) \<and>
     db_steps (cur s') = db_steps (cur s)"
  using assms by (auto simp: create_run_def split: if_splits)

section \<open>All callers: the table as a transition system\<close>

text \<open>
  Any number of requests work on the committed table: each operation that succeeds is one step.
\<close>

definition empty_db :: exec_db where
  "empty_db = \<lparr>db_runs = [], db_steps = []\<rparr>"

definition on_db :: "exec_db \<Rightarrow> session" where
  "on_db d = \<lparr>cur = d, committed = d\<rparr>"

inductive exec_step :: "exec_db \<Rightarrow> exec_db \<Rightarrow> bool" where
  ex_create_run: "mk_run run = Inr run \<Longrightarrow> create_run run c (on_db d) = (Inr r, s) \<Longrightarrow> exec_step d (cur s)"
| ex_update_run: "update_run_status now rid expected new ecode emsg out c (on_db d) = (Inr r, s) \<Longrightarrow>
     exec_step d (cur s)"
| ex_create_step: "create_step now st (on_db d) = (Inr r, s) \<Longrightarrow> exec_step d (cur s)"
| ex_update_step: "update_step_status now sid expected new ecode emsg (on_db d) = (Inr r2, s) \<Longrightarrow>
     exec_step d (cur s)"

definition exec_start :: "exec_db \<Rightarrow> bool" where
  "exec_start d \<longleftrightarrow> d = empty_db"

definition exec_inv :: "exec_db \<Rightarrow> bool" where
  "exec_inv d \<longleftrightarrow>
     (\<forall>rid r. map_of (db_runs d) rid = Some r \<longrightarrow>
        er_id r = rid \<and> (run_terminal (er_status r) \<longrightarrow> er_finished_at r \<noteq> None)) \<and>
     (\<forall>sid st t. map_of (db_steps d) sid = Some (st, t) \<longrightarrow>
        es_id st = sid \<and> map_of (db_runs d) (es_run_id st) \<noteq> None)"

lemma cur_on_db [simp]: "cur (on_db d) = d"
  by (simp add: on_db_def)

lemma create_step_ok:
  assumes "create_step now st s = (Inr r, s')"
  shows "db_runs (cur s') = db_runs (cur s) \<and> map_of (db_runs (cur s)) (es_run_id st) \<noteq> None \<and>
     map_of (db_steps (cur s')) = (map_of (db_steps (cur s)))(es_id st \<mapsto> (st, now))"
  using assms by (auto simp: create_step_def map_of_eq_None_iff split: if_splits)

lemma update_step_status_ok:
  assumes "update_step_status now sid expected new ecode emsg s = (Inr r, s')"
  shows "\<exists>st t. map_of (db_steps (cur s)) sid = Some (st, t) \<and> es_status st = expected \<and>
     new \<in> set (allowed_step_transitions expected) \<and>
     db_runs (cur s') = db_runs (cur s) \<and> es_id r = es_id st \<and> es_run_id r = es_run_id st \<and>
     es_status r = new \<and> map_of (db_steps (cur s')) = (map_of (db_steps (cur s)))(sid \<mapsto> (r, t))"
  using assms
  by (auto simp: update_step_status_def Let_def step_update_values_def mk_step_def
      split: if_splits option.splits)

lemma exec_inv_put_run:
  assumes "exec_inv d" "map_of (db_runs d') = (map_of (db_runs d))(rid \<mapsto> r)"
    "db_steps d' = db_steps d" "er_id r = rid" "mk_run r = Inr r"
  shows "exec_inv d'"
  using assms by (auto simp: exec_inv_def mk_run_iff split: if_splits)

lemma exec_inv_put_step:
  assumes "exec_inv d" "db_runs d' = db_runs d" "map_of (db_steps d') = (map_of (db_steps d))(sid \<mapsto> (st, t))"
    "es_id st = sid" "map_of (db_runs d) (es_run_id st) \<noteq> None"
  shows "exec_inv d'"
  using assms by (auto simp: exec_inv_def split: if_splits)

lemma exec_step_inv:
  assumes inv: "exec_inv d" and "exec_step d d'"
  shows "exec_inv d'"
  using assms(2)
proof cases
  case (ex_create_run run c r s)
  with create_run_ok [OF ex_create_run(3)] show ?thesis
    by (intro exec_inv_put_run [OF inv]) auto
next
  case (ex_update_run now rid expected new ecode emsg out c r s)
  with update_run_status_ok [OF ex_update_run(2)] inv show ?thesis
    by (intro exec_inv_put_run [OF inv, of _ rid r]) (auto simp: exec_inv_def)
next
  case (ex_create_step now st r s)
  with create_step_ok [OF ex_create_step(2)] show ?thesis
    by (intro exec_inv_put_step [OF inv]) auto
next
  case (ex_update_step now sid expected new ecode emsg r s)
  with update_step_status_ok [OF ex_update_step(2)] obtain st t where
    "map_of (db_steps d) sid = Some (st, t)" "es_id r = es_id st" "es_run_id r = es_run_id st"
    "db_runs d' = db_runs d" "map_of (db_steps d') = (map_of (db_steps d))(sid \<mapsto> (r, t))" by auto
  moreover from calculation(1) have "es_id st = sid" "map_of (db_runs d) (es_run_id st) \<noteq> None"
    using inv unfolding exec_inv_def by blast+
  ultimately show ?thesis
    by (intro exec_inv_put_step [OF inv, of _ sid r t]) auto
qed

interpretation executions: invariant_system exec_start exec_step exec_inv
proof unfold_locales
  show "exec_start s \<Longrightarrow> exec_inv s" for s
    by (simp add: exec_start_def empty_db_def exec_inv_def)
qed (rule exec_step_inv)

text \<open>What one step does to one run row: nothing, or an allowed status change.\<close>

lemma exec_step_run:
  assumes "exec_step d d'" and "map_of (db_runs d) rid = Some r"
  shows "\<exists>r'. map_of (db_runs d') rid = Some r' \<and>
     (r' = r \<or> run_table.change (er_status r) (er_status r'))"
  using assms(1)
proof cases
  case (ex_create_run run c r0 s)
  then have "er_id run \<noteq> rid" using assms(2) create_run_ok [OF ex_create_run(3)]
    by (metis cur_on_db map_of_eq_None_iff list.set_map option.distinct(1))
  then show ?thesis using ex_create_run assms(2) by (auto dest!: create_run_ok)
next
  case (ex_update_run now rid' expected new ecode emsg out c r0 s)
  from update_run_status_ok [OF ex_update_run(2)] obtain r1 where
    r1: "map_of (db_runs d) rid' = Some r1" "er_status r1 = expected" "er_status r0 = new"
      "new \<in> set (allowed_run_transitions expected)"
      "map_of (db_runs d') = (map_of (db_runs d))(rid' \<mapsto> r0)"
    using ex_update_run(1) by auto
  show ?thesis
  proof (cases "rid' = rid")
    case True
    with r1 assms(2) show ?thesis by (auto simp: run_table.change_def)
  next
    case False
    with r1 assms(2) show ?thesis by auto
  qed
next
  case (ex_create_step now st r0 s)
  then show ?thesis using assms(2) by (auto dest!: create_step_ok)
next
  case (ex_update_step now sid expected new ecode emsg r0 s)
  then show ?thesis using assms(2) by (auto dest!: update_step_status_ok)
qed

lemma exec_steps_run:
  assumes "exec_step\<^sup>*\<^sup>* d d'" and "map_of (db_runs d) rid = Some r"
  shows "\<exists>r'. map_of (db_runs d') rid = Some r' \<and>
     (r' = r \<or> run_table.change\<^sup>+\<^sup>+ (er_status r) (er_status r'))"
  using assms
proof (induction rule: rtranclp_induct)
  case base
  then show ?case by simp
next
  case (step y z)
  then obtain r1 where r1: "map_of (db_runs y) rid = Some r1"
    "r1 = r \<or> run_table.change\<^sup>+\<^sup>+ (er_status r) (er_status r1)" by blast
  from exec_step_run [OF step.hyps(2) r1(1)] obtain r2 where
    "map_of (db_runs z) rid = Some r2" "r2 = r1 \<or> run_table.change (er_status r1) (er_status r2)"
    by blast
  with r1 show ?case by (auto intro: tranclp.trancl_into_trancl)
qed

lemma run_terminal_iff: "run_terminal s \<longleftrightarrow> allowed_run_transitions s = []"
  by (cases s) (auto simp: run_terminal_def)

section \<open>Properties\<close>

text \<open>\<^verbatim>\<open>update_run_status\<close> on every branch: an illegal transition, an output
  that is not JSON, a missing run, and a run whose status is no longer the expected one each give
  their own error and leave the session as it was; in all other cases it returns the row with the
  new status, the finish time set when that status is terminal.\<close>

theorem update_run_status_branches:
  "update_run_status now rid expected new ecode emsg out c s =
     (if new \<notin> set (allowed_run_transitions expected)
      then (Inl (InvalidTransition ''illegal execution_run transition''), s)
      else case run_update_values now new ecode emsg out of
        Inl e \<Rightarrow> (Inl e, s)
      | Inr upd \<Rightarrow>
         (case get_run rid s of
            None \<Rightarrow> (Inl (NotFound ''ExecutionRun not found''), s)
          | Some r \<Rightarrow>
             if er_status r \<noteq> expected
             then (Inl (ConcurrencyConflict ''ExecutionRun status changed''), s)
             else (Inr (upd r),
                   commit_if c (s\<lparr>cur := (cur s)\<lparr>db_runs := put rid (upd r) (db_runs (cur s))\<rparr>\<rparr>))))"
proof -
  have "mk_run (upd r) = Inr (upd r)"
    if "run_update_values now new ecode emsg out = Inr upd" for upd r
    using run_update_values_status [OF that] by (auto simp: mk_run_iff)
  then show ?thesis
    by (simp add: update_run_status_def get_run_def Let_def split: sum.splits option.splits)
qed

text \<open>C38: In every database reachable by creating runs and steps and changing their statuses, from
  any number of callers in any order, a run in a terminal status has its finish time, rows are stored
  under their own id, and every step belongs to a stored run.\<close>

theorem reachable_executions_consistent:
  assumes "reach exec_start exec_step d"
  shows "(\<forall>rid r. map_of (db_runs d) rid = Some r \<longrightarrow>
            er_id r = rid \<and> (run_terminal (er_status r) \<longrightarrow> er_finished_at r \<noteq> None)) \<and>
         (\<forall>sid st t. map_of (db_steps d) sid = Some (st, t) \<longrightarrow>
            es_id st = sid \<and> map_of (db_runs d) (es_run_id st) \<noteq> None)"
  using executions.reach_inv [OF assms] by (simp add: exec_inv_def)

definition demo_run :: execution_run where
  "demo_run = \<lparr>er_id = 7, er_workflow = ''query'', er_status = RPending, er_principal = ''p'',
     er_tenant = ''t'', er_input = [], er_output = [], er_started_at = Some 1, er_finished_at = None,
     er_error_code = None, er_error_message = None, er_index_version = None,
     er_prompt_version = None, er_model_version = None\<rparr>"

definition demo_db :: exec_db where
  "demo_db = \<lparr>db_runs = [(7, demo_run)], db_steps = []\<rparr>"

lemma demo_db_step: "exec_step empty_db demo_db"
proof -
  have "create_run demo_run True (on_db empty_db) = (Inr demo_run, \<lparr>cur = demo_db, committed = demo_db\<rparr>)"
    by (simp add: create_run_def on_db_def empty_db_def demo_run_def demo_db_def commit_if_def commit_def)
  then have "exec_step empty_db (cur \<lparr>cur = demo_db, committed = demo_db\<rparr>)"
    by (rule ex_create_run [rotated]) (simp add: mk_run_iff demo_run_def run_terminal_def)
  then show ?thesis by simp
qed

theorem reachable_executions_consistent_witness:
  "reach exec_start exec_step demo_db \<and> map_of (db_runs demo_db) 7 = Some demo_run \<and> er_id demo_run = 7"
proof -
  have r: "reach exec_start exec_step demo_db"
    by (rule reach_step [where s = empty_db])
       (simp_all add: reach_start exec_start_def demo_db_step)
  have m: "map_of (db_runs demo_db) 7 = Some demo_run" by (simp add: demo_db_def)
  show ?thesis using r m reachable_executions_consistent [OF r] by blast
qed

text \<open>C17: A run that has reached a terminal status keeps its whole row through any further
  operations of any callers; a run that has not only moves forward along the transition table.\<close>

theorem terminal_run_is_final:
  assumes "exec_step\<^sup>*\<^sup>* d d'" and "map_of (db_runs d) rid = Some r"
  shows "if run_terminal (er_status r) then map_of (db_runs d') rid = Some r
         else \<exists>r'. map_of (db_runs d') rid = Some r' \<and> run_rank (er_status r) \<le> run_rank (er_status r')"
proof -
  obtain r' where r': "map_of (db_runs d') rid = Some r'"
    "r' = r \<or> run_table.change\<^sup>+\<^sup>+ (er_status r) (er_status r')"
    using exec_steps_run [OF assms] by blast
  show ?thesis
  proof (cases "run_terminal (er_status r)")
    case True
    then have "\<not> run_table.change\<^sup>+\<^sup>+ (er_status r) (er_status r')"
      by (metis run_table.change_rank run_table.terminal_stays run_terminal_iff less_irrefl tranclp_into_rtranclp)
    then show ?thesis using r' True by auto
  next
    case False
    then show ?thesis using r' run_table.change_rank by fastforce
  qed
qed

theorem terminal_run_is_final_witness:
  "exec_step\<^sup>*\<^sup>* demo_db demo_db \<and>
   (\<exists>r'. map_of (db_runs demo_db) 7 = Some r' \<and> run_rank (er_status demo_run) \<le> run_rank (er_status r'))"
proof -
  have m: "map_of (db_runs demo_db) 7 = Some demo_run" by (simp add: demo_db_def)
  have "\<not> run_terminal (er_status demo_run)" by (simp add: demo_run_def run_terminal_def)
  then show ?thesis using terminal_run_is_final [OF rtranclp.rtrancl_refl m] by simp
qed

end
