(* ===== verification/QueryApi.thy ===== *)
theory QueryApi
  imports Retrieval Knowledge ExecutionStore
begin

text \<open>
  The assembled query path: the workflow of \<^verbatim>\<open>api/dependencies.py\<close> built from the
  modelled adapters, and the endpoints of \<^verbatim>\<open>api/query.py\<close> and
  \<^verbatim>\<open>api/execution.py\<close> that run it and record the run. The theorems state what the hybrid
  retrieval service, which the workflow runs, may cite over the stores, that the nodes of the workflow fail
  closed, and every outcome of a recorded query, whatever the workflow returns.
\<close>

section \<open>The query workflow, assembled (dependencies.py)\<close>

text \<open>What the adapters are built on: the stores, the database's ranking functions, the replies of the
  models, and fresh identifiers.\<close>

record world =
  w_db :: search_db
  w_graph :: graph_db
  w_distance :: "rat list \<Rightarrow> rat list \<Rightarrow> rat"
  w_matches :: "string \<Rightarrow> string \<Rightarrow> bool"
  w_rank :: "string \<Rightarrow> string \<Rightarrow> rat"
  w_embed :: "nat \<Rightarrow> embedding_request \<Rightarrow> exn + rat list list"
  w_score :: "string \<Rightarrow> exn + string"
  w_answer :: "string \<Rightarrow> string \<Rightarrow> exn + string"
  w_answer_schema :: "string \<Rightarrow> exn + response_output"
  w_entities :: "string \<Rightarrow> string \<Rightarrow> exn + string"
  w_entity_schema :: "string \<Rightarrow> exn + entity_output list"
  w_ontology :: ontology
  w_fresh :: "nat \<Rightarrow> uuid"
  w_entity_id :: "uuid \<Rightarrow> uuid"
  w_score_text :: "nat \<Rightarrow> knowledge_fact \<Rightarrow> string"

text \<open>The provider made without a configuration of its own: the model and its dimensions come from the
  settings, the rest from the defaults.\<close>

definition embed_config_of :: "settings \<Rightarrow> embed_config" where
  "embed_config_of cfg = \<lparr>ec_model = s_embedding_model cfg, ec_dimensions = s_embedding_dims cfg, ec_batch = 100, ec_retries = 3\<rparr>"

definition query_resolver :: resolver where
  "query_resolver = \<lparr>rv_graph = True, rv_fuzzy = 85 / 100, rv_review = 7 / 10, rv_read_only = True\<rparr>"

definition build_ports :: "settings \<Rightarrow> world \<Rightarrow> ports" where
  "build_ports cfg w =
     \<lparr>p_embed = (\<lambda>q. embed_one (embed_config_of cfg) (call_api (embed_config_of cfg) (w_embed w)) q 0),
      p_model = s_embedding_model cfg, p_dims = s_embedding_dims cfg,
      p_vector = (\<lambda>qv k ps t vid. pg_vector_search (w_distance w) qv k ps t vid (w_db w)),
      p_keyword = (\<lambda>q k ps t. pg_keyword_search (w_matches w) (w_rank w) q k ps t (w_db w)),
      p_rerank = rerank (w_score w),
      p_generate = (\<lambda>q evs plan. generate (w_fresh w) (w_answer w) (w_answer_schema w) q evs),
      p_index = (\<lambda>name. resolve_active name (sd_index (w_db w))),
      p_plan = make_plan (\<lambda>q. llm_extract (w_entities w) (w_entity_schema w) (w_fresh w) q (w_fresh w 0))
        (\<lambda>m. Inr (fst (resolve query_resolver (w_entity_id w (em_id m)) m (w_graph w))))
        (map pr_name (on_predicates (w_ontology w))),
      p_entity = (\<lambda>i. get_entity i (w_graph w)),
      p_facts = (\<lambda>subj predicate obj st allowed tenant. find_facts subj predicate obj st allowed tenant (w_graph w)),
      p_score_text = w_score_text w, p_fresh = w_fresh w\<rparr>"

lemma build_ports_simps [simp]:
  "p_rerank (build_ports cfg w) = rerank (w_score w)"
  "p_vector (build_ports cfg w) qv k ps t vid = pg_vector_search (w_distance w) qv k ps t vid (w_db w)"
  "p_keyword (build_ports cfg w) = (\<lambda>q k ps t. pg_keyword_search (w_matches w) (w_rank w) q k ps t (w_db w))"
  "p_facts (build_ports cfg w) = (\<lambda>subj predicate obj st allowed tenant. find_facts subj predicate obj st allowed tenant (w_graph w))"
  by (simp_all add: build_ports_def)

text \<open>The assembled ports keep the promises the retrieval services rely on.\<close>

definition stored_fact :: "world \<Rightarrow> knowledge_fact \<Rightarrow> bool" where
  "stored_fact w f \<longleftrightarrow> f \<in> set (vals (g_facts (w_graph w)))"

lemma find_facts_stored: "find_facts subj predicate obj st allowed tenant g = Inr fs \<Longrightarrow> f \<in> set fs \<Longrightarrow> f \<in> set (vals (g_facts g))"
  using find_facts_rows fact_rows_match map_of_vals by metis

interpretation built: secure_ports "build_ports cfg w" "chunk_authorised (sd_docs (w_db w))" "stored_fact w" 100 for cfg w
proof (unfold_locales, goal_cases)
  case (1 q k ps t out r)
  then show ?case
    using pg.vec.search_readable [of "w_distance w" "fst q" k ps t "snd q" "w_db w"] by (simp add: case_prod_beta)
next
  case (2 q k ps t out)
  then show ?case
    using pg.vec.search_size [of "w_distance w" "fst q" k ps t "snd q" "w_db w"] by (simp add: case_prod_beta)
next
  case (3 q k ps t out r)
  then show ?case using pg.kw.search_readable by simp
next
  case (4 q k ps t out)
  then show ?case using pg.kw.search_size by simp
next
  case (5 evs q out)
  then show ?case using openai.rr_mset by simp
next
  case (6 subj predicate obj st allowed tenant fs f)
  then show ?case using neo4j.facts_match by simp
next
  case (7 subj predicate obj st allowed tenant fs f)
  then show ?case using neo4j.facts_valid by simp
next
  case (8 subj predicate obj st allowed tenant fs)
  then show ?case using find_facts_cap by simp
next
  case (9 subj predicate obj st allowed tenant fs f)
  then show ?case using find_facts_stored by (simp add: stored_fact_def)
qed

section \<open>The nodes of the workflow\<close>

definition no_bad_claim :: "query_response \<Rightarrow> bool" where
  "no_bad_claim r \<longleftrightarrow> (\<forall>c \<in> set (qr_claims r). \<not> (ac_factual c \<and> ac_support c = Unsupported))"

text \<open>A response that ends the graph comes from the attempt just made, validated.\<close>

definition accepted :: "service \<Rightarrow> nat \<Rightarrow> query_response \<Rightarrow> bool" where
  "accepted svc n v \<longleftrightarrow>
     (\<exists>r evs. svc n = Inr (r, evs) \<and> validate_response r evs = Inr v \<and> no_bad_claim v \<and>
        (qr_status v = Answered \<or> qr_status v = ClarificationRequired))"

lemma execute_node_ok:
  "svc (ws_retries st) = Inr (r, evs) \<Longrightarrow>
   execute_node svc st = st\<lparr>ws_response := Some r, ws_evidence := evs, ws_error := None\<rparr>"
  by (simp add: execute_node_def)

lemma validate_node_error: "validate_node st = Inr st' \<Longrightarrow> ws_error st' = ws_error st"
  by (auto simp: validate_node_def Let_def split: option.splits if_splits)

lemma attempt_done:
  assumes v: "validate_node (execute_node svc st) = Inr st1" and d: "decide_route mx st1 = ToDone"
  shows "\<exists>w. ws_response st1 = Some w \<and> accepted svc (ws_retries st) w"
proof (cases "svc (ws_retries st)")
  case (Inl e)
  then have "ws_error st1 \<noteq> None" using validate_node_error [OF v] by (simp add: execute_node_def)
  then show ?thesis using d by (auto simp: decide_route_def Let_def split: if_splits)
next
  case (Inr p)
  obtain r evs where p: "svc (ws_retries st) = Inr (r, evs)" using Inr by (cases p) simp
  from v obtain w where w: "validate_response r evs = Inr w"
    by (auto simp: execute_node_ok [of svc, OF p] validate_node_def)
  let ?bad = "filter (\<lambda>c. ac_factual c \<and> ac_support c = Unsupported) (qr_claims w)"
  show ?thesis
  proof (cases "?bad = []")
    case True
    then have s: "ws_response st1 = Some w" and e: "ws_error st1 = None"
      using v w validate_node_error [OF v] by (auto simp: execute_node_ok [of svc, OF p] validate_node_def Let_def)
    have "no_bad_claim w" using True by (auto simp: no_bad_claim_def filter_empty_conv)
    moreover have "qr_status w = Answered \<or> qr_status w = ClarificationRequired"
      using d s e by (auto simp: decide_route_def Let_def split: response_status.splits if_splits)
    ultimately show ?thesis using p w s by (auto simp: accepted_def)
  next
    case False
    then have "\<exists>w'. ws_response st1 = Some w' \<and> qr_status w' = InsufficientEvidence" and "ws_error st1 = None"
      using v w validate_node_error [OF v]
      by (auto simp: execute_node_ok [of svc, OF p] validate_node_def Let_def mk_response_def)
    then show ?thesis using d by (auto simp: decide_route_def Let_def split: if_splits)
  qed
qed

text \<open>What a traversal that LangGraph admits ends with.\<close>

lemma run_graph_cases:
  "run_graph svc run mx st = Inr st' \<Longrightarrow>
   \<exists>r. ws_response st' = Some r \<and> ((\<exists>w. r = refusal run RespFailed w) \<or>
     (\<exists>n \<ge> ws_retries st. n \<le> max mx (ws_retries st) \<and> accepted svc n r))"
proof (induction svc run mx st rule: run_graph.induct)
  case (1 svc run mx st)
  from "1.prems" obtain st1 where v: "validate_node (execute_node svc st) = Inr st1"
    by (subst (asm) run_graph.simps) (auto split: sum.splits)
  have n: "ws_retries st1 = ws_retries st" using validate_node_retries [OF v] by simp
  from "1.prems" v have r: "(case decide_route mx st1 of ToRetry \<Rightarrow> run_graph svc run mx (retry_node st1)
      | ToFail \<Rightarrow> fail_node run st1 | ToDone \<Rightarrow> Inr st1) = Inr st'" by (subst (asm) run_graph.simps) simp
  show ?case
  proof (cases "decide_route mx st1")
    case ToRetry
    from decide_route_retry [OF ToRetry] n have lt: "ws_retries st < mx" by simp
    have n': "ws_retries (retry_node st1) = Suc (ws_retries st)" using n by (simp add: retry_node_def)
    from ToRetry r have "run_graph svc run mx (retry_node st1) = Inr st'" by simp
    from "1.IH" [OF v ToRetry this] lt show ?thesis unfolding n' by (auto simp: max_def split: if_splits)
  next
    case ToFail
    then show ?thesis using r by (auto simp: fail_node_def mk_response_def refusal_def)
  next
    case ToDone
    then have "st' = st1" using r by simp
    then show ?thesis using attempt_done [OF v ToDone] by force
  qed
qed

text \<open>C3: the nodes of the query workflow fail closed. After an attempt has been executed and validated, the
  graph ends with the response only when it is the validated response of that attempt, with status
  answered or clarification, in which no factual claim is unsupported; it goes round again only below
  the limit of retries; and otherwise its last node replaces the response by a refusal with status
  failed, without claims and citations.\<close>

theorem workflow_fails_closed:
  assumes "validate_node (execute_node svc st) = Inr st1"
  shows "case decide_route mx st1 of
      ToDone \<Rightarrow> \<exists>v. ws_response st1 = Some v \<and> accepted svc (ws_retries st) v
    | ToRetry \<Rightarrow> ws_retries st < mx \<and> ws_retries (retry_node st1) = Suc (ws_retries st)
    | ToFail \<Rightarrow> \<exists>w. fail_node run st1 = Inr (st1\<lparr>ws_response := Some (refusal run RespFailed w)\<rparr>)"
proof (cases "decide_route mx st1")
  case ToDone
  then show ?thesis using attempt_done [OF assms ToDone] by simp
next
  case ToRetry
  then show ?thesis using decide_route_retry [OF ToRetry] validate_node_retries [OF assms] by (simp add: retry_node_def)
next
  case ToFail
  then show ?thesis by (auto simp: fail_node_def mk_refusal)
qed

theorem workflow_fails_closed_witness:
  "\<exists>st1 v. validate_node (execute_node (\<lambda>n. Inr (demo_response, [demo_evidence]))
       \<lparr>ws_response = None, ws_evidence = [], ws_error = None, ws_retries = 0\<rparr>) = Inr st1 \<and>
     ws_response st1 = Some v \<and> accepted (\<lambda>n. Inr (demo_response, [demo_evidence])) 0 v"
proof -
  let ?svc = "\<lambda>n. Inr (demo_response, [demo_evidence])" and ?st = "\<lparr>ws_response = None, ws_evidence = [], ws_error = None, ws_retries = 0\<rparr>"
  have "(case validate_node (execute_node ?svc ?st) of Inr st1 \<Rightarrow> decide_route 1 st1 = ToDone | Inl _ \<Rightarrow> False)" by code_simp
  then obtain st1 where st1: "validate_node (execute_node ?svc ?st) = Inr st1" "decide_route 1 st1 = ToDone"
    by (auto split: sum.splits)
  from workflow_fails_closed [OF st1(1), of 1] st1 show ?thesis by auto
qed

lemma run_graph_cong:
  "(\<And>n. ws_retries st \<le> n \<Longrightarrow> n \<le> max mx (ws_retries st) \<Longrightarrow> svc n = svc' n) \<Longrightarrow>
   run_graph svc run mx st = run_graph svc' run mx st"
proof (induction svc run mx st rule: run_graph.induct)
  case (1 svc run mx st)
  have e: "execute_node svc' st = execute_node svc st" using "1.prems" [of "ws_retries st"] by (simp add: execute_node_def)
  show ?case
  proof (cases "validate_node (execute_node svc st)")
    case (Inl x)
    then show ?thesis unfolding run_graph.simps [of svc run mx st] run_graph.simps [of svc' run mx st] e by simp
  next
    case (Inr st1)
    show ?thesis
    proof (cases "decide_route mx st1 = ToRetry")
      case True
      have n: "ws_retries (retry_node st1) = Suc (ws_retries st)"
        using validate_node_retries [OF Inr] by (simp add: retry_node_def)
      have lt: "ws_retries st < mx" using decide_route_retry [OF True] validate_node_retries [OF Inr] by simp
      have "run_graph svc run mx (retry_node st1) = run_graph svc' run mx (retry_node st1)"
        by (rule "1.IH" [OF Inr True]) (rule "1.prems", use lt in \<open>simp_all add: n max_def split: if_splits\<close>)
      then show ?thesis unfolding run_graph.simps [of svc run mx st] run_graph.simps [of svc' run mx st] e by (simp add: Inr True)
    next
      case False
      then show ?thesis unfolding run_graph.simps [of svc run mx st] run_graph.simps [of svc' run mx st] e
        by (simp add: Inr split: route.splits)
    qed
  qed
qed

text \<open>A traversal that LangGraph admits ends after at most \<^verbatim>\<open>max_retries + 1\<close> attempts: its
  result depends on no later outcome of the service.\<close>

theorem admitted_run_bounded:
  assumes "ws_retries st = 0" and "\<forall>n \<le> mx. svc n = svc' n"
  shows "run_graph svc run mx st = run_graph svc' run mx st"
proof (rule run_graph_cong)
  fix n assume "n \<le> max mx (ws_retries st)"
  then show "svc n = svc' n" using assms by simp
qed

text \<open>No call of the workflow is admitted.\<close>

lemma ainvoke_refused:
  assumes "needs_thread lg"
  shows "\<exists>m. ainvoke lg svc run mx = Inl (ValueError m)"
proof -
  obtain m where "lg True None (run_graph svc run mx)
      \<lparr>ws_response = None, ws_evidence = [], ws_error = None, ws_retries = 0\<rparr> = Inl (ValueError m)"
    using assms unfolding needs_thread_def by blast
  then show ?thesis by (simp add: ainvoke_def)
qed

text \<open>A runner that refuses calls without a thread and runs the others.\<close>

definition demo_langgraph :: langgraph where
  "demo_langgraph checkpointer thread steps st =
     (if checkpointer \<and> thread = None then Inl (ValueError ''Checkpointer requires thread_id'') else steps st)"

lemma demo_langgraph_refuses: "needs_thread demo_langgraph"
  by (simp add: needs_thread_def demo_langgraph_def)

section \<open>What the caller sees\<close>

lemma validated_citation:
  assumes "validate_response r evs = Inr v" and "ci \<in> set (qr_citations v)"
  shows "ci \<in> set (qr_citations r)"
proof -
  have "ci \<in> set (concat (map (kept_citations (map ev_id evs) (qr_citations r)) (qr_claims r)))"
    using assms by (auto simp: validate_response_def Let_def mk_response_def split: if_splits option.splits)
  then show ?thesis unfolding kept_citations_mem by auto
qed

text \<open>The service of the workflow: attempt \<^verbatim>\<open>n\<close> runs in the world as it is then.\<close>

definition query_service ::
  "settings \<Rightarrow> (nat \<Rightarrow> world) \<Rightarrow> string \<Rightarrow> string \<Rightarrow> string \<Rightarrow> string option \<Rightarrow> service" where
  "query_service cfg w question prin tenant index_name n =
     query_with_evidence cfg (build_ports cfg (w n)) question prin tenant index_name None None"

definition workflow_query ::
  "langgraph \<Rightarrow> settings \<Rightarrow> (nat \<Rightarrow> world) \<Rightarrow> uuid \<Rightarrow> string \<Rightarrow> string \<Rightarrow> string \<Rightarrow> string option \<Rightarrow> exn + query_response" where
  "workflow_query lg cfg w run question prin tenant index_name =
     ainvoke lg (query_service cfg w question prin tenant index_name) run 1"

abbreviation readable_in :: "world \<Rightarrow> string \<Rightarrow> string \<Rightarrow> evidence \<Rightarrow> bool" where
  "readable_in w prin tenant \<equiv> evidence_readable (chunk_authorised (sd_docs (w_db w)) [prin] tenant)
     (\<lambda>f. stored_fact w f \<and> fact_grants prin tenant f)"

text \<open>C1: The hybrid retrieval service, end to end over the assembled adapters, never cites what the caller may
  not read. The evidence it hands on has no identifier twice, and every citation of its response names
  one piece of that evidence, with its locator and principals, and that piece is a chunk of the current
  version of a document of an active source of the tenant that lists the principal, with the chunk's
  identifiers and content, or is a stored verified fact of the tenant that the principal may see. The
  same holds for the citations that the validator of the workflow keeps.\<close>

theorem hybrid_citations_readable:
  assumes "query_with_evidence cfg (build_ports cfg w) question prin tenant index_name k n = Inr (r, evs)" and "prin \<noteq> []"
    and "ci \<in> set (qr_citations r) \<or> validate_response r evs = Inr v \<and> ci \<in> set (qr_citations v)"
  shows "distinct (map ev_id evs) \<and>
    (\<exists>e \<in> set evs. ci_evidence ci = ev_id e \<and> ci_locator ci = chunk_locator e \<and> ci_principals ci = ev_principals e \<and>
       readable_in w prin tenant e)"
proof -
  from assms(1) obtain plan where
    h: "hybrid_retrieve cfg (build_ports cfg w) question prin tenant index_name k n = Inr (plan, evs)" and
    g: "p_generate (build_ports cfg w) question evs plan = Inr r"
    by (auto simp: query_with_evidence_def)
  have "grounded evs r" by (rule generate_grounded [of "w_fresh w"]) (use g in \<open>simp add: build_ports_def\<close>)
  moreover have "ci \<in> set (qr_citations r)" using assms(3) validated_citation by blast
  ultimately obtain e where e: "e \<in> set evs" "ci_evidence ci = ev_id e" "ci_locator ci = chunk_locator e" "ci_principals ci = ev_principals e"
    by (auto simp: grounded_def citation_ok_def)
  have "readable_in w prin tenant e" by (rule built.hybrid_retrieve_readable [OF h assms(2) e(1)])
  then show ?thesis using e built.hybrid_retrieve_distinct [OF h] by blast
qed

definition demo_source :: source_descriptor where
  "demo_source = \<lparr>src_id = 1, src_type = Filesystem, src_uri = ''/d'', src_classification = ''c'', src_tenant = ''t'',
     src_principals = [''p''], src_active = True, src_deactivated_at = None\<rparr>"

definition demo_stored_chunk :: chunk where
  "demo_stored_chunk = \<lparr>ck_id = 4, ck_document_id = 2, ck_version_id = 3, ck_ordinal = 0, ck_heading_path = [], ck_content = ''text'',
     ck_token_count = 1, ck_checksum = [], ck_start = None, ck_end = None, ck_principals = [], ck_chunker_version = ''v'', ck_config_hash = []\<rparr>"

definition demo_world :: world where
  "demo_world =
     \<lparr>w_db = \<lparr>sd_docs = \<lparr>t_sources = [(1, demo_source)], t_docs = [(2, \<lparr>d_id = 2, d_source = 1, d_locator = [], d_title = [],
           d_media = [], d_current = Some 3\<rparr>)], t_versions = [], t_chunks = [(4, demo_stored_chunk)], t_checks = []\<rparr>,
         sd_index = [(5, \<lparr>ix_id = 5, ix_name = ''default'', ix_version = ''1'', ix_model = ''text-embedding-3-small'',
           ix_dims = 1536, ix_chunker = ''v'', ix_active = True, ix_created = 0\<rparr>)],
         sd_embeddings = [\<lparr>em_chunk = 4, em_index = 5, em_vector = [1]\<rparr>]\<rparr>,
      w_graph = empty_graph, w_distance = (\<lambda>_ _. 1 / 2), w_matches = (\<lambda>_ _. False), w_rank = (\<lambda>_ _. 0),
      w_embed = (\<lambda>_ r. Inr (map (\<lambda>_. [1]) (eq_input r))), w_score = (\<lambda>_. Inr ''3''), w_answer = (\<lambda>_ _. Inr ''{}''),
      w_answer_schema = (\<lambda>_. Inr \<lparr>ro_answer = ''yes'', ro_claims =
         [\<lparr>co_text = ''t'', co_factual = True, co_support = ''supported'', co_evidence = [''0'']\<rparr>]\<rparr>),
      w_entities = (\<lambda>_ _. Inr ''{}''), w_entity_schema = (\<lambda>_. Inr []), w_ontology = demo_ontology,
      w_fresh = id, w_entity_id = id, w_score_text = (\<lambda>_ _. [])\<rparr>"

theorem hybrid_citations_readable_witness:
  "\<exists>r evs ci e. query_with_evidence default_settings (build_ports default_settings demo_world) ''hi'' ''p'' ''t'' None None None = Inr (r, evs) \<and>
     qr_status r = Answered \<and> ci \<in> set (qr_citations r) \<and> e \<in> set evs \<and> ci_evidence ci = ev_id e \<and> readable_in demo_world ''p'' ''t'' e"
proof -
  let ?q = "query_with_evidence default_settings (build_ports default_settings demo_world) ''hi'' ''p'' ''t'' None None None"
  have "(case ?q of Inr (r, evs) \<Rightarrow> qr_status r = Answered \<and> qr_citations r \<noteq> [] | Inl _ \<Rightarrow> False)" by code_simp
  then obtain r evs where r: "?q = Inr (r, evs)" "qr_status r = Answered" "qr_citations r \<noteq> []" by (auto split: sum.splits)
  then obtain ci where ci: "ci \<in> set (qr_citations r)" by (cases "qr_citations r") auto
  from hybrid_citations_readable [OF r(1) _ disjI1 [OF ci]] show ?thesis using r ci by blast
qed

section \<open>Request models (api/query.py)\<close>

text \<open>The request's field constraints; the vector endpoint takes tenant and principal from the body.\<close>

record vector_request =
  vq_question :: string
  vq_tenant :: string
  vq_principal :: string
  vq_index :: "string option"
  vq_top_k :: "int option"
  vq_limit :: "int option"

definition in_range :: "int \<Rightarrow> int \<Rightarrow> int option \<Rightarrow> bool" where
  "in_range lo hi x = (case x of Some k \<Rightarrow> lo \<le> k \<and> k \<le> hi | None \<Rightarrow> True)"

definition mk_vector_request :: "vector_request \<Rightarrow> exn + vector_request" where
  "mk_vector_request q =
     (if 1 \<le> length (vq_question q) \<and> length (vq_question q) \<le> 2000 \<and> vq_tenant q \<noteq> [] \<and> vq_principal q \<noteq> [] \<and>
         in_range 1 100 (vq_top_k q) \<and> in_range 1 20 (vq_limit q)
      then Inr q else Inl (HttpError 422 ''Unprocessable Entity''))"

text \<open>\<^verbatim>\<open>_handle_error\<close>: every exception becomes the same safe detail.\<close>

definition handle_error :: "exn + 'a \<Rightarrow> exn + 'a" where
  "handle_error r = (case r of Inl _ \<Rightarrow> Inl (HttpError 500 ''Internal server error'') | Inr x \<Rightarrow> Inr x)"

definition query_vector :: "settings \<Rightarrow> ports \<Rightarrow> vector_request \<Rightarrow> exn + query_response" where
  "query_vector cfg P q =
     rbind (mk_vector_request q) (\<lambda>q.
       handle_error (vector_query cfg P (vq_question q) (vq_principal q) (vq_tenant q) (vq_index q) (vq_top_k q) (vq_limit q)))"

definition query_hybrid ::
  "(string \<Rightarrow> string \<Rightarrow> string \<Rightarrow> string option \<Rightarrow> exn + query_response) \<Rightarrow> vector_request \<Rightarrow> exn + query_response" where
  "query_hybrid flow q =
     (if 1 \<le> length (vq_question q) \<and> length (vq_question q) \<le> 2000 \<and> vq_tenant q \<noteq> [] \<and> vq_principal q \<noteq> []
      then handle_error (flow (vq_question q) (vq_principal q) (vq_tenant q) (vq_index q))
      else Inl (HttpError 422 ''Unprocessable Entity''))"

section \<open>Recorded queries (api/query.py, api/execution.py)\<close>

fun response_status_str :: "response_status \<Rightarrow> string" where
  "response_status_str Answered = ''answered''"
| "response_status_str ClarificationRequired = ''clarification_required''"
| "response_status_str InsufficientEvidence = ''insufficient_evidence''"
| "response_status_str RespFailed = ''failed''"

fun band_str :: "confidence_band \<Rightarrow> string" where
  "band_str High = ''high''" | "band_str Medium = ''medium''" | "band_str Low = ''low''"

text \<open>The output of a run as the Python objects the handler builds: the identifiers of the citations are
  \<^verbatim>\<open>UUID\<close> objects.\<close>

definition run_output :: "query_response \<Rightarrow> heap \<times> pyval" where
  "run_output r =
     ([(0, PyDict
         [(PStr ''answer'', case qr_answer r of Some a \<Rightarrow> PStr a | None \<Rightarrow> PNone),
          (PStr ''status'', PStr (response_status_str (qr_status r))),
          (PStr ''claims_count'', PInt (int (length (qr_claims r)))), (PStr ''citation_ids'', PRef 1),
          (PStr ''confidence_band'', PStr (band_str (qr_confidence r))), (PStr ''warnings'', PRef 2)]),
       (1, PyList (map (\<lambda>_. POther ''UUID'') (qr_citations r))),
       (2, PyList (map PStr (qr_warnings r)))], PRef 0)"

type_synonym workflow = "string \<Rightarrow> string \<Rightarrow> string \<Rightarrow> string option \<Rightarrow> exn + query_response"

definition pending_run ::
  "uuid \<Rightarrow> identity \<Rightarrow> (string \<times> json) list \<Rightarrow> int \<Rightarrow> uuid option \<Rightarrow> string option \<Rightarrow> execution_run" where
  "pending_run rid who input now ix model =
     \<lparr>er_id = rid, er_workflow = ''query'', er_status = RPending, er_principal = id_principal who,
      er_tenant = id_tenant who, er_input = input, er_output = [], er_started_at = Some now, er_finished_at = None,
      er_error_code = None, er_error_message = None, er_index_version = ix, er_prompt_version = None,
      er_model_version = model\<rparr>"

text \<open>The handler of an exception: the run is marked failed, which may itself raise.\<close>

definition fail_run ::
  "int \<Rightarrow> uuid \<Rightarrow> string \<Rightarrow> exn \<Rightarrow> exn \<Rightarrow> session \<Rightarrow> (exn + 'a) \<times> session" where
  "fail_run now rid code e raised s =
     (case update_run_status now rid RRunning RFailed (Some code) (Some (exn_str e)) None True s of
        (Inl e', s') \<Rightarrow> (Inl e', s')
      | (Inr _, s') \<Rightarrow> (Inl raised, s'))"

text \<open>The body both handlers run between PENDING and SUCCEEDED; \<^verbatim>\<open>raised\<close> is what the handler
  raises for an exception.\<close>

definition run_recorded ::
  "int \<Rightarrow> int \<Rightarrow> uuid \<Rightarrow> string \<Rightarrow> (exn \<Rightarrow> exn) \<Rightarrow> (query_response \<Rightarrow> (heap \<times> pyval) option) \<Rightarrow>
   (unit \<Rightarrow> exn + query_response) \<Rightarrow> session \<Rightarrow> (exn + query_response) \<times> session" where
  "run_recorded now1 now2 rid code raised out flow s =
     (case update_run_status now1 rid RPending RRunning None None None True s of
        (Inl e, s1) \<Rightarrow> fail_run now2 rid code e (raised e) s1
      | (Inr _, s1) \<Rightarrow>
         (case flow () of
            Inl e \<Rightarrow> fail_run now2 rid code e (raised e) s1
          | Inr r \<Rightarrow>
             (case update_run_status now2 rid RRunning RSucceeded None None (out r) True s1 of
                (Inl e, s2) \<Rightarrow> fail_run now2 rid code e (raised e) s2
              | (Inr _, s2) \<Rightarrow> (Inr r, s2))))"

definition safe_error :: "exn \<Rightarrow> exn" where
  "safe_error e = HttpError 500 ''Internal server error''"

text \<open>\<^verbatim>\<open>get_execution_repo_with_session\<close>: commit at the end, roll back on an exception.\<close>

definition with_session :: "(session \<Rightarrow> (exn + 'a) \<times> session) \<Rightarrow> session \<Rightarrow> (exn + 'a) \<times> session" where
  "with_session f s = (case f s of (Inl e, s') \<Rightarrow> (Inl e, rollback s') | (Inr x, s') \<Rightarrow> (Inr x, commit s'))"

definition query_v1 ::
  "(string option \<Rightarrow> exn + uuid \<times> string) \<Rightarrow> settings \<Rightarrow> workflow \<Rightarrow> uuid \<Rightarrow> int \<Rightarrow> int \<Rightarrow> int \<Rightarrow> identity \<Rightarrow> string \<Rightarrow>
   string option \<Rightarrow> session \<Rightarrow> (exn + query_response) \<times> session" where
  "query_v1 index cfg flow rid now0 now1 now2 who question index_name =
     with_session (\<lambda>s.
       if \<not> (1 \<le> length question \<and> length question \<le> 2000) then (Inl (HttpError 422 ''Unprocessable Entity''), s)
       else case index index_name of
          Inl e \<Rightarrow> (Inl e, s)
        | Inr (ix, _) \<Rightarrow>
           (let input = (''question'', JStr question) #
                  (case index_name of Some n \<Rightarrow> if n = [] then [] else [(''index_name'', JStr n)] | None \<Rightarrow> []);
                run = pending_run rid who input now0 (Some ix) (Some (s_generation_model cfg))
            in case create_run run True s of
                 (Inl e, s0) \<Rightarrow> (Inl e, s0)
               | (Inr _, s0) \<Rightarrow>
                  (case run_recorded now1 now2 rid ''WORKFLOW_FAILED'' safe_error (\<lambda>r. Some (run_output r))
                       (\<lambda>_. flow question (id_principal who) (id_tenant who) index_name) s0 of
                     (Inl e, s1) \<Rightarrow> (Inl e, s1)
                   | (Inr r, s1) \<Rightarrow> (Inr (r\<lparr>qr_run := rid\<rparr>), s1))))"

definition owned_run :: "uuid \<Rightarrow> identity \<Rightarrow> session \<Rightarrow> exn + execution_run" where
  "owned_run rid who s =
     (case get_run rid s of
        None \<Rightarrow> Inl (HttpError 404 ''Execution run not found'')
      | Some r \<Rightarrow> if er_tenant r \<noteq> id_tenant who \<or> er_principal r \<noteq> id_principal who
                  then Inl (HttpError 404 ''Execution run not found'') else Inr r)"

definition get_execution :: "uuid \<Rightarrow> identity \<Rightarrow> session \<Rightarrow> (exn + execution_run) \<times> session" where
  "get_execution rid who = with_session (\<lambda>s. (owned_run rid who s, s))"

text \<open>A question that is not a text is handed to the workflow as it is; \<^verbatim>\<open>flow\<close> gets the JSON
  values.\<close>

definition replay_execution ::
  "(json \<Rightarrow> string \<Rightarrow> string \<Rightarrow> json option \<Rightarrow> exn + query_response) \<Rightarrow> uuid \<Rightarrow> int \<Rightarrow> int \<Rightarrow> int \<Rightarrow> uuid \<Rightarrow> identity \<Rightarrow>
   session \<Rightarrow> (exn + uuid) \<times> session" where
  "replay_execution flow new now0 now1 now2 rid who =
     with_session (\<lambda>s.
       case owned_run rid who s of
         Inl e \<Rightarrow> (Inl e, s)
       | Inr r \<Rightarrow>
          if er_status r \<noteq> RSucceeded \<and> er_status r \<noteq> RFailed then (Inl (HttpError 409 ''Cannot replay run''), s)
          else case map_of (er_input r) ''question'' of
             None \<Rightarrow> (Inl (HttpError 422 ''Original run has no question in input''), s)
           | Some q \<Rightarrow>
              if \<not> json_true q then (Inl (HttpError 422 ''Original run has no question in input''), s)
              else (case create_run (pending_run new who (er_input r) now0 None None) True s of
                      (Inl e, s0) \<Rightarrow> (Inl e, s0)
                    | (Inr _, s0) \<Rightarrow>
                       (case run_recorded now1 now2 new ''REPLAY_FAILED'' id (\<lambda>_. None)
                            (\<lambda>_. flow q (id_principal who) (id_tenant who) (map_of (er_input r) ''index_name'')) s0 of
                          (Inl e, s1) \<Rightarrow> (Inl e, s1)
                        | (Inr _, s1) \<Rightarrow> (Inr new, s1))))"

section \<open>Lemmas about recorded runs\<close>

lemma run_output_fails: "qr_citations r \<noteq> [] \<Longrightarrow> \<exists>e. snapshot_json_object (fst (run_output r)) (snd (run_output r)) = Inl e"
proof -
  assume c: "qr_citations r \<noteq> []"
  have "\<not> represents (fst (run_output r)) (snd (run_output r)) j" for j
    using c by (cases "qr_citations r") (auto simp: run_output_def represents_simps list_all2_Cons1 elim!: represents_refE)
  then have "validate_json_value (fst (run_output r)) (snd (run_output r)) \<noteq> Inr j" for j
    by (simp add: validate_json_value_def validate_iff_represents)
  then obtain e where "validate_json_value (fst (run_output r)) (snd (run_output r)) = Inl e"
    by (cases "validate_json_value (fst (run_output r)) (snd (run_output r))") auto
  then show ?thesis by (simp add: snapshot_json_object_def)
qed

lemma run_output_stored: "qr_citations r = [] \<Longrightarrow> \<exists>js. snapshot_json_object (fst (run_output r)) (snd (run_output r)) = Inr js"
proof -
  assume c: "qr_citations r = []"
  let ?h = "fst (run_output r)"
  have w: "represents ?h (PRef 2) (JList (map JStr (qr_warnings r)))"
    by (rule rep_list [of _ _ "map PStr (qr_warnings r)"]) (auto simp: run_output_def list_all2_conv_all_nth represents_simps)
  have e: "represents ?h (PRef 1) (JList [])" by (rule rep_list [of _ _ "[]"]) (simp_all add: run_output_def c)
  have "represents ?h (PRef 0) (JObj
      [(''answer'', case qr_answer r of Some a \<Rightarrow> JStr a | None \<Rightarrow> JNull), (''status'', JStr (response_status_str (qr_status r))),
       (''claims_count'', JInt (int (length (qr_claims r)))), (''citation_ids'', JList []),
       (''confidence_band'', JStr (band_str (qr_confidence r))), (''warnings'', JList (map JStr (qr_warnings r)))])"
    by (rule rep_dict [OF _]) (use w e in \<open>auto simp: run_output_def represents_simps split: option.splits\<close>)
  moreover have "snd (run_output r) = PRef 0" by (simp add: run_output_def)
  ultimately show ?thesis
    by (auto simp: snapshot_json_object_def validate_json_value_def simp flip: validate_iff_represents)
qed

text \<open>A status change of a run that is in the expected status, with an output that is JSON or none.\<close>

definition storable :: "(heap \<times> pyval) option \<Rightarrow> bool" where
  "storable out \<longleftrightarrow> (case out of None \<Rightarrow> True | Some (h, v) \<Rightarrow> \<exists>js. snapshot_json_object h v = Inr js)"

text \<open>The run is the caller's, stored and committed, in the given status; the other runs and the steps are
  as before.\<close>

definition recorded :: "session \<Rightarrow> session \<Rightarrow> uuid \<Rightarrow> identity \<Rightarrow> run_status \<Rightarrow> bool" where
  "recorded s s' rid who st \<longleftrightarrow>
     (\<exists>run. map_of (db_runs (cur s')) = (map_of (db_runs (cur s)))(rid \<mapsto> run) \<and> er_status run = st \<and>
        er_tenant run = id_tenant who \<and> er_principal run = id_principal who) \<and>
     committed s' = cur s' \<and> db_steps (cur s') = db_steps (cur s)"

lemma recorded_status: "recorded s s' rid who st \<Longrightarrow> \<exists>r. map_of (db_runs (cur s')) rid = Some r \<and> er_status r = st"
  by (auto simp: recorded_def)

lemma recorded_trans: "recorded s s1 rid who st \<Longrightarrow> recorded s1 s2 rid who st' \<Longrightarrow> recorded s s2 rid who st'"
  by (auto simp: recorded_def)

lemma update_expected:
  assumes r: "recorded s s1 rid who expected" and a: "new \<in> set (allowed_run_transitions expected)" and o: "storable out"
  shows "\<exists>r' s2. update_run_status now rid expected new ecode emsg out True s1 = (Inr r', s2) \<and> recorded s s2 rid who new"
proof -
  from r obtain run where run: "map_of (db_runs (cur s1)) = (map_of (db_runs (cur s)))(rid \<mapsto> run)" "er_status run = expected"
    "er_tenant run = id_tenant who" "er_principal run = id_principal who" "db_steps (cur s1) = db_steps (cur s)"
    by (auto simp: recorded_def)
  from o obtain upd where upd: "run_update_values now new ecode emsg out = Inr upd"
    by (auto simp: storable_def run_update_values_def Let_def split: option.splits)
  note u = run_update_values_status [OF upd]
  have "er_status (upd run) = new" "er_tenant (upd run) = id_tenant who" "er_principal (upd run) = id_principal who"
    "run_terminal new \<longrightarrow> er_finished_at (upd run) = Some now" using u run by auto
  then have "mk_run (upd run) = Inr (upd run)" by (auto simp: mk_run_def)
  then show ?thesis
    using a upd run u by (auto simp: update_run_status_def recorded_def Let_def intro!: exI [of _ "upd run"])
qed

lemma update_unstorable:
  assumes "new \<in> set (allowed_run_transitions expected)" and "\<not> storable out"
  shows "\<exists>e. update_run_status now rid expected new ecode emsg out c s = (Inl e, s)"
proof -
  obtain h v where hv: "out = Some (h, v)" using assms(2) by (cases out) (auto simp: storable_def)
  obtain e where "snapshot_json_object h v = Inl e"
    using assms(2) hv by (cases "snapshot_json_object h v") (auto simp: storable_def)
  then show ?thesis using assms(1) hv by (simp add: update_run_status_def run_update_values_def Let_def)
qed

lemma fail_run_records:
  assumes "recorded s s1 rid who RRunning"
  shows "\<exists>s2. fail_run now rid code e raised s1 = (Inl raised, s2) \<and> recorded s s2 rid who RFailed"
proof -
  have "storable None" by (simp add: storable_def)
  from update_expected [OF assms _ this, of RFailed now "Some code" "Some (exn_str e)"] obtain r' s2 where
    "update_run_status now rid RRunning RFailed (Some code) (Some (exn_str e)) None True s1 = (Inr r', s2)"
    "recorded s s2 rid who RFailed" by auto
  then show ?thesis by (simp add: fail_run_def)
qed

lemma run_recorded_outcome:
  assumes p: "recorded s s0 rid who RPending"
  shows "\<exists>s1. (case flow () of
      Inr r \<Rightarrow> if storable (out r)
        then run_recorded tb tc rid code raised out flow s0 = (Inr r, s1) \<and> recorded s s1 rid who RSucceeded
        else (\<exists>e. run_recorded tb tc rid code raised out flow s0 = (Inl (raised e), s1)) \<and> recorded s s1 rid who RFailed
    | Inl e \<Rightarrow> run_recorded tb tc rid code raised out flow s0 = (Inl (raised e), s1) \<and> recorded s s1 rid who RFailed)"
proof -
  have none: "storable None" by (simp add: storable_def)
  from update_expected [OF p _ none, of RRunning tb None None] obtain ra sa where
    a: "update_run_status tb rid RPending RRunning None None None True s0 = (Inr ra, sa)" "recorded s sa rid who RRunning" by auto
  show ?thesis
  proof (cases "flow ()")
    case (Inl e)
    then show ?thesis using a fail_run_records [OF a(2), of tc code e "raised e"] by (auto simp: run_recorded_def)
  next
    case (Inr r)
    show ?thesis
    proof (cases "storable (out r)")
      case True
      from update_expected [OF a(2) _ True, of RSucceeded tc None None] obtain rb sb where
        "update_run_status tc rid RRunning RSucceeded None None (out r) True sa = (Inr rb, sb)" "recorded s sb rid who RSucceeded" by auto
      then show ?thesis using Inr a True by (auto simp: run_recorded_def)
    next
      case False
      from update_unstorable [of RSucceeded RRunning, OF _ False] obtain e where
        "update_run_status tc rid RRunning RSucceeded None None (out r) True sa = (Inl e, sa)" by fastforce
      then show ?thesis using Inr a False fail_run_records [OF a(2), of tc code e "raised e"] by (auto simp: run_recorded_def)
    qed
  qed
qed

lemma create_run_records:
  assumes "er_id run \<notin> set (keys (db_runs (cur s)))" "er_tenant run = id_tenant who" "er_principal run = id_principal who"
  shows "\<exists>s0. create_run run True s = (Inr run, s0) \<and> recorded s s0 (er_id run) who (er_status run)"
  using assms by (auto simp: create_run_def recorded_def)

lemma recorded_ends: "recorded s s1 rid who st \<Longrightarrow> recorded s (rollback s1) rid who st \<and> recorded s (commit s1) rid who st"
  by (simp add: recorded_def)

text \<open>C22: every outcome of \<^verbatim>\<open>/v1/query\<close> for a valid question and a fresh run. The run is
  committed under the caller's tenant and principal, and nothing else in the tables changes. It
  succeeds, and the response goes out, exactly when the workflow answers without citations; a response
  with citations cannot be stored, because its identifiers are not JSON, so the run is failed and the
  caller gets an internal server error.\<close>

theorem query_v1_outcome:
  assumes "index index_name = Inr (v, m)" and "rid \<notin> set (keys (db_runs (cur s)))"
    and "1 \<le> length question" and "length question \<le> 2000"
  shows "\<exists>s'. (case flow question (id_principal who) (id_tenant who) index_name of
      Inr r \<Rightarrow> if qr_citations r = []
        then query_v1 index cfg flow rid ta tb tc who question index_name s = (Inr (r\<lparr>qr_run := rid\<rparr>), s') \<and>
             recorded s s' rid who RSucceeded
        else query_v1 index cfg flow rid ta tb tc who question index_name s =
               (Inl (HttpError 500 ''Internal server error''), s') \<and> recorded s s' rid who RFailed
    | Inl e \<Rightarrow> query_v1 index cfg flow rid ta tb tc who question index_name s =
               (Inl (HttpError 500 ''Internal server error''), s') \<and> recorded s s' rid who RFailed)"
proof -
  define input where "input = (''question'', JStr question) #
    (case index_name of Some n \<Rightarrow> if n = [] then [] else [(''index_name'', JStr n)] | None \<Rightarrow> [])"
  let ?run = "pending_run rid who input ta (Some v) (Some (s_generation_model cfg))"
  have ids: "er_id ?run = rid" "er_status ?run = RPending" "er_tenant ?run = id_tenant who" "er_principal ?run = id_principal who"
    by (simp_all add: pending_run_def)
  from create_run_records [of ?run s who] assms(2) obtain s0 where
    s0: "create_run ?run True s = (Inr ?run, s0)" "recorded s s0 rid who RPending" unfolding ids by auto
  define body where "body = run_recorded tb tc rid ''WORKFLOW_FAILED'' safe_error (\<lambda>r. Some (run_output r))
    (\<lambda>_. flow question (id_principal who) (id_tenant who) index_name) s0"
  have q: "query_v1 index cfg flow rid ta tb tc who question index_name s =
      with_session (\<lambda>_. case body of (Inl e, s1) \<Rightarrow> (Inl e, s1) | (Inr r, s1) \<Rightarrow> (Inr (r\<lparr>qr_run := rid\<rparr>), s1)) s"
    using assms s0(1) unfolding query_v1_def with_session_def input_def body_def by simp
  have store: "storable (Some (run_output r)) \<longleftrightarrow> qr_citations r = []" for r
  proof (cases "qr_citations r = []")
    case True
    then show ?thesis using run_output_stored [of r] by (auto simp: storable_def split: prod.splits)
  next
    case False
    from run_output_fails [OF this] obtain e where "snapshot_json_object (fst (run_output r)) (snd (run_output r)) = Inl e" by blast
    then show ?thesis using False by (cases "run_output r") (simp add: storable_def)
  qed
  from run_recorded_outcome [OF s0(2), where flow = "\<lambda>_. flow question (id_principal who) (id_tenant who) index_name"
      and out = "\<lambda>r. Some (run_output r)" and tb = tb and tc = tc and code = "''WORKFLOW_FAILED''" and raised = safe_error]
  obtain s1 where s1: "case flow question (id_principal who) (id_tenant who) index_name of
      Inr r \<Rightarrow> if qr_citations r = [] then body = (Inr r, s1) \<and> recorded s s1 rid who RSucceeded
        else (\<exists>e. body = (Inl (safe_error e), s1)) \<and> recorded s s1 rid who RFailed
    | Inl e \<Rightarrow> body = (Inl (safe_error e), s1) \<and> recorded s s1 rid who RFailed"
    unfolding body_def store by blast
  show ?thesis
  proof (cases "flow question (id_principal who) (id_tenant who) index_name")
    case (Inl e)
    then show ?thesis using s1 recorded_ends unfolding q by (auto simp: with_session_def safe_error_def)
  next
    case (Inr r)
    then show ?thesis using s1 recorded_ends unfolding q
      by (cases "qr_citations r = []") (auto simp: with_session_def safe_error_def)
  qed
qed

definition empty_session :: session where
  "empty_session = \<lparr>cur = \<lparr>db_runs = [], db_steps = []\<rparr>, committed = \<lparr>db_runs = [], db_steps = []\<rparr>\<rparr>"

definition demo_identity :: identity where
  "demo_identity = \<lparr>id_tenant = ''t'', id_principal = ''p''\<rparr>"

theorem query_v1_outcome_witness:
  "\<exists>s'. query_v1 (\<lambda>_. Inr (5, ''m'')) default_settings (\<lambda>_ _ _ _. Inr demo_response) 1 0 1 2 demo_identity ''hi'' None empty_session =
      (Inl (HttpError 500 ''Internal server error''), s') \<and> recorded empty_session s' 1 demo_identity RFailed"
  using query_v1_outcome [where index = "\<lambda>_. Inr (5, ''m'')" and index_name = None and v = 5 and m = "''m''" and rid = 1
      and s = empty_session and question = "''hi''" and flow = "\<lambda>_ _ _ _. Inr demo_response" and who = demo_identity
      and cfg = default_settings and ta = 0 and tb = 1 and tc = 2]
  by (simp add: empty_session_def demo_response_def)

text \<open>Replay touches only its own new run. For a session without uncommitted work and a fresh run, every
  other run is as before, the original included; a caller who does not own the original is told that
  it does not exist and nothing is stored; and a successful replay stores a succeeded run of the caller
  for an original that had succeeded or failed.\<close>

theorem replay_touches_only_its_run:
  assumes "replay_execution flow new ta tb tc rid who s = (res, s')" and "committed s = cur s"
    and "new \<notin> set (keys (db_runs (cur s)))"
  shows "(\<forall>k. k \<noteq> new \<longrightarrow> map_of (db_runs (cur s')) k = map_of (db_runs (cur s)) k) \<and>
    (\<forall>e. owned_run rid who s = Inl e \<longrightarrow> res = Inl (HttpError 404 ''Execution run not found'') \<and> s' = s) \<and>
    (\<forall>x. res = Inr x \<longrightarrow> x = new \<and> recorded s s' new who RSucceeded \<and>
       (\<exists>r. owned_run rid who s = Inr r \<and> er_status r \<in> {RSucceeded, RFailed}))"
proof (cases "owned_run rid who s")
  case (Inl e)
  then have "e = HttpError 404 ''Execution run not found''" by (auto simp: owned_run_def split: option.splits if_splits)
  then show ?thesis using Inl assms(1,2) by (auto simp: replay_execution_def with_session_def rollback_def)
next
  case (Inr r)
  have early: "(\<forall>k. k \<noteq> new \<longrightarrow> map_of (db_runs (cur s')) k = map_of (db_runs (cur s)) k) \<and> (\<forall>x. res \<noteq> Inr x)"
    if "replay_execution flow new ta tb tc rid who s = (Inl e, rollback s)" for e
    using that assms(1,2) by auto
  show ?thesis
  proof (cases "er_status r \<noteq> RSucceeded \<and> er_status r \<noteq> RFailed")
    case True
    then show ?thesis using Inr early by (auto simp: replay_execution_def with_session_def)
  next
    case st: False
    then have st': "er_status r = RSucceeded \<or> er_status r = RFailed" by blast
    show ?thesis
    proof (cases "map_of (er_input r) ''question''")
      case None
      then show ?thesis using Inr st early by (auto simp: replay_execution_def with_session_def)
    next
      case q: (Some q)
      show ?thesis
      proof (cases "json_true q")
        case False
        then show ?thesis using Inr st q early by (auto simp: replay_execution_def with_session_def)
      next
        case True
        let ?run = "pending_run new who (er_input r) ta None None"
        have ids: "er_id ?run = new" "er_status ?run = RPending" "er_tenant ?run = id_tenant who" "er_principal ?run = id_principal who"
          by (simp_all add: pending_run_def)
        from create_run_records [of ?run s who] assms(3) obtain s0 where
          s0: "create_run ?run True s = (Inr ?run, s0)" "recorded s s0 new who RPending" unfolding ids by auto
        define w where "w = (\<lambda>_::unit. flow q (id_principal who) (id_tenant who) (map_of (er_input r) ''index_name''))"
        define body where "body = run_recorded tb tc new ''REPLAY_FAILED'' id (\<lambda>_. None) w s0"
        have b: "replay_execution flow new ta tb tc rid who s =
          with_session (\<lambda>_. case body of (Inl e, s1) \<Rightarrow> (Inl e, s1) | (Inr _, s1) \<Rightarrow> (Inr new, s1)) s"
          using st'
          by (elim disjE) (simp_all add: replay_execution_def with_session_def body_def w_def Inr q True s0(1))
        have none: "storable None" by (simp add: storable_def)
        note out = run_recorded_outcome [OF s0(2), where flow = w and out = "\<lambda>_. None" and tb = tb and tc = tc and
            code = "''REPLAY_FAILED''" and raised = id, folded body_def]
        have "\<exists>s1. (\<exists>x. body = (Inr x, s1) \<and> recorded s s1 new who RSucceeded) \<or>
            (\<exists>e. body = (Inl e, s1) \<and> recorded s s1 new who RFailed)"
          by (cases "w ()") (use out none in auto)
        then obtain s1 where "(\<exists>x. body = (Inr x, s1) \<and> recorded s s1 new who RSucceeded) \<or>
            (\<exists>e. body = (Inl e, s1) \<and> recorded s s1 new who RFailed)" by blast
        then have "(res = Inr new \<and> s' = commit s1 \<and> recorded s s1 new who RSucceeded) \<or>
            ((\<exists>e. res = Inl e) \<and> s' = rollback s1 \<and> recorded s s1 new who RFailed)"
          using assms(1) unfolding b by (auto simp: with_session_def)
        then have "(res = Inr new \<and> recorded s s' new who RSucceeded) \<or> ((\<exists>e. res = Inl e) \<and> recorded s s' new who RFailed)"
          using recorded_ends by blast
        then show ?thesis using Inr st by (auto simp: recorded_def)
      qed
    qed
  qed
qed

theorem replay_touches_only_its_run_witness:
  "\<exists>s s' res. replay_execution (\<lambda>_ _ _ _. Inr demo_response) 2 3 4 5 1 demo_identity s = (res, s') \<and> res = Inr 2 \<and>
     map_of (db_runs (cur s')) 1 = map_of (db_runs (cur s)) 1 \<and> recorded s s' 2 demo_identity RSucceeded"
proof -
  let ?r = "(pending_run 1 demo_identity [(''question'', JStr ''hi'')] 0 None None)\<lparr>er_status := RSucceeded, er_finished_at := Some 1\<rparr>"
  let ?db = "\<lparr>db_runs = [(1, ?r)], db_steps = []\<rparr>"
  let ?s = "\<lparr>cur = ?db, committed = ?db\<rparr>"
  let ?x = "replay_execution (\<lambda>_ _ _ _. Inr demo_response) 2 3 4 5 1 demo_identity ?s"
  have "fst ?x = Inr 2" by code_simp
  then have x: "?x = (Inr 2, snd ?x)" by (metis prod.collapse)
  have new: "committed ?s = cur ?s" "2 \<notin> set (keys (db_runs (cur ?s)))" by simp_all
  from replay_touches_only_its_run [OF x new] x show ?thesis
    by (intro exI [of _ ?s] exI [of _ "snd ?x"] exI [of _ "Inr 2"]) simp
qed

text \<open>A graph strategy is chosen only without entities, and then nothing is retrieved.\<close>

theorem graph_strategy_retrieves_nothing:
  assumes "make_plan extract res preds question = Inr plan" and "rp_strategy plan = GraphS"
  shows "gather_evidence P plan prin tenant n vs ws = Inr []"
proof -
  have "rp_entities plan = []"
    using assms by (auto simp: make_plan_def Let_def mk_plan_def select_strategy_def split: if_splits)
  then show ?thesis using assms(2) by (simp add: gather_evidence_def py_take_def)
qed

text \<open>The vector endpoint admits up to 100 results, the retrieval plan at most 50: such a request fails
  after all its work.\<close>

theorem large_top_k_fails:
  assumes "mk_vector_request q = Inr q" and "vq_top_k q = Some k" and "50 < k"
  shows "query_vector cfg P q = Inl (HttpError 500 ''Internal server error'')"
proof -
  have "vector_query cfg P (vq_question q) (vq_principal q) (vq_tenant q) (vq_index q) (vq_top_k q) (vq_limit q) \<noteq> Inr r" for r
    using assms(2,3) by (auto simp: vector_query_def vector_retrieve_def Let_def vector_plan_def mk_plan_def or_int_def)
  then obtain e where "vector_query cfg P (vq_question q) (vq_principal q) (vq_tenant q) (vq_index q) (vq_top_k q) (vq_limit q) = Inl e"
    by (cases "vector_query cfg P (vq_question q) (vq_principal q) (vq_tenant q) (vq_index q) (vq_top_k q) (vq_limit q)") auto
  then show ?thesis using assms(1) by (simp add: query_vector_def handle_error_def)
qed

end
