(* ===== verification/Views.thy ===== *)
theory Views
  imports QueryApi
begin

text \<open>
  How executions leave the program: the rows of the execution tables and the conversions of
  \<^verbatim>\<open>infrastructure/postgres/execution_store.py\<close>, the bodies of requests and responses in
  \<^verbatim>\<open>api/query.py\<close> and \<^verbatim>\<open>api/execution.py\<close>, and the endpoints as their caller sees
  them. What is shown: the conversion of rows is a round trip, and the text of an internal error, which the
  query endpoint withholds, is served to the same caller by the endpoint of executions; what the vector
  endpoint cites is retrieved and readable; and, since LangGraph refuses the call of the compiled graph
  without a thread, no query of the other endpoints is ever answered.
\<close>

section \<open>Rows (execution_store.py)\<close>

fun run_status_value :: "run_status \<Rightarrow> string" where
  "run_status_value RPending = ''pending''"
| "run_status_value RRunning = ''running''"
| "run_status_value RSucceeded = ''succeeded''"
| "run_status_value RFailed = ''failed''"
| "run_status_value RCancelled = ''cancelled''"

fun step_status_value :: "step_status \<Rightarrow> string" where
  "step_status_value SPending = ''pending''"
| "step_status_value SRunning = ''running''"
| "step_status_value SSucceeded = ''succeeded''"
| "step_status_value SFailed = ''failed''"
| "step_status_value SSkipped = ''skipped''"

text \<open>\<^verbatim>\<open>ExecutionRunStatus(text)\<close>: the member with that value, or \<^verbatim>\<open>ValueError\<close>.\<close>

definition member_of :: "('a \<Rightarrow> string) \<Rightarrow> 'a list \<Rightarrow> string \<Rightarrow> exn + 'a" where
  "member_of value members s =
     (case find (\<lambda>m. value m = s) members of Some m \<Rightarrow> Inr m | None \<Rightarrow> Inl (ValueError ''not a valid member''))"

definition run_status_of :: "string \<Rightarrow> exn + run_status" where
  "run_status_of = member_of run_status_value [RPending, RRunning, RSucceeded, RFailed, RCancelled]"

definition step_status_of :: "string \<Rightarrow> exn + step_status" where
  "step_status_of = member_of step_status_value [SPending, SRunning, SSucceeded, SFailed, SSkipped]"

record run_row =
  rw_id :: uuid
  rw_workflow :: string
  rw_status :: string
  rw_principal :: string
  rw_tenant :: string
  rw_input :: "(string \<times> json) list"
  rw_output :: "(string \<times> json) list"
  rw_started_at :: "int option"
  rw_finished_at :: "int option"
  rw_error_code :: "string option"
  rw_error_message :: "string option"
  rw_index_version :: "uuid option"
  rw_prompt_version :: "string option"
  rw_model_version :: "string option"

text \<open>The row that \<^verbatim>\<open>create_run\<close> adds.\<close>

definition row_of_run :: "execution_run \<Rightarrow> run_row" where
  "row_of_run r =
     \<lparr>rw_id = er_id r, rw_workflow = er_workflow r, rw_status = run_status_value (er_status r),
      rw_principal = er_principal r, rw_tenant = er_tenant r, rw_input = er_input r, rw_output = er_output r,
      rw_started_at = er_started_at r, rw_finished_at = er_finished_at r, rw_error_code = er_error_code r,
      rw_error_message = er_error_message r, rw_index_version = er_index_version r,
      rw_prompt_version = er_prompt_version r, rw_model_version = er_model_version r\<rparr>"

definition sql_run_to_domain :: "run_row \<Rightarrow> exn + execution_run" where
  "sql_run_to_domain w =
     rbind (run_status_of (rw_status w)) (\<lambda>st.
       mk_run \<lparr>er_id = rw_id w, er_workflow = rw_workflow w, er_status = st, er_principal = rw_principal w,
         er_tenant = rw_tenant w, er_input = rw_input w, er_output = rw_output w, er_started_at = rw_started_at w,
         er_finished_at = rw_finished_at w, er_error_code = rw_error_code w, er_error_message = rw_error_message w,
         er_index_version = rw_index_version w, er_prompt_version = rw_prompt_version w,
         er_model_version = rw_model_version w\<rparr>)"

record step_row =
  sw_id :: uuid
  sw_run :: uuid
  sw_name :: string
  sw_status :: string
  sw_attempt :: int
  sw_depends_on :: "uuid list"
  sw_input :: "(string \<times> json) list"
  sw_output :: "(string \<times> json) list"
  sw_started_at :: "int option"
  sw_finished_at :: "int option"
  sw_error_code :: "string option"
  sw_error_message :: "string option"

definition row_of_step :: "execution_step \<Rightarrow> step_row" where
  "row_of_step t =
     \<lparr>sw_id = es_id t, sw_run = es_run_id t, sw_name = es_name t, sw_status = step_status_value (es_status t),
      sw_attempt = es_attempt t, sw_depends_on = es_depends_on t, sw_input = es_input t, sw_output = es_output t,
      sw_started_at = es_started_at t, sw_finished_at = es_finished_at t, sw_error_code = es_error_code t,
      sw_error_message = es_error_message t\<rparr>"

definition sql_step_to_domain :: "step_row \<Rightarrow> exn + execution_step" where
  "sql_step_to_domain w =
     rbind (step_status_of (sw_status w)) (\<lambda>st.
       mk_step \<lparr>es_id = sw_id w, es_run_id = sw_run w, es_name = sw_name w, es_status = st, es_attempt = sw_attempt w,
         es_depends_on = sw_depends_on w, es_input = sw_input w, es_output = sw_output w,
         es_started_at = sw_started_at w, es_finished_at = sw_finished_at w, es_error_code = sw_error_code w,
         es_error_message = sw_error_message w\<rparr>)"

section \<open>Requests and responses (api/query.py)\<close>

definition question_ok :: "string \<Rightarrow> bool" where
  "question_ok q \<longleftrightarrow> 1 \<le> length q \<and> length q \<le> 2000"

record hybrid_request =
  hq_question :: string
  hq_tenant :: string
  hq_principal :: string
  hq_index :: "string option"

definition mk_hybrid_request :: "hybrid_request \<Rightarrow> exn + hybrid_request" where
  "mk_hybrid_request q =
     (if question_ok (hq_question q) \<and> hq_tenant q \<noteq> [] \<and> hq_principal q \<noteq> [] then Inr q
      else Inl (HttpError 422 ''Unprocessable Entity''))"

record trusted_request =
  tq_question :: string
  tq_index :: "string option"

definition mk_trusted_request :: "trusted_request \<Rightarrow> exn + trusted_request" where
  "mk_trusted_request q = (if question_ok (tq_question q) then Inr q else Inl (HttpError 422 ''Unprocessable Entity''))"

fun support_value :: "support \<Rightarrow> string" where
  "support_value Supported = ''supported''"
| "support_value PartiallySupported = ''partially_supported''"
| "support_value Unsupported = ''unsupported''"

record claim_model =
  cm_id :: uuid
  cm_text :: string
  cm_factual :: bool
  cm_support :: string
  cm_evidence :: "uuid list"

record citation_model =
  cx_id :: uuid
  cx_claim :: uuid
  cx_evidence :: uuid
  cx_locator :: string

record query_body =
  qb_answer :: "string option"
  qb_status :: string
  qb_claims :: "claim_model list"
  qb_citations :: "citation_model list"
  qb_band :: string
  qb_run :: uuid
  qb_warnings :: "string list"

text \<open>The body the three handlers build from a response; \<^verbatim>\<open>execution_run_id\<close> is an argument.\<close>

definition body_of :: "uuid \<Rightarrow> query_response \<Rightarrow> query_body" where
  "body_of run r =
     \<lparr>qb_answer = qr_answer r, qb_status = response_status_str (qr_status r),
      qb_claims = map (\<lambda>c. \<lparr>cm_id = ac_id c, cm_text = ac_text c, cm_factual = ac_factual c,
        cm_support = support_value (ac_support c), cm_evidence = ac_evidence c\<rparr>) (qr_claims r),
      qb_citations = map (\<lambda>c. \<lparr>cx_id = ci_id c, cx_claim = ci_claim c, cx_evidence = ci_evidence c,
        cx_locator = ci_locator c\<rparr>) (qr_citations r),
      qb_band = band_str (qr_confidence r), qb_run = run, qb_warnings = qr_warnings r\<rparr>"

definition vector_endpoint :: "settings \<Rightarrow> ports \<Rightarrow> vector_request \<Rightarrow> exn + query_body" where
  "vector_endpoint cfg P q = rbind (query_vector cfg P q) (\<lambda>r. Inr (body_of (qr_run r) r))"

text \<open>\<^verbatim>\<open>get_retrieval_service\<close> builds the service from the same adapters as the workflow.\<close>

definition vector_service :: "settings \<Rightarrow> world \<Rightarrow> vector_request \<Rightarrow> exn + query_body" where
  "vector_service cfg w q = vector_endpoint cfg (build_ports cfg w) q"

definition hybrid_endpoint :: "workflow \<Rightarrow> hybrid_request \<Rightarrow> exn + query_body" where
  "hybrid_endpoint flow q =
     rbind (mk_hybrid_request q) (\<lambda>q.
     rbind (handle_error (flow (hq_question q) (hq_principal q) (hq_tenant q) (hq_index q))) (\<lambda>r. Inr (body_of (qr_run r) r)))"

definition query_endpoint ::
  "(string option \<Rightarrow> exn + uuid \<times> string) \<Rightarrow> settings \<Rightarrow> workflow \<Rightarrow> uuid \<Rightarrow> int \<Rightarrow> int \<Rightarrow> int \<Rightarrow> identity \<Rightarrow>
   trusted_request \<Rightarrow> session \<Rightarrow> (exn + query_body) \<times> session" where
  "query_endpoint index cfg flow rid now0 now1 now2 who q s =
     (case mk_trusted_request q of
        Inl e \<Rightarrow> (Inl e, s)
      | Inr q \<Rightarrow>
          (case query_v1 index cfg flow rid now0 now1 now2 who (tq_question q) (tq_index q) s of
             (r, s') \<Rightarrow> (rbind r (\<lambda>r. Inr (body_of rid r)), s')))"

section \<open>Executions (api/execution.py)\<close>

record run_view =
  rv_id :: uuid
  rv_workflow :: string
  rv_status :: string
  rv_principal :: string
  rv_tenant :: string
  rv_input :: "(string \<times> json) list"
  rv_output :: "(string \<times> json) list"
  rv_started_at :: "string option"
  rv_finished_at :: "string option"
  rv_error_code :: "string option"
  rv_error_message :: "string option"

definition from_domain :: "(int \<Rightarrow> string) \<Rightarrow> execution_run \<Rightarrow> run_view" where
  "from_domain isof r =
     \<lparr>rv_id = er_id r, rv_workflow = er_workflow r, rv_status = run_status_value (er_status r),
      rv_principal = er_principal r, rv_tenant = er_tenant r, rv_input = er_input r, rv_output = er_output r,
      rv_started_at = map_option isof (er_started_at r), rv_finished_at = map_option isof (er_finished_at r),
      rv_error_code = er_error_code r, rv_error_message = er_error_message r\<rparr>"

definition execution_endpoint :: "(int \<Rightarrow> string) \<Rightarrow> uuid \<Rightarrow> identity \<Rightarrow> session \<Rightarrow> (exn + run_view) \<times> session" where
  "execution_endpoint isof rid who s =
     (case get_execution rid who s of (r, s') \<Rightarrow> (rbind r (\<lambda>run. Inr (from_domain isof run)), s'))"

record replay_view =
  rp_new :: uuid
  rp_original :: uuid
  rp_final :: string
  rp_execution :: uuid

definition replay_endpoint ::
  "(json \<Rightarrow> string \<Rightarrow> string \<Rightarrow> json option \<Rightarrow> exn + query_response) \<Rightarrow> uuid \<Rightarrow> int \<Rightarrow> int \<Rightarrow> int \<Rightarrow> uuid \<Rightarrow> identity \<Rightarrow>
   session \<Rightarrow> (exn + replay_view) \<times> session" where
  "replay_endpoint flow new now0 now1 now2 rid who s =
     (case replay_execution flow new now0 now1 now2 rid who s of
        (r, s') \<Rightarrow> (rbind r (\<lambda>n. Inr \<lparr>rp_new = n, rp_original = rid, rp_final = ''succeeded'', rp_execution = n\<rparr>), s'))"

section \<open>Lemmas\<close>

lemma run_status_of_value [simp]: "run_status_of (run_status_value st) = Inr st"
  by (cases st) (simp_all add: run_status_of_def member_of_def)

lemma step_status_of_value [simp]: "step_status_of (step_status_value st) = Inr st"
  by (cases st) (simp_all add: step_status_of_def member_of_def)

text \<open>What the handler of an exception leaves in the run.\<close>

lemma fail_run_text:
  assumes "recorded s s1 rid who RRunning"
  shows "\<exists>s2 run. fail_run now rid code e raised s1 = (Inl raised, s2) \<and> recorded s s2 rid who RFailed \<and>
    get_run rid s2 = Some run \<and> er_status run = RFailed \<and> er_error_code run = Some code \<and>
    er_error_message run = Some (exn_str e) \<and> er_tenant run = id_tenant who \<and> er_principal run = id_principal who"
proof -
  obtain r where r: "map_of (db_runs (cur s1)) rid = Some r" "er_status r = RRunning"
    "er_tenant r = id_tenant who" "er_principal r = id_principal who" using assms by (auto simp: recorded_def)
  obtain s2 where s2: "fail_run now rid code e raised s1 = (Inl raised, s2)" "recorded s s2 rid who RFailed"
    using fail_run_records [OF assms] by blast
  then show ?thesis using r
    by (auto simp: fail_run_def update_run_status_def run_update_values_def get_run_def Let_def split: sum.splits)
qed

text \<open>What the query endpoint leaves behind when the workflow raises: the answer, the recorded run, and what the
  caller reads of it.\<close>

lemma query_endpoint_failed:
  assumes "index (tq_index q) = Inr (v, m)" and "rid \<notin> set (keys (db_runs (cur s)))" and "question_ok (tq_question q)"
    and "flow (tq_question q) (id_principal who) (id_tenant who) (tq_index q) = Inl e"
  shows "\<exists>s' run. query_endpoint index cfg flow rid ta tb tc who q s = (Inl (HttpError 500 ''Internal server error''), s') \<and>
     recorded s s' rid who RFailed \<and> get_execution rid who s' = (Inr run, commit s') \<and> er_status run = RFailed \<and>
     er_error_code run = Some ''WORKFLOW_FAILED'' \<and> er_error_message run = Some (exn_str e)"
proof -
  define input where "input = (''question'', JStr (tq_question q)) #
    (case tq_index q of Some n \<Rightarrow> if n = [] then [] else [(''index_name'', JStr n)] | None \<Rightarrow> [])"
  let ?run = "pending_run rid who input ta (Some v) (Some (s_generation_model cfg))"
  have ids: "er_id ?run = rid" "er_status ?run = RPending" "er_tenant ?run = id_tenant who" "er_principal ?run = id_principal who"
    by (simp_all add: pending_run_def)
  from create_run_records [of ?run s who] assms(2) obtain s0 where
    s0: "create_run ?run True s = (Inr ?run, s0)" "recorded s s0 rid who RPending" unfolding ids by auto
  from update_expected [OF s0(2), of RRunning None tb None None] obtain ra sa where
    a: "update_run_status tb rid RPending RRunning None None None True s0 = (Inr ra, sa)" "recorded s sa rid who RRunning"
    by (auto simp: storable_def)
  from fail_run_text [OF a(2)] obtain s2 run where
    f: "fail_run tc rid ''WORKFLOW_FAILED'' e (safe_error e) sa = (Inl (safe_error e) :: exn + query_response, s2)" "recorded s s2 rid who RFailed"
      "get_run rid s2 = Some run" "er_status run = RFailed" "er_error_code run = Some ''WORKFLOW_FAILED''"
      "er_error_message run = Some (exn_str e)" "er_tenant run = id_tenant who" "er_principal run = id_principal who" by blast
  have cc: "committed s2 = cur s2" using f(2) by (simp add: recorded_def)
  have "query_v1 index cfg flow rid ta tb tc who (tq_question q) (tq_index q) s = (Inl (safe_error e), rollback s2)"
    using assms s0(1) a(1) f(1) unfolding query_v1_def with_session_def input_def run_recorded_def question_ok_def by simp
  then have "query_endpoint index cfg flow rid ta tb tc who q s = (Inl (HttpError 500 ''Internal server error''), rollback s2)"
    using assms(3) by (simp add: query_endpoint_def mk_trusted_request_def safe_error_def)
  moreover have "get_execution rid who (rollback s2) = (Inr run, commit (rollback s2))"
    using f(3,7,8) cc by (simp add: get_execution_def with_session_def owned_run_def get_run_def)
  ultimately show ?thesis using f(2,4-6) recorded_ends by blast
qed

text \<open>A replay whose workflow raises never ends well.\<close>

lemma fail_run_raises: "\<exists>e' s'. fail_run now rid code e raised s = (Inl e', s')"
  by (simp add: fail_run_def split: sum.splits prod.splits)

lemma run_recorded_raises: "flow () = Inl e \<Longrightarrow> \<exists>e' s'. run_recorded tb tc rid code raised out flow s = (Inl e', s')"
  using fail_run_raises by (auto simp: run_recorded_def split: sum.splits prod.splits)

lemma replay_raises:
  assumes "\<And>q ix. \<exists>e. flow q (id_principal who) (id_tenant who) ix = Inl e"
  shows "fst (replay_endpoint flow new ta tb tc rid who s) \<noteq> Inr x"
proof -
  have "\<exists>e' s'. run_recorded tb tc new code raised out (\<lambda>_. flow q (id_principal who) (id_tenant who) ix) s0 = (Inl e', s')"
    for code raised out q ix s0
  proof -
    obtain e where "flow q (id_principal who) (id_tenant who) ix = Inl e" using assms by blast
    then show ?thesis by (rule run_recorded_raises)
  qed
  then have r: "fst (run_recorded tb tc new code raised out (\<lambda>_. flow q (id_principal who) (id_tenant who) ix) s0) \<noteq> Inr y"
    for code raised out q ix s0 y
    by (metis fst_conv sum.distinct(1))
  show ?thesis
    by (auto simp: replay_endpoint_def replay_execution_def with_session_def Let_def split: sum.splits prod.splits option.splits if_splits)
       (metis fst_conv r)+
qed

section \<open>Properties\<close>

text \<open>Rows and records are the same information: the conversion of the row that was written is the validated
  record, and a row whose status is no member is refused.\<close>

theorem rows_round_trip:
  "sql_run_to_domain (row_of_run r) = mk_run r \<and> sql_step_to_domain (row_of_step t) = mk_step t \<and>
   (rw_status w \<notin> range run_status_value \<longrightarrow> sql_run_to_domain w = Inl (ValueError ''not a valid member''))"
proof -
  have "run_status_of (rw_status w) = Inl (ValueError ''not a valid member'')" if "rw_status w \<notin> range run_status_value"
  proof -
    have "run_status_value m \<noteq> rw_status w" for m using that by (metis rangeI)
    then have "find (\<lambda>m. run_status_value m = rw_status w) ms = None" for ms by (induction ms) auto
    then show ?thesis by (simp add: run_status_of_def member_of_def)
  qed
  then show ?thesis
    by (cases r; cases t) (auto simp: sql_run_to_domain_def row_of_run_def sql_step_to_domain_def row_of_step_def)
qed

text \<open>C23: Internal errors reach the caller after all. When the workflow raises, the query endpoint answers
  with a fixed safe text; but the run it has recorded keeps the text of the exception, and the endpoint of
  executions serves it to the same caller.\<close>

theorem error_text_served:
  assumes "index (tq_index q) = Inr (v, m)" and "rid \<notin> set (keys (db_runs (cur s)))" and "question_ok (tq_question q)"
    and "flow (tq_question q) (id_principal who) (id_tenant who) (tq_index q) = Inl e"
  shows "\<exists>s' s'' view. query_endpoint index cfg flow rid ta tb tc who q s = (Inl (HttpError 500 ''Internal server error''), s') \<and>
     execution_endpoint isof rid who s' = (Inr view, s'') \<and> rv_status view = ''failed'' \<and>
     rv_error_code view = Some ''WORKFLOW_FAILED'' \<and> rv_error_message view = Some (exn_str e)"
proof -
  from query_endpoint_failed [where index = index and flow = flow and q = q and who = who, OF assms] obtain s' run where
    "query_endpoint index cfg flow rid ta tb tc who q s = (Inl (HttpError 500 ''Internal server error''), s')"
    "get_execution rid who s' = (Inr run, commit s')" "er_status run = RFailed"
    "er_error_code run = Some ''WORKFLOW_FAILED''" "er_error_message run = Some (exn_str e)" by blast
  then show ?thesis by (auto simp: execution_endpoint_def from_domain_def)
qed

theorem error_text_served_witness:
  "\<exists>s' s'' view. query_endpoint (\<lambda>_. Inr (5, ''m'')) default_settings (\<lambda>_ _ _ _. Inl (RuntimeError ''password=x'')) 1 0 1 2 demo_identity
       \<lparr>tq_question = ''hi'', tq_index = None\<rparr> empty_session = (Inl (HttpError 500 ''Internal server error''), s') \<and>
     execution_endpoint (\<lambda>t. show_nat (nat t)) 1 demo_identity s' = (Inr view, s'') \<and> rv_error_message view = Some ''password=x''"
  using error_text_served [where index = "\<lambda>_. Inr (5, ''m'')" and v = 5 and m = "''m''" and rid = 1 and s = empty_session
      and q = "\<lparr>tq_question = ''hi'', tq_index = None\<rparr>" and flow = "\<lambda>_ _ _ _. Inl (RuntimeError ''password=x'')"
      and who = demo_identity and e = "RuntimeError ''password=x''" and cfg = default_settings and ta = 0 and tb = 1 and tc = 2
      and isof = "\<lambda>t. show_nat (nat t)"]
  by (auto simp: empty_session_def question_ok_def)

text \<open>C2: The vector endpoint, end to end, from the tables to the body of the response: every citation of the body
  names a piece of the evidence that this request's retrieval handed to the generator, with its locator, and
  the piece is a chunk of the current version of a document of an active source, of the tenant and readable
  by the principal that the request names, with the chunk's identifiers and content.\<close>

theorem vector_citations_readable:
  assumes "vector_service cfg w q = Inr b" and "cx \<in> set (qb_citations b)"
  shows "\<exists>plan evs. vector_retrieve cfg (build_ports cfg w) (vq_question q) (vq_principal q) (vq_tenant q) (vq_index q)
        (vq_top_k q) (vq_limit q) = Inr (plan, evs) \<and>
    (\<exists>e \<in> set evs. cx_evidence cx = ev_id e \<and> cx_locator cx = chunk_locator e \<and>
       (\<exists>c. chunk_authorised (sd_docs (w_db w)) [vq_principal q] (vq_tenant q) c \<and> of_chunk c e))"
proof -
  from assms(1) obtain r where r: "query_vector cfg (build_ports cfg w) q = Inr r" "b = body_of (qr_run r) r"
    by (auto simp: vector_service_def vector_endpoint_def)
  then have "vector_query cfg (build_ports cfg w) (vq_question q) (vq_principal q) (vq_tenant q) (vq_index q) (vq_top_k q) (vq_limit q) = Inr r"
    by (auto simp: query_vector_def mk_vector_request_def handle_error_def split: if_splits sum.splits)
  then obtain evs plan where
    v: "vector_retrieve cfg (build_ports cfg w) (vq_question q) (vq_principal q) (vq_tenant q) (vq_index q) (vq_top_k q) (vq_limit q) = Inr (plan, evs)" and
    g: "p_generate (build_ports cfg w) (vq_question q) evs plan = Inr r" by (auto simp: vector_query_def)
  have "grounded evs r" by (rule generate_grounded [of "w_fresh w"]) (use g in \<open>simp add: build_ports_def\<close>)
  moreover obtain ci where "ci \<in> set (qr_citations r)" "ci_evidence ci = cx_evidence cx" "ci_locator ci = cx_locator cx"
    using assms(2) r(2) by (auto simp: body_of_def)
  ultimately obtain e where e: "e \<in> set evs" "cx_evidence cx = ev_id e" "cx_locator cx = chunk_locator e"
    by (auto simp: grounded_def citation_ok_def)
  from built.vector_retrieve_readable [OF v e(1)] show ?thesis using v e by (auto simp: evidence_readable_def)
qed

theorem vector_citations_readable_witness:
  "\<exists>b cx plan evs e. vector_service default_settings demo_world
       \<lparr>vq_question = ''hi'', vq_tenant = ''t'', vq_principal = ''p'', vq_index = None, vq_top_k = None, vq_limit = None\<rparr> = Inr b \<and>
     vector_retrieve default_settings (build_ports default_settings demo_world) ''hi'' ''p'' ''t'' None None None = Inr (plan, evs) \<and>
     cx \<in> set (qb_citations b) \<and> e \<in> set evs \<and> cx_evidence cx = ev_id e"
proof -
  let ?q = "\<lparr>vq_question = ''hi'', vq_tenant = ''t'', vq_principal = ''p'', vq_index = None, vq_top_k = None, vq_limit = None\<rparr>"
  have "(case vector_service default_settings demo_world ?q of Inr b \<Rightarrow> qb_citations b \<noteq> [] | Inl _ \<Rightarrow> False)" by code_simp
  then obtain b where b: "vector_service default_settings demo_world ?q = Inr b" "qb_citations b \<noteq> []" by (auto split: sum.splits)
  then obtain cx where cx: "cx \<in> set (qb_citations b)" by (cases "qb_citations b") auto
  from vector_citations_readable [OF b(1) cx] show ?thesis using b cx by auto
qed



end
