(* ===== verification/Operator.thy ===== *)
theory Operator
  imports QueryApi
begin

text \<open>
  The operator endpoints of \<^verbatim>\<open>api/operator.py\<close>: the operator's identity, the summaries of
  runs, the evaluation trends, the review queue with its decisions, the feedback, and the state machine
  of improvement proposals. Tables are dictionaries; a failed query of a read-only view gives its
  empty answer, so those failures are the empty table.
\<close>

section \<open>Operator identity\<close>

record operator =
  op_id :: string
  op_tenant :: string
  op_global :: bool

fun hashable :: "json \<Rightarrow> bool" where
  "hashable (JList _) = False"
| "hashable (JObj _) = False"
| "hashable _ = True"

definition operator_roles :: "json list" where
  "operator_roles = [JStr ''operator'', JStr ''admin'']"

text \<open>The test of the role claim; an unhashable value in a set raises.\<close>

definition has_role :: "json \<Rightarrow> exn + bool" where
  "has_role role =
     (case role of
        JList rs \<Rightarrow> if list_all hashable rs then Inr (list_ex (\<lambda>r. r \<in> set operator_roles) rs)
                    else Inl (TypeError ''unhashable type'')
      | _ \<Rightarrow> if hashable role then Inr (role \<in> set operator_roles) else Inl (TypeError ''unhashable type''))"

definition claim_or :: "string \<Rightarrow> json \<Rightarrow> (string \<times> json) list \<Rightarrow> json" where
  "claim_or k d claims = (case map_of claims k of Some v \<Rightarrow> v | None \<Rightarrow> d)"

text \<open>\<^verbatim>\<open>unverified\<close> is \<^verbatim>\<open>jwt.get_unverified_claims\<close>, \<^verbatim>\<open>repr\<close> the text
  of a claim that is not a string.\<close>

definition operator_identity ::
  "jwt_library \<Rightarrow> (string \<Rightarrow> (string \<times> json) list option) \<Rightarrow> (json \<Rightarrow> string) \<Rightarrow> settings \<Rightarrow> string option \<Rightarrow> exn + operator" where
  "operator_identity lib unverified repr cfg authorization =
     (case present authorization of
        None \<Rightarrow> Inl (HttpError 401 ''Authorization header required'')
      | Some a \<Rightarrow>
         if \<not> startswith a ''Bearer '' then Inl (HttpError 401 ''Bearer token required'')
         else let token = drop 7 a
           in if s_auth_mode cfg = LocalAuth then
                (if \<not> s_trusted_headers cfg then Inl (HttpError 403 ''Header auth not allowed in this environment'')
                 else case unverified token of
                     None \<Rightarrow> Inl (HttpError 401 ''Invalid JWT format'')
                   | Some claims \<Rightarrow>
                       rbind (has_role (claim_or ''role'' (JStr []) claims)) (\<lambda>ok.
                         if \<not> ok then Inl (HttpError 403 ''Operator or admin role required'')
                         else Inr \<lparr>op_id = json_str repr (claim_or ''sub'' (JStr ''unknown'') claims),
                                   op_tenant = json_str repr (claim_or ''tenant_id'' (JStr (s_default_tenant cfg)) claims),
                                   op_global = (map_of claims ''is_global_operator'' = Some (JBool True))\<rparr>))
              else rbind (identity_from_jwt lib cfg token) (\<lambda>who.
                let claims = (case unverified token of Some c \<Rightarrow> c | None \<Rightarrow> [])
                in rbind (has_role (claim_or ''role'' (JStr []) claims)) (\<lambda>ok.
                     if \<not> ok then Inl (HttpError 403 ''Operator or admin role required'')
                     else Inr \<lparr>op_id = id_principal who, op_tenant = id_tenant who,
                               op_global = (map_of claims ''is_global_operator'' = Some (JBool True))\<rparr>)))"

definition may_touch :: "operator \<Rightarrow> string \<Rightarrow> bool" where
  "may_touch op tenant \<longleftrightarrow> op_global op \<or> tenant = op_tenant op"

section \<open>Summaries of runs\<close>

record run_summary =
  rs_run :: uuid
  rs_status :: run_status
  rs_started :: int
  rs_finished :: "int option"
  rs_question :: "string option"
  rs_answer :: "string option"
  rs_claims :: nat
  rs_citations :: nat
  rs_warnings :: "string list"

definition opt_text :: "json option \<Rightarrow> exn + string option" where
  "opt_text v = (case v of None \<Rightarrow> Inr None | Some JNull \<Rightarrow> Inr None | Some (JStr s) \<Rightarrow> Inr (Some s)
     | Some _ \<Rightarrow> Inl (ValueError ''Input should be a valid string''))"

definition text_list :: "json \<Rightarrow> exn + string list" where
  "text_list v = (case v of JList xs \<Rightarrow> rmap (\<lambda>x. case x of JStr s \<Rightarrow> Inr s | _ \<Rightarrow> Inl (ValueError ''Input should be a valid string'')) xs
     | _ \<Rightarrow> Inl (ValueError ''Input should be a valid list''))"

fun py_len :: "json \<Rightarrow> exn + nat" where
  "py_len (JList xs) = Inr (length xs)"
| "py_len (JObj es) = Inr (length es)"
| "py_len (JStr s) = Inr (length s)"
| "py_len _ = Inl (TypeError ''object has no len()'')"

definition summarise :: "execution_run \<Rightarrow> exn + run_summary" where
  "summarise r =
     rbind (py_len (claim_or ''claims'' (JList []) (er_output r))) (\<lambda>nc.
     rbind (py_len (claim_or ''citations'' (JList []) (er_output r))) (\<lambda>ni.
     case er_started_at r of
       None \<Rightarrow> Inl (ValueError ''started_at'')
     | Some t \<Rightarrow>
        rbind (opt_text (map_of (er_input r) ''question'')) (\<lambda>q.
        rbind (opt_text (map_of (er_output r) ''answer'')) (\<lambda>a.
        rbind (text_list (claim_or ''warnings'' (JList []) (er_output r))) (\<lambda>w.
          Inr \<lparr>rs_run = er_id r, rs_status = er_status r, rs_started = t, rs_finished = er_finished_at r, rs_question = q,
               rs_answer = a, rs_claims = nc, rs_citations = ni, rs_warnings = w\<rparr>)))))"

definition get_execution_summary :: "uuid \<Rightarrow> operator \<Rightarrow> session \<Rightarrow> exn + run_summary" where
  "get_execution_summary rid op s =
     (case get_run rid s of
        None \<Rightarrow> Inl (HttpError 404 ''Execution run not found'')
      | Some r \<Rightarrow> if \<not> may_touch op (er_tenant r) then Inl (HttpError 403 ''Cannot access executions from other tenants'')
                  else summarise r)"

definition list_recent_executions :: "nat \<Rightarrow> operator \<Rightarrow> session \<Rightarrow> exn + run_summary list" where
  "list_recent_executions limit op s =
     (if \<not> (1 \<le> limit \<and> limit \<le> 100) then Inl (HttpError 422 ''Unprocessable Entity'')
      else rmap summarise (filter (\<lambda>r. may_touch op (er_tenant r)) (list_recent_runs limit s)))"

section \<open>Evaluation trends\<close>

record eval_run =
  el_id :: uuid
  el_status :: string
  el_created :: int

record eval_result =
  et_run :: uuid
  et_metrics :: "(string \<times> json) list"

record trend =
  tr_metric :: string
  tr_current :: rat
  tr_previous :: rat
  tr_delta :: rat
  tr_threshold :: rat
  tr_status :: string

fun metric_value :: "json \<Rightarrow> exn + rat" where
  "metric_value (JFloat q) = Inr q"
| "metric_value (JInt n) = Inr (of_int n)"
| "metric_value (JBool b) = Inr (if b then 1 else 0)"
| "metric_value _ = Inl (TypeError ''unsupported operand type(s) for +'')"

definition recent_metrics :: "int \<Rightarrow> nat \<Rightarrow> (uuid, eval_run) dict \<Rightarrow> eval_result list \<Rightarrow> (string \<times> json) list list" where
  "recent_metrics now window runs results =
     take 100 (map fst (sort_desc snd (List.map_filter (\<lambda>e. case map_of runs (et_run e) of
         Some r \<Rightarrow> if el_created r \<ge> now - int window * 86400 * 1000000 then Some (et_metrics e, el_created r) else None
       | None \<Rightarrow> None) results)))"

definition scores_of :: "string \<Rightarrow> (string \<times> json) list list \<Rightarrow> json list" where
  "scores_of m rows = filter (\<lambda>v. v \<noteq> JNull) (List.map_filter (\<lambda>r. map_of r m) rows)"

definition avg :: "json list \<Rightarrow> exn + rat" where
  "avg vs = (if vs = [] then Inr 0 else rbind (rmap metric_value vs) (\<lambda>qs. Inr (sum_list qs / of_nat (length qs))))"

definition trend_of :: "string \<Rightarrow> rat \<Rightarrow> json list \<Rightarrow> exn + trend" where
  "trend_of m threshold vs =
     rbind (avg (take 10 vs)) (\<lambda>c. rbind (if length vs > 10 then avg (take 10 (drop 10 vs)) else Inr c) (\<lambda>p.
       Inr \<lparr>tr_metric = m, tr_current = py_round 3 c, tr_previous = py_round 3 p, tr_delta = py_round 3 (c - p),
            tr_threshold = threshold, tr_status = (if c \<ge> threshold then ''healthy'' else ''degraded'')\<rparr>))"

definition no_data :: "string \<Rightarrow> rat \<Rightarrow> trend" where
  "no_data m threshold = \<lparr>tr_metric = m, tr_current = 0, tr_previous = 0, tr_delta = 0, tr_threshold = threshold, tr_status = ''no_data''\<rparr>"

definition get_evaluation_trends :: "int \<Rightarrow> nat \<Rightarrow> (uuid, eval_run) dict \<Rightarrow> eval_result list \<Rightarrow> exn + trend list" where
  "get_evaluation_trends now window runs results =
     (if \<not> (1 \<le> window \<and> window \<le> 90) then Inl (HttpError 422 ''Unprocessable Entity'')
      else let rows = recent_metrics now window runs results
       in if rows = [] then Inr [no_data ''faithfulness'' (7 / 10), no_data ''citation_accuracy'' (95 / 100)]
          else rbind (trend_of ''faithfulness'' (7 / 10) (scores_of ''faithfulness'' rows)) (\<lambda>f.
               rbind (trend_of ''citation_accuracy'' (95 / 100) (scores_of ''citation_accuracy'' rows)) (\<lambda>c. Inr [f, c])))"

section \<open>Ingestion status\<close>

record ingestion_status =
  is_index :: string
  is_status :: string
  is_documents :: nat
  is_updated :: "int option"

definition get_ingestion_status :: "int \<Rightarrow> operator \<Rightarrow> source_descriptor list \<Rightarrow> ingestion_status list" where
  "get_ingestion_status now op sources =
     (let active = filter (\<lambda>s. src_active s \<and> may_touch op (src_tenant s)) sources;
          tenants = dedup_by id [] (map src_tenant active)
      in if tenants = [] then [\<lparr>is_index = ''default'', is_status = ''idle'', is_documents = 0, is_updated = None\<rparr>]
         else map (\<lambda>t. \<lparr>is_index = t, is_status = ''active'', is_documents = length (filter (\<lambda>s. src_tenant s = t) active),
                      is_updated = Some now\<rparr>) tenants)"

section \<open>Reviews and feedback\<close>

record review_item =
  hr_id :: uuid
  hr_run :: "uuid option"
  hr_type :: string
  hr_decision :: "string option"
  hr_by :: "string option"
  hr_at :: "int option"
  hr_created :: int

text \<open>The outer join with the runs: the tenant of the item's run, if the run exists.\<close>

definition review_tenant :: "execution_run tbl \<Rightarrow> review_item \<Rightarrow> string option" where
  "review_tenant runs h = (case hr_run h of None \<Rightarrow> None | Some rid \<Rightarrow> map_option er_tenant (map_of runs rid))"

definition or_text :: "string option \<Rightarrow> string option \<Rightarrow> string option" where
  "or_text a b = (case a of Some s \<Rightarrow> if s = [] then b else Some s | None \<Rightarrow> b)"

definition get_review_queue ::
  "string option \<Rightarrow> nat \<Rightarrow> operator \<Rightarrow> execution_run tbl \<Rightarrow> review_item tbl \<Rightarrow> exn + (review_item \<times> string) list" where
  "get_review_queue type_filter limit op runs items =
     (if \<not> (1 \<le> limit \<and> limit \<le> 100) then Inl (HttpError 422 ''Unprocessable Entity'')
      else Inr (map (\<lambda>h. (h, the (or_text (review_tenant runs h) (Some (op_tenant op)))))
        (take limit (sort_desc hr_created (filter (\<lambda>h.
            (op_global op \<or> review_tenant runs h = Some (op_tenant op)) \<and> hr_decision h = None \<and>
            (case type_filter of Some ty \<Rightarrow> ty = [] \<or> hr_type h = ty | None \<Rightarrow> True)) (vals items))))))"

record feedback =
  fb_id :: uuid
  fb_run :: uuid
  fb_vote :: string
  fb_category :: "string option"
  fb_notes :: "string option"
  fb_correction :: "string option"
  fb_created :: int

definition submit_feedback ::
  "uuid \<Rightarrow> int \<Rightarrow> feedback \<Rightarrow> operator \<Rightarrow> execution_run tbl \<Rightarrow> feedback tbl \<Rightarrow> (exn + feedback) \<times> feedback tbl" where
  "submit_feedback fresh now f op runs t =
     (if fb_vote f \<noteq> ''thumbs_up'' \<and> fb_vote f \<noteq> ''thumbs_down'' then (Inl (HttpError 422 ''Unprocessable Entity''), t)
      else case map_of runs (fb_run f) of
          None \<Rightarrow> (Inl (HttpError 404 ''Execution run not found''), t)
        | Some r \<Rightarrow>
            if \<not> may_touch op (er_tenant r)
            then (Inl (HttpError 403 ''Cannot submit feedback for execution runs from other tenants''), t)
            else let row = f\<lparr>fb_id := fresh, fb_created := now\<rparr> in (Inr row, put fresh row t))"

text \<open>The model has no tenant column, so \<^verbatim>\<open>getattr\<close> gives \<^verbatim>\<open>None\<close>.\<close>

definition submit_review_decision ::
  "int \<Rightarrow> uuid \<Rightarrow> string \<Rightarrow> operator \<Rightarrow> execution_run tbl \<Rightarrow> review_item tbl \<Rightarrow> (exn + review_item) \<times> review_item tbl" where
  "submit_review_decision now rid decision op runs items =
     (if decision \<noteq> ''approved'' \<and> decision \<noteq> ''rejected'' then (Inl (HttpError 422 ''Unprocessable Entity''), items)
      else case map_of items rid of
          None \<Rightarrow> (Inl (HttpError 404 ''Review item not found''), items)
        | Some h \<Rightarrow>
           (let tenant = or_text (review_tenant runs h) None
            in if (tenant = None \<and> \<not> op_global op) \<or> (\<not> op_global op \<and> tenant \<noteq> None \<and> tenant \<noteq> Some (op_tenant op))
               then (Inl (HttpError 403 ''Cannot modify reviews from other tenants''), items)
               else let h' = h\<lparr>hr_decision := Some decision, hr_by := Some (op_id op), hr_at := Some now\<rparr>
                 in (Inr h', put rid h' items)))"

section \<open>Improvement proposals\<close>

datatype proposal_state = PROPOSED | EVALUATED | APPROVED | CANARY | PROMOTED | ROLLED_BACK

definition proposal_states :: "(string \<times> proposal_state) list" where
  "proposal_states = [(''PROPOSED'', PROPOSED), (''EVALUATED'', EVALUATED), (''APPROVED'', APPROVED), (''CANARY'', CANARY),
     (''PROMOTED'', PROMOTED), (''ROLLED_BACK'', ROLLED_BACK)]"

fun valid_transitions :: "proposal_state \<Rightarrow> proposal_state list" where
  "valid_transitions PROPOSED = [EVALUATED]"
| "valid_transitions EVALUATED = [APPROVED]"
| "valid_transitions APPROVED = [CANARY]"
| "valid_transitions CANARY = [PROMOTED, ROLLED_BACK]"
| "valid_transitions PROMOTED = []"
| "valid_transitions ROLLED_BACK = []"

type_synonym jobject = "(string \<times> json) list"

record proposal =
  pp_id :: uuid
  pp_tenant :: string
  pp_cluster :: "string option"
  pp_status :: proposal_state
  pp_baseline :: jobject
  pp_config :: jobject
  pp_eval_run :: "uuid option"
  pp_eval_result :: "jobject option"
  pp_approver :: "string option"
  pp_approved_at :: "int option"
  pp_canary :: "jobject option"
  pp_deployment :: "jobject option"
  pp_rolled_back_at :: "int option"
  pp_rollback_reason :: "string option"
  pp_created :: int

record transition_request =
  tq_target :: string
  tq_eval_run :: "uuid option"
  tq_eval_result :: "jobject option"
  tq_canary :: "jobject option"
  tq_deployment :: "jobject option"
  tq_reason :: "string option"

definition list_proposals :: "string option \<Rightarrow> nat \<Rightarrow> operator \<Rightarrow> proposal tbl \<Rightarrow> exn + proposal list" where
  "list_proposals st limit op t =
     (if \<not> (1 \<le> limit \<and> limit \<le> 200) then Inl (HttpError 422 ''Unprocessable Entity'')
      else Inr (take limit (sort_desc pp_created (filter (\<lambda>p. may_touch op (pp_tenant p) \<and>
             (case st of Some x \<Rightarrow> x = [] \<or> map_of proposal_states x = Some (pp_status p) | None \<Rightarrow> True)) (vals t)))))"

definition create_proposal ::
  "uuid \<Rightarrow> int \<Rightarrow> string option \<Rightarrow> jobject \<Rightarrow> jobject \<Rightarrow> operator \<Rightarrow> proposal tbl \<Rightarrow> (exn + proposal) \<times> proposal tbl" where
  "create_proposal fresh now cluster baseline config op t =
     (if fresh \<in> set (keys t) then (Inl (HttpError 500 ''Failed to create proposal''), t)
      else let p = \<lparr>pp_id = fresh, pp_tenant = op_tenant op, pp_cluster = cluster, pp_status = PROPOSED, pp_baseline = baseline,
             pp_config = config, pp_eval_run = None, pp_eval_result = None, pp_approver = None, pp_approved_at = None,
             pp_canary = None, pp_deployment = None, pp_rolled_back_at = None, pp_rollback_reason = None, pp_created = now\<rparr>
        in (Inr p, put fresh p t))"

text \<open>An absent or empty object is false.\<close>

definition given :: "jobject option \<Rightarrow> bool" where
  "given x \<longleftrightarrow> (case x of Some es \<Rightarrow> es \<noteq> [] | None \<Rightarrow> False)"

text \<open>The guard of each target state, and the columns it writes.\<close>

definition apply_target ::
  "int \<Rightarrow> (uuid, eval_run) dict \<Rightarrow> operator \<Rightarrow> transition_request \<Rightarrow> proposal_state \<Rightarrow> proposal \<Rightarrow> exn + proposal" where
  "apply_target now evals op q target p =
     (let bad = (\<lambda>m. Inl (HttpError 400 m))
      in case target of
        EVALUATED \<Rightarrow>
          (case tq_eval_run q of
             None \<Rightarrow> bad ''Cannot transition to EVALUATED without both eval_run_id and eval_result''
           | Some rid \<Rightarrow>
              if \<not> given (tq_eval_result q) then bad ''Cannot transition to EVALUATED without both eval_run_id and eval_result''
              else (case map_of evals rid of
                  None \<Rightarrow> bad ''Evaluation run not found''
                | Some e \<Rightarrow> if el_status e \<noteq> ''completed'' then bad ''Evaluation run has another status, expected completed''
                            else Inr (p\<lparr>pp_eval_run := Some rid, pp_eval_result := tq_eval_result q, pp_status := EVALUATED\<rparr>)))
      | APPROVED \<Rightarrow>
          if \<not> given (tq_eval_result q) then bad ''Cannot transition to APPROVED without eval_result''
          else Inr (p\<lparr>pp_approver := Some (op_id op), pp_approved_at := Some now, pp_status := APPROVED\<rparr>)
      | CANARY \<Rightarrow>
          if pp_status p \<noteq> APPROVED then bad ''Canary requires prior approval'' else Inr (p\<lparr>pp_status := CANARY\<rparr>)
      | PROMOTED \<Rightarrow>
          if \<not> given (tq_deployment q) then bad ''Cannot transition to PROMOTED without deployment_result''
          else Inr (p\<lparr>pp_deployment := tq_deployment q, pp_status := PROMOTED\<rparr>)
      | ROLLED_BACK \<Rightarrow>
          Inr (p\<lparr>pp_rolled_back_at := Some now, pp_rollback_reason := tq_reason q, pp_status := ROLLED_BACK\<rparr>)
      | PROPOSED \<Rightarrow> Inr (p\<lparr>pp_status := PROPOSED\<rparr>))"

definition transition_proposal ::
  "int \<Rightarrow> (uuid, eval_run) dict \<Rightarrow> uuid \<Rightarrow> transition_request \<Rightarrow> operator \<Rightarrow> proposal tbl \<Rightarrow> (exn + proposal) \<times> proposal tbl" where
  "transition_proposal now evals pid q op t =
     (case map_of proposal_states (tq_target q) of
        None \<Rightarrow> (Inl (HttpError 400 ''Invalid target status''), t)
      | Some target \<Rightarrow>
         (case map_of t pid of
            None \<Rightarrow> (Inl (HttpError 404 ''Proposal not found''), t)
          | Some p \<Rightarrow>
             if \<not> may_touch op (pp_tenant p) then (Inl (HttpError 403 ''Cannot modify proposals from other tenants''), t)
             else if target \<notin> set (valid_transitions (pp_status p)) then (Inl (HttpError 400 ''Cannot transition''), t)
             else (case apply_target now evals op q target p of
                     Inl e \<Rightarrow> (Inl e, t) | Inr p' \<Rightarrow> (Inr p', put pid p' t))))"

section \<open>The proposals as a transition system\<close>

fun proposal_rank :: "proposal_state \<Rightarrow> nat" where
  "proposal_rank PROPOSED = 0" | "proposal_rank EVALUATED = 1" | "proposal_rank APPROVED = 2"
| "proposal_rank CANARY = 3" | "proposal_rank PROMOTED = 4" | "proposal_rank ROLLED_BACK = 4"

interpretation proposal_table: status_table valid_transitions proposal_rank
proof unfold_locales
  fix s t
  show "t \<in> set (valid_transitions s) \<Longrightarrow> proposal_rank s < proposal_rank t" by (cases s) auto
qed

text \<open>Any operator, at any time, with any request, and with any state of the evaluation runs.\<close>

inductive proposal_step :: "proposal tbl \<Rightarrow> proposal tbl \<Rightarrow> bool" where
  pr_create: "create_proposal fresh now cluster baseline config op t = (r, t') \<Longrightarrow> proposal_step t t'"
| pr_transition: "transition_proposal now evals pid q op t = (r, t') \<Longrightarrow> proposal_step t t'"

text \<open>What the record of a proposal shows: an evaluation before anything else, an approval before any
  rollout, the result of a deployment and the time of a rollback. The result of a canary is never
  written.\<close>

definition proposal_ok :: "proposal \<Rightarrow> bool" where
  "proposal_ok p \<longleftrightarrow>
     (proposal_rank (pp_status p) \<ge> 1 \<longrightarrow> pp_eval_run p \<noteq> None \<and> given (pp_eval_result p)) \<and>
     (proposal_rank (pp_status p) \<ge> 2 \<longrightarrow> pp_approver p \<noteq> None \<and> pp_approved_at p \<noteq> None) \<and>
     (pp_status p = PROMOTED \<longrightarrow> given (pp_deployment p)) \<and>
     (pp_status p = ROLLED_BACK \<longrightarrow> pp_rolled_back_at p \<noteq> None) \<and> pp_canary p = None"

definition proposals_inv :: "proposal tbl \<Rightarrow> bool" where
  "proposals_inv t \<longleftrightarrow> keyed pp_id t \<and> (\<forall>p \<in> set (vals t). proposal_ok p)"

lemma apply_target_ok:
  assumes "apply_target now evals op q target p = Inr p'" and "target \<in> set (valid_transitions (pp_status p))" and "proposal_ok p"
  shows "proposal_ok p' \<and> pp_id p' = pp_id p \<and> pp_tenant p' = pp_tenant p \<and> pp_status p' = target"
proof (cases target)
  case PROPOSED
  then show ?thesis using assms(2) by (cases "pp_status p") auto
next
  case EVALUATED
  then show ?thesis using assms
    by (cases "pp_status p") (auto simp: apply_target_def proposal_ok_def split: option.splits if_splits)
next
  case APPROVED
  then show ?thesis using assms
    by (cases "pp_status p") (auto simp: apply_target_def proposal_ok_def split: if_splits)
next
  case CANARY
  then show ?thesis using assms
    by (cases "pp_status p") (auto simp: apply_target_def proposal_ok_def split: if_splits)
next
  case PROMOTED
  then show ?thesis using assms
    by (cases "pp_status p") (auto simp: apply_target_def proposal_ok_def split: if_splits)
next
  case ROLLED_BACK
  then show ?thesis using assms
    by (cases "pp_status p") (auto simp: apply_target_def proposal_ok_def split: if_splits)
qed

text \<open>A step adds a proposed row or moves one row along the table.\<close>

lemma transition_cases:
  assumes "transition_proposal now evals pid q op t = (r, t')"
  shows "t' = t \<or> (\<exists>p p' target. map_of t pid = Some p \<and> may_touch op (pp_tenant p) \<and>
    target \<in> set (valid_transitions (pp_status p)) \<and> apply_target now evals op q target p = Inr p' \<and> t' = put pid p' t)"
  using assms by (auto simp: transition_proposal_def split: option.splits if_splits sum.splits) metis

lemma proposal_step_inv:
  assumes "proposals_inv t" and "proposal_step t t'"
  shows "proposals_inv t'"
  using assms(2)
proof cases
  case (pr_create fresh now cluster baseline config op r)
  show ?thesis
  proof (cases "fresh \<in> set (keys t)")
    case True
    then show ?thesis using pr_create assms(1) by (simp add: create_proposal_def)
  next
    case False
    from False obtain p where "t' = put fresh p t" "pp_id p = fresh" "proposal_ok p"
      using pr_create by (auto simp: create_proposal_def Let_def proposal_ok_def)
    have "\<forall>x \<in> set (vals (put fresh p t)). proposal_ok x"
      by (rule vals_put_all) (use assms(1) \<open>proposal_ok p\<close> in \<open>simp_all add: proposals_inv_def\<close>)
    then show ?thesis using assms(1) \<open>t' = put fresh p t\<close> \<open>pp_id p = fresh\<close> by (simp add: proposals_inv_def keyed_put)
  qed
next
  case (pr_transition now evals pid q op r)
  from transition_cases [OF this] show ?thesis
  proof
    assume "\<exists>p p' target. map_of t pid = Some p \<and> may_touch op (pp_tenant p) \<and> target \<in> set (valid_transitions (pp_status p)) \<and>
      apply_target now evals op q target p = Inr p' \<and> t' = put pid p' t"
    then obtain p p' target where p: "map_of t pid = Some p" "target \<in> set (valid_transitions (pp_status p))"
      "apply_target now evals op q target p = Inr p'" "t' = put pid p' t" by blast
    have k: "keyed pp_id t" and a: "\<forall>p \<in> set (vals t). proposal_ok p" using assms(1) by (auto simp: proposals_inv_def)
    have "pp_id p = pid" using keyed_map_of [OF k p(1)] .
    moreover have "proposal_ok p" using a p(1) by (force dest: map_of_SomeD)
    ultimately have ok: "proposal_ok p'" "pp_id p' = pid" using apply_target_ok [OF p(3,2)] by auto
    have "\<forall>x \<in> set (vals (put pid p' t)). proposal_ok x" by (rule vals_put_all [OF a ok(1)])
    then show ?thesis using k ok(2) by (simp add: proposals_inv_def keyed_put p(4))
  qed (use assms(1) in simp)
qed

interpretation proposals: invariant_system "\<lambda>t. t = []" proposal_step proposals_inv
proof unfold_locales
  show "t = [] \<Longrightarrow> proposals_inv t" for t by (simp add: proposals_inv_def)
qed (rule proposal_step_inv)

section \<open>Properties\<close>

text \<open>C20: no proposal bypasses offline evaluation or approval. In every reachable table each proposal past
  PROPOSED records its evaluation run and a result, each one past EVALUATED its approver and the time,
  a promoted one its deployment result and a rolled back one the time; no proposal ever holds a canary
  result.\<close>

theorem reachable_proposals:
  assumes "reach (\<lambda>t. t = []) proposal_step t" and "p \<in> set (vals t)"
  shows "proposal_ok p \<and> map_of t (pp_id p) = Some p"
proof -
  have i: "proposals_inv t" by (rule proposals.reach_inv [OF assms(1)])
  then have "keyed pp_id t" by (simp add: proposals_inv_def)
  then have "map_of t (pp_id p) = Some p" by (rule keyed_mem [OF _ assms(2)])
  then show ?thesis using i assms(2) by (auto simp: proposals_inv_def)
qed

definition demo_operator :: operator where
  "demo_operator = \<lparr>op_id = ''olga'', op_tenant = ''t'', op_global = False\<rparr>"

definition demo_request :: "string \<Rightarrow> transition_request" where
  "demo_request target = \<lparr>tq_target = target, tq_eval_run = Some 7, tq_eval_result = Some [(''f'', JBool True)], tq_canary = Some [(''ok'', JBool True)],
     tq_deployment = None, tq_reason = None\<rparr>"

definition demo_evals :: "(uuid, eval_run) dict" where
  "demo_evals = [(7, \<lparr>el_id = 7, el_status = ''completed'', el_created = 0\<rparr>)]"

theorem reachable_proposals_witness:
  "\<exists>t p. reach (\<lambda>t. t = []) proposal_step t \<and> p \<in> set (vals t) \<and> pp_status p = CANARY \<and> proposal_ok p"
proof -
  let ?t0 = "snd (create_proposal 1 0 None [] [] demo_operator [])"
  let ?t1 = "snd (transition_proposal 1 demo_evals 1 (demo_request ''EVALUATED'') demo_operator ?t0)"
  let ?t2 = "snd (transition_proposal 2 demo_evals 1 (demo_request ''APPROVED'') demo_operator ?t1)"
  let ?t3 = "snd (transition_proposal 3 demo_evals 1 (demo_request ''CANARY'') demo_operator ?t2)"
  have s0: "proposal_step [] ?t0" by (rule pr_create [OF prod.collapse [symmetric]])
  have s1: "proposal_step t (snd (transition_proposal n demo_evals 1 q demo_operator t))" for t n q
    by (rule pr_transition [OF prod.collapse [symmetric]])
  have r0: "reach (\<lambda>t. t = []) proposal_step ?t0"
    by (rule reach_step [where s = "[]"], rule reach_start, rule refl, rule s0)
  have r1: "reach (\<lambda>t. t = []) proposal_step ?t1" by (rule reach_step [where s = ?t0], rule r0, rule s1)
  have r2: "reach (\<lambda>t. t = []) proposal_step ?t2" by (rule reach_step [where s = ?t1], rule r1, rule s1)
  have r: "reach (\<lambda>t. t = []) proposal_step ?t3" by (rule reach_step [where s = ?t2], rule r2, rule s1)
  have "map pp_status (vals ?t3) = [CANARY]" by code_simp
  then obtain p where p: "p \<in> set (vals ?t3)" "pp_status p = CANARY" by (cases "vals ?t3") auto
  from reachable_proposals [OF r p(1)] r p show ?thesis by blast
qed

text \<open>Proposals only move forward, and only by their own tenant or a global operator. Along any sequence
  of steps a proposal stays, its tenant stays, and its row is unchanged unless its state has moved; a
  promoted or rolled back proposal never changes again.\<close>

theorem proposal_moves_forward:
  assumes "proposal_step\<^sup>*\<^sup>* t t'" and "proposals_inv t" and "map_of t pid = Some p"
  shows "\<exists>p'. map_of t' pid = Some p' \<and> pp_tenant p' = pp_tenant p \<and>
    (p' = p \<or> proposal_rank (pp_status p) < proposal_rank (pp_status p')) \<and>
    (valid_transitions (pp_status p) = [] \<longrightarrow> p' = p)"
  using assms(1)
proof (induction rule: rtranclp_induct)
  case base
  then show ?case using assms(3) by simp
next
  case (step u v)
  then obtain p1 where p1: "map_of u pid = Some p1" "pp_tenant p1 = pp_tenant p"
    "p1 = p \<or> proposal_rank (pp_status p) < proposal_rank (pp_status p1)" "valid_transitions (pp_status p) = [] \<longrightarrow> p1 = p" by blast
  have inv: "proposals_inv u" by (rule proposals.steps_inv [OF step.hyps(1) assms(2)])
  from step.hyps(2) show ?case
  proof cases
    case (pr_create fresh now cluster baseline config op r)
    then have "v = u \<or> (\<exists>x. v = put fresh x u \<and> fresh \<notin> set (keys u))"
      by (auto simp: create_proposal_def Let_def simp del: set_map split: if_splits)
    moreover have "pid \<in> set (keys u)" using p1(1) by (metis domI dom_map_of_conv_image_fst image_set)
    ultimately have "map_of v pid = Some p1" using p1(1) by (auto simp del: set_map)
    then show ?thesis using p1(2-4) by blast
  next
    case (pr_transition now evals i q op r)
    from transition_cases [OF this] show ?thesis
    proof
      assume "v = u"
      then show ?thesis using p1 by blast
    next
      assume "\<exists>p p' target. map_of u i = Some p \<and> may_touch op (pp_tenant p) \<and> target \<in> set (valid_transitions (pp_status p)) \<and>
        apply_target now evals op q target p = Inr p' \<and> v = put i p' u"
      then obtain a b target where a: "map_of u i = Some a" "target \<in> set (valid_transitions (pp_status a))"
        "apply_target now evals op q target a = Inr b" "v = put i b u" by blast
      show ?thesis
      proof (cases "i = pid")
        case False
        then show ?thesis using p1 a(4) by auto
      next
        case True
        then have ap: "a = p1" using a(1) p1(1) by simp
        have "proposal_ok a" using inv a(1) by (force simp: proposals_inv_def dest: map_of_SomeD)
        from apply_target_ok [OF a(3,2) this] have b: "pp_tenant b = pp_tenant p1" "pp_status b = target" by (auto simp: ap)
        have lt: "proposal_rank (pp_status p1) < proposal_rank target" using proposal_table.rank_increases a(2) ap by blast
        have "proposal_rank (pp_status p) < proposal_rank (pp_status b)" using lt p1(3) b(2) by auto
        moreover have "valid_transitions (pp_status p) \<noteq> []" using a(2) p1(3,4) ap by auto
        moreover have "map_of v pid = Some b" using a(4) True by simp
        ultimately show ?thesis using b(1) p1(2) by auto
      qed
    qed
  qed
qed

theorem proposal_moves_forward_witness:
  "\<exists>t t' p p'. proposal_step\<^sup>*\<^sup>* t t' \<and> map_of t 1 = Some p \<and> map_of t' 1 = Some p' \<and> pp_tenant p' = pp_tenant p \<and>
     pp_status p = PROPOSED \<and> pp_status p' = EVALUATED"
proof -
  let ?t = "snd (create_proposal 1 0 None [] [] demo_operator [])"
  let ?t' = "snd (transition_proposal 1 demo_evals 1 (demo_request ''EVALUATED'') demo_operator ?t)"
  have s: "proposal_step\<^sup>*\<^sup>* ?t ?t'" by (rule r_into_rtranclp, rule pr_transition [OF prod.collapse [symmetric]])
  have i: "proposals_inv ?t" by (simp add: create_proposal_def Let_def proposals_inv_def keyed_def proposal_ok_def)
  obtain p where p: "map_of ?t 1 = Some p" "pp_status p = PROPOSED" by (simp add: create_proposal_def Let_def)
  have "(case map_of ?t' 1 of Some p' \<Rightarrow> pp_status p' = EVALUATED | None \<Rightarrow> False)" by code_simp
  then show ?thesis using proposal_moves_forward [OF s i p(1)] s p by (auto split: option.splits)
qed

section \<open>Operators and tenants\<close>

lemma list_recent_runs_sub: "set (list_recent_runs n s) \<subseteq> set (vals (db_runs (cur s)))"
  unfolding list_recent_runs_def by (auto dest: in_set_takeD)

lemma or_text_None [simp]: "or_text a None = None \<or> or_text a None = a"
  by (simp add: or_text_def split: option.splits)

text \<open>C33: an operator of one tenant neither sees nor changes another tenant's runs, reviews, proposals or
  sources. The summaries, the review queue and the proposals that the views show an operator who is not
  global are of the operator's tenant; the ingestion status is computed from that tenant's sources alone; a
  write of feedback, of a decision or of a transition leaves the tables as they are unless its record is of
  that tenant, and touches no other record; a new proposal is of that tenant. The trends of evaluations are
  outside this: evaluations carry no tenant, and every operator is shown the same.\<close>

theorem operator_isolation:
  assumes "\<not> op_global op"
  shows "(get_execution_summary rid op s = Inr x \<longrightarrow>
       (\<exists>r. get_run rid s = Some r \<and> er_tenant r = op_tenant op \<and> summarise r = Inr x)) \<and>
    (list_recent_executions n op s = Inr xs \<longrightarrow>
       (\<forall>y \<in> set xs. \<exists>r \<in> set (vals (db_runs (cur s))). er_tenant r = op_tenant op \<and> summarise r = Inr y)) \<and>
    get_ingestion_status now op sources =
      get_ingestion_status now op (filter (\<lambda>src. src_tenant src = op_tenant op) sources) \<and>
    (list_proposals st n op t = Inr ps \<longrightarrow> (\<forall>p \<in> set ps. p \<in> set (vals t) \<and> pp_tenant p = op_tenant op)) \<and>
    (get_review_queue ty n op runs items = Inr hs \<longrightarrow>
       (\<forall>h \<in> set hs. review_tenant runs (fst h) = Some (op_tenant op) \<and> hr_decision (fst h) = None)) \<and>
    (snd (submit_feedback fresh now f op runs fbs) \<noteq> fbs \<longrightarrow>
       (\<exists>r. map_of runs (fb_run f) = Some r \<and> er_tenant r = op_tenant op)) \<and>
    (snd (submit_review_decision now hid d op runs items) \<noteq> items \<longrightarrow>
       (\<exists>h. map_of items hid = Some h \<and> review_tenant runs h = Some (op_tenant op)) \<and>
       (\<forall>k. k \<noteq> hid \<longrightarrow> map_of (snd (submit_review_decision now hid d op runs items)) k = map_of items k)) \<and>
    (snd (transition_proposal now evals pid q op t) \<noteq> t \<longrightarrow>
       (\<exists>p. map_of t pid = Some p \<and> pp_tenant p = op_tenant op) \<and>
       (\<forall>k. k \<noteq> pid \<longrightarrow> map_of (snd (transition_proposal now evals pid q op t)) k = map_of t k)) \<and>
    (fst (create_proposal fresh now cluster baseline config op t) = Inr p \<longrightarrow>
       pp_tenant p = op_tenant op \<and> snd (create_proposal fresh now cluster baseline config op t) = put fresh p t \<and>
       fresh \<notin> set (keys t))"
proof (intro conjI)
  show "get_execution_summary rid op s = Inr x \<longrightarrow>
      (\<exists>r. get_run rid s = Some r \<and> er_tenant r = op_tenant op \<and> summarise r = Inr x)"
    using assms by (auto simp: get_execution_summary_def may_touch_def split: option.splits if_splits)
  show "list_recent_executions n op s = Inr xs \<longrightarrow>
      (\<forall>y \<in> set xs. \<exists>r \<in> set (vals (db_runs (cur s))). er_tenant r = op_tenant op \<and> summarise r = Inr y)"
  proof (intro impI ballI)
    fix y assume l: "list_recent_executions n op s = Inr xs" and y: "y \<in> set xs"
    from l have "rmap summarise (filter (\<lambda>r. may_touch op (er_tenant r)) (list_recent_runs n s)) = Inr xs"
      by (auto simp: list_recent_executions_def split: if_splits)
    from rmap_Inr_mem [OF this y] obtain r where "r \<in> set (list_recent_runs n s)" "may_touch op (er_tenant r)" "summarise r = Inr y"
      by auto
    then show "\<exists>r \<in> set (vals (db_runs (cur s))). er_tenant r = op_tenant op \<and> summarise r = Inr y"
      using assms list_recent_runs_sub by (auto simp: may_touch_def simp del: set_map)
  qed
  have "filter (\<lambda>src. src_active src \<and> src_tenant src = op_tenant op) (filter (\<lambda>src. src_tenant src = op_tenant op) sources) =
      filter (\<lambda>src. src_active src \<and> src_tenant src = op_tenant op) sources" by (induction sources) auto
  then show "get_ingestion_status now op sources =
      get_ingestion_status now op (filter (\<lambda>src. src_tenant src = op_tenant op) sources)"
    using assms by (simp add: get_ingestion_status_def may_touch_def Let_def)
  show "list_proposals st n op t = Inr ps \<longrightarrow> (\<forall>p \<in> set ps. p \<in> set (vals t) \<and> pp_tenant p = op_tenant op)"
    using assms by (auto simp: list_proposals_def may_touch_def split: if_splits dest!: in_set_takeD)
  show "get_review_queue ty n op runs items = Inr hs \<longrightarrow>
       (\<forall>h \<in> set hs. review_tenant runs (fst h) = Some (op_tenant op) \<and> hr_decision (fst h) = None)"
    using assms by (auto simp: get_review_queue_def split: if_splits dest!: in_set_takeD)
  show "snd (submit_feedback fresh now f op runs fbs) \<noteq> fbs \<longrightarrow>
       (\<exists>r. map_of runs (fb_run f) = Some r \<and> er_tenant r = op_tenant op)"
    using assms by (auto simp: submit_feedback_def may_touch_def split: option.splits if_splits)
  show "snd (submit_review_decision now hid d op runs items) \<noteq> items \<longrightarrow>
       (\<exists>h. map_of items hid = Some h \<and> review_tenant runs h = Some (op_tenant op)) \<and>
       (\<forall>k. k \<noteq> hid \<longrightarrow> map_of (snd (submit_review_decision now hid d op runs items)) k = map_of items k)"
    using assms by (auto simp: submit_review_decision_def Let_def or_text_def split: option.splits if_splits)
  show "snd (transition_proposal now evals pid q op t) \<noteq> t \<longrightarrow>
       (\<exists>p. map_of t pid = Some p \<and> pp_tenant p = op_tenant op) \<and>
       (\<forall>k. k \<noteq> pid \<longrightarrow> map_of (snd (transition_proposal now evals pid q op t)) k = map_of t k)"
    using assms by (auto simp: transition_proposal_def may_touch_def split: option.splits if_splits sum.splits)
  show "fst (create_proposal fresh now cluster baseline config op t) = Inr p \<longrightarrow>
       pp_tenant p = op_tenant op \<and> snd (create_proposal fresh now cluster baseline config op t) = put fresh p t \<and>
       fresh \<notin> set (keys t)"
    by (auto simp: create_proposal_def Let_def)
qed

theorem operator_isolation_witness:
  "\<exists>p. list_proposals None 50 demo_operator (snd (create_proposal 1 0 None [] [] demo_operator [])) = Inr [p] \<and>
     pp_tenant p = op_tenant demo_operator"
proof -
  let ?t = "snd (create_proposal 1 0 None [] [] demo_operator [])"
  obtain p where p: "list_proposals None 50 demo_operator ?t = Inr [p]"
    by (simp add: list_proposals_def create_proposal_def Let_def may_touch_def demo_operator_def sort_desc_def)
  have "\<not> op_global demo_operator" by (simp add: demo_operator_def)
  from operator_isolation [OF this] p show ?thesis by (metis list.set_intros(1))
qed

text \<open>In production every operator carries a verified token. With settings that pass their validators in
  production, the operator's identity is the identity of a bearer token that the library verified, and
  the token's role claim names an operator role.\<close>

theorem operator_identity_verified:
  assumes "mk_settings cfg = Inr cfg" and "s_env cfg = Production"
    and "operator_identity lib unverified repr cfg authorization = Inr op"
  shows "\<exists>token. authorization = Some (''Bearer '' @ token) \<and>
    identity_from_jwt lib cfg token = Inr \<lparr>id_tenant = op_tenant op, id_principal = op_id op\<rparr> \<and>
    (\<exists>claims. unverified token = Some claims \<and> has_role (claim_or ''role'' (JStr []) claims) = Inr True)"
proof -
  have local: "s_auth_mode cfg \<noteq> LocalAuth" using production_safe [OF assms(1,2)] by blast
  from assms(3) obtain a where a: "present authorization = Some a" "startswith a ''Bearer ''"
    by (auto simp: operator_identity_def split: option.splits if_splits)
  have auth: "authorization = Some a" using a(1) by (auto simp: present_def split: option.splits if_splits)
  obtain token where t: "a = ''Bearer '' @ token" using a(2) by (auto simp: startswith_iff)
  then have d: "drop 7 a = token" by simp
  from assms(3) a local obtain who where who: "identity_from_jwt lib cfg token = Inr who"
    "rbind (has_role (claim_or ''role'' (JStr []) (case unverified token of Some c \<Rightarrow> c | None \<Rightarrow> []))) (\<lambda>ok.
       if \<not> ok then Inl (HttpError 403 ''Operator or admin role required'')
       else Inr \<lparr>op_id = id_principal who, op_tenant = id_tenant who,
         op_global = (map_of (case unverified token of Some c \<Rightarrow> c | None \<Rightarrow> []) ''is_global_operator'' = Some (JBool True))\<rparr>) = Inr op"
    by (auto simp: operator_identity_def Let_def d)
  from who(2) have op: "op_id op = id_principal who" "op_tenant op = id_tenant who" and
    role: "has_role (claim_or ''role'' (JStr []) (case unverified token of Some c \<Rightarrow> c | None \<Rightarrow> [])) = Inr True"
    by (auto split: if_splits)
  have "unverified token \<noteq> None"
  proof
    assume "unverified token = None"
    then show False using role by (simp add: claim_or_def has_role_def operator_roles_def)
  qed
  then obtain claims where "unverified token = Some claims" by blast
  moreover have "\<lparr>id_tenant = op_tenant op, id_principal = op_id op\<rparr> = who" using op by simp
  ultimately show ?thesis using auth t who(1) role by auto
qed

theorem operator_identity_verified_witness:
  "\<exists>op token. operator_identity demo_jwt (\<lambda>_. Some [(''role'', JStr ''admin'')]) (\<lambda>_. []) production_settings (Some ''Bearer tok'') = Inr op \<and>
     op_tenant op = ''acme'' \<and> Some ''Bearer tok'' = Some (''Bearer '' @ token) \<and>
     identity_from_jwt demo_jwt production_settings token = Inr \<lparr>id_tenant = op_tenant op, id_principal = op_id op\<rparr>"
proof -
  have s: "mk_settings production_settings = Inr production_settings" "s_env production_settings = Production"
    by (simp_all add: production_settings_def mk_settings_def default_settings_def production_problems_def placeholder_def)
  have i: "operator_identity demo_jwt (\<lambda>_. Some [(''role'', JStr ''admin'')]) (\<lambda>_. []) production_settings (Some ''Bearer tok'') =
      Inr \<lparr>op_id = ''ann'', op_tenant = ''acme'', op_global = False\<rparr>"
    by (simp add: operator_identity_def present_def identity_from_jwt_def demo_jwt_def production_settings_def default_settings_def
        claim_or_def has_role_def operator_roles_def)
  from operator_identity_verified [OF s i] i show ?thesis by auto
qed

section \<open>What the summaries show\<close>

lemma represents_entry:
  assumes "represents h (PRef a) (JObj js)" and "map_of h a = Some (PyDict es)" and "PStr k \<notin> fst ` set es"
  shows "map_of js k = None"
proof -
  from assms(1,2) have l: "list_all2 (\<lambda>e p. fst e = PStr (fst p) \<and> represents h (snd e) (snd p)) es js"
    by (auto elim: represents_refE)
  have "k \<notin> fst ` set js"
  proof
    assume "k \<in> fst ` set js"
    then obtain i where "i < length js" "fst (js ! i) = k" by (metis (no_types, lifting) image_iff in_set_conv_nth)
    then have "fst (es ! i) = PStr k" "i < length es" using l by (auto simp: list_all2_conv_all_nth)
    then show False using assms(3) by (metis image_eqI nth_mem)
  qed
  then show ?thesis by (simp add: map_of_eq_None_iff)
qed

text \<open>The handler writes \<^verbatim>\<open>claims_count\<close> and \<^verbatim>\<open>citation_ids\<close>; the summary counts the entries
  \<^verbatim>\<open>claims\<close> and \<^verbatim>\<open>citations\<close>, so it shows no claims and no citations for every recorded
  answer.\<close>

theorem summary_counts_nothing:
  assumes "snapshot_json_object (fst (run_output r)) (snd (run_output r)) = Inr js" and "er_output run = js"
    and "summarise run = Inr sm"
  shows "rs_claims sm = 0 \<and> rs_citations sm = 0"
proof -
  from assms(1) obtain j where j: "validate_json_value (fst (run_output r)) (snd (run_output r)) = Inr j"
    "(case j of JObj es \<Rightarrow> Inr es | _ \<Rightarrow> Inl (TypeError ''JSON object expected'')) = Inr js"
    unfolding snapshot_json_object_def rbind_Inr_iff by blast
  from j(2) have "j = JObj js" by (cases j) simp_all
  with j(1) have "validate_json_value (fst (run_output r)) (snd (run_output r)) = Inr (JObj js)" by simp
  moreover have "snd (run_output r) = PRef 0" by (simp add: run_output_def)
  ultimately have "represents (fst (run_output r)) (PRef 0) (JObj js)"
    unfolding validate_json_value_def validate_iff_represents by simp
  from represents_entry [OF this] have "map_of js ''claims'' = None" "map_of js ''citations'' = None"
    by (simp_all add: run_output_def)
  then show ?thesis using assms(2,3) by (auto simp: summarise_def claim_or_def split: option.splits)
qed

text \<open>The limit is applied before the tenant's filter: an operator may see none of the tenant's runs.\<close>

lemma own_runs_hidden:
  "list_recent_executions 1 demo_operator
     \<lparr>cur = \<lparr>db_runs = [(1, pending_run 1 demo_identity [] 5 None None),
                      (2, pending_run 2 \<lparr>id_tenant = ''u'', id_principal = ''q''\<rparr> [] 9 None None)], db_steps = []\<rparr>,
      committed = \<lparr>db_runs = [], db_steps = []\<rparr>\<rparr> = Inr []"
  by code_simp

end
