(* ===== verification/Schema.thy ===== *)
theory Schema
  imports Json
begin

text \<open>
  The statements of data definition that the Alembic scripts under \<^verbatim>\<open>src/migrations/versions\<close>
  issue, as operations on a database with its rows. A table has its columns, its constraints, its
  indexes and its rows; each operation fails the way PostgreSQL does (an unknown or a second relation,
  a key that the rows do not satisfy, an object that others depend on) or returns the changed database.
  The lemmas show that each pair of an operation and its counterpart is a round trip on any rows,
  from which the theory of the migrations takes its property on downgrades.

  Two things are simpler than in SQL. A foreign key without a name is known by its columns, not by the
  name that the server makes up for it. An index is its name, its columns, its uniqueness and its
  condition; the access method is left out.
\<close>

section \<open>Databases\<close>

datatype sql_type =
    SqlUuid | SqlString "int option" | SqlText | SqlTimestamptz | SqlBoolean | SqlInteger | SqlFloat
  | SqlJsonb | SqlArray sql_type | SqlVector int

datatype server_default = NoDefault | LiteralDefault string | ExpressionDefault string

record sql_column =
  cl_name :: string
  cl_type :: sql_type
  cl_nullable :: bool
  cl_default :: server_default

datatype on_delete = NoAction | Cascade | Restrict | SetNull

text \<open>A foreign key has its own columns, the table and the columns it points at, what a deletion does,
  and whether it is checked at the end of the transaction.\<close>

datatype sql_constraint =
    PrimaryKey "string list"
  | Unique "string option" "string list"
  | ForeignKey "string option" "string list" string "string list" on_delete bool

record sql_index =
  sx_name :: string
  sx_columns :: "string list"
  sx_unique :: bool
  sx_where :: "string option"

abbreviation col :: "string \<Rightarrow> sql_type \<Rightarrow> bool \<Rightarrow> server_default \<Rightarrow> sql_column" where
  "col n t nullable d \<equiv> \<lparr>cl_name = n, cl_type = t, cl_nullable = nullable, cl_default = d\<rparr>"

abbreviation idx :: "string \<Rightarrow> string list \<Rightarrow> sql_index" where
  "idx n cols \<equiv> \<lparr>sx_name = n, sx_columns = cols, sx_unique = False, sx_where = None\<rparr>"

type_synonym sql_row = "(string, string option) dict"

record sql_table =
  sb_columns :: "sql_column list"
  sb_constraints :: "sql_constraint list"
  sb_indexes :: "sql_index list"
  sb_rows :: "sql_row list"

record database =
  sd_tables :: "(string, sql_table) dict"
  sd_extensions :: "string list"

definition empty_database :: database where
  "empty_database = \<lparr>sd_tables = [], sd_extensions = []\<rparr>"

datatype sql_error =
    DuplicateRelation string | UndefinedTable string | DuplicateColumn string | UndefinedColumn string
  | UndefinedObject string | DependentObjects string | InvalidReference string | UndefinedType string
  | UniqueViolation string | NotNullViolation string

text \<open>What the engine computes of SQL text: the value of an expression such as
  \<^verbatim>\<open>now()\<close>, and whether a row satisfies the predicate of a partial index.\<close>

record sql_engine =
  se_value :: "string \<Rightarrow> string"
  se_holds :: "string \<Rightarrow> sql_row \<Rightarrow> bool"

section \<open>Names and keys\<close>

definition column_names :: "sql_table \<Rightarrow> string list" where
  "column_names t = map cl_name (sb_columns t)"

fun constraint_name :: "sql_constraint \<Rightarrow> string option" where
  "constraint_name (PrimaryKey _) = None"
| "constraint_name (Unique n _) = n"
| "constraint_name (ForeignKey n _ _ _ _ _) = n"

fun constraint_columns :: "sql_constraint \<Rightarrow> string list" where
  "constraint_columns (PrimaryKey cs) = cs"
| "constraint_columns (Unique _ cs) = cs"
| "constraint_columns (ForeignKey _ cs _ _ _ _) = cs"

fun is_key_for :: "string list \<Rightarrow> sql_constraint \<Rightarrow> bool" where
  "is_key_for cols (PrimaryKey cs) = (set cs = set cols)"
| "is_key_for cols (Unique _ cs) = (set cs = set cols)"
| "is_key_for cols (ForeignKey _ _ _ _ _ _) = False"

text \<open>The relations of a schema share their names: tables, indexes, and the indexes of named keys.\<close>

fun key_name :: "sql_constraint \<Rightarrow> string list" where
  "key_name (Unique (Some n) _) = [n]"
| "key_name _ = []"

definition relation_names :: "(string, sql_table) dict \<Rightarrow> string list" where
  "relation_names ts =
     concat (map (\<lambda>(n, t). n # map sx_name (sb_indexes t) @ concat (map key_name (sb_constraints t))) ts)"

section \<open>Rows\<close>

definition cell :: "string \<Rightarrow> sql_row \<Rightarrow> string option" where
  "cell c r = (case map_of r c of Some v \<Rightarrow> v | None \<Rightarrow> None)"

text \<open>The key values of the rows that have no null among them.\<close>

definition key_values :: "string list \<Rightarrow> sql_row list \<Rightarrow> string option list list" where
  "key_values cols rows = filter (\<lambda>vs. None \<notin> set vs) (map (\<lambda>r. map (\<lambda>c. cell c r) cols) rows)"

text \<open>Whether the rows of a table satisfy a constraint, in the tables of the database.\<close>

fun constraint_holds :: "(string, sql_table) dict \<Rightarrow> sql_row list \<Rightarrow> sql_constraint \<Rightarrow> bool" where
  "constraint_holds ts rows (PrimaryKey cs) =
     (distinct (key_values cs rows) \<and> length (key_values cs rows) = length rows)"
| "constraint_holds ts rows (Unique _ cs) = distinct (key_values cs rows)"
| "constraint_holds ts rows (ForeignKey _ cs m rcs _ _) =
     (case map_of ts m of
        None \<Rightarrow> False
      | Some u \<Rightarrow> list_all (\<lambda>vs. vs \<in> set (key_values rcs (sb_rows u))) (key_values cs rows))"

text \<open>A foreign key needs a key of the other table on exactly its columns.\<close>

fun reference_ok :: "(string, sql_table) dict \<Rightarrow> sql_constraint \<Rightarrow> bool" where
  "reference_ok ts (ForeignKey _ cs m rcs _ _) =
     (case map_of ts m of
        None \<Rightarrow> False
      | Some u \<Rightarrow> length cs = length rcs \<and> list_ex (is_key_for rcs) (sb_constraints u))"
| "reference_ok ts _ = True"

definition refs_ok :: "(string, sql_table) dict \<Rightarrow> bool" where
  "refs_ok ts = list_all (\<lambda>(n, t). list_all (reference_ok ts) (sb_constraints t)) ts"

section \<open>Statements\<close>

datatype ddl =
    CreateExtension string
  | CreateTable string "sql_column list" "sql_constraint list"
  | DropTable string
  | AddColumn string sql_column
  | DropColumn string string
  | AddConstraint string sql_constraint
  | DropConstraint string string
  | CreateIndex string sql_index
  | DropIndex string string
  | SetAll string string string

text \<open>A statement on one table gives it a new value; a statement that removes something is refused when
  a foreign key is left without the key it points at.\<close>

definition on_table :: "string \<Rightarrow> database \<Rightarrow> (sql_table \<Rightarrow> sql_error + sql_table) \<Rightarrow> sql_error + database" where
  "on_table n db f =
     (case map_of (sd_tables db) n of
        None \<Rightarrow> Inl (UndefinedTable n)
      | Some t \<Rightarrow> rbind (f t) (\<lambda>t'. Inr (db\<lparr>sd_tables := put n t' (sd_tables db)\<rparr>)))"

definition unless_needed :: "string \<Rightarrow> sql_error + database \<Rightarrow> sql_error + database" where
  "unless_needed n r = rbind r (\<lambda>db. if refs_ok (sd_tables db) then Inr db else Inl (DependentObjects n))"

definition default_value :: "sql_engine \<Rightarrow> sql_column \<Rightarrow> string option" where
  "default_value eng c =
     (case cl_default c of NoDefault \<Rightarrow> None | LiteralDefault s \<Rightarrow> Some s | ExpressionDefault e \<Rightarrow> Some (se_value eng e))"

definition create_table :: "string \<Rightarrow> sql_column list \<Rightarrow> sql_constraint list \<Rightarrow> database \<Rightarrow> sql_error + database" where
  "create_table n cols cons db =
     (let t = \<lparr>sb_columns = cols, sb_constraints = cons, sb_indexes = [], sb_rows = []\<rparr>;
          ts = sd_tables db @ [(n, t)]
      in if n \<in> set (relation_names (sd_tables db)) then Inl (DuplicateRelation n)
         else if \<not> distinct (map cl_name cols) then Inl (DuplicateColumn n)
         else if list_ex (\<lambda>c. case cl_type c of SqlVector _ \<Rightarrow> True | _ \<Rightarrow> False) cols
                 \<and> ''vector'' \<notin> set (sd_extensions db) then Inl (UndefinedType ''vector'')
         else if list_ex (\<lambda>c. \<not> set (constraint_columns c) \<subseteq> set (map cl_name cols)) cons then Inl (UndefinedColumn n)
         else if \<not> list_all (reference_ok ts) cons then Inl (InvalidReference n)
         else if set (concat (map key_name cons)) \<inter> set (relation_names (sd_tables db)) \<noteq> {} then Inl (DuplicateRelation n)
         else Inr (db\<lparr>sd_tables := ts\<rparr>))"

definition drop_table :: "string \<Rightarrow> database \<Rightarrow> sql_error + database" where
  "drop_table n db =
     (if n \<notin> set (keys (sd_tables db)) then Inl (UndefinedTable n)
      else Inr (db\<lparr>sd_tables := filter (\<lambda>p. fst p \<noteq> n) (sd_tables db)\<rparr>))"

definition add_column :: "sql_engine \<Rightarrow> sql_column \<Rightarrow> sql_table \<Rightarrow> sql_error + sql_table" where
  "add_column eng c t =
     (if cl_name c \<in> set (column_names t) then Inl (DuplicateColumn (cl_name c))
      else if \<not> cl_nullable c \<and> default_value eng c = None \<and> sb_rows t \<noteq> [] then Inl (NotNullViolation (cl_name c))
      else Inr (t\<lparr>sb_columns := sb_columns t @ [c],
                  sb_rows := map (\<lambda>r. r @ [(cl_name c, default_value eng c)]) (sb_rows t)\<rparr>))"

text \<open>The keys and indexes on a column go with it.\<close>

definition drop_column :: "string \<Rightarrow> sql_table \<Rightarrow> sql_error + sql_table" where
  "drop_column c t =
     (if c \<notin> set (column_names t) then Inl (UndefinedColumn c)
      else Inr (t\<lparr>sb_columns := filter (\<lambda>k. cl_name k \<noteq> c) (sb_columns t),
                  sb_constraints := filter (\<lambda>k. c \<notin> set (constraint_columns k)) (sb_constraints t),
                  sb_indexes := filter (\<lambda>x. c \<notin> set (sx_columns x)) (sb_indexes t),
                  sb_rows := map (filter (\<lambda>p. fst p \<noteq> c)) (sb_rows t)\<rparr>))"

definition name_taken :: "(string, sql_table) dict \<Rightarrow> sql_table \<Rightarrow> sql_constraint \<Rightarrow> bool" where
  "name_taken ts t c \<longleftrightarrow>
     set (key_name c) \<inter> set (relation_names ts) \<noteq> {} \<or>
     (constraint_name c \<noteq> None \<and> constraint_name c \<in> set (map constraint_name (sb_constraints t)))"

definition add_constraint :: "(string, sql_table) dict \<Rightarrow> sql_constraint \<Rightarrow> sql_table \<Rightarrow> sql_error + sql_table" where
  "add_constraint ts c t =
     (let n = (case constraint_name c of Some n \<Rightarrow> n | None \<Rightarrow> [])
      in if name_taken ts t c then Inl (DuplicateRelation n)
         else if \<not> set (constraint_columns c) \<subseteq> set (column_names t) then Inl (UndefinedColumn n)
         else if \<not> reference_ok ts c then Inl (InvalidReference n)
         else if \<not> constraint_holds ts (sb_rows t) c then Inl (UniqueViolation n)
         else Inr (t\<lparr>sb_constraints := sb_constraints t @ [c]\<rparr>))"

definition drop_constraint :: "string \<Rightarrow> sql_table \<Rightarrow> sql_error + sql_table" where
  "drop_constraint name t =
     (if Some name \<notin> set (map constraint_name (sb_constraints t)) then Inl (UndefinedObject name)
      else Inr (t\<lparr>sb_constraints := filter (\<lambda>k. constraint_name k \<noteq> Some name) (sb_constraints t)\<rparr>))"

definition create_index :: "sql_engine \<Rightarrow> (string, sql_table) dict \<Rightarrow> sql_index \<Rightarrow> sql_table \<Rightarrow> sql_error + sql_table" where
  "create_index eng ts x t =
     (let rows = (case sx_where x of None \<Rightarrow> sb_rows t | Some w \<Rightarrow> filter (se_holds eng w) (sb_rows t))
      in if sx_name x \<in> set (relation_names ts) then Inl (DuplicateRelation (sx_name x))
         else if \<not> set (sx_columns x) \<subseteq> set (column_names t) then Inl (UndefinedColumn (sx_name x))
         else if sx_unique x \<and> \<not> distinct (key_values (sx_columns x) rows) then Inl (UniqueViolation (sx_name x))
         else Inr (t\<lparr>sb_indexes := sb_indexes t @ [x]\<rparr>))"

definition drop_index :: "string \<Rightarrow> sql_table \<Rightarrow> sql_error + sql_table" where
  "drop_index name t =
     (if name \<notin> set (map sx_name (sb_indexes t)) then Inl (UndefinedObject name)
      else Inr (t\<lparr>sb_indexes := filter (\<lambda>x. sx_name x \<noteq> name) (sb_indexes t)\<rparr>))"

text \<open>\<^verbatim>\<open>UPDATE t SET c = 'v'\<close>; the constraints on the column are checked on the new rows.\<close>

definition set_cell :: "string \<Rightarrow> string \<Rightarrow> sql_row \<Rightarrow> sql_row" where
  "set_cell c v r = map (\<lambda>(k, w). if k = c then (k, Some v) else (k, w)) r"

definition set_all :: "(string, sql_table) dict \<Rightarrow> string \<Rightarrow> string \<Rightarrow> sql_table \<Rightarrow> sql_error + sql_table" where
  "set_all ts c v t =
     (let rows = map (set_cell c v) (sb_rows t)
      in if c \<notin> set (column_names t) then Inl (UndefinedColumn c)
         else if list_ex (\<lambda>k. c \<in> set (constraint_columns k) \<and> \<not> constraint_holds ts rows k) (sb_constraints t)
         then Inl (UniqueViolation c)
         else Inr (t\<lparr>sb_rows := rows\<rparr>))"

fun apply_ddl :: "sql_engine \<Rightarrow> ddl \<Rightarrow> database \<Rightarrow> sql_error + database" where
  "apply_ddl eng (CreateExtension e) db =
     Inr (if e \<in> set (sd_extensions db) then db else db\<lparr>sd_extensions := sd_extensions db @ [e]\<rparr>)"
| "apply_ddl eng (CreateTable n cols cons) db = create_table n cols cons db"
| "apply_ddl eng (DropTable n) db = unless_needed n (drop_table n db)"
| "apply_ddl eng (AddColumn n c) db = on_table n db (add_column eng c)"
| "apply_ddl eng (DropColumn n c) db = unless_needed n (on_table n db (drop_column c))"
| "apply_ddl eng (AddConstraint n c) db = on_table n db (add_constraint (sd_tables db) c)"
| "apply_ddl eng (DropConstraint n c) db = unless_needed n (on_table n db (drop_constraint c))"
| "apply_ddl eng (CreateIndex n x) db = on_table n db (create_index eng (sd_tables db) x)"
| "apply_ddl eng (DropIndex x n) db = on_table n db (drop_index x)"
| "apply_ddl eng (SetAll n c v) db = on_table n db (set_all (sd_tables db) c v)"

fun run_ddl :: "sql_engine \<Rightarrow> ddl list \<Rightarrow> database \<Rightarrow> sql_error + database" where
  "run_ddl eng [] db = Inr db"
| "run_ddl eng (op # ops) db = rbind (apply_ddl eng op db) (run_ddl eng ops)"

lemma run_ddl_append: "run_ddl eng (xs @ ys) db = rbind (run_ddl eng xs db) (run_ddl eng ys)"
proof (induction xs arbitrary: db)
  case (Cons x xs)
  then show ?case by (cases "apply_ddl eng x db") simp_all
qed simp

section \<open>Well-formed databases\<close>

text \<open>Table names are distinct; the constraints, indexes and rows of a table speak of its columns; every
  foreign key has the key it points at.\<close>

definition table_ok :: "sql_table \<Rightarrow> bool" where
  "table_ok t \<longleftrightarrow>
     list_all (\<lambda>k. set (constraint_columns k) \<subseteq> set (column_names t)) (sb_constraints t) \<and>
     list_all (\<lambda>x. set (sx_columns x) \<subseteq> set (column_names t)) (sb_indexes t) \<and>
     list_all (\<lambda>r. set (keys r) \<subseteq> set (column_names t)) (sb_rows t)"

definition database_ok :: "database \<Rightarrow> bool" where
  "database_ok db \<longleftrightarrow>
     distinct (keys (sd_tables db)) \<and> list_all (\<lambda>(n, t). table_ok t) (sd_tables db) \<and> refs_ok (sd_tables db)"

lemma database_ok_table: "database_ok db \<Longrightarrow> map_of (sd_tables db) n = Some t \<Longrightarrow> table_ok t"
  by (auto simp: database_ok_def list_all_iff dest: map_of_SomeD)

lemma list_all_put:
  "distinct (keys d) \<Longrightarrow> list_all P d \<Longrightarrow> P (k, v) \<Longrightarrow> list_all P (put k v d)"
  by (auto simp: list_all_iff put_pairs)

text \<open>A reference survives when the table it points at keeps its keys.\<close>

definition keeps_keys :: "sql_table \<Rightarrow> sql_table \<Rightarrow> bool" where
  "keeps_keys t t' \<longleftrightarrow> set (sb_constraints t) \<subseteq> set (sb_constraints t')"

lemma reference_ok_put:
  assumes "map_of ts n = Some t" "keeps_keys t t'" "reference_ok ts c"
  shows "reference_ok (put n t' ts) c"
  using assms by (cases c) (auto simp: keeps_keys_def list_ex_iff split: option.splits if_splits)

lemma refs_ok_put:
  assumes "distinct (keys ts)" "map_of ts n = Some t" "keeps_keys t t'" "refs_ok ts"
    and "\<And>c. c \<in> set (sb_constraints t') \<Longrightarrow> c \<in> set (sb_constraints t) \<or> reference_ok ts c"
  shows "refs_ok (put n t' ts)"
proof -
  have old: "reference_ok ts c" if "c \<in> set (sb_constraints u)" "(m, u) \<in> set ts" for c m u
    using that assms(4) by (auto simp: refs_ok_def list_all_iff)
  have "reference_ok ts c" if "c \<in> set (sb_constraints t')" for c
    using assms(5) [OF that] old map_of_SomeD [OF assms(2)] by blast
  then show ?thesis
    using old assms(1) reference_ok_put [OF assms(2,3)] by (auto simp: refs_ok_def list_all_iff put_pairs)
qed

lemma database_ok_put:
  assumes "database_ok db" "map_of (sd_tables db) n = Some t" "keeps_keys t t'" "table_ok t'"
    and "\<And>c. c \<in> set (sb_constraints t') \<Longrightarrow> c \<in> set (sb_constraints t) \<or> reference_ok (sd_tables db) c"
  shows "database_ok (db\<lparr>sd_tables := put n t' (sd_tables db)\<rparr>)"
  using assms refs_ok_put [OF _ assms(2,3)] by (simp add: database_ok_def list_all_put)

lemma on_table_Inr:
  "on_table n db f = Inr db' \<longleftrightarrow>
     (\<exists>t t'. map_of (sd_tables db) n = Some t \<and> f t = Inr t' \<and> db' = db\<lparr>sd_tables := put n t' (sd_tables db)\<rparr>)"
  by (auto simp: on_table_def rbind_Inr_iff split: option.splits)

lemma on_table_back:
  assumes "g t' = Inr t" "map_of (sd_tables db) n = Some t"
  shows "on_table n (db\<lparr>sd_tables := put n t' (sd_tables db)\<rparr>) g = Inr db"
  using assms by (simp add: on_table_def update_triv)

section \<open>Statements and their counterparts\<close>

text \<open>One list of statements undoes another: on every well-formed database on which the second
  succeeds, the first succeeds after it and gives the database back, rows included.\<close>

definition undoes :: "sql_engine \<Rightarrow> ddl list \<Rightarrow> ddl list \<Rightarrow> bool" where
  "undoes eng back ops \<longleftrightarrow>
     (\<forall>db db'. database_ok db \<longrightarrow> run_ddl eng ops db = Inr db' \<longrightarrow>
        database_ok db' \<and> run_ddl eng back db' = Inr db)"

lemma undoesI:
  assumes "\<And>db db'. database_ok db \<Longrightarrow> run_ddl eng ops db = Inr db' \<Longrightarrow> database_ok db' \<and> run_ddl eng back db' = Inr db"
  shows "undoes eng back ops"
  using assms by (simp add: undoes_def)

lemma undoesD:
  "undoes eng back ops \<Longrightarrow> database_ok db \<Longrightarrow> run_ddl eng ops db = Inr db' \<Longrightarrow>
   database_ok db' \<and> run_ddl eng back db' = Inr db"
  by (simp add: undoes_def)

lemma undoes_append:
  assumes "undoes eng b xs" "undoes eng c ys"
  shows "undoes eng (c @ b) (xs @ ys)"
proof (rule undoesI)
  fix db db' assume ok: "database_ok db" and r: "run_ddl eng (xs @ ys) db = Inr db'"
  then obtain d where d: "run_ddl eng xs db = Inr d" "run_ddl eng ys d = Inr db'"
    by (auto simp: run_ddl_append rbind_Inr_iff)
  note x = undoesD [OF assms(1) ok d(1)]
  note y = undoesD [OF assms(2) conjunct1 [OF x] d(2)]
  show "database_ok db' \<and> run_ddl eng (c @ b) db' = Inr db"
    using x y by (simp add: run_ddl_append)
qed

lemma undo_two: "undoes eng [b] [x] \<Longrightarrow> undoes eng [c] [y] \<Longrightarrow> undoes eng [c, b] [x, y]"
  using undoes_append [of eng "[b]" "[x]" "[c]" "[y]"] by simp

lemma undo_three: "undoes eng [b] [x, y] \<Longrightarrow> undoes eng [c] [z] \<Longrightarrow> undoes eng [c, b] [x, y, z]"
  using undoes_append [of eng "[b]" "[x, y]" "[c]" "[z]"] by simp

lemma undo_then_two: "undoes eng [b] [x] \<Longrightarrow> undoes eng [d, c] [y, z] \<Longrightarrow> undoes eng [d, c, b] [x, y, z]"
  using undoes_append [of eng "[b]" "[x]" "[d, c]" "[y, z]"] by simp

lemma unless_needed_ok: "r = Inr db \<Longrightarrow> database_ok db \<Longrightarrow> unless_needed n r = Inr db"
  by (simp add: unless_needed_def database_ok_def)

lemma filter_keys_absent: "c \<notin> set (keys r) \<Longrightarrow> filter (\<lambda>p. fst p \<noteq> c) r = r"
  by (induction r) auto

lemma filter_list_all: "list_all P xs \<Longrightarrow> (\<And>x. P x \<Longrightarrow> Q x) \<Longrightarrow> filter Q xs = xs"
  by (induction xs) auto

text \<open>Dropping the column that was added.\<close>

lemma drop_added_column:
  assumes "table_ok t" "c \<notin> set (column_names t)"
    and "t' = t\<lparr>sb_columns := sb_columns t @ [k], sb_rows := map (\<lambda>r. r @ [(c, v)]) (sb_rows t)\<rparr>" "cl_name k = c"
  shows "drop_column c t' = Inr t" "table_ok t'"
proof -
  have "filter (\<lambda>k. cl_name k \<noteq> c) (sb_columns t) = sb_columns t"
    using assms(2) by (auto simp: column_names_def intro: filter_True)
  moreover have "filter (\<lambda>k. c \<notin> set (constraint_columns k)) (sb_constraints t) = sb_constraints t"
    "filter (\<lambda>x. c \<notin> set (sx_columns x)) (sb_indexes t) = sb_indexes t"
    using assms(1,2) by (auto simp: table_ok_def list_all_iff intro!: filter_True)
  moreover have "map (filter (\<lambda>p. fst p \<noteq> c)) (map (\<lambda>r. r @ [(c, v)]) (sb_rows t)) = sb_rows t"
    using assms(1,2) by (fastforce simp: table_ok_def list_all_iff comp_def intro!: map_idI filter_keys_absent)
  ultimately show "drop_column c t' = Inr t"
    using assms(3,4) by (simp add: drop_column_def column_names_def)
  have "column_names t' = column_names t @ [c]" using assms(3,4) by (simp add: column_names_def)
  then show "table_ok t'" using assms(1) unfolding assms(3) table_ok_def list_all_iff
    by (simp add: subset_insertI2)
qed

lemma undo_add_column:
  assumes "cl_name k = c"
  shows "undoes eng [DropColumn n c] [AddColumn n k]"
proof (rule undoesI)
  fix db db' assume ok: "database_ok db" and "run_ddl eng [AddColumn n k] db = Inr db'"
  then obtain t t' where t: "map_of (sd_tables db) n = Some t" "add_column eng k t = Inr t'"
    and db': "db' = db\<lparr>sd_tables := put n t' (sd_tables db)\<rparr>"
    by (auto simp: rbind_Inr_iff on_table_Inr)
  then have new: "c \<notin> set (column_names t)" and t':
    "t' = t\<lparr>sb_columns := sb_columns t @ [k], sb_rows := map (\<lambda>r. r @ [(c, default_value eng k)]) (sb_rows t)\<rparr>"
    using assms by (auto simp: add_column_def split: if_splits)
  note drop = drop_added_column [OF database_ok_table [OF ok t(1)] new t' assms]
  have "database_ok db'" unfolding db'
    by (rule database_ok_put [OF ok t(1) _ drop(2)]) (auto simp: t' keeps_keys_def)
  moreover have "run_ddl eng [DropColumn n c] db' = Inr db"
    unfolding db' by (simp add: on_table_back [where g = "drop_column c", OF drop(1) t(1)] unless_needed_ok [OF refl ok])
  ultimately show "database_ok db' \<and> run_ddl eng [DropColumn n c] db' = Inr db" ..
qed

lemma add_constraint_ok:
  assumes ok: "database_ok db" and t: "map_of (sd_tables db) n = Some t" "add_constraint (sd_tables db) c t = Inr t'"
  shows "t' = t\<lparr>sb_constraints := sb_constraints t @ [c]\<rparr>"
    and "database_ok (db\<lparr>sd_tables := put n t' (sd_tables db)\<rparr>)"
proof -
  show t': "t' = t\<lparr>sb_constraints := sb_constraints t @ [c]\<rparr>"
    using t(2) by (auto simp: add_constraint_def Let_def split: if_splits)
  have c: "reference_ok (sd_tables db) c" "set (constraint_columns c) \<subseteq> set (column_names t)"
    using t(2) by (auto simp: add_constraint_def Let_def split: if_splits)
  have "table_ok t'"
    using database_ok_table [OF ok t(1)] t' c by (auto simp: table_ok_def list_all_iff column_names_def)
  then show "database_ok (db\<lparr>sd_tables := put n t' (sd_tables db)\<rparr>)"
    by (rule database_ok_put [OF ok t(1), rotated]) (use t' c in \<open>auto simp: keeps_keys_def\<close>)
qed

lemma undo_add_constraint:
  assumes "constraint_name c = Some name"
  shows "undoes eng [DropConstraint n name] [AddConstraint n c]"
proof (rule undoesI)
  fix db db' assume ok: "database_ok db" and "run_ddl eng [AddConstraint n c] db = Inr db'"
  then obtain t t' where t: "map_of (sd_tables db) n = Some t" "add_constraint (sd_tables db) c t = Inr t'"
    and db': "db' = db\<lparr>sd_tables := put n t' (sd_tables db)\<rparr>"
    by (auto simp: rbind_Inr_iff on_table_Inr)
  then have "Some name \<notin> set (map constraint_name (sb_constraints t))"
    using assms by (auto simp: add_constraint_def name_taken_def Let_def split: if_splits)
  then have "filter (\<lambda>k. constraint_name k \<noteq> Some name) (sb_constraints t) = sb_constraints t"
    by (force intro!: filter_True)
  then have drop: "drop_constraint name t' = Inr t"
    using assms by (simp add: drop_constraint_def add_constraint_ok(1) [OF ok t])
  have "run_ddl eng [DropConstraint n name] db' = Inr db"
    unfolding db' by (simp add: on_table_back [where g = "drop_constraint name", OF drop t(1)] unless_needed_ok [OF refl ok])
  then show "database_ok db' \<and> run_ddl eng [DropConstraint n name] db' = Inr db"
    using add_constraint_ok(2) [OF ok t] by (simp add: db')
qed

lemma index_name_fresh:
  "map_of ts n = Some t \<Longrightarrow> x \<notin> set (relation_names ts) \<Longrightarrow> x \<notin> set (map sx_name (sb_indexes t))"
  by (force simp: relation_names_def dest: map_of_SomeD)

lemma undo_create_index:
  assumes "sx_name x = name"
  shows "undoes eng [DropIndex name n] [CreateIndex n x]"
proof (rule undoesI)
  fix db db' assume ok: "database_ok db" and "run_ddl eng [CreateIndex n x] db = Inr db'"
  then obtain t t' where t: "map_of (sd_tables db) n = Some t" "create_index eng (sd_tables db) x t = Inr t'"
    and db': "db' = db\<lparr>sd_tables := put n t' (sd_tables db)\<rparr>"
    by (auto simp: rbind_Inr_iff on_table_Inr)
  then have t': "t' = t\<lparr>sb_indexes := sb_indexes t @ [x]\<rparr>" "name \<notin> set (relation_names (sd_tables db))"
    "set (sx_columns x) \<subseteq> set (column_names t)"
    using assms by (auto simp: create_index_def Let_def split: if_splits)
  have "filter (\<lambda>y. sx_name y \<noteq> name) (sb_indexes t) = sb_indexes t"
    using index_name_fresh [OF t(1) t'(2)] by (auto intro!: filter_True)
  then have drop: "drop_index name t' = Inr t" using assms by (simp add: drop_index_def t'(1))
  have "table_ok t'"
    using database_ok_table [OF ok t(1)] t' by (auto simp: table_ok_def list_all_iff column_names_def)
  then have "database_ok db'" unfolding db'
    by (rule database_ok_put [OF ok t(1), rotated]) (use t' in \<open>auto simp: keeps_keys_def\<close>)
  moreover have "run_ddl eng [DropIndex name n] db' = Inr db"
    unfolding db' by (simp add: on_table_back [where g = "drop_index name", OF drop t(1)])
  ultimately show "database_ok db' \<and> run_ddl eng [DropIndex name n] db' = Inr db" ..
qed

section \<open>A table made by a script\<close>

text \<open>The statements that only extend the table they name.\<close>

fun extends :: "string \<Rightarrow> ddl \<Rightarrow> bool" where
  "extends n (AddColumn m _) = (m = n)"
| "extends n (AddConstraint m _) = (m = n)"
| "extends n (CreateIndex m _) = (m = n)"
| "extends n (SetAll m _ _) = (m = n)"
| "extends n _ = False"

lemma set_all_ok:
  assumes ok: "database_ok db" and t: "map_of (sd_tables db) n = Some t" "set_all ts c v t = Inr t'"
  shows "database_ok (db\<lparr>sd_tables := put n t' (sd_tables db)\<rparr>)"
proof (rule database_ok_put [OF ok t(1)])
  have t': "t' = t\<lparr>sb_rows := map (set_cell c v) (sb_rows t)\<rparr>"
    using t(2) by (auto simp: set_all_def Let_def split: if_splits)
  have "fst ` set (set_cell c v r) = fst ` set r" for r by (force simp: set_cell_def)
  then show "table_ok t'"
    using database_ok_table [OF ok t(1)] by (simp add: t' table_ok_def list_all_iff column_names_def)
qed (use t(2) in \<open>auto simp: set_all_def Let_def keeps_keys_def split: if_splits\<close>)

lemma extends_ok:
  assumes "extends n op" "database_ok db" "apply_ddl eng op db = Inr db'"
  shows "database_ok db'"
proof (cases op)
  case (AddColumn m k)
  then show ?thesis using undoesD [OF undo_add_column [OF refl], of db eng m k db'] assms(2,3) by simp
next
  case (AddConstraint m c)
  then show ?thesis using assms(2,3) by (auto simp: on_table_Inr add_constraint_ok)
next
  case (CreateIndex m x)
  then show ?thesis using undoesD [OF undo_create_index [OF refl], of db eng m x db'] assms(2,3) by simp
next
  case (SetAll m c v)
  then show ?thesis using assms(2,3) by (auto simp: on_table_Inr intro: set_all_ok)
qed (use assms(1) in auto)

lemma filter_put: "filter (\<lambda>p. fst p \<noteq> n) (put n v d) = filter (\<lambda>p. fst p \<noteq> n) d"
  by (induction d) auto

lemma on_table_others:
  assumes "on_table n db f = Inr db'"
  shows "filter (\<lambda>p. fst p \<noteq> n) (sd_tables db') = filter (\<lambda>p. fst p \<noteq> n) (sd_tables db) \<and>
     sd_extensions db' = sd_extensions db \<and> set (keys (sd_tables db')) = set (keys (sd_tables db))"
proof -
  obtain t t' where t: "map_of (sd_tables db) n = Some t" and db': "db' = db\<lparr>sd_tables := put n t' (sd_tables db)\<rparr>"
    using assms by (auto simp: on_table_Inr)
  have "n \<in> set (keys (sd_tables db))" using map_of_SomeD [OF t] by force
  then show ?thesis unfolding db' by (simp add: filter_put insert_absorb set_keys_put del: set_map)
qed

lemma extends_others:
  assumes "extends n op" "apply_ddl eng op db = Inr db'"
  shows "filter (\<lambda>p. fst p \<noteq> n) (sd_tables db') = filter (\<lambda>p. fst p \<noteq> n) (sd_tables db) \<and>
     sd_extensions db' = sd_extensions db \<and> set (keys (sd_tables db')) = set (keys (sd_tables db))"
  using assms by (cases op) (simp_all add: on_table_others del: set_map)

lemma extend_others:
  assumes "list_all (extends n) ops" "database_ok db" "run_ddl eng ops db = Inr db'"
  shows "filter (\<lambda>p. fst p \<noteq> n) (sd_tables db') = filter (\<lambda>p. fst p \<noteq> n) (sd_tables db) \<and>
     sd_extensions db' = sd_extensions db \<and> set (keys (sd_tables db')) = set (keys (sd_tables db)) \<and> database_ok db'"
  using assms
proof (induction ops arbitrary: db)
  case (Cons op ops)
  then obtain d where d: "apply_ddl eng op db = Inr d" "run_ddl eng ops d = Inr db'" by (auto simp: rbind_Inr_iff)
  have "extends n op" using Cons.prems(1) by simp
  note s = extends_others [OF this d(1)] extends_ok [OF this Cons.prems(2) d(1)]
  show ?case using Cons.IH [OF _ s(2) d(2)] Cons.prems(1) s(1) by simp
qed simp

lemma create_table_ok:
  assumes ok: "database_ok db" and "create_table n cols cons db = Inr db'"
  shows "database_ok db'" "n \<notin> set (keys (sd_tables db))" "sd_extensions db' = sd_extensions db"
    "filter (\<lambda>p. fst p \<noteq> n) (sd_tables db') = sd_tables db" "n \<in> set (keys (sd_tables db'))"
proof -
  let ?t = "\<lparr>sb_columns = cols, sb_constraints = cons, sb_indexes = [], sb_rows = []\<rparr>"
  have db': "db' = db\<lparr>sd_tables := sd_tables db @ [(n, ?t)]\<rparr>" and names: "n \<notin> set (relation_names (sd_tables db))"
    and cols: "list_all (\<lambda>c. set (constraint_columns c) \<subseteq> set (map cl_name cols)) cons"
    and refs: "list_all (reference_ok (sd_tables db @ [(n, ?t)])) cons"
    using assms(2) by (auto simp: create_table_def Let_def list_all_iff list_ex_iff split: if_splits)
  show n: "n \<notin> set (keys (sd_tables db))" using names by (force simp: relation_names_def)
  have old: "reference_ok (sd_tables db @ [(n, ?t)]) c" if "reference_ok (sd_tables db) c" for c
    using that by (cases c) (auto simp: map_of_append map_add_def split: option.splits)
  have "refs_ok (sd_tables db @ [(n, ?t)])"
    using ok refs old by (fastforce simp: database_ok_def refs_ok_def list_all_iff)
  moreover have "table_ok ?t" using cols by (simp add: table_ok_def column_names_def)
  ultimately show "database_ok db'" using ok n by (auto simp: database_ok_def db' list_all_iff)
  show "sd_extensions db' = sd_extensions db" "n \<in> set (keys (sd_tables db'))" by (simp_all add: db')
  show "filter (\<lambda>p. fst p \<noteq> n) (sd_tables db') = sd_tables db"
    using n by (auto simp: db' intro!: filter_True)
qed

lemma undo_new_table:
  assumes "list_all (extends n) ops"
  shows "undoes eng [DropTable n] (CreateTable n cols cons # ops)"
proof (rule undoesI)
  fix db db' assume ok: "database_ok db" and "run_ddl eng (CreateTable n cols cons # ops) db = Inr db'"
  then obtain d where d: "create_table n cols cons db = Inr d" "run_ddl eng ops d = Inr db'"
    by (auto simp: rbind_Inr_iff)
  note c = create_table_ok [OF ok d(1)]
  note e = extend_others [OF assms c(1) d(2)]
  have "drop_table n db' = Inr db" using c e by (simp add: drop_table_def)
  then show "database_ok db' \<and> run_ddl eng [DropTable n] db' = Inr db"
    using e unless_needed_ok [OF _ ok] by simp
qed

lemma cell_append: "c \<in> set (keys r) \<Longrightarrow> cell c (r @ p) = cell c r"
  by (auto simp: cell_def map_add_def map_of_eq_None_iff split: option.splits)

lemma cell_new: "c \<notin> set (keys r) \<Longrightarrow> cell c (r @ [(c, v)]) = v"
  by (simp add: cell_def map_add_def map_of_eq_None_iff split: option.splits) (force split: option.splits dest: map_of_SomeD)

lemma set_cell_new: "c \<notin> set (keys r) \<Longrightarrow> set_cell c v (r @ [(c, w)]) = r @ [(c, Some v)]"
  by (force simp: set_cell_def intro!: map_idI)

text \<open>A column that is added and then filled goes away like one that is only added.\<close>

lemma undo_filled_column:
  assumes "cl_name k = c"
  shows "undoes eng [DropColumn n c] [AddColumn n k, SetAll n c v]"
proof (rule undoesI)
  fix db db' assume ok: "database_ok db" and "run_ddl eng [AddColumn n k, SetAll n c v] db = Inr db'"
  then obtain d where d: "apply_ddl eng (AddColumn n k) db = Inr d" "apply_ddl eng (SetAll n c v) d = Inr db'"
    by (auto simp: rbind_Inr_iff)
  then obtain t t' where t: "map_of (sd_tables db) n = Some t" "add_column eng k t = Inr t'"
    and dd: "d = db\<lparr>sd_tables := put n t' (sd_tables db)\<rparr>" by (auto simp: on_table_Inr)
  then have new: "c \<notin> set (column_names t)" and t':
    "t' = t\<lparr>sb_columns := sb_columns t @ [k], sb_rows := map (\<lambda>r. r @ [(c, default_value eng k)]) (sb_rows t)\<rparr>"
    using assms by (auto simp: add_column_def split: if_splits)
  let ?u = "t\<lparr>sb_columns := sb_columns t @ [k], sb_rows := map (\<lambda>r. r @ [(c, Some v)]) (sb_rows t)\<rparr>"
  have absent: "r \<in> set (sb_rows t) \<Longrightarrow> set_cell c v (r @ [(c, w)]) = r @ [(c, Some v)]" for r w
    using database_ok_table [OF ok t(1)] new by (fastforce simp: table_ok_def list_all_iff intro!: set_cell_new)
  have u: "db' = db\<lparr>sd_tables := put n ?u (sd_tables db)\<rparr>"
  proof -
    have "map (set_cell c v) (sb_rows t') = map (\<lambda>r. r @ [(c, Some v)]) (sb_rows t)"
      using absent by (simp add: t')
    then show ?thesis
      using d(2) unfolding dd by (auto simp: on_table_Inr set_all_def t' Let_def simp del: map_map split: if_splits)
  qed
  note drop = drop_added_column [OF database_ok_table [OF ok t(1)] new refl assms, of "Some v"]
  have "database_ok db'" unfolding u
    by (rule database_ok_put [OF ok t(1) _ drop(2)]) (auto simp: keeps_keys_def)
  moreover have "run_ddl eng [DropColumn n c] db' = Inr db"
    unfolding u by (simp add: on_table_back [where g = "drop_column c", OF drop(1) t(1)] unless_needed_ok [OF refl ok])
  ultimately show "database_ok db' \<and> run_ddl eng [DropColumn n c] db' = Inr db" ..
qed

text \<open>A key that is extended by a column with one value in all rows says nothing more.\<close>

lemma key_values_constant:
  assumes "\<forall>r \<in> set rows. a \<in> set (keys r) \<and> b \<notin> set (keys r)"
  shows "key_values [a, b] (map (\<lambda>r. r @ [(b, Some v)]) rows) = map (\<lambda>k. k @ [Some v]) (key_values [a] rows)"
  using assms by (induction rows) (auto simp: key_values_def cell_append cell_new)

lemma distinct_key_constant:
  assumes "\<forall>r \<in> set rows. a \<in> set (keys r) \<and> b \<notin> set (keys r)"
  shows "distinct (key_values [a, b] (map (\<lambda>r. r @ [(b, Some v)]) rows)) \<longleftrightarrow> distinct (key_values [a] rows)"
  unfolding key_values_constant [OF assms] by (simp add: distinct_map inj_on_def)

section \<open>Comparing two schemas\<close>

text \<open>
  What \<^verbatim>\<open>alembic check\<close> would report of the tables a program expects and the tables there are:
  names, types and nullability of columns, constraints (up to the name of a foreign key) and indexes.
\<close>

datatype difference =
    MissingTable string | UnexpectedTable string
  | MissingColumn string string | UnexpectedColumn string string
  | MissingConstraint string sql_constraint | UnexpectedConstraint string sql_constraint
  | MissingIndex string string | UnexpectedIndex string string

definition column_shape :: "sql_column \<Rightarrow> string \<times> sql_type \<times> bool" where
  "column_shape c = (cl_name c, cl_type c, cl_nullable c)"

fun constraint_shape :: "sql_constraint \<Rightarrow> sql_constraint" where
  "constraint_shape (ForeignKey _ cs m rcs d k) = ForeignKey None cs m rcs d k"
| "constraint_shape c = c"

definition lacking :: "'a list \<Rightarrow> ('b \<Rightarrow> 'a) \<Rightarrow> ('b \<Rightarrow> 'c) \<Rightarrow> 'b list \<Rightarrow> 'c list" where
  "lacking xs shape report ys = map report (filter (\<lambda>y. shape y \<notin> set xs) ys)"

definition table_diff :: "string \<Rightarrow> sql_table \<Rightarrow> sql_table \<Rightarrow> difference list" where
  "table_diff n expected actual =
     lacking (map column_shape (sb_columns actual)) column_shape (\<lambda>c. MissingColumn n (cl_name c)) (sb_columns expected) @
     lacking (map column_shape (sb_columns expected)) column_shape (\<lambda>c. UnexpectedColumn n (cl_name c)) (sb_columns actual) @
     lacking (map constraint_shape (sb_constraints actual)) constraint_shape (MissingConstraint n) (sb_constraints expected) @
     lacking (map constraint_shape (sb_constraints expected)) constraint_shape (UnexpectedConstraint n) (sb_constraints actual) @
     lacking (sb_indexes actual) id (\<lambda>x. MissingIndex n (sx_name x)) (sb_indexes expected) @
     lacking (sb_indexes expected) id (\<lambda>x. UnexpectedIndex n (sx_name x)) (sb_indexes actual)"

definition schema_diff :: "(string, sql_table) dict \<Rightarrow> (string, sql_table) dict \<Rightarrow> difference list" where
  "schema_diff expected actual =
     concat (map (\<lambda>(n, t). case map_of actual n of None \<Rightarrow> [MissingTable n] | Some u \<Rightarrow> table_diff n t u) expected) @
     lacking (keys expected) id UnexpectedTable (keys actual)"

lemma lacking_Nil_iff: "lacking xs shape report ys = [] \<longleftrightarrow> shape ` set ys \<subseteq> set xs"
  by (auto simp: lacking_def filter_empty_conv)

lemma table_diff_Nil_iff:
  "table_diff n t u = [] \<longleftrightarrow>
     column_shape ` set (sb_columns t) = column_shape ` set (sb_columns u) \<and>
     constraint_shape ` set (sb_constraints t) = constraint_shape ` set (sb_constraints u) \<and>
     set (sb_indexes t) = set (sb_indexes u)"
  by (auto simp: table_diff_def lacking_Nil_iff)

end
