(* ===== verification/Models.thy ===== *)
theory Models
  imports Schema
begin

text \<open>
  The tables that the object-relational mapping expects, one definition per class of
  \<^verbatim>\<open>infrastructure/postgres/models.py\<close> in the order of the file: the columns with their types,
  nullability and server defaults, then the keys (the primary key, the foreign keys and unique flags
  of the columns, the table arguments), then the indexes. Defaults that Python computes before an
  insert, and the relationships between classes, are no part of the tables.
\<close>

definition model_Source :: "string \<times> sql_table" where
  "model_Source =
     (''sources'',
      \<lparr>sb_columns =
         [col ''source_id'' SqlUuid False NoDefault, col ''source_type'' (SqlString (Some 50)) False NoDefault,
          col ''uri'' SqlText False NoDefault, col ''classification'' (SqlString (Some 100)) False NoDefault,
          col ''tenant_id'' (SqlString (Some 255)) False NoDefault,
          col ''allowed_principals'' (SqlArray (SqlString None)) False NoDefault,
          col ''is_active'' SqlBoolean False NoDefault, col ''deactivated_at'' SqlTimestamptz True NoDefault,
          col ''created_at'' SqlTimestamptz False (ExpressionDefault ''now()''),
          col ''updated_at'' SqlTimestamptz False (ExpressionDefault ''now()'')],
       sb_constraints =
         [PrimaryKey [''source_id''],
          Unique (Some ''uq_sources_tenant_type_uri'') [''tenant_id'', ''source_type'', ''uri'']],
       sb_indexes = [], sb_rows = []\<rparr>)"

definition model_SourceSyncState :: "string \<times> sql_table" where
  "model_SourceSyncState =
     (''source_sync_state'',
      \<lparr>sb_columns =
         [col ''id'' SqlUuid False NoDefault, col ''source_id'' SqlUuid False NoDefault,
          col ''last_sync_at'' SqlTimestamptz True NoDefault, col ''last_checksum'' SqlText True NoDefault,
          col ''sync_status'' (SqlString (Some 50)) False NoDefault, col ''error_message'' SqlText True NoDefault,
          col ''updated_at'' SqlTimestamptz False (ExpressionDefault ''now()'')],
       sb_constraints =
         [PrimaryKey [''id''], ForeignKey None [''source_id''] ''sources'' [''source_id''] Cascade False,
          Unique None [''source_id'']],
       sb_indexes = [], sb_rows = []\<rparr>)"

definition model_Document :: "string \<times> sql_table" where
  "model_Document =
     (''documents'',
      \<lparr>sb_columns =
         [col ''document_id'' SqlUuid False NoDefault, col ''source_id'' SqlUuid False NoDefault,
          col ''source_locator'' SqlText False NoDefault, col ''title'' SqlText False NoDefault,
          col ''media_type'' (SqlString (Some 100)) False NoDefault,
          col ''current_version_id'' SqlUuid True NoDefault,
          col ''created_at'' SqlTimestamptz False (ExpressionDefault ''now()''),
          col ''updated_at'' SqlTimestamptz False (ExpressionDefault ''now()'')],
       sb_constraints =
         [PrimaryKey [''document_id''], ForeignKey None [''source_id''] ''sources'' [''source_id''] Cascade False,
          Unique (Some ''uq_documents_source_locator'') [''source_id'', ''source_locator''],
          ForeignKey (Some ''fk_documents_current_version_id_document_versions'') [''document_id'', ''current_version_id''] ''document_versions'' [''document_id'', ''version_id''] SetNull True],
       sb_indexes = [], sb_rows = []\<rparr>)"

definition model_DocumentVersion :: "string \<times> sql_table" where
  "model_DocumentVersion =
     (''document_versions'',
      \<lparr>sb_columns =
         [col ''version_id'' SqlUuid False NoDefault, col ''document_id'' SqlUuid False NoDefault,
          col ''checksum'' SqlText False NoDefault, col ''content'' SqlText False NoDefault,
          col ''doc_metadata'' SqlJsonb False NoDefault, col ''effective_at'' SqlTimestamptz True NoDefault,
          col ''is_current'' SqlBoolean False NoDefault,
          col ''created_at'' SqlTimestamptz False (ExpressionDefault ''now()'')],
       sb_constraints =
         [PrimaryKey [''version_id''],
          ForeignKey None [''document_id''] ''documents'' [''document_id''] Restrict False,
          Unique (Some ''uq_document_versions_document_id_version_id'') [''document_id'', ''version_id''],
          Unique (Some ''uq_document_versions_document_id_checksum'') [''document_id'', ''checksum'']],
       sb_indexes = [idx ''ix_document_versions_document_id'' [''document_id''],
          idx ''ix_document_versions_checksum'' [''checksum''],
          \<lparr>sx_name = ''ix_document_versions_current'', sx_columns = [''document_id''], sx_unique = True, sx_where = (Some ''is_current = true'')\<rparr>], sb_rows = []\<rparr>)"

definition model_Chunk :: "string \<times> sql_table" where
  "model_Chunk =
     (''chunks'',
      \<lparr>sb_columns =
         [col ''chunk_id'' SqlUuid False NoDefault, col ''document_id'' SqlUuid False NoDefault,
          col ''version_id'' SqlUuid False NoDefault, col ''ordinal'' SqlInteger False NoDefault,
          col ''heading_path'' (SqlArray (SqlString None)) False NoDefault,
          col ''content'' SqlText False NoDefault, col ''token_count'' SqlInteger False NoDefault,
          col ''checksum'' SqlText False NoDefault, col ''start_locator'' SqlText True NoDefault,
          col ''end_locator'' SqlText True NoDefault,
          col ''allowed_principals'' (SqlArray (SqlString None)) False NoDefault,
          col ''chunker_version'' (SqlString (Some 20)) False (LiteralDefault ''v1''),
          col ''configuration_hash'' (SqlString (Some 32)) False (LiteralDefault ''''),
          col ''created_at'' SqlTimestamptz False (ExpressionDefault ''now()'')],
       sb_constraints =
         [PrimaryKey [''chunk_id''],
          ForeignKey None [''document_id''] ''documents'' [''document_id''] Restrict False,
          ForeignKey None [''document_id'', ''version_id''] ''document_versions'' [''document_id'', ''version_id''] Cascade False],
       sb_indexes = [idx ''ix_chunks_document_id'' [''document_id''], idx ''ix_chunks_version_id'' [''version_id''],
          idx ''ix_chunks_checksum'' [''checksum'']], sb_rows = []\<rparr>)"

definition model_ChunkEmbedding :: "string \<times> sql_table" where
  "model_ChunkEmbedding =
     (''chunk_embeddings'',
      \<lparr>sb_columns =
         [col ''chunk_id'' SqlUuid False NoDefault, col ''index_version_id'' SqlUuid False NoDefault,
          col ''embedding'' (SqlVector 1536) False NoDefault,
          col ''created_at'' SqlTimestamptz False (ExpressionDefault ''now()'')],
       sb_constraints =
         [PrimaryKey [''chunk_id'', ''index_version_id''],
          ForeignKey None [''chunk_id''] ''chunks'' [''chunk_id''] Cascade False,
          ForeignKey None [''index_version_id''] ''index_versions'' [''version_id''] Cascade False],
       sb_indexes = [], sb_rows = []\<rparr>)"

definition model_IngestionRun :: "string \<times> sql_table" where
  "model_IngestionRun =
     (''ingestion_runs'',
      \<lparr>sb_columns =
         [col ''run_id'' SqlUuid False NoDefault, col ''source_id'' SqlUuid False NoDefault,
          col ''status'' (SqlString (Some 50)) False NoDefault, col ''started_at'' SqlTimestamptz True NoDefault,
          col ''finished_at'' SqlTimestamptz True NoDefault,
          col ''documents_ingested'' SqlInteger False NoDefault,
          col ''chunks_created'' SqlInteger False NoDefault, col ''errors'' SqlJsonb False NoDefault,
          col ''created_at'' SqlTimestamptz False (ExpressionDefault ''now()'')],
       sb_constraints =
         [PrimaryKey [''run_id''], ForeignKey None [''source_id''] ''sources'' [''source_id''] Cascade False],
       sb_indexes = [idx ''ix_ingestion_runs_source_id'' [''source_id''], idx ''ix_ingestion_runs_status'' [''status'']], sb_rows = []\<rparr>)"

definition model_IngestionStep :: "string \<times> sql_table" where
  "model_IngestionStep =
     (''ingestion_steps'',
      \<lparr>sb_columns =
         [col ''step_id'' SqlUuid False NoDefault, col ''run_id'' SqlUuid False NoDefault,
          col ''name'' (SqlString (Some 100)) False NoDefault,
          col ''status'' (SqlString (Some 50)) False NoDefault, col ''attempt'' SqlInteger False NoDefault,
          col ''input'' SqlJsonb False NoDefault, col ''output'' SqlJsonb False NoDefault,
          col ''error'' SqlText True NoDefault, col ''started_at'' SqlTimestamptz True NoDefault,
          col ''finished_at'' SqlTimestamptz True NoDefault,
          col ''created_at'' SqlTimestamptz False (ExpressionDefault ''now()'')],
       sb_constraints =
         [PrimaryKey [''step_id''], ForeignKey None [''run_id''] ''ingestion_runs'' [''run_id''] Cascade False],
       sb_indexes = [idx ''ix_ingestion_steps_run_id'' [''run_id'']], sb_rows = []\<rparr>)"

definition model_ExecutionRun :: "string \<times> sql_table" where
  "model_ExecutionRun =
     (''execution_runs'',
      \<lparr>sb_columns =
         [col ''run_id'' SqlUuid False NoDefault, col ''workflow'' (SqlString (Some 100)) False NoDefault,
          col ''status'' (SqlString (Some 50)) False NoDefault,
          col ''principal'' (SqlString (Some 255)) False NoDefault,
          col ''tenant_id'' (SqlString (Some 255)) False NoDefault, col ''input'' SqlJsonb False NoDefault,
          col ''output'' SqlJsonb False NoDefault, col ''started_at'' SqlTimestamptz True NoDefault,
          col ''finished_at'' SqlTimestamptz True NoDefault,
          col ''error_code'' (SqlString (Some 50)) True NoDefault, col ''error_message'' SqlText True NoDefault,
          col ''index_version_id'' SqlUuid True NoDefault,
          col ''prompt_version_id'' (SqlString (Some 100)) True NoDefault,
          col ''model_version'' (SqlString (Some 100)) True NoDefault,
          col ''created_at'' SqlTimestamptz False (ExpressionDefault ''now()'')],
       sb_constraints =
         [PrimaryKey [''run_id'']],
       sb_indexes = [idx ''ix_execution_runs_workflow'' [''workflow''], idx ''ix_execution_runs_status'' [''status''],
          idx ''ix_execution_runs_tenant_id'' [''tenant_id'']], sb_rows = []\<rparr>)"

definition model_ExecutionStep :: "string \<times> sql_table" where
  "model_ExecutionStep =
     (''execution_steps'',
      \<lparr>sb_columns =
         [col ''step_id'' SqlUuid False NoDefault, col ''run_id'' SqlUuid False NoDefault,
          col ''name'' (SqlString (Some 100)) False NoDefault,
          col ''status'' (SqlString (Some 50)) False NoDefault, col ''attempt'' SqlInteger False NoDefault,
          col ''depends_on'' (SqlArray SqlUuid) False NoDefault, col ''input'' SqlJsonb False NoDefault,
          col ''output'' SqlJsonb False NoDefault, col ''started_at'' SqlTimestamptz True NoDefault,
          col ''finished_at'' SqlTimestamptz True NoDefault,
          col ''error_code'' (SqlString (Some 50)) True NoDefault, col ''error_message'' SqlText True NoDefault,
          col ''created_at'' SqlTimestamptz False (ExpressionDefault ''now()'')],
       sb_constraints =
         [PrimaryKey [''step_id''], ForeignKey None [''run_id''] ''execution_runs'' [''run_id''] Cascade False],
       sb_indexes = [idx ''ix_execution_steps_run_id'' [''run_id'']], sb_rows = []\<rparr>)"

definition model_RetrievalResult :: "string \<times> sql_table" where
  "model_RetrievalResult =
     (''retrieval_results'',
      \<lparr>sb_columns =
         [col ''result_id'' SqlUuid False NoDefault, col ''run_id'' SqlUuid False NoDefault,
          col ''evidence_id'' SqlUuid False NoDefault,
          col ''retrieval_method'' (SqlString (Some 50)) False NoDefault,
          col ''vector_score'' SqlFloat True NoDefault, col ''rerank_score'' SqlFloat True NoDefault,
          col ''rank'' SqlInteger False NoDefault,
          col ''created_at'' SqlTimestamptz False (ExpressionDefault ''now()'')],
       sb_constraints =
         [PrimaryKey [''result_id''], ForeignKey None [''run_id''] ''execution_runs'' [''run_id''] Cascade False],
       sb_indexes = [idx ''ix_retrieval_results_run_id'' [''run_id''],
          idx ''ix_retrieval_results_evidence_id'' [''evidence_id'']], sb_rows = []\<rparr>)"

definition model_AnswerClaim :: "string \<times> sql_table" where
  "model_AnswerClaim =
     (''answer_claims'',
      \<lparr>sb_columns =
         [col ''claim_id'' SqlUuid False NoDefault, col ''run_id'' SqlUuid False NoDefault,
          col ''text'' SqlText False NoDefault, col ''factual'' SqlBoolean False NoDefault,
          col ''support_status'' (SqlString (Some 50)) False NoDefault,
          col ''evidence_ids'' (SqlArray SqlUuid) False NoDefault,
          col ''created_at'' SqlTimestamptz False (ExpressionDefault ''now()'')],
       sb_constraints =
         [PrimaryKey [''claim_id''], ForeignKey None [''run_id''] ''execution_runs'' [''run_id''] Cascade False],
       sb_indexes = [idx ''ix_answer_claims_run_id'' [''run_id'']], sb_rows = []\<rparr>)"

definition model_Citation :: "string \<times> sql_table" where
  "model_Citation =
     (''citations'',
      \<lparr>sb_columns =
         [col ''citation_id'' SqlUuid False NoDefault, col ''claim_id'' SqlUuid False NoDefault,
          col ''evidence_id'' SqlUuid False NoDefault, col ''locator'' SqlText False NoDefault,
          col ''created_at'' SqlTimestamptz False (ExpressionDefault ''now()'')],
       sb_constraints =
         [PrimaryKey [''citation_id''],
          ForeignKey None [''claim_id''] ''answer_claims'' [''claim_id''] Cascade False],
       sb_indexes = [idx ''ix_citations_claim_id'' [''claim_id'']], sb_rows = []\<rparr>)"

definition model_UserFeedback :: "string \<times> sql_table" where
  "model_UserFeedback =
     (''user_feedback'',
      \<lparr>sb_columns =
         [col ''feedback_id'' SqlUuid False NoDefault, col ''run_id'' SqlUuid False NoDefault,
          col ''vote'' (SqlString (Some 20)) False NoDefault,
          col ''category'' (SqlString (Some 100)) True NoDefault, col ''notes'' SqlText True NoDefault,
          col ''correction'' SqlText True NoDefault,
          col ''created_at'' SqlTimestamptz False (ExpressionDefault ''now()'')],
       sb_constraints =
         [PrimaryKey [''feedback_id''], ForeignKey None [''run_id''] ''execution_runs'' [''run_id''] Cascade False],
       sb_indexes = [idx ''ix_user_feedback_run_id'' [''run_id'']], sb_rows = []\<rparr>)"

definition model_PromptVersion :: "string \<times> sql_table" where
  "model_PromptVersion =
     (''prompt_versions'',
      \<lparr>sb_columns =
         [col ''version_id'' SqlUuid False NoDefault, col ''bundle_id'' (SqlString (Some 100)) False NoDefault,
          col ''version'' (SqlString (Some 50)) False NoDefault, col ''prompt_template'' SqlJsonb False NoDefault,
          col ''model_name'' (SqlString (Some 100)) False NoDefault,
          col ''created_at'' SqlTimestamptz False (ExpressionDefault ''now()'')],
       sb_constraints =
         [PrimaryKey [''version_id''],
          Unique (Some ''uq_prompt_versions_bundle_version'') [''bundle_id'', ''version'']],
       sb_indexes = [idx ''ix_prompt_versions_bundle_id'' [''bundle_id'']], sb_rows = []\<rparr>)"

definition model_ModelConfigVersion :: "string \<times> sql_table" where
  "model_ModelConfigVersion =
     (''model_config_versions'',
      \<lparr>sb_columns =
         [col ''version_id'' SqlUuid False NoDefault, col ''config_key'' (SqlString (Some 100)) False NoDefault,
          col ''version'' (SqlString (Some 50)) False NoDefault, col ''config'' SqlJsonb False NoDefault,
          col ''created_at'' SqlTimestamptz False (ExpressionDefault ''now()'')],
       sb_constraints =
         [PrimaryKey [''version_id''], Unique (Some ''uq_model_config_key_version'') [''config_key'', ''version'']],
       sb_indexes = [idx ''ix_model_config_versions_config_key'' [''config_key'']], sb_rows = []\<rparr>)"

definition model_IndexVersion :: "string \<times> sql_table" where
  "model_IndexVersion =
     (''index_versions'',
      \<lparr>sb_columns =
         [col ''version_id'' SqlUuid False NoDefault, col ''index_name'' (SqlString (Some 100)) False NoDefault,
          col ''version'' (SqlString (Some 50)) False NoDefault,
          col ''embedding_model'' (SqlString (Some 100)) False NoDefault,
          col ''embedding_dimensions'' SqlInteger False NoDefault,
          col ''chunker_version'' (SqlString (Some 50)) False NoDefault,
          col ''is_active'' SqlBoolean False NoDefault,
          col ''created_at'' SqlTimestamptz False (ExpressionDefault ''now()'')],
       sb_constraints =
         [PrimaryKey [''version_id''], Unique (Some ''uq_index_name_version'') [''index_name'', ''version'']],
       sb_indexes = [idx ''ix_index_versions_index_name'' [''index_name''],
          \<lparr>sx_name = ''ix_index_versions_active'', sx_columns = [''index_name''], sx_unique = True, sx_where = (Some ''is_active = true'')\<rparr>], sb_rows = []\<rparr>)"

definition model_Outbox :: "string \<times> sql_table" where
  "model_Outbox =
     (''outbox'',
      \<lparr>sb_columns =
         [col ''event_id'' SqlUuid False NoDefault, col ''aggregate_type'' (SqlString (Some 50)) False NoDefault,
          col ''aggregate_id'' SqlUuid False NoDefault, col ''event_type'' (SqlString (Some 50)) False NoDefault,
          col ''payload'' SqlJsonb False NoDefault, col ''status'' (SqlString (Some 20)) False NoDefault,
          col ''attempts'' SqlInteger False NoDefault, col ''last_error'' SqlText True NoDefault,
          col ''available_at'' SqlTimestamptz False (ExpressionDefault ''now()''),
          col ''created_at'' SqlTimestamptz False (ExpressionDefault ''now()''),
          col ''claimed_by'' (SqlString (Some 255)) True NoDefault,
          col ''claim_token'' (SqlString (Some 64)) True NoDefault,
          col ''claimed_at'' SqlTimestamptz True NoDefault,
          col ''lease_expires_at'' SqlTimestamptz True NoDefault,
          col ''completed_at'' SqlTimestamptz True NoDefault],
       sb_constraints =
         [PrimaryKey [''event_id'']],
       sb_indexes = [idx ''ix_outbox_status_available_created'' [''status'', ''available_at'', ''created_at''],
          idx ''ix_outbox_aggregate'' [''aggregate_type'', ''aggregate_id'']], sb_rows = []\<rparr>)"

definition model_EvaluationDataset :: "string \<times> sql_table" where
  "model_EvaluationDataset =
     (''evaluation_datasets'',
      \<lparr>sb_columns =
         [col ''dataset_id'' SqlUuid False NoDefault, col ''name'' (SqlString (Some 255)) False NoDefault,
          col ''version'' (SqlString (Some 50)) False NoDefault, col ''description'' SqlText True NoDefault,
          col ''case_count'' SqlInteger False NoDefault,
          col ''created_at'' SqlTimestamptz False (ExpressionDefault ''now()'')],
       sb_constraints =
         [PrimaryKey [''dataset_id''], Unique (Some ''uq_eval_dataset_name_version'') [''name'', ''version'']],
       sb_indexes = [], sb_rows = []\<rparr>)"

definition model_EvaluationCase :: "string \<times> sql_table" where
  "model_EvaluationCase =
     (''evaluation_cases'',
      \<lparr>sb_columns =
         [col ''case_id'' SqlUuid False NoDefault, col ''dataset_id'' SqlUuid False NoDefault,
          col ''case_key'' (SqlString (Some 100)) False NoDefault, col ''question'' SqlText False NoDefault,
          col ''question_type'' (SqlString (Some 50)) False NoDefault,
          col ''answerable'' SqlBoolean False NoDefault, col ''expected_answer'' SqlText True NoDefault,
          col ''required_evidence_ids'' (SqlArray (SqlString None)) False NoDefault,
          col ''acceptable_evidence_ids'' (SqlArray (SqlString None)) False NoDefault,
          col ''valid_at'' SqlTimestamptz True NoDefault,
          col ''principal_scope'' (SqlArray (SqlString None)) False NoDefault,
          col ''tags'' (SqlArray (SqlString None)) False NoDefault, col ''human_notes'' SqlText True NoDefault,
          col ''created_at'' SqlTimestamptz False (ExpressionDefault ''now()'')],
       sb_constraints =
         [PrimaryKey [''case_id''],
          ForeignKey None [''dataset_id''] ''evaluation_datasets'' [''dataset_id''] Cascade False,
          Unique (Some ''uq_eval_case_dataset_key'') [''dataset_id'', ''case_key'']],
       sb_indexes = [idx ''ix_evaluation_cases_dataset_id'' [''dataset_id'']], sb_rows = []\<rparr>)"

definition model_EvaluationRun :: "string \<times> sql_table" where
  "model_EvaluationRun =
     (''evaluation_runs'',
      \<lparr>sb_columns =
         [col ''run_id'' SqlUuid False NoDefault, col ''dataset_id'' SqlUuid False NoDefault,
          col ''config'' SqlJsonb False NoDefault, col ''status'' (SqlString (Some 50)) False NoDefault,
          col ''started_at'' SqlTimestamptz True NoDefault, col ''finished_at'' SqlTimestamptz True NoDefault,
          col ''created_at'' SqlTimestamptz False (ExpressionDefault ''now()'')],
       sb_constraints =
         [PrimaryKey [''run_id''],
          ForeignKey None [''dataset_id''] ''evaluation_datasets'' [''dataset_id''] Cascade False],
       sb_indexes = [idx ''ix_evaluation_runs_dataset_id'' [''dataset_id''], idx ''ix_evaluation_runs_status'' [''status'']], sb_rows = []\<rparr>)"

definition model_EvaluationResult :: "string \<times> sql_table" where
  "model_EvaluationResult =
     (''evaluation_results'',
      \<lparr>sb_columns =
         [col ''result_id'' SqlUuid False NoDefault, col ''run_id'' SqlUuid False NoDefault,
          col ''case_id'' SqlUuid False NoDefault, col ''metrics'' SqlJsonb False NoDefault,
          col ''created_at'' SqlTimestamptz False (ExpressionDefault ''now()'')],
       sb_constraints =
         [PrimaryKey [''result_id''], ForeignKey None [''run_id''] ''evaluation_runs'' [''run_id''] Cascade False,
          ForeignKey None [''case_id''] ''evaluation_cases'' [''case_id''] Cascade False],
       sb_indexes = [idx ''ix_evaluation_results_run_id'' [''run_id''], idx ''ix_evaluation_results_case_id'' [''case_id'']], sb_rows = []\<rparr>)"

definition model_HumanReviewItem :: "string \<times> sql_table" where
  "model_HumanReviewItem =
     (''human_review_items'',
      \<lparr>sb_columns =
         [col ''review_id'' SqlUuid False NoDefault, col ''case_id'' SqlUuid True NoDefault,
          col ''run_id'' SqlUuid True NoDefault, col ''item_type'' (SqlString (Some 50)) False NoDefault,
          col ''content'' SqlJsonb False NoDefault, col ''decision'' (SqlString (Some 20)) True NoDefault,
          col ''decided_by'' (SqlString (Some 255)) True NoDefault,
          col ''decided_at'' SqlTimestamptz True NoDefault,
          col ''created_at'' SqlTimestamptz False (ExpressionDefault ''now()'')],
       sb_constraints =
         [PrimaryKey [''review_id''], ForeignKey None [''run_id''] ''execution_runs'' [''run_id''] SetNull False],
       sb_indexes = [idx ''ix_human_review_items_run_id'' [''run_id''], idx ''ix_human_review_items_decision'' [''decision'']], sb_rows = []\<rparr>)"

definition model_ImprovementProposal :: "string \<times> sql_table" where
  "model_ImprovementProposal =
     (''improvement_proposals'',
      \<lparr>sb_columns =
         [col ''proposal_id'' SqlUuid False NoDefault, col ''tenant_id'' (SqlString (Some 100)) False NoDefault,
          col ''failure_cluster_id'' (SqlString (Some 255)) True NoDefault,
          col ''status'' (SqlString (Some 20)) False NoDefault, col ''baseline_config'' SqlJsonb False NoDefault,
          col ''proposal_config'' SqlJsonb False NoDefault, col ''eval_run_id'' SqlUuid True NoDefault,
          col ''eval_result'' SqlJsonb True NoDefault, col ''approver'' (SqlString (Some 255)) True NoDefault,
          col ''approved_at'' SqlTimestamptz True NoDefault, col ''canary_result'' SqlJsonb True NoDefault,
          col ''deployment_result'' SqlJsonb True NoDefault, col ''rolled_back_at'' SqlTimestamptz True NoDefault,
          col ''rollback_reason'' SqlText True NoDefault,
          col ''created_at'' SqlTimestamptz False (ExpressionDefault ''now()''),
          col ''updated_at'' SqlTimestamptz False (ExpressionDefault ''now()'')],
       sb_constraints =
         [PrimaryKey [''proposal_id''],
          ForeignKey None [''eval_run_id''] ''evaluation_runs'' [''run_id''] SetNull False],
       sb_indexes = [idx ''ix_improvement_proposals_tenant_id'' [''tenant_id''],
          idx ''ix_improvement_proposals_status'' [''status''],
          idx ''ix_improvement_proposals_failure_cluster'' [''failure_cluster_id'']], sb_rows = []\<rparr>)"

definition model_IngestionCheckpoint :: "string \<times> sql_table" where
  "model_IngestionCheckpoint =
     (''ingestion_checkpoints'',
      \<lparr>sb_columns =
         [col ''checkpoint_id'' SqlUuid False NoDefault, col ''source_id'' SqlUuid False NoDefault,
          col ''canonical_locator'' SqlText False NoDefault, col ''content_checksum'' SqlText False NoDefault,
          col ''status'' (SqlString (Some 50)) False NoDefault, col ''document_id'' SqlUuid True NoDefault,
          col ''version_id'' SqlUuid True NoDefault, col ''error_message'' SqlText True NoDefault,
          col ''created_at'' SqlTimestamptz False (ExpressionDefault ''now()''),
          col ''updated_at'' SqlTimestamptz False (ExpressionDefault ''now()''),
          col ''completed_at'' SqlTimestamptz True NoDefault],
       sb_constraints =
         [PrimaryKey [''checkpoint_id''],
          ForeignKey None [''source_id''] ''sources'' [''source_id''] Cascade False,
          Unique (Some ''uq_ingestion_checkpoints_source_locator_checksum'') [''source_id'', ''canonical_locator'', ''content_checksum'']],
       sb_indexes = [idx ''ix_ingestion_checkpoints_source_id'' [''source_id''],
          idx ''ix_ingestion_checkpoints_status'' [''status'']], sb_rows = []\<rparr>)"

definition models :: "(string, sql_table) dict" where
  "models =
     [model_Source, model_SourceSyncState, model_Document, model_DocumentVersion, model_Chunk,
      model_ChunkEmbedding, model_IngestionRun, model_IngestionStep, model_ExecutionRun,
      model_ExecutionStep, model_RetrievalResult, model_AnswerClaim, model_Citation,
      model_UserFeedback, model_PromptVersion, model_ModelConfigVersion, model_IndexVersion,
      model_Outbox, model_EvaluationDataset, model_EvaluationCase, model_EvaluationRun,
      model_EvaluationResult, model_HumanReviewItem, model_ImprovementProposal,
      model_IngestionCheckpoint]"

end
