(* ===== verification/Migrations.thy ===== *)
theory Migrations
  imports Models
begin

text \<open>
  The nine migration scripts of \<^verbatim>\<open>src/migrations/versions\<close>, statement by statement: the
  upgrade and the downgrade of each, the links between them, and the commands that run them. The first
  script is one definition per table, in the order of the file. What is shown: every downgrade gives
  back the database its upgrade started from, with its rows; on an empty database the chain succeeds and
  makes the tables of the mapping, except for three columns that no script creates; and the script
  that adds locators fails on a database with two documents of one source.
\<close>

section \<open>Scripts\<close>

record revision =
  rv_id :: string
  rv_down :: "string option"
  rv_upgrade :: "ddl list"
  rv_downgrade :: "ddl list"

definition create_sources :: "ddl list" where
  "create_sources =
     [CreateExtension ''vector'',
      CreateTable ''sources''
        [col ''source_id'' SqlUuid False NoDefault, col ''source_type'' (SqlString (Some 50)) False NoDefault,
         col ''uri'' SqlText False NoDefault, col ''classification'' (SqlString (Some 100)) False NoDefault,
         col ''tenant_id'' (SqlString (Some 255)) False NoDefault,
         col ''allowed_principals'' (SqlArray (SqlString None)) False (ExpressionDefault (CHR 0x27 # ''{}'' @ [CHR 0x27])),
         col ''created_at'' SqlTimestamptz False (ExpressionDefault ''now()''),
         col ''updated_at'' SqlTimestamptz False (ExpressionDefault ''now()'')]
        [PrimaryKey [''source_id'']]]"

definition create_source_sync_state :: "ddl list" where
  "create_source_sync_state =
     [CreateTable ''source_sync_state''
        [col ''id'' SqlUuid False NoDefault, col ''source_id'' SqlUuid False NoDefault,
         col ''last_sync_at'' SqlTimestamptz True NoDefault, col ''last_checksum'' SqlText True NoDefault,
         col ''sync_status'' (SqlString (Some 50)) False NoDefault, col ''error_message'' SqlText True NoDefault,
         col ''updated_at'' SqlTimestamptz False (ExpressionDefault ''now()'')]
        [ForeignKey None [''source_id''] ''sources'' [''source_id''] Cascade False, PrimaryKey [''id''],
         Unique None [''source_id'']]]"

definition create_documents :: "ddl list" where
  "create_documents =
     [CreateTable ''documents''
        [col ''document_id'' SqlUuid False NoDefault, col ''source_id'' SqlUuid False NoDefault,
         col ''title'' SqlText False NoDefault, col ''media_type'' (SqlString (Some 100)) False NoDefault,
         col ''current_version_id'' SqlUuid True NoDefault,
         col ''created_at'' SqlTimestamptz False (ExpressionDefault ''now()''),
         col ''updated_at'' SqlTimestamptz False (ExpressionDefault ''now()'')]
        [PrimaryKey [''document_id''], ForeignKey None [''source_id''] ''sources'' [''source_id''] Cascade False]]"

definition create_document_versions :: "ddl list" where
  "create_document_versions =
     [CreateTable ''document_versions''
        [col ''version_id'' SqlUuid False NoDefault, col ''document_id'' SqlUuid False NoDefault,
         col ''checksum'' SqlText False NoDefault, col ''content'' SqlText False NoDefault,
         col ''doc_metadata'' SqlJsonb False (LiteralDefault ''{}''),
         col ''effective_at'' SqlTimestamptz True NoDefault,
         col ''is_current'' SqlBoolean False (LiteralDefault ''true''),
         col ''created_at'' SqlTimestamptz False (ExpressionDefault ''now()'')]
        [ForeignKey None [''document_id''] ''documents'' [''document_id''] Restrict False,
         PrimaryKey [''version_id''],
         Unique (Some ''uq_document_versions_document_id_version_id'') [''document_id'', ''version_id'']],
      CreateIndex ''document_versions'' (idx ''ix_document_versions_document_id'' [''document_id'']),
      CreateIndex ''document_versions'' (idx ''ix_document_versions_checksum'' [''checksum'']),
      CreateIndex ''document_versions'' (\<lparr>sx_name = ''ix_document_versions_current'', sx_columns = [''document_id''], sx_unique = True, sx_where = (Some ''is_current = true'')\<rparr>),
      AddConstraint ''documents'' (ForeignKey (Some ''fk_documents_current_version_id_document_versions'') [''document_id'', ''current_version_id''] ''document_versions'' [''document_id'', ''version_id''] SetNull True)]"

definition create_chunks_table :: "ddl list" where
  "create_chunks_table =
     [CreateTable ''chunks''
        [col ''chunk_id'' SqlUuid False NoDefault, col ''document_id'' SqlUuid False NoDefault,
         col ''version_id'' SqlUuid False NoDefault, col ''ordinal'' SqlInteger False NoDefault,
         col ''heading_path'' (SqlArray (SqlString None)) False (LiteralDefault ''{}''),
         col ''content'' SqlText False NoDefault, col ''token_count'' SqlInteger False NoDefault,
         col ''checksum'' SqlText False NoDefault, col ''start_locator'' SqlText True NoDefault,
         col ''end_locator'' SqlText True NoDefault,
         col ''allowed_principals'' (SqlArray (SqlString None)) False (LiteralDefault ''{}''),
         col ''created_at'' SqlTimestamptz False (ExpressionDefault ''now()'')]
        [ForeignKey None [''document_id''] ''documents'' [''document_id''] Restrict False,
         ForeignKey None [''document_id'', ''version_id''] ''document_versions'' [''document_id'', ''version_id''] Cascade False,
         PrimaryKey [''chunk_id'']],
      CreateIndex ''chunks'' (idx ''ix_chunks_document_id'' [''document_id'']),
      CreateIndex ''chunks'' (idx ''ix_chunks_version_id'' [''version_id'']),
      CreateIndex ''chunks'' (idx ''ix_chunks_checksum'' [''checksum''])]"

definition create_index_versions :: "ddl list" where
  "create_index_versions =
     [CreateTable ''index_versions''
        [col ''version_id'' SqlUuid False NoDefault, col ''index_name'' (SqlString (Some 100)) False NoDefault,
         col ''version'' (SqlString (Some 50)) False NoDefault,
         col ''embedding_model'' (SqlString (Some 100)) False NoDefault,
         col ''embedding_dimensions'' SqlInteger False NoDefault,
         col ''chunker_version'' (SqlString (Some 50)) False NoDefault,
         col ''is_active'' SqlBoolean False (ExpressionDefault ''true''),
         col ''created_at'' SqlTimestamptz False (ExpressionDefault ''now()'')]
        [PrimaryKey [''version_id''], Unique (Some ''uq_index_name_version'') [''index_name'', ''version'']],
      CreateIndex ''index_versions'' (idx ''ix_index_versions_index_name'' [''index_name'']),
      CreateIndex ''index_versions'' (\<lparr>sx_name = ''ix_index_versions_active'', sx_columns = [''index_name''], sx_unique = True, sx_where = (Some ''is_active = true'')\<rparr>)]"

definition create_chunk_embeddings :: "ddl list" where
  "create_chunk_embeddings =
     [CreateTable ''chunk_embeddings''
        [col ''chunk_id'' SqlUuid False NoDefault, col ''index_version_id'' SqlUuid False NoDefault,
         col ''embedding'' (SqlVector 1536) False NoDefault,
         col ''created_at'' SqlTimestamptz False (ExpressionDefault ''now()'')]
        [ForeignKey None [''chunk_id''] ''chunks'' [''chunk_id''] Cascade False,
         ForeignKey None [''index_version_id''] ''index_versions'' [''version_id''] Cascade False,
         PrimaryKey [''chunk_id'', ''index_version_id'']]]"

definition create_ingestion_runs :: "ddl list" where
  "create_ingestion_runs =
     [CreateTable ''ingestion_runs''
        [col ''run_id'' SqlUuid False NoDefault, col ''source_id'' SqlUuid False NoDefault,
         col ''status'' (SqlString (Some 50)) False (LiteralDefault ''pending''),
         col ''started_at'' SqlTimestamptz True NoDefault, col ''finished_at'' SqlTimestamptz True NoDefault,
         col ''documents_ingested'' SqlInteger False (LiteralDefault ''0''),
         col ''chunks_created'' SqlInteger False (LiteralDefault ''0''),
         col ''errors'' SqlJsonb False (LiteralDefault ''[]''),
         col ''created_at'' SqlTimestamptz False (ExpressionDefault ''now()'')]
        [ForeignKey None [''source_id''] ''sources'' [''source_id''] Cascade False, PrimaryKey [''run_id'']],
      CreateIndex ''ingestion_runs'' (idx ''ix_ingestion_runs_source_id'' [''source_id'']),
      CreateIndex ''ingestion_runs'' (idx ''ix_ingestion_runs_status'' [''status''])]"

definition create_ingestion_steps :: "ddl list" where
  "create_ingestion_steps =
     [CreateTable ''ingestion_steps''
        [col ''step_id'' SqlUuid False NoDefault, col ''run_id'' SqlUuid False NoDefault,
         col ''name'' (SqlString (Some 100)) False NoDefault,
         col ''status'' (SqlString (Some 50)) False (LiteralDefault ''pending''),
         col ''attempt'' SqlInteger False (LiteralDefault ''1''),
         col ''input'' SqlJsonb False (LiteralDefault ''{}''),
         col ''output'' SqlJsonb False (LiteralDefault ''{}''), col ''error'' SqlText True NoDefault,
         col ''started_at'' SqlTimestamptz True NoDefault, col ''finished_at'' SqlTimestamptz True NoDefault,
         col ''created_at'' SqlTimestamptz False (ExpressionDefault ''now()'')]
        [ForeignKey None [''run_id''] ''ingestion_runs'' [''run_id''] Cascade False, PrimaryKey [''step_id'']],
      CreateIndex ''ingestion_steps'' (idx ''ix_ingestion_steps_run_id'' [''run_id''])]"

definition create_execution_runs :: "ddl list" where
  "create_execution_runs =
     [CreateTable ''execution_runs''
        [col ''run_id'' SqlUuid False NoDefault, col ''workflow'' (SqlString (Some 100)) False NoDefault,
         col ''status'' (SqlString (Some 50)) False (LiteralDefault ''pending''),
         col ''principal'' (SqlString (Some 255)) False NoDefault,
         col ''tenant_id'' (SqlString (Some 255)) False NoDefault,
         col ''input'' SqlJsonb False (LiteralDefault ''{}''),
         col ''output'' SqlJsonb False (LiteralDefault ''{}''), col ''started_at'' SqlTimestamptz True NoDefault,
         col ''finished_at'' SqlTimestamptz True NoDefault,
         col ''error_code'' (SqlString (Some 50)) True NoDefault, col ''error_message'' SqlText True NoDefault,
         col ''created_at'' SqlTimestamptz False (ExpressionDefault ''now()'')]
        [PrimaryKey [''run_id'']],
      CreateIndex ''execution_runs'' (idx ''ix_execution_runs_workflow'' [''workflow'']),
      CreateIndex ''execution_runs'' (idx ''ix_execution_runs_status'' [''status'']),
      CreateIndex ''execution_runs'' (idx ''ix_execution_runs_tenant_id'' [''tenant_id''])]"

definition create_execution_steps :: "ddl list" where
  "create_execution_steps =
     [CreateTable ''execution_steps''
        [col ''step_id'' SqlUuid False NoDefault, col ''run_id'' SqlUuid False NoDefault,
         col ''name'' (SqlString (Some 100)) False NoDefault,
         col ''status'' (SqlString (Some 50)) False (LiteralDefault ''pending''),
         col ''attempt'' SqlInteger False (LiteralDefault ''1''),
         col ''depends_on'' (SqlArray SqlUuid) False (LiteralDefault ''{}''),
         col ''input'' SqlJsonb False (LiteralDefault ''{}''),
         col ''output'' SqlJsonb False (LiteralDefault ''{}''), col ''started_at'' SqlTimestamptz True NoDefault,
         col ''finished_at'' SqlTimestamptz True NoDefault,
         col ''error_code'' (SqlString (Some 50)) True NoDefault, col ''error_message'' SqlText True NoDefault,
         col ''created_at'' SqlTimestamptz False (ExpressionDefault ''now()'')]
        [ForeignKey None [''run_id''] ''execution_runs'' [''run_id''] Cascade False, PrimaryKey [''step_id'']],
      CreateIndex ''execution_steps'' (idx ''ix_execution_steps_run_id'' [''run_id''])]"

definition create_retrieval_results :: "ddl list" where
  "create_retrieval_results =
     [CreateTable ''retrieval_results''
        [col ''result_id'' SqlUuid False NoDefault, col ''run_id'' SqlUuid False NoDefault,
         col ''evidence_id'' SqlUuid False NoDefault,
         col ''retrieval_method'' (SqlString (Some 50)) False NoDefault,
         col ''vector_score'' SqlFloat True NoDefault, col ''rerank_score'' SqlFloat True NoDefault,
         col ''rank'' SqlInteger False NoDefault,
         col ''created_at'' SqlTimestamptz False (ExpressionDefault ''now()'')]
        [ForeignKey None [''run_id''] ''execution_runs'' [''run_id''] Cascade False, PrimaryKey [''result_id'']],
      CreateIndex ''retrieval_results'' (idx ''ix_retrieval_results_run_id'' [''run_id'']),
      CreateIndex ''retrieval_results'' (idx ''ix_retrieval_results_evidence_id'' [''evidence_id''])]"

definition create_answer_claims :: "ddl list" where
  "create_answer_claims =
     [CreateTable ''answer_claims''
        [col ''claim_id'' SqlUuid False NoDefault, col ''run_id'' SqlUuid False NoDefault,
         col ''text'' SqlText False NoDefault, col ''factual'' SqlBoolean False NoDefault,
         col ''support_status'' (SqlString (Some 50)) False NoDefault,
         col ''evidence_ids'' (SqlArray SqlUuid) False (LiteralDefault ''{}''),
         col ''created_at'' SqlTimestamptz False (ExpressionDefault ''now()'')]
        [ForeignKey None [''run_id''] ''execution_runs'' [''run_id''] Cascade False, PrimaryKey [''claim_id'']],
      CreateIndex ''answer_claims'' (idx ''ix_answer_claims_run_id'' [''run_id''])]"

definition create_citations :: "ddl list" where
  "create_citations =
     [CreateTable ''citations''
        [col ''citation_id'' SqlUuid False NoDefault, col ''claim_id'' SqlUuid False NoDefault,
         col ''evidence_id'' SqlUuid False NoDefault, col ''locator'' SqlText False NoDefault,
         col ''created_at'' SqlTimestamptz False (ExpressionDefault ''now()'')]
        [ForeignKey None [''claim_id''] ''answer_claims'' [''claim_id''] Cascade False,
         PrimaryKey [''citation_id'']],
      CreateIndex ''citations'' (idx ''ix_citations_claim_id'' [''claim_id''])]"

definition create_user_feedback :: "ddl list" where
  "create_user_feedback =
     [CreateTable ''user_feedback''
        [col ''feedback_id'' SqlUuid False NoDefault, col ''run_id'' SqlUuid False NoDefault,
         col ''vote'' (SqlString (Some 20)) False NoDefault, col ''correction'' SqlText True NoDefault,
         col ''created_at'' SqlTimestamptz False (ExpressionDefault ''now()'')]
        [ForeignKey None [''run_id''] ''execution_runs'' [''run_id''] Cascade False, PrimaryKey [''feedback_id'']],
      CreateIndex ''user_feedback'' (idx ''ix_user_feedback_run_id'' [''run_id''])]"

definition create_outbox :: "ddl list" where
  "create_outbox =
     [CreateTable ''outbox''
        [col ''event_id'' SqlUuid False NoDefault, col ''aggregate_type'' (SqlString (Some 50)) False NoDefault,
         col ''aggregate_id'' SqlUuid False NoDefault, col ''event_type'' (SqlString (Some 50)) False NoDefault,
         col ''payload'' SqlJsonb False (LiteralDefault ''{}''),
         col ''status'' (SqlString (Some 20)) False (LiteralDefault ''pending''),
         col ''attempts'' SqlInteger False (LiteralDefault ''0''), col ''last_error'' SqlText True NoDefault,
         col ''available_at'' SqlTimestamptz False (ExpressionDefault ''now()''),
         col ''created_at'' SqlTimestamptz False (ExpressionDefault ''now()''),
         col ''claimed_by'' (SqlString (Some 255)) True NoDefault,
         col ''claim_token'' (SqlString (Some 64)) True NoDefault,
         col ''claimed_at'' SqlTimestamptz True NoDefault,
         col ''lease_expires_at'' SqlTimestamptz True NoDefault,
         col ''completed_at'' SqlTimestamptz True NoDefault]
        [PrimaryKey [''event_id'']],
      CreateIndex ''outbox'' (idx ''ix_outbox_status_available_created'' [''status'', ''available_at'', ''created_at'']),
      CreateIndex ''outbox'' (idx ''ix_outbox_aggregate'' [''aggregate_type'', ''aggregate_id''])]"

definition create_prompt_versions :: "ddl list" where
  "create_prompt_versions =
     [CreateTable ''prompt_versions''
        [col ''version_id'' SqlUuid False NoDefault, col ''bundle_id'' (SqlString (Some 100)) False NoDefault,
         col ''version'' (SqlString (Some 50)) False NoDefault, col ''prompt_template'' SqlJsonb False NoDefault,
         col ''model_name'' (SqlString (Some 100)) False NoDefault,
         col ''created_at'' SqlTimestamptz False (ExpressionDefault ''now()'')]
        [PrimaryKey [''version_id'']],
      CreateIndex ''prompt_versions'' (idx ''ix_prompt_versions_bundle_id'' [''bundle_id'']),
      AddConstraint ''prompt_versions'' (Unique (Some ''uq_prompt_versions_bundle_version'') [''bundle_id'', ''version''])]"

definition create_model_config_versions :: "ddl list" where
  "create_model_config_versions =
     [CreateTable ''model_config_versions''
        [col ''version_id'' SqlUuid False NoDefault, col ''config_key'' (SqlString (Some 100)) False NoDefault,
         col ''version'' (SqlString (Some 50)) False NoDefault, col ''config'' SqlJsonb False NoDefault,
         col ''created_at'' SqlTimestamptz False (ExpressionDefault ''now()'')]
        [PrimaryKey [''version_id'']],
      CreateIndex ''model_config_versions'' (idx ''ix_model_config_versions_config_key'' [''config_key'']),
      AddConstraint ''model_config_versions'' (Unique (Some ''uq_model_config_key_version'') [''config_key'', ''version''])]"

definition create_evaluation_datasets :: "ddl list" where
  "create_evaluation_datasets =
     [CreateTable ''evaluation_datasets''
        [col ''dataset_id'' SqlUuid False NoDefault, col ''name'' (SqlString (Some 255)) False NoDefault,
         col ''version'' (SqlString (Some 50)) False NoDefault, col ''description'' SqlText True NoDefault,
         col ''case_count'' SqlInteger False (LiteralDefault ''0''),
         col ''created_at'' SqlTimestamptz False (ExpressionDefault ''now()'')]
        [PrimaryKey [''dataset_id'']],
      AddConstraint ''evaluation_datasets'' (Unique (Some ''uq_eval_dataset_name_version'') [''name'', ''version''])]"

definition create_evaluation_cases :: "ddl list" where
  "create_evaluation_cases =
     [CreateTable ''evaluation_cases''
        [col ''case_id'' SqlUuid False NoDefault, col ''dataset_id'' SqlUuid False NoDefault,
         col ''case_key'' (SqlString (Some 100)) False NoDefault, col ''question'' SqlText False NoDefault,
         col ''question_type'' (SqlString (Some 50)) False NoDefault,
         col ''answerable'' SqlBoolean False NoDefault, col ''expected_answer'' SqlText True NoDefault,
         col ''required_evidence_ids'' (SqlArray (SqlString None)) False (LiteralDefault ''{}''),
         col ''acceptable_evidence_ids'' (SqlArray (SqlString None)) False (LiteralDefault ''{}''),
         col ''valid_at'' SqlTimestamptz True NoDefault,
         col ''principal_scope'' (SqlArray (SqlString None)) False (LiteralDefault ''{}''),
         col ''tags'' (SqlArray (SqlString None)) False (LiteralDefault ''{}''),
         col ''human_notes'' SqlText True NoDefault,
         col ''created_at'' SqlTimestamptz False (ExpressionDefault ''now()'')]
        [ForeignKey None [''dataset_id''] ''evaluation_datasets'' [''dataset_id''] Cascade False,
         PrimaryKey [''case_id'']],
      CreateIndex ''evaluation_cases'' (idx ''ix_evaluation_cases_dataset_id'' [''dataset_id'']),
      AddConstraint ''evaluation_cases'' (Unique (Some ''uq_eval_case_dataset_key'') [''dataset_id'', ''case_key''])]"

definition create_evaluation_runs :: "ddl list" where
  "create_evaluation_runs =
     [CreateTable ''evaluation_runs''
        [col ''run_id'' SqlUuid False NoDefault, col ''dataset_id'' SqlUuid False NoDefault,
         col ''config'' SqlJsonb False (LiteralDefault ''{}''),
         col ''status'' (SqlString (Some 50)) False (LiteralDefault ''pending''),
         col ''started_at'' SqlTimestamptz True NoDefault, col ''finished_at'' SqlTimestamptz True NoDefault,
         col ''created_at'' SqlTimestamptz False (ExpressionDefault ''now()'')]
        [ForeignKey None [''dataset_id''] ''evaluation_datasets'' [''dataset_id''] Cascade False,
         PrimaryKey [''run_id'']],
      CreateIndex ''evaluation_runs'' (idx ''ix_evaluation_runs_dataset_id'' [''dataset_id'']),
      CreateIndex ''evaluation_runs'' (idx ''ix_evaluation_runs_status'' [''status''])]"

definition create_evaluation_results :: "ddl list" where
  "create_evaluation_results =
     [CreateTable ''evaluation_results''
        [col ''result_id'' SqlUuid False NoDefault, col ''run_id'' SqlUuid False NoDefault,
         col ''case_id'' SqlUuid False NoDefault, col ''metrics'' SqlJsonb False (LiteralDefault ''{}''),
         col ''created_at'' SqlTimestamptz False (ExpressionDefault ''now()'')]
        [ForeignKey None [''run_id''] ''evaluation_runs'' [''run_id''] Cascade False,
         ForeignKey None [''case_id''] ''evaluation_cases'' [''case_id''] Cascade False,
         PrimaryKey [''result_id'']],
      CreateIndex ''evaluation_results'' (idx ''ix_evaluation_results_run_id'' [''run_id'']),
      CreateIndex ''evaluation_results'' (idx ''ix_evaluation_results_case_id'' [''case_id''])]"

definition create_human_review_items :: "ddl list" where
  "create_human_review_items =
     [CreateTable ''human_review_items''
        [col ''review_id'' SqlUuid False NoDefault, col ''case_id'' SqlUuid True NoDefault,
         col ''run_id'' SqlUuid True NoDefault, col ''item_type'' (SqlString (Some 50)) False NoDefault,
         col ''content'' SqlJsonb False (LiteralDefault ''{}''),
         col ''decision'' (SqlString (Some 20)) True NoDefault,
         col ''decided_by'' (SqlString (Some 255)) True NoDefault,
         col ''decided_at'' SqlTimestamptz True NoDefault,
         col ''created_at'' SqlTimestamptz False (ExpressionDefault ''now()'')]
        [ForeignKey None [''run_id''] ''execution_runs'' [''run_id''] SetNull False, PrimaryKey [''review_id'']],
      CreateIndex ''human_review_items'' (idx ''ix_human_review_items_run_id'' [''run_id'']),
      CreateIndex ''human_review_items'' (idx ''ix_human_review_items_decision'' [''decision''])]"

definition upgrade_001 :: "ddl list" where
  "upgrade_001 =
     create_sources @ create_source_sync_state @ create_documents @ create_document_versions @
     create_chunks_table @ create_index_versions @ create_chunk_embeddings @ create_ingestion_runs @
     create_ingestion_steps @ create_execution_runs @ create_execution_steps @ create_retrieval_results @
     create_answer_claims @ create_citations @ create_user_feedback @ create_outbox @
     create_prompt_versions @ create_model_config_versions @ create_evaluation_datasets @
     create_evaluation_cases @ create_evaluation_runs @ create_evaluation_results @
     create_human_review_items"

definition downgrade_001 :: "ddl list" where
  "downgrade_001 =
     [DropConstraint ''documents'' ''fk_documents_current_version_id_document_versions'',
      DropTable ''human_review_items'',
      DropTable ''evaluation_results'',
      DropTable ''evaluation_runs'',
      DropTable ''evaluation_cases'',
      DropTable ''evaluation_datasets'',
      DropTable ''model_config_versions'',
      DropTable ''prompt_versions'',
      DropTable ''outbox'',
      DropTable ''user_feedback'',
      DropTable ''citations'',
      DropTable ''answer_claims'',
      DropTable ''retrieval_results'',
      DropTable ''execution_steps'',
      DropTable ''execution_runs'',
      DropTable ''ingestion_steps'',
      DropTable ''ingestion_runs'',
      DropTable ''chunk_embeddings'',
      DropTable ''index_versions'',
      DropTable ''chunks'',
      DropTable ''document_versions'',
      DropTable ''documents'',
      DropTable ''source_sync_state'',
      DropTable ''sources'']"

definition upgrade_002 :: "ddl list" where
  "upgrade_002 =
     [AddConstraint ''sources'' (Unique (Some ''uq_sources_tenant_type_uri'') [''tenant_id'', ''source_type'', ''uri''])]"

definition downgrade_002 :: "ddl list" where
  "downgrade_002 =
     [DropConstraint ''sources'' ''uq_sources_tenant_type_uri'']"

definition upgrade_003 :: "ddl list" where
  "upgrade_003 =
     [AddColumn ''documents'' (col ''source_locator'' SqlText False (LiteralDefault [])),
      SetAll ''documents'' ''source_locator'' [],
      AddConstraint ''documents'' (Unique (Some ''uq_documents_source_locator'') [''source_id'', ''source_locator''])]"

definition downgrade_003 :: "ddl list" where
  "downgrade_003 =
     [DropConstraint ''documents'' ''uq_documents_source_locator'',
      DropColumn ''documents'' ''source_locator'']"

definition upgrade_004 :: "ddl list" where
  "upgrade_004 =
     [CreateTable ''ingestion_checkpoints''
        [col ''checkpoint_id'' SqlUuid False (ExpressionDefault ''gen_random_uuid()''),
         col ''source_id'' SqlUuid False NoDefault, col ''canonical_locator'' SqlText False NoDefault,
         col ''content_checksum'' SqlText False NoDefault, col ''status'' (SqlString (Some 50)) False NoDefault,
         col ''document_id'' SqlUuid True NoDefault, col ''version_id'' SqlUuid True NoDefault,
         col ''error_message'' SqlText True NoDefault,
         col ''created_at'' SqlTimestamptz False (ExpressionDefault ''now()''),
         col ''updated_at'' SqlTimestamptz False (ExpressionDefault ''now()''),
         col ''completed_at'' SqlTimestamptz True NoDefault]
        [PrimaryKey [''checkpoint_id''],
         Unique (Some ''uq_ingestion_checkpoints_source_locator_checksum'') [''source_id'', ''canonical_locator'', ''content_checksum''],
         ForeignKey None [''source_id''] ''sources'' [''source_id''] Cascade False],
      CreateIndex ''ingestion_checkpoints'' (idx ''ix_ingestion_checkpoints_source_id'' [''source_id'']),
      CreateIndex ''ingestion_checkpoints'' (idx ''ix_ingestion_checkpoints_status'' [''status''])]"

definition downgrade_004 :: "ddl list" where
  "downgrade_004 =
     [DropIndex ''ix_ingestion_checkpoints_status'' ''ingestion_checkpoints'',
      DropIndex ''ix_ingestion_checkpoints_source_id'' ''ingestion_checkpoints'',
      DropTable ''ingestion_checkpoints'']"

definition upgrade_005 :: "ddl list" where
  "upgrade_005 =
     [AddConstraint ''document_versions'' (Unique (Some ''uq_document_versions_document_id_checksum'') [''document_id'', ''checksum''])]"

definition downgrade_005 :: "ddl list" where
  "downgrade_005 =
     [DropConstraint ''document_versions'' ''uq_document_versions_document_id_checksum'']"

definition upgrade_006 :: "ddl list" where
  "upgrade_006 =
     [AddColumn ''chunks'' (col ''chunker_version'' (SqlString (Some 20)) False (LiteralDefault ''v1'')),
      AddColumn ''chunks'' (col ''configuration_hash'' (SqlString (Some 32)) False (LiteralDefault ''''))]"

definition downgrade_006 :: "ddl list" where
  "downgrade_006 =
     [DropColumn ''chunks'' ''configuration_hash'',
      DropColumn ''chunks'' ''chunker_version'']"

definition upgrade_007 :: "ddl list" where
  "upgrade_007 =
     [AddColumn ''sources'' (col ''is_active'' SqlBoolean False (ExpressionDefault ''true'')),
      AddColumn ''sources'' (col ''deactivated_at'' SqlTimestamptz True NoDefault)]"

definition downgrade_007 :: "ddl list" where
  "downgrade_007 =
     [DropColumn ''sources'' ''deactivated_at'',
      DropColumn ''sources'' ''is_active'']"

definition upgrade_008 :: "ddl list" where
  "upgrade_008 =
     [AddColumn ''user_feedback'' (col ''category'' (SqlString (Some 100)) True NoDefault),
      AddColumn ''user_feedback'' (col ''notes'' SqlText True NoDefault)]"

definition downgrade_008 :: "ddl list" where
  "downgrade_008 =
     [DropColumn ''user_feedback'' ''notes'',
      DropColumn ''user_feedback'' ''category'']"

definition upgrade_009 :: "ddl list" where
  "upgrade_009 =
     [CreateTable ''improvement_proposals''
        [col ''proposal_id'' SqlUuid False NoDefault, col ''tenant_id'' (SqlString (Some 100)) False NoDefault,
         col ''failure_cluster_id'' (SqlString (Some 255)) True NoDefault,
         col ''status'' (SqlString (Some 20)) False (LiteralDefault ''PROPOSED''),
         col ''baseline_config'' SqlJsonb False (LiteralDefault ''{}''),
         col ''proposal_config'' SqlJsonb False (LiteralDefault ''{}''),
         col ''eval_run_id'' SqlUuid True NoDefault, col ''eval_result'' SqlJsonb True NoDefault,
         col ''approver'' (SqlString (Some 255)) True NoDefault,
         col ''approved_at'' SqlTimestamptz True NoDefault, col ''canary_result'' SqlJsonb True NoDefault,
         col ''deployment_result'' SqlJsonb True NoDefault, col ''rolled_back_at'' SqlTimestamptz True NoDefault,
         col ''rollback_reason'' SqlText True NoDefault,
         col ''created_at'' SqlTimestamptz False (ExpressionDefault ''now()''),
         col ''updated_at'' SqlTimestamptz False (ExpressionDefault ''now()'')]
        [PrimaryKey [''proposal_id'']],
      CreateIndex ''improvement_proposals'' (idx ''ix_improvement_proposals_tenant_id'' [''tenant_id'']),
      CreateIndex ''improvement_proposals'' (idx ''ix_improvement_proposals_status'' [''status'']),
      CreateIndex ''improvement_proposals'' (idx ''ix_improvement_proposals_failure_cluster'' [''failure_cluster_id'']),
      CreateIndex ''improvement_proposals'' (idx ''ix_improvement_proposals_eval_run_id'' [''eval_run_id'']),
      AddConstraint ''improvement_proposals'' (ForeignKey (Some ''fk_improvement_proposals_eval_run_id_evaluation_runs'') [''eval_run_id''] ''evaluation_runs'' [''run_id''] SetNull False)]"

definition downgrade_009 :: "ddl list" where
  "downgrade_009 =
     [DropTable ''improvement_proposals'']"

definition revision_001 :: revision where
  "revision_001 = \<lparr>rv_id = ''001_initial'', rv_down = None, rv_upgrade = upgrade_001, rv_downgrade = downgrade_001\<rparr>"

definition revision_002 :: revision where
  "revision_002 = \<lparr>rv_id = ''002_identity_constraints'', rv_down = Some ''001_initial'', rv_upgrade = upgrade_002, rv_downgrade = downgrade_002\<rparr>"

definition revision_003 :: revision where
  "revision_003 = \<lparr>rv_id = ''003_document_source_locator'', rv_down = Some ''002_identity_constraints'', rv_upgrade = upgrade_003, rv_downgrade = downgrade_003\<rparr>"

definition revision_004 :: revision where
  "revision_004 = \<lparr>rv_id = ''004_ingestion_checkpoint'', rv_down = Some ''003_document_source_locator'', rv_upgrade = upgrade_004, rv_downgrade = downgrade_004\<rparr>"

definition revision_005 :: revision where
  "revision_005 = \<lparr>rv_id = ''005_version_checksum_uniqueness'', rv_down = Some ''004_ingestion_checkpoint'', rv_upgrade = upgrade_005, rv_downgrade = downgrade_005\<rparr>"

definition revision_006 :: revision where
  "revision_006 = \<lparr>rv_id = ''006_chunker_lineage'', rv_down = Some ''005_version_checksum_uniqueness'', rv_upgrade = upgrade_006, rv_downgrade = downgrade_006\<rparr>"

definition revision_007 :: revision where
  "revision_007 = \<lparr>rv_id = ''007_source_deactivation'', rv_down = Some ''006_chunker_lineage'', rv_upgrade = upgrade_007, rv_downgrade = downgrade_007\<rparr>"

definition revision_008 :: revision where
  "revision_008 = \<lparr>rv_id = ''008_user_feedback_metadata'', rv_down = Some ''007_source_deactivation'', rv_upgrade = upgrade_008, rv_downgrade = downgrade_008\<rparr>"

definition revision_009 :: revision where
  "revision_009 = \<lparr>rv_id = ''009_improvement_proposals'', rv_down = Some ''008_user_feedback_metadata'', rv_upgrade = upgrade_009, rv_downgrade = downgrade_009\<rparr>"

definition revisions :: "revision list" where
  "revisions = [revision_001, revision_002, revision_003, revision_004, revision_005, revision_006,
     revision_007, revision_008, revision_009]"

section \<open>Alembic\<close>

text \<open>
  \<^verbatim>\<open>DATABASE_URL\<close>, when it is set, is used instead of the configured address, with the
  asynchronous driver in place of the default one. A database that Alembic manages remembers the revision it is at. The next revision is the one that
  names it as its predecessor; all pending scripts of one command run in one transaction
  (\<^verbatim>\<open>do_run_migrations\<close> of \<^verbatim>\<open>migrations/env.py\<close>), so a failure leaves the database as it was.
\<close>

definition get_url :: "string option \<Rightarrow> string \<Rightarrow> string" where
  "get_url env dsn =
     (case env of
        None \<Rightarrow> dsn
      | Some u \<Rightarrow> if u = [] then dsn
                  else if startswith u ''postgresql://'' then ''postgresql+asyncpg://'' @ drop 13 u else u)"

record managed =
  mg_version :: "string option"
  mg_db :: database

definition next_revision :: "string option \<Rightarrow> revision option" where
  "next_revision v = find (\<lambda>r. rv_down r = v) revisions"

definition find_revision :: "string \<Rightarrow> revision option" where
  "find_revision v = find (\<lambda>r. rv_id r = v) revisions"

fun pending :: "nat \<Rightarrow> string option \<Rightarrow> revision list" where
  "pending 0 v = []"
| "pending (Suc n) v =
     (case next_revision v of None \<Rightarrow> [] | Some r \<Rightarrow> r # pending n (Some (rv_id r)))"

fun run_scripts :: "sql_engine \<Rightarrow> revision list \<Rightarrow> managed \<Rightarrow> sql_error + managed" where
  "run_scripts eng [] m = Inr m"
| "run_scripts eng (r # rs) m =
     rbind (run_ddl eng (rv_upgrade r) (mg_db m)) (\<lambda>db.
       run_scripts eng rs \<lparr>mg_version = Some (rv_id r), mg_db = db\<rparr>)"

definition upgrade_head :: "sql_engine \<Rightarrow> managed \<Rightarrow> (sql_error + unit) \<times> managed" where
  "upgrade_head eng m =
     (case run_scripts eng (pending (length revisions) (mg_version m)) m of
        Inl e \<Rightarrow> (Inl e, m) | Inr m' \<Rightarrow> (Inr (), m'))"

definition downgrade_one :: "sql_engine \<Rightarrow> managed \<Rightarrow> (sql_error + unit) \<times> managed" where
  "downgrade_one eng m =
     (case mg_version m of
        None \<Rightarrow> (Inr (), m)
      | Some v \<Rightarrow>
         (case find_revision v of
            None \<Rightarrow> (Inl (UndefinedObject v), m)
          | Some r \<Rightarrow>
             (case run_ddl eng (rv_downgrade r) (mg_db m) of
                Inl e \<Rightarrow> (Inl e, m)
              | Inr db \<Rightarrow> (Inr (), \<lparr>mg_version = rv_down r, mg_db = db\<rparr>))))"

definition fresh_install :: managed where
  "fresh_install = \<lparr>mg_version = None, mg_db = empty_database\<rparr>"

section \<open>Downgrades\<close>

lemma undo_002: "undoes eng downgrade_002 upgrade_002"
  unfolding downgrade_002_def upgrade_002_def by (rule undo_add_constraint) simp

lemma undo_003: "undoes eng downgrade_003 upgrade_003"
  unfolding downgrade_003_def upgrade_003_def
  by (rule undo_three [OF undo_filled_column undo_add_constraint]) simp_all

lemma undo_004: "undoes eng downgrade_004 upgrade_004"
  unfolding downgrade_004_def upgrade_004_def
  by (rule undo_then_two [OF undo_new_table undo_two [OF undo_create_index undo_create_index]]) simp_all

lemma undo_005: "undoes eng downgrade_005 upgrade_005"
  unfolding downgrade_005_def upgrade_005_def by (rule undo_add_constraint) simp

lemma undo_006: "undoes eng downgrade_006 upgrade_006"
  unfolding downgrade_006_def upgrade_006_def by (rule undo_two [OF undo_add_column undo_add_column]) simp_all

lemma undo_007: "undoes eng downgrade_007 upgrade_007"
  unfolding downgrade_007_def upgrade_007_def by (rule undo_two [OF undo_add_column undo_add_column]) simp_all

lemma undo_008: "undoes eng downgrade_008 upgrade_008"
  unfolding downgrade_008_def upgrade_008_def by (rule undo_two [OF undo_add_column undo_add_column]) simp_all

lemma undo_009: "undoes eng downgrade_009 upgrade_009"
  unfolding downgrade_009_def upgrade_009_def by (rule undo_new_table) simp

lemmas undo_all = undo_002 undo_003 undo_004 undo_005 undo_006 undo_007 undo_008 undo_009

lemma later_scripts_undone: "r \<in> set (tl revisions) \<Longrightarrow> undoes eng (rv_downgrade r) (rv_upgrade r)"
  by (auto simp: revisions_def revision_002_def revision_003_def revision_004_def revision_005_def
      revision_006_def revision_007_def revision_008_def revision_009_def undo_all)

text \<open>C19: a downgrade gives back what the upgrade started from. For every script after the first and every
  well-formed database on which its upgrade succeeds, whatever the rows, its downgrade succeeds and
  returns that database: columns, constraints, indexes and rows.\<close>

theorem downgrade_restores:
  assumes "r \<in> set (tl revisions)" and "database_ok db" and "run_ddl eng (rv_upgrade r) db = Inr db'"
  shows "run_ddl eng (rv_downgrade r) db' = Inr db"
  using undoesD [OF later_scripts_undone [OF assms(1)] assms(2,3)] by simp

definition demo_sources :: database where
  "demo_sources =
     \<lparr>sd_tables = [(''user_feedback'', \<lparr>sb_columns = [col ''vote'' SqlText False NoDefault],
        sb_constraints = [PrimaryKey [''vote'']], sb_indexes = [], sb_rows = [[(''vote'', Some ''up'')]]\<rparr>)],
      sd_extensions = []\<rparr>"

theorem downgrade_restores_witness:
  "run_ddl \<lparr>se_value = \<lambda>_. [], se_holds = \<lambda>_ _. True\<rparr> downgrade_008
     \<lparr>sd_tables = [(''user_feedback'', \<lparr>sb_columns = [col ''vote'' SqlText False NoDefault,
          col ''category'' (SqlString (Some 100)) True NoDefault, col ''notes'' SqlText True NoDefault],
        sb_constraints = [PrimaryKey [''vote'']], sb_indexes = [],
        sb_rows = [[(''vote'', Some ''up''), (''category'', None), (''notes'', None)]]\<rparr>)],
      sd_extensions = []\<rparr> = Inr demo_sources"
proof -
  let ?eng = "\<lparr>se_value = \<lambda>_. [], se_holds = \<lambda>_ _. True\<rparr> :: sql_engine"
  have "revision_008 \<in> set (tl revisions)" by (simp add: revisions_def)
  moreover have "database_ok demo_sources" by code_simp
  moreover have "run_ddl ?eng (rv_upgrade revision_008) demo_sources = Inr
     \<lparr>sd_tables = [(''user_feedback'', \<lparr>sb_columns = [col ''vote'' SqlText False NoDefault,
          col ''category'' (SqlString (Some 100)) True NoDefault, col ''notes'' SqlText True NoDefault],
        sb_constraints = [PrimaryKey [''vote'']], sb_indexes = [],
        sb_rows = [[(''vote'', Some ''up''), (''category'', None), (''notes'', None)]]\<rparr>)],
      sd_extensions = []\<rparr>" by code_simp
  ultimately show ?thesis using downgrade_restores [of revision_008 demo_sources ?eng] by (simp add: revision_008_def)
qed

section \<open>Locators for existing documents\<close>

text \<open>What the third script asks of the table of documents: it has sources, no locators, and nothing
  has the name of the new key.\<close>

definition before_locators :: "database \<Rightarrow> sql_table \<Rightarrow> bool" where
  "before_locators db t \<longleftrightarrow>
     database_ok db \<and> map_of (sd_tables db) ''documents'' = Some t \<and>
     ''source_id'' \<in> set (column_names t) \<and> ''source_locator'' \<notin> set (column_names t) \<and>
     list_all (\<lambda>r. ''source_id'' \<in> set (keys r)) (sb_rows t) \<and>
     ''uq_documents_source_locator'' \<notin> set (relation_names (sd_tables db)) \<and>
     Some ''uq_documents_source_locator'' \<notin> set (map constraint_name (sb_constraints t))"

lemma relation_names_put:
  assumes "map_of ts n = Some t" "sb_indexes t' = sb_indexes t" "sb_constraints t' = sb_constraints t"
  shows "relation_names (put n t' ts) = relation_names ts"
  using assms by (induction ts) (auto simp: relation_names_def split: if_splits)

lemma run_003:
  assumes "before_locators db t"
  shows "run_ddl eng upgrade_003 db =
    (if distinct (key_values [''source_id''] (sb_rows t))
     then Inr (db\<lparr>sd_tables := put ''documents''
       (t\<lparr>sb_columns := sb_columns t @ [col ''source_locator'' SqlText False (LiteralDefault [])],
          sb_rows := map (\<lambda>r. r @ [(''source_locator'', Some [])]) (sb_rows t),
          sb_constraints := sb_constraints t @
            [Unique (Some ''uq_documents_source_locator'') [''source_id'', ''source_locator'']]\<rparr>) (sd_tables db)\<rparr>)
     else Inl (UniqueViolation ''uq_documents_source_locator''))"
proof -
  let ?c = "''source_locator''" let ?k = "col ?c SqlText False (LiteralDefault [])"
  let ?t = "t\<lparr>sb_columns := sb_columns t @ [?k], sb_rows := map (\<lambda>r. r @ [(?c, Some [])]) (sb_rows t)\<rparr>"
  let ?u = "Unique (Some ''uq_documents_source_locator'') [''source_id'', ?c]"
  have t: "map_of (sd_tables db) ''documents'' = Some t" and new: "?c \<notin> set (column_names t)"
    and ok: "table_ok t" and src: "''source_id'' \<in> set (column_names t)"
    using assms database_ok_table by (auto simp: before_locators_def)
  have rows: "\<forall>r \<in> set (sb_rows t). ''source_id'' \<in> set (keys r) \<and> ?c \<notin> set (keys r)"
    using assms ok new by (fastforce simp: before_locators_def table_ok_def list_all_iff)
  have add: "add_column eng ?k t = Inr ?t" using new by (simp add: add_column_def default_value_def)
  have "list_all (\<lambda>k. ?c \<notin> set (constraint_columns k)) (sb_constraints t)"
    using ok new by (auto simp: table_ok_def list_all_iff)
  moreover have "map (set_cell ?c []) (sb_rows ?t) = sb_rows ?t" using rows by (simp add: set_cell_new)
  moreover have "?c \<in> set (column_names ?t)" by (simp add: column_names_def)
  ultimately have set: "set_all ts ?c [] ?t = Inr ?t" for ts
    by (auto simp: set_all_def Let_def list_ex_iff list_all_iff)
  have con: "add_constraint (put ''documents'' ?t (sd_tables db)) ?u ?t =
    (if distinct (key_values [''source_id''] (sb_rows t)) then Inr (?t\<lparr>sb_constraints := sb_constraints t @ [?u]\<rparr>)
     else Inl (UniqueViolation ''uq_documents_source_locator''))"
    using assms src relation_names_put [OF t, of ?t] distinct_key_constant [OF rows]
    by (auto simp: add_constraint_def before_locators_def name_taken_def column_names_def Let_def)
  show ?thesis
    by (simp add: upgrade_003_def on_table_def t add set con)
qed

lemma pending_002: "\<exists>rs. pending (length revisions) (Some ''002_identity_constraints'') = revision_003 # rs"
  by (simp add: revisions_def next_revision_def revision_001_def revision_002_def revision_003_def)

text \<open>C7: the script that adds locators cannot run on every database. It gives every document the same
  empty locator before it makes source and locator a key. So it succeeds exactly when no two documents
  have the same source, and then every document keeps its cells and gets the empty locator; otherwise the
  upgrade to the head stops with the violated key and leaves the database, and its version, as they were.\<close>

theorem locators_need_single_documents:
  assumes "mg_version m = Some ''002_identity_constraints''" and "before_locators (mg_db m) t"
  shows "if distinct (key_values [''source_id''] (sb_rows t))
    then \<exists>db' t'. run_ddl eng upgrade_003 (mg_db m) = Inr db' \<and> map_of (sd_tables db') ''documents'' = Some t' \<and>
      sb_rows t' = map (\<lambda>r. r @ [(''source_locator'', Some [])]) (sb_rows t)
    else upgrade_head eng m = (Inl (UniqueViolation ''uq_documents_source_locator''), m)"
proof -
  obtain rs where rs: "pending (length revisions) (mg_version m) = revision_003 # rs"
    using pending_002 assms(1) by auto
  show ?thesis
    unfolding upgrade_head_def rs
    using assms(2) by (auto simp: run_003 [OF assms(2)] revision_003_def before_locators_def map_of_put)
qed

definition two_documents :: managed where
  "two_documents =
     \<lparr>mg_version = Some ''002_identity_constraints'',
      mg_db = \<lparr>sd_tables = [(''documents'', \<lparr>sb_columns = [col ''document_id'' SqlUuid False NoDefault, col ''source_id'' SqlUuid False NoDefault],
        sb_constraints = [PrimaryKey [''document_id'']], sb_indexes = [],
        sb_rows = [[(''document_id'', Some ''1''), (''source_id'', Some ''7'')],
                   [(''document_id'', Some ''2''), (''source_id'', Some ''7'')]]\<rparr>)], sd_extensions = []\<rparr>\<rparr>"

theorem locators_need_single_documents_witness:
  "upgrade_head \<lparr>se_value = \<lambda>_. [], se_holds = \<lambda>_ _. True\<rparr> two_documents =
     (Inl (UniqueViolation ''uq_documents_source_locator''), two_documents)"
proof -
  let ?t = "snd (hd (sd_tables (mg_db two_documents)))"
  have "before_locators (mg_db two_documents) ?t" by code_simp
  moreover have "\<not> distinct (key_values [''source_id''] (sb_rows ?t))" by code_simp
  moreover have "mg_version two_documents = Some ''002_identity_constraints''" by (simp add: two_documents_def)
  ultimately show ?thesis using locators_need_single_documents [of two_documents ?t] by simp
qed

section \<open>A new installation\<close>

text \<open>A new installation and the mapping. On an empty database the whole chain of scripts succeeds, ends
  at the last revision, and makes the tables, columns, keys and indexes that the mapping declares, with two
  exceptions: an index on the evaluation run of a proposal that the mapping does not declare, and three
  columns of \<^verbatim>\<open>execution_runs\<close> that the mapping reads and writes and that no script creates.
  The comparison is that of \<^verbatim>\<open>schema_diff\<close>: it does not look at server defaults or at the names
  of foreign keys.\<close>

theorem installation_lacks_run_columns:
  "case upgrade_head eng fresh_install of (r, m) \<Rightarrow>
     r = Inr () \<and> mg_version m = Some ''009_improvement_proposals'' \<and>
     schema_diff models (sd_tables (mg_db m)) =
       [MissingColumn ''execution_runs'' ''index_version_id'', MissingColumn ''execution_runs'' ''prompt_version_id'',
        MissingColumn ''execution_runs'' ''model_version'',
        UnexpectedIndex ''improvement_proposals'' ''ix_improvement_proposals_eval_run_id'']"
  by code_simp

end
