(* ===== verification/Evaluation.thy ===== *)
theory Evaluation
  imports QueryApi
begin

text \<open>
  The evaluation code: the smoke test of \<^verbatim>\<open>application/evaluation/smoke.py\<close>, the metrics and the
  dataset reader of \<^verbatim>\<open>application/evaluation/deepeval_adapter.py\<close>, and the comparison of retrieval
  strategies of \<^verbatim>\<open>evals/runners/m6_hybrid_evaluation.py\<close> on the repository's own graph store,
  traversal and fusion. What the DeepEval library measures, what \<^verbatim>\<open>json\<close> reads from a file and the
  distance of two deterministic embeddings are arguments. What is shown: how the metrics judge the
  responses that the validator and the workflow let through, what the reader accepts, and that the
  comparison gives the recall 0 to two of its three strategies on the repository's dataset.
\<close>

section \<open>Smoke test (smoke.py)\<close>

datatype smoke_error =
    LoadFailed string | MissingCases string | NoCases string | MissingFields json "string list"
  | QuestionNotString json | ModelFailed string

definition expected_case_fields_m4 :: "string list" where
  "expected_case_fields_m4 =
     [''id'', ''type'', ''question'', ''tenantId'', ''principalId'', ''expectedStatus'']"

definition expected_case_fields_m6 :: "string list" where
  "expected_case_fields_m6 =
     [''id'', ''type'', ''question'', ''tenant_id'', ''principal'', ''seed_entity'', ''expected_predicate'']"

definition dataset_files :: "string list" where
  "dataset_files = [''m4-vector-baseline.json'', ''m6-hybrid-graph-retrieval-v1.json'']"

definition dataset_schema_map :: "(string, string list) dict" where
  "dataset_schema_map =
     [(''m4-vector-baseline.json'', expected_case_fields_m4),
      (''m6-hybrid-graph-retrieval-v1.json'', expected_case_fields_m6)]"

text \<open>One case: the fields it lacks, and whether its question is a text. The identifier in the messages
  is the position when the case has none.\<close>

fun check_case :: "string list \<Rightarrow> nat \<Rightarrow> json \<Rightarrow> exn + smoke_error list" where
  "check_case wanted i (JObj c) =
     (let cid = (case map_of c ''id'' of Some v \<Rightarrow> v | None \<Rightarrow> JStr (show_nat i));
          missing = filter (\<lambda>f. f \<notin> set (keys c)) wanted
      in Inr ((if missing \<noteq> [] then [MissingFields cid missing] else []) @
              (case map_of c ''question'' of
                 None \<Rightarrow> [] | Some JNull \<Rightarrow> [] | Some (JStr q) \<Rightarrow> [] | Some v \<Rightarrow> [QuestionNotString cid])))"
| "check_case wanted i v = Inl (AttributeError ''get'')"

fun check_cases :: "string list \<Rightarrow> nat \<Rightarrow> json list \<Rightarrow> exn + smoke_error list" where
  "check_cases wanted i [] = Inr []"
| "check_cases wanted i (c # cs) =
     rbind (check_case wanted i c) (\<lambda>es. rbind (check_cases wanted (Suc i) cs) (\<lambda>es'. Inr (es @ es')))"

text \<open>A dataset is an object with a non-empty list of cases; \<^verbatim>\<open>load\<close> opens and reads the file.\<close>

definition check_dataset :: "(string \<Rightarrow> exn + (string \<times> json) list) \<Rightarrow> string \<Rightarrow> exn + bool \<times> smoke_error list" where
  "check_dataset load name =
     (case load name of
        Inl e \<Rightarrow> Inr (False, [LoadFailed name])
      | Inr d \<Rightarrow>
         (case map_of d ''cases'' of
            None \<Rightarrow> Inr (False, [MissingCases name])
          | Some v \<Rightarrow>
             if \<not> json_true v then Inr (False, [NoCases name])
             else (case v of
                 JList cs \<Rightarrow>
                   rbind (check_cases (case map_of dataset_schema_map name of Some fs \<Rightarrow> fs | None \<Rightarrow> []) 0 cs)
                     (\<lambda>es. Inr (es = [], es))
               | JStr s \<Rightarrow> Inl (AttributeError ''get'')
               | JObj o' \<Rightarrow> Inl (AttributeError ''get'')
               | _ \<Rightarrow> Inl (TypeError ''object is not iterable''))))"

definition check_domain_models :: "uuid \<Rightarrow> uuid \<Rightarrow> uuid \<Rightarrow> bool \<times> smoke_error list" where
  "check_domain_models a b c =
     (case (mk_evidence \<lparr>ev_id = a, ev_source = b, ev_document = None, ev_chunk = None, ev_version = None,
              ev_record = None, ev_content = ''smoke test evidence'', ev_method = MVector, ev_vector_score = None,
              ev_rerank_score = None, ev_path = [], ev_valid_from = None, ev_valid_to = None, ev_principals = []\<rparr>,
            mk_response \<lparr>qr_run = c, qr_answer = Some ''smoke test answer'', qr_status = Answered, qr_claims = [],
              qr_citations = [], qr_confidence = High, qr_warnings = []\<rparr>) of
        (Inr ev, Inr resp) \<Rightarrow>
          if qr_answer resp = Some ''smoke test answer'' then (True, []) else (False, [ModelFailed []])
      | _ \<Rightarrow> (False, [ModelFailed []]))"

text \<open>The ports and the workflow are checked by importing them.\<close>

definition smoke_run :: "(string \<Rightarrow> exn + (string \<times> json) list) \<Rightarrow> uuid \<Rightarrow> uuid \<Rightarrow> uuid \<Rightarrow> exn + bool" where
  "smoke_run load a b c =
     rbind (rmap (check_dataset load) dataset_files) (\<lambda>rs.
       Inr (list_all fst rs \<and> fst (check_domain_models a b c)))"

section \<open>Metrics (deepeval_adapter.py)\<close>

record metric_result =
  mt_metric :: string
  mt_score :: rat
  mt_reason :: "string option"
  mt_error :: "string option"

definition metric_success :: "metric_result \<Rightarrow> bool" where
  "metric_success r \<longleftrightarrow> mt_error r = None"

record llm_test_case =
  lt_input :: string
  lt_actual :: string
  lt_context :: "string list"
  lt_retrieval :: "string list"

definition build_test_case :: "string \<Rightarrow> string option \<Rightarrow> evidence list \<Rightarrow> llm_test_case" where
  "build_test_case question answer evs =
     \<lparr>lt_input = question, lt_actual = (case answer of Some a \<Rightarrow> a | None \<Rightarrow> []),
      lt_context = [join_with [nl] (map (\<lambda>(i, e). ''['' @ show_nat (i + 1) @ ''] '' @ take 1000 (ev_content e))
                      (enumerate 0 evs))],
      lt_retrieval = map (\<lambda>e. take 1000 (ev_content e)) evs\<rparr>"

text \<open>The library, when it is installed, makes from a threshold a function that measures a test case.\<close>

type_synonym measure = "llm_test_case \<Rightarrow> exn + rat"

definition new_metric :: "(rat \<Rightarrow> measure) option \<Rightarrow> rat \<Rightarrow> exn + measure" where
  "new_metric lib threshold =
     (case lib of
        None \<Rightarrow> Inl (RuntimeError ''deepeval is not installed. Install with: uv add deepeval'')
      | Some m \<Rightarrow> Inr (m threshold))"

definition measured :: "string \<Rightarrow> measure \<Rightarrow> query_response \<Rightarrow> evidence list \<Rightarrow> metric_result" where
  "measured name m r evs =
     (case m (build_test_case [] (qr_answer r) evs) of
        Inr q \<Rightarrow> \<lparr>mt_metric = name, mt_score = q, mt_reason = None, mt_error = None\<rparr>
      | Inl e \<Rightarrow> \<lparr>mt_metric = name, mt_score = 0, mt_reason = None, mt_error = Some (exn_str e)\<rparr>)"

definition faithfulness_evaluate :: "measure \<Rightarrow> query_response \<Rightarrow> evidence list \<Rightarrow> metric_result" where
  "faithfulness_evaluate m r evs =
     (if evs = [] then \<lparr>mt_metric = ''faithfulness'', mt_score = 0, mt_reason = Some ''No evidence provided'', mt_error = None\<rparr>
      else measured ''faithfulness'' m r evs)"

definition relevancy_evaluate :: "measure \<Rightarrow> query_response \<Rightarrow> evidence list \<Rightarrow> metric_result" where
  "relevancy_evaluate m r evs = measured ''answer_relevancy'' m r evs"

definition citation_evaluate :: "query_response \<Rightarrow> evidence list \<Rightarrow> metric_result" where
  "citation_evaluate r evs =
     (let known = map ev_id evs; cited = remdups (map ci_evidence (qr_citations r));
          missing = filter (\<lambda>c. c \<notin> set known) cited;
          (reason, score) =
            (if evs = [] then (''No evidence available for validation'', 1 / 2)
             else if qr_citations r = [] then (''No citations in response'', if evs = [] then 1 else 1 / 2)
             else if set cited \<subseteq> set known
             then (''All '' @ show_nat (length cited) @ '' cited IDs found in evidence'', 1)
             else (show_nat (length missing) @ '' cited IDs not in evidence'', 0))
      in \<lparr>mt_metric = ''citation_accuracy'', mt_score = score, mt_reason = Some reason, mt_error = None\<rparr>)"

definition hallucination_evaluate :: "query_response \<Rightarrow> evidence list \<Rightarrow> metric_result" where
  "hallucination_evaluate r evs =
     (let unsupported = filter (\<lambda>c. ac_support c = Unsupported) (qr_claims r);
          (reason, score) =
            (if evs = [] then (''No evidence available for validation'', 1 / 2)
             else if (case qr_answer r of None \<Rightarrow> True | Some a \<Rightarrow> a = []) then (''Empty response'', 0)
             else if unsupported \<noteq> [] then (show_nat (length unsupported) @ '' unsupported claims found'', 0)
             else (''All claims supported'', 1))
      in \<lparr>mt_metric = ''no_hallucination'', mt_score = score, mt_reason = Some reason, mt_error = None\<rparr>)"

section \<open>Datasets in lines of JSON (deepeval_adapter.py)\<close>

record evaluation_case =
  vc_id :: json
  vc_question :: json
  vc_tenant :: json
  vc_principal :: json
  vc_expected_status :: json
  vc_required_text :: json
  vc_forbidden_text :: json
  vc_entities :: json
  vc_metadata :: json

text \<open>Reading a text file turns every line end into a newline.\<close>

fun universal_newlines :: "string \<Rightarrow> string" where
  "universal_newlines [] = []"
| "universal_newlines [c] = (if c = cr then [nl] else [c])"
| "universal_newlines (c # d # s) =
     (if c = cr then (if d = nl then nl # universal_newlines s else nl # universal_newlines (d # s))
      else c # universal_newlines (d # s))"

definition text_lines :: "string \<Rightarrow> string list" where
  "text_lines s = split_at nl (universal_newlines s)"

definition get_null :: "string \<Rightarrow> (string \<times> json) list \<Rightarrow> json" where
  "get_null k d = (case map_of d k of Some v \<Rightarrow> v | None \<Rightarrow> JNull)"

definition required :: "nat \<Rightarrow> string \<Rightarrow> (string \<times> json) list \<Rightarrow> exn + json" where
  "required n k d =
     (case map_of d k of
        Some v \<Rightarrow> Inr v
      | None \<Rightarrow> Inl (ValueError (''Line '' @ show_nat n @ '': missing required field '' @ k)))"

fun case_of_line :: "nat \<Rightarrow> json \<Rightarrow> exn + evaluation_case" where
  "case_of_line n (JObj d) =
     rbind (required n ''id'' d) (\<lambda>i. rbind (required n ''question'' d) (\<lambda>q.
     rbind (required n ''tenant_id'' d) (\<lambda>t. rbind (required n ''principal'' d) (\<lambda>p.
       Inr \<lparr>vc_id = i, vc_question = q, vc_tenant = t, vc_principal = p,
            vc_expected_status = get_null ''expected_status'' d, vc_required_text = get_null ''required_claim_text'' d,
            vc_forbidden_text = get_null ''forbidden_claim_text'' d, vc_entities = get_null ''expected_entities'' d,
            vc_metadata = get_null ''metadata'' d\<rparr>))))"
| "case_of_line n v = Inl (TypeError ''indices must be integers'')"

fun load_lines :: "(string \<Rightarrow> exn + json) \<Rightarrow> nat \<Rightarrow> string list \<Rightarrow> exn + evaluation_case list" where
  "load_lines loads n [] = Inr []"
| "load_lines loads n (l # ls) =
     (let s = strip l
      in if s = [] then load_lines loads (Suc n) ls
         else rbind (loads s) (\<lambda>d. rbind (case_of_line n d) (\<lambda>c.
                rbind (load_lines loads (Suc n) ls) (\<lambda>cs. Inr (c # cs)))))"

definition load_jsonl_dataset ::
  "(string \<Rightarrow> exn + string) \<Rightarrow> (string \<Rightarrow> exn + json) \<Rightarrow> string \<Rightarrow> exn + evaluation_case list" where
  "load_jsonl_dataset read loads path = rbind (read path) (\<lambda>s. load_lines loads 1 (text_lines s))"

section \<open>Fixtures of the comparison (m6_hybrid_evaluation.py)\<close>

definition entity_defs :: "(string \<times> string) list" where
  "entity_defs =
     [(''API Gateway'', ''Service''), (''Backend Service'', ''Service''), (''Cache Layer'', ''Service''), (''Data Store'', ''DataStore''),
      (''Component X'', ''Component''), (''Library Y'', ''Library''), (''License Z'', ''License''), (''Application Alpha'', ''Application''),
      (''Service Beta'', ''Service''), (''Database Gamma'', ''Database''), (''Old Database'', ''Database''), (''New Database'', ''Database''),
      (''Legacy Service'', ''Service''), (''Current Service'', ''Service''), (''Internal Service'', ''Service''), (''Internal Admin Service'', ''Service''),
      (''Frontend'', ''Service'')]"

text \<open>Subject, object, predicate, principals and the validity of a fact, in microseconds: from the start of
  2020 to the end of 2030, or of 2023.\<close>

definition facts_defs :: "(string \<times> string \<times> string \<times> string list \<times> int \<times> int) list" where
  "facts_defs =
     [(''API Gateway'', ''Backend Service'', ''DEPENDS_ON'', [''engineering''], 1577836800000000, 1924905600000000),
      (''Backend Service'', ''Cache Layer'', ''DEPENDS_ON'', [''engineering''], 1577836800000000, 1924905600000000),
      (''Cache Layer'', ''Data Store'', ''DEPENDS_ON'', [''engineering''], 1577836800000000, 1924905600000000),
      (''Component X'', ''Library Y'', ''PROVIDED_BY'', [''engineering''], 1577836800000000, 1924905600000000),
      (''Library Y'', ''License Z'', ''LICENSED_UNDER'', [''engineering''], 1577836800000000, 1924905600000000),
      (''Application Alpha'', ''Service Beta'', ''CALLS'', [''engineering''], 1577836800000000, 1924905600000000),
      (''Service Beta'', ''Database Gamma'', ''USES'', [''engineering''], 1577836800000000, 1924905600000000),
      (''Legacy Service'', ''Old Database'', ''CONNECTED_TO'', [''engineering''], 1577836800000000, 1703980800000000),
      (''Current Service'', ''New Database'', ''CONNECTED_TO'', [''engineering''], 1577836800000000, 1924905600000000),
      (''API Gateway'', ''Internal Service'', ''CALLS'', [''engineering'', ''admin''], 1577836800000000, 1924905600000000),
      (''API Gateway'', ''Internal Admin Service'', ''CALLS'', [''admin''], 1577836800000000, 1924905600000000),
      (''Frontend'', ''Backend Service'', ''DEPENDS_ON'', [''engineering''], 1577836800000000, 1924905600000000),
      (''Backend Service'', ''Cache Layer'', ''DEPENDS_ON'', [''engineering''], 1577836800000000, 1924905600000000)]"

definition alias_char :: "char \<Rightarrow> char" where
  "alias_char c = (if c = CHR '' '' then CHR ''-'' else c)"

definition fixture_entity :: "(string \<Rightarrow> uuid) \<Rightarrow> string \<times> string \<Rightarrow> canonical_entity" where
  "fixture_entity eid p =
     \<lparr>ce_id = eid (fst p), ce_type = snd p, ce_name = fst p, ce_aliases = [map alias_char (lower (fst p))],
      ce_attributes = []\<rparr>"

definition fixture_fact ::
  "(string \<Rightarrow> uuid) \<Rightarrow> (nat \<Rightarrow> uuid) \<Rightarrow> (nat \<Rightarrow> uuid) \<Rightarrow> int \<Rightarrow> nat \<Rightarrow>
   string \<times> string \<times> string \<times> string list \<times> int \<times> int \<Rightarrow> exn + knowledge_fact" where
  "fixture_fact eid fid evid now i p =
     (case p of (a, b, predicate, ps, vf, vt) \<Rightarrow>
        mk_fact \<lparr>kf_id = fid i, kf_subject = eid a, kf_predicate = predicate, kf_object = eid b, kf_status = FVerified,
          kf_confidence = 9 / 10, kf_evidence_ids = [evid i], kf_valid_from = Some (Aware vf),
          kf_valid_to = Some (Aware vt), kf_observed_at = Aware now, kf_method = Llm,
          kf_ontology_version = ''v0.1.0'', kf_tenant = ''eval-tenant'', kf_principals = ps\<rparr>)"

text \<open>The entities, then the facts, in one unit of work; a fact that its contract refuses rolls it back.\<close>

fun write_facts :: "(nat \<Rightarrow> 'a \<Rightarrow> exn + knowledge_fact) \<Rightarrow> nat \<Rightarrow> 'a list \<Rightarrow> graph_uow \<Rightarrow> (exn + unit) \<times> graph_uow" where
  "write_facts mk i [] u = (Inr (), u)"
| "write_facts mk i (p # ps) u =
     (case mk i p of
        Inl e \<Rightarrow> (Inl e, u)
      | Inr f \<Rightarrow> (case uow_write (create_fact f) u of
                    (Inl e, u') \<Rightarrow> (Inl e, u') | (Inr _, u') \<Rightarrow> write_facts mk (Suc i) ps u'))"

fun write_entities :: "canonical_entity list \<Rightarrow> graph_uow \<Rightarrow> (exn + unit) \<times> graph_uow" where
  "write_entities [] u = (Inr (), u)"
| "write_entities (e # es) u =
     (case uow_write (create_entity e) u of (Inl x, u') \<Rightarrow> (Inl x, u') | (Inr _, u') \<Rightarrow> write_entities es u')"

definition setup_neo4j_fixtures ::
  "(string \<Rightarrow> uuid) \<Rightarrow> (nat \<Rightarrow> uuid) \<Rightarrow> (nat \<Rightarrow> uuid) \<Rightarrow> int \<Rightarrow> graph_db \<Rightarrow> (exn + (string, uuid) dict) \<times> graph_db" where
  "setup_neo4j_fixtures eid fid evid now g =
     (case write_entities (map (fixture_entity eid) entity_defs) (uow_enter g) of
        (Inl e, u) \<Rightarrow> (Inl e, u_store (uow_exit True u))
      | (Inr _, u) \<Rightarrow>
         (case write_facts (fixture_fact eid fid evid now) 0 facts_defs u of
            (Inl e, u') \<Rightarrow> (Inl e, u_store (uow_exit True u'))
          | (Inr _, u') \<Rightarrow> (Inr (map (\<lambda>p. (fst p, eid (fst p))) entity_defs), u_store (uow_exit False u'))))"

text \<open>The chunks of the vector store: the name and the type of each entity under a fresh identifier; a
  second row of an identifier is skipped.\<close>

definition chunk_content :: "string \<times> string \<Rightarrow> string" where
  "chunk_content p = fst p @ '' ('' @ snd p @ '')''"

definition setup_pgvector_chunks :: "(string \<Rightarrow> uuid) \<Rightarrow> (string \<times> string) list \<Rightarrow> (uuid, string) dict" where
  "setup_pgvector_chunks fresh defs =
     foldl (\<lambda>t p. if fresh (fst p) \<in> set (keys t) then t else t @ [(fresh (fst p), chunk_content p)]) [] defs"

text \<open>\<^verbatim>\<open>_vector_search_with_scores\<close>: the nearest rows by the distance of the embeddings of the
  question and the content. The table has an \<^verbatim>\<open>ivfflat\<close> index, so the search is approximate:
  \<^verbatim>\<open>probed\<close> tells which rows are in the lists that the index visits for the question. The order of
  rows at the same distance is the database's and an argument.\<close>

definition vector_search_with_scores ::
  "(string \<Rightarrow> string \<Rightarrow> rat) \<Rightarrow> (string \<Rightarrow> uuid \<Rightarrow> bool) \<Rightarrow> (uuid \<Rightarrow> nat) \<Rightarrow> (uuid, string) dict \<Rightarrow> string \<Rightarrow> nat \<Rightarrow>
   (uuid \<times> string) list" where
  "vector_search_with_scores distance probed tie chunks question k =
     take k (sort_key (\<lambda>row. distance question (snd row))
       (sort_key (\<lambda>row. tie (fst row)) (filter (\<lambda>row. probed question (fst row)) chunks)))"

section \<open>The comparison of one case\<close>

record m6_case =
  mc_id :: string
  mc_type :: string
  mc_question :: string
  mc_seed :: string
  mc_expected :: "string option"
  mc_predicate :: "string option"
  mc_depth :: "nat option"
  mc_valid_at :: "string option"
  mc_principal :: "string option"
  mc_tenant :: "string option"

record m6_scores =
  ms_vector :: rat
  ms_graph :: rat
  ms_hybrid :: rat
  ms_precision :: rat
  ms_improvement :: "rat option"
  ms_vector_found :: "string list"
  ms_graph_found :: "string list"
  ms_hybrid_found :: "string list"
  ms_evidence :: nat

text \<open>A case whose seed is unknown has an error in place of the scores.\<close>

record m6_result =
  mr_id :: string
  mr_type :: string
  mr_scores :: "string + m6_scores"

text \<open>\<^verbatim>\<open>expected and expected in content\<close>, over the contents found.\<close>

definition contents_with :: "string option \<Rightarrow> string list \<Rightarrow> string list" where
  "contents_with expected cs =
     (case expected of None \<Rightarrow> [] | Some x \<Rightarrow> if x = [] then [] else filter (contains x) cs)"

definition recall_of :: "string option \<Rightarrow> string list \<Rightarrow> rat" where
  "recall_of expected found =
     (case expected of None \<Rightarrow> 0 | Some x \<Rightarrow> if x \<noteq> [] \<and> x \<in> set found then 1 else 0)"

definition object_of_fact :: "graph_db \<Rightarrow> uuid \<Rightarrow> uuid \<Rightarrow> exn + uuid" where
  "object_of_fact g fid seed =
     rbind (get_fact fid g) (\<lambda>f. Inr (case f of Some k \<Rightarrow> kf_object k | None \<Rightarrow> seed))"

fun found_objects :: "graph_db \<Rightarrow> uuid \<Rightarrow> evidence list \<Rightarrow> exn + string list" where
  "found_objects g seed [] = Inr []"
| "found_objects g seed (e # es) =
     (if ev_path e = [] then found_objects g seed es
      else rbind (object_of_fact g (last (ev_path e)) seed) (\<lambda>oid. rbind (found_objects g seed es) (\<lambda>ns.
             Inr (case get_entity oid g of
                    Some x \<Rightarrow> if ce_name x = [] then ns else ce_name x # ns | None \<Rightarrow> ns))))"

definition fake_chunk :: "string \<Rightarrow> uuid \<times> string \<Rightarrow> retrieved_chunk" where
  "fake_chunk prin row =
     \<lparr>rc_chunk = fst row, rc_source = fst row, rc_document = None, rc_version = None, rc_content = snd row,
      rc_vector = Some 1, rc_keyword = None, rc_principals = [prin]\<rparr>"

definition relative_improvement :: "rat \<Rightarrow> rat \<Rightarrow> rat option" where
  "relative_improvement vector hybrid =
     (if hybrid > vector \<and> vector > 0 then Some ((hybrid - vector) / vector * 100)
      else if hybrid > vector \<and> vector = 0 then None
      else Some 0)"

text \<open>The world of a run: how a time is read, how a score of the graph is printed, fresh identifiers of the
  fused evidence, the distance, the rows the index visits and their order at equal distance, and the two
  stores.\<close>

record m6_world =
  mw_time :: "string \<Rightarrow> exn + int"
  mw_score :: "nat \<Rightarrow> knowledge_fact \<Rightarrow> string"
  mw_fresh :: "uuid \<Rightarrow> uuid"
  mw_distance :: "string \<Rightarrow> string \<Rightarrow> rat"
  mw_probed :: "string \<Rightarrow> uuid \<Rightarrow> bool"
  mw_tie :: "uuid \<Rightarrow> nat"
  mw_graph :: graph_db
  mw_chunks :: "(uuid, string) dict"

definition parse_valid_at :: "(string \<Rightarrow> exn + int) \<Rightarrow> string option \<Rightarrow> exn + int option" where
  "parse_valid_at time v =
     (case present v of None \<Rightarrow> Inr None | Some s \<Rightarrow> rbind (time s) (\<lambda>t. Inr (Some t)))"

definition evaluate_case :: "m6_world \<Rightarrow> (string, uuid) dict \<Rightarrow> m6_case \<Rightarrow> exn + m6_result" where
  "evaluate_case w ids c =
     (case map_of ids (mc_seed c) of
        None \<Rightarrow> Inr \<lparr>mr_id = mc_id c, mr_type = mc_type c, mr_scores = Inl (''Seed entity '' @ mc_seed c @ '' not found'')\<rparr>
      | Some seed \<Rightarrow>
         let g = mw_graph w;
             prin = (case mc_principal c of Some p \<Rightarrow> p | None \<Rightarrow> ''engineering'');
             tenant = (case mc_tenant c of Some t \<Rightarrow> t | None \<Rightarrow> ''eval-tenant'');
             depth = (case mc_depth c of Some d \<Rightarrow> d | None \<Rightarrow> 2);
             entity = \<lparr>ce_id = seed, ce_type = ''Service'', ce_name = mc_seed c, ce_aliases = [], ce_attributes = []\<rparr>;
             rows = vector_search_with_scores (mw_distance w) (mw_probed w) (mw_tie w) (mw_chunks w) (mc_question c) 5;
             vfound = contents_with (mc_expected c) (map snd rows);
             vrecall = recall_of (mc_expected c) vfound
         in rbind (parse_valid_at (mw_time w) (mc_valid_at c)) (\<lambda>moment.
            rbind (retrieve_evidence (\<lambda>i. get_entity i g)
                (\<lambda>subj predicate obj status allowed t. find_facts subj predicate obj status allowed t g)
                (mw_score w) [entity] (case present (mc_predicate c) of Some p \<Rightarrow> [p] | None \<Rightarrow> []) moment depth (Some tenant) prin)
              (\<lambda>graph.
            rbind (found_objects g seed graph) (\<lambda>names.
            rbind (hybrid_rrf_fusion (mw_fresh w) (map (fake_chunk prin) rows) [] graph) (\<lambda>fused.
              let hfound = contents_with (mc_expected c) (map ev_content fused);
                  hrecall = recall_of (mc_expected c) hfound
              in Inr \<lparr>mr_id = mc_id c, mr_type = mc_type c, mr_scores = Inr
                   \<lparr>ms_vector = vrecall, ms_graph = recall_of (mc_expected c) names, ms_hybrid = hrecall,
                    ms_precision = (if names = [] then 0 else 1 / of_nat (length names)),
                    ms_improvement = relative_improvement vrecall hrecall, ms_vector_found = vfound,
                    ms_graph_found = names, ms_hybrid_found = hfound, ms_evidence = length graph\<rparr>\<rparr>)))))"

text \<open>The cases of the repository's dataset,
  \<^verbatim>\<open>evals/datasets/m6-hybrid-graph-retrieval-v1.json\<close>, with the fields that the comparison reads.\<close>

definition m6_dataset :: "m6_case list" where
  "m6_dataset =
     [
      \<lparr>mc_id = ''mh-001'', mc_type = ''multi-hop-relationship'',
       mc_question = ''Service A depends on Service B which depends on Service C. Which ultimate dependency does Service A have?'',
       mc_seed = ''Service A'', mc_expected = Some ''Service C'', mc_predicate = Some ''DEPENDS_ON'', mc_depth = Some 2,
       mc_valid_at = None, mc_principal = Some ''engineering'', mc_tenant = Some ''eval-tenant''\<rparr>,
      \<lparr>mc_id = ''mh-002'', mc_type = ''multi-hop-relationship'',
       mc_question = ''Component X is provided by Library Y which is licensed under License Z. What is the license of Component X?'',
       mc_seed = ''Component X'', mc_expected = Some ''License Z'', mc_predicate = Some ''LICENSED_UNDER'', mc_depth = Some 2,
       mc_valid_at = None, mc_principal = Some ''engineering'', mc_tenant = Some ''eval-tenant''\<rparr>,
      \<lparr>mc_id = ''mh-003'', mc_type = ''multi-hop-relationship'',
       mc_question = ''Application Alpha calls Service Beta which uses Database Gamma. What database does Application Alpha ultimately use?'',
       mc_seed = ''Application Alpha'', mc_expected = Some ''Database Gamma'', mc_predicate = Some ''USES'', mc_depth = Some 2,
       mc_valid_at = None, mc_principal = Some ''engineering'', mc_tenant = Some ''eval-tenant''\<rparr>,
      \<lparr>mc_id = ''acl-001'', mc_type = ''multi-hop-ACL'',
       mc_question = ''Alice (engineering) wants to know: what internal service does the public API Gateway call?'',
       mc_seed = ''API Gateway'', mc_expected = Some ''Internal Service'', mc_predicate = Some ''CALLS'', mc_depth = Some 1,
       mc_valid_at = None, mc_principal = Some ''engineering'', mc_tenant = Some ''eval-tenant''\<rparr>,
      \<lparr>mc_id = ''acl-002'', mc_type = ''multi-hop-ACL'',
       mc_question = ''Bob (contractor) should NOT be able to see the path from API Gateway to Internal Admin Service.'',
       mc_seed = ''API Gateway'', mc_expected = Some ''Internal Admin Service'', mc_predicate = Some ''CALLS'', mc_depth = Some 1,
       mc_valid_at = None, mc_principal = Some ''contractor'', mc_tenant = Some ''eval-tenant''\<rparr>,
      \<lparr>mc_id = ''temporal-001'', mc_type = ''multi-hop-temporal'',
       mc_question = ''In 2023, which database did the legacy service connect to? (Service was decommissioned in 2024)'',
       mc_seed = ''Legacy Service'', mc_expected = Some ''Old Database'', mc_predicate = Some ''CONNECTED_TO'', mc_depth = Some 1,
       mc_valid_at = Some ''2023-06-15T00:00:00Z'', mc_principal = Some ''engineering'', mc_tenant = Some ''eval-tenant''\<rparr>,
      \<lparr>mc_id = ''temporal-002'', mc_type = ''multi-hop-temporal'',
       mc_question = ''In 2025, which database does the current service connect to?'',
       mc_seed = ''Current Service'', mc_expected = Some ''New Database'', mc_predicate = Some ''CONNECTED_TO'', mc_depth = Some 1,
       mc_valid_at = Some ''2025-06-15T00:00:00Z'', mc_principal = Some ''engineering'', mc_tenant = Some ''eval-tenant''\<rparr>,
      \<lparr>mc_id = ''hybrid-001'', mc_type = ''hybrid-multi-hop'',
       mc_question = ''What is the complete dependency chain from the API Gateway to the final data store?'',
       mc_seed = ''API Gateway'', mc_expected = Some ''Data Store'', mc_predicate = Some ''DEPENDS_ON'', mc_depth = Some 3,
       mc_valid_at = None, mc_principal = Some ''engineering'', mc_tenant = Some ''eval-tenant''\<rparr>,
      \<lparr>mc_id = ''hybrid-002'', mc_type = ''hybrid-multi-hop'',
       mc_question = ''Which microservices does the frontend directly or indirectly depend on?'',
       mc_seed = ''Frontend'', mc_expected = None, mc_predicate = Some ''DEPENDS_ON'', mc_depth = Some 2,
       mc_valid_at = None, mc_principal = Some ''engineering'', mc_tenant = Some ''eval-tenant''\<rparr>]"

section \<open>The report\<close>

record m6_report =
  mp_total :: nat
  mp_evaluated :: nat
  mp_vector :: rat
  mp_graph :: rat
  mp_hybrid :: rat
  mp_improvement :: "rat option"
  mp_multi_hop :: "rat option"
  mp_meets_target :: bool
  mp_cases :: "m6_result list"

datatype m6_outcome = M6Skipped string | M6Completed m6_report

definition scores_list :: "(m6_scores \<Rightarrow> rat) \<Rightarrow> m6_result list \<Rightarrow> rat list" where
  "scores_list field rs = List.map_filter (\<lambda>r. case mr_scores r of Inl _ \<Rightarrow> None | Inr s \<Rightarrow> Some (field s)) rs"

definition improvements :: "m6_result list \<Rightarrow> rat list" where
  "improvements rs = List.map_filter (\<lambda>r. case mr_scores r of Inl _ \<Rightarrow> None | Inr s \<Rightarrow> ms_improvement s) rs"

definition mean :: "rat list \<Rightarrow> rat" where
  "mean xs = (if xs = [] then 0 else sum_list xs / of_nat (length xs))"

definition multi_hop_improvement :: "m6_result list \<Rightarrow> rat option" where
  "multi_hop_improvement rs =
     (let mh = filter (\<lambda>r. contains ''multi-hop'' (mr_type r)) rs;
          v = mean (scores_list ms_vector mh); h = mean (scores_list ms_hybrid mh)
      in if mh = [] then None
         else if v > 0 then Some ((h - v) / v * 100)
         else if h > 0 \<and> v = 0 then None else Some 0)"

definition m6_report_of :: "nat \<Rightarrow> m6_result list \<Rightarrow> m6_report" where
  "m6_report_of n rs =
     (let mh = multi_hop_improvement rs; imp = mean (improvements rs)
      in \<lparr>mp_total = n, mp_evaluated = length (filter (\<lambda>r. is_ok (mr_scores r)) rs),
          mp_vector = py_round 3 (mean (scores_list ms_vector rs)),
          mp_graph = py_round 3 (mean (scores_list ms_graph rs)),
          mp_hybrid = py_round 3 (mean (scores_list ms_hybrid rs)),
          mp_improvement = (if imp \<noteq> 0 then Some (py_round 3 imp) else None),
          mp_multi_hop = map_option (py_round 3) mh,
          mp_meets_target = (case mh of Some x \<Rightarrow> x \<ge> 15 | None \<Rightarrow> False), mp_cases = rs\<rparr>)"

text \<open>\<^verbatim>\<open>run_evaluation\<close>: without the drivers, or when a container does not start, the run is skipped.\<close>

definition run_evaluation ::
  "bool \<Rightarrow> exn + unit \<Rightarrow> exn + unit \<Rightarrow> (exn + (string, uuid) dict) \<times> graph_db \<Rightarrow> (string \<Rightarrow> uuid) \<Rightarrow> m6_world \<Rightarrow>
   m6_case list \<Rightarrow> exn + m6_outcome" where
  "run_evaluation drivers neo4j pg fixtures fresh w cases =
     (if \<not> drivers then Inr (M6Skipped ''neo4j/postgres driver or testcontainers not available'')
      else case neo4j of
        Inl e \<Rightarrow> Inr (M6Skipped (''Neo4j Docker not available: '' @ exn_str e))
      | Inr _ \<Rightarrow>
         (case pg of
            Inl e \<Rightarrow> Inr (M6Skipped (''pgvector Docker not available: '' @ exn_str e))
          | Inr _ \<Rightarrow>
              rbind (fst fixtures) (\<lambda>ids.
                rbind (rmap (evaluate_case (w\<lparr>mw_graph := snd fixtures,
                    mw_chunks := setup_pgvector_chunks fresh entity_defs\<rparr>) ids) cases)
                  (\<lambda>rs. Inr (M6Completed (m6_report_of (length cases) rs))))))"

section \<open>Lemmas\<close>

lemma load_lines_eq:
  "load_lines loads n ls =
     rmap (\<lambda>(i, l). rbind (loads (strip l)) (case_of_line i)) (filter (\<lambda>(i, l). strip l \<noteq> []) (enumerate n ls))"
proof (induction ls arbitrary: n)
  case (Cons l ls)
  then show ?case by (cases "loads (strip l)") (auto simp: Let_def)
qed simp

lemma kept_citations_known: "ci \<in> set (kept_citations ids cs c) \<Longrightarrow> ci_evidence ci \<in> set ids"
  by (auto simp: kept_citations_def)

lemma validated_citations:
  assumes "validate_response r evs = Inr v" and "ci \<in> set (qr_citations v)"
  shows "ci_evidence ci \<in> ev_id ` set evs"
  using assms kept_citations_known [of ci "map ev_id evs"]
  by (auto simp: validate_response_def Let_def rbind_Inr_iff mk_response_def split: if_splits option.splits)

lemma citation_score:
  "evs \<noteq> [] \<Longrightarrow> mt_score (citation_evaluate r evs) =
     (if qr_citations r = [] then 1 / 2 else if ci_evidence ` set (qr_citations r) \<subseteq> ev_id ` set evs then 1 else 0)"
  by (simp add: citation_evaluate_def Let_def)

lemma hallucination_score:
  "evs \<noteq> [] \<Longrightarrow> mt_score (hallucination_evaluate r evs) =
     (if (\<exists>a. qr_answer r = Some a \<and> a \<noteq> []) \<and> (\<forall>c \<in> set (qr_claims r). ac_support c \<noteq> Unsupported) then 1 else 0)"
  by (auto simp: hallucination_evaluate_def Let_def filter_empty_conv split: option.splits)

lemma answered_has_answer:
  assumes "validate_response r evs = Inr v"
  shows "qr_status v = Answered \<longleftrightarrow> (\<exists>a. qr_answer v = Some a \<and> a \<noteq> [])"
  using assms
  by (auto simp: validate_response_def Let_def rbind_Inr_iff mk_response_def split: if_splits option.splits)

text \<open>The contents of both stores end with a closing parenthesis.\<close>

definition closed_content :: "string \<Rightarrow> bool" where
  "closed_content s \<longleftrightarrow> s \<noteq> [] \<and> last s = CHR '')''"

lemma chunk_content_closed: "closed_content (chunk_content p)"
  by (simp add: closed_content_def chunk_content_def)

lemma pgvector_contents: "\<forall>row \<in> set (setup_pgvector_chunks fresh defs). closed_content (snd row)"
proof -
  let ?add = "\<lambda>t p. if fresh (fst p) \<in> set (keys t) then t else t @ [(fresh (fst p), chunk_content p)]"
  have "\<forall>row \<in> set (foldl ?add t defs). closed_content (snd row)" if "\<forall>row \<in> set t. closed_content (snd row)" for t
    using that
  proof (induction defs arbitrary: t)
    case (Cons p defs)
    have "\<forall>row \<in> set (?add t p). closed_content (snd row)" using Cons.prems by (auto simp: chunk_content_closed)
    from Cons.IH [OF this] show ?case by (simp only: foldl_Cons)
  qed simp
  from this [of "[]"] show ?thesis by (simp add: setup_pgvector_chunks_def)
qed

lemma vector_search_sub: "set (vector_search_with_scores distance probed tie chunks q k) \<subseteq> set chunks"
  by (auto simp: vector_search_with_scores_def dest: in_set_takeD)

lemma graph_contents:
  assumes "retrieve_evidence ent facts score seeds predicates moment mx tenant prin = Inr out" and "e \<in> set out"
  shows "closed_content (ev_content e)"
proof (cases "seeds = []")
  case False
  then have l: "retrieve_loop (traverse ent facts predicates moment mx (if prin = [] then None else Some [prin]) tenant)
      score seeds [] [] = Inr out" using assms(1) by (simp add: retrieve_evidence_def)
  obtain ff where "graph_evidence_of score ff = Inr e"
    using retrieve_loop_ok [OF l] assms(2) by auto
  then show ?thesis by (auto simp: graph_evidence_of_def Let_def mk_evidence_iff closed_content_def)
qed (use assms in \<open>simp add: retrieve_evidence_def\<close>)

definition open_name :: "string option \<Rightarrow> bool" where
  "open_name x \<longleftrightarrow> (case x of None \<Rightarrow> True | Some s \<Rightarrow> \<not> closed_content s)"

lemma recall_zero:
  assumes "open_name x" and "\<forall>s \<in> set cs. closed_content s"
  shows "recall_of x (contents_with x cs) = 0"
  using assms by (auto simp: recall_of_def contents_with_def open_name_def split: option.splits)

lemma evaluate_case_zero:
  assumes "evaluate_case w ids c = Inr r" and "open_name (mc_expected c)"
    and chunks: "\<forall>row \<in> set (mw_chunks w). closed_content (snd row)" and "mr_scores r = Inr sc"
  shows "ms_vector sc = 0 \<and> ms_hybrid sc = 0"
proof -
  obtain seed where seed: "map_of ids (mc_seed c) = Some seed"
    using assms(1,4) by (cases "map_of ids (mc_seed c)") (auto simp: evaluate_case_def)
  let ?rows = "vector_search_with_scores (mw_distance w) (mw_probed w) (mw_tie w) (mw_chunks w) (mc_question c) 5"
  let ?prin = "case mc_principal c of Some p \<Rightarrow> p | None \<Rightarrow> ''engineering''"
  have rows: "\<forall>s \<in> set (map snd ?rows). closed_content s"
    using chunks vector_search_sub [of "mw_distance w" "mw_probed w" "mw_tie w" "mw_chunks w"] by auto
  obtain facts seeds predicates moment depth tenant graph fused where
    g: "retrieve_evidence (\<lambda>i. get_entity i (mw_graph w)) facts (mw_score w) seeds predicates moment depth tenant ?prin = Inr graph"
    and f: "hybrid_rrf_fusion (mw_fresh w) (map (fake_chunk ?prin) ?rows) [] graph = Inr fused"
    and v: "ms_vector sc = recall_of (mc_expected c) (contents_with (mc_expected c) (map snd ?rows))"
    and h: "ms_hybrid sc = recall_of (mc_expected c) (contents_with (mc_expected c) (map ev_content fused))"
    using assms(1,4) unfolding evaluate_case_def seed Let_def rbind_Inr_iff option.case by auto
  have "closed_content (ev_content e)" if "e \<in> set fused" for e
    using hybrid_fusion_ok [OF f] that graph_contents [OF g] rows by (fastforce simp: fake_chunk_def of_chunk_def same_piece_def)
  then show ?thesis using v h recall_zero [OF assms(2) rows] recall_zero [OF assms(2), of "map ev_content fused"] by auto
qed

lemma mean_zero: "\<forall>x \<in> set xs. x = 0 \<Longrightarrow> mean xs = 0"
  by (induction xs) (auto simp: mean_def split: if_splits)

section \<open>Properties\<close>

text \<open>How the metrics judge an answer that the workflow lets through. On evidence, a response accepted
  by the workflow never gets the citation accuracy 0: it gets 1 exactly when it has a citation. The
  hallucination metric gives it 1 exactly when it is answered and none of its claims is unsupported, and
  what it marks down in an answered response is a claim that is not factual.\<close>

theorem accepted_response_scores:
  assumes "accepted svc n v" and "svc n = Inr (r, evs)" and "evs \<noteq> []"
  shows "mt_score (citation_evaluate v evs) = (if qr_citations v = [] then 1 / 2 else 1) \<and>
    (mt_score (hallucination_evaluate v evs) = 1 \<longleftrightarrow>
       qr_status v = Answered \<and> (\<forall>c \<in> set (qr_claims v). ac_support c \<noteq> Unsupported)) \<and>
    (qr_status v = Answered \<longrightarrow> mt_score (hallucination_evaluate v evs) = 0 \<longrightarrow>
       (\<exists>c \<in> set (qr_claims v). ac_support c = Unsupported \<and> \<not> ac_factual c))"
proof -
  have v: "validate_response r evs = Inr v" and b: "no_bad_claim v"
    using assms(1,2) by (auto simp: accepted_def)
  have "ci_evidence ` set (qr_citations v) \<subseteq> ev_id ` set evs" using validated_citations [OF v] by blast
  then show ?thesis
    using b answered_has_answer [OF v] by (auto simp: citation_score [OF assms(3)] hallucination_score [OF assms(3)] no_bad_claim_def)
qed

definition cited_response :: query_response where
  "cited_response =
     \<lparr>qr_run = 1, qr_answer = Some ''yes'', qr_status = Answered, qr_claims =
        [\<lparr>ac_id = 5, ac_text = ''t'', ac_factual = True, ac_evidence = [7], ac_support = Supported\<rparr>],
      qr_citations = [\<lparr>ci_id = 6, ci_claim = 5, ci_evidence = 7, ci_locator = ''l'', ci_principals = []\<rparr>],
      qr_confidence = Medium, qr_warnings = []\<rparr>"

theorem accepted_response_scores_witness:
  "mt_score (citation_evaluate cited_response [demo_evidence]) = 1 \<and>
   mt_score (hallucination_evaluate cited_response [demo_evidence]) = 1"
proof -
  let ?svc = "\<lambda>_. Inr (cited_response, [demo_evidence])"
  have v: "validate_response cited_response [demo_evidence] = Inr cited_response" by code_simp
  have b: "no_bad_claim cited_response" by (simp add: no_bad_claim_def cited_response_def)
  have "accepted ?svc 0 cited_response" unfolding accepted_def using v b by (simp add: cited_response_def)
  from accepted_response_scores [OF this refl] show ?thesis by (simp add: cited_response_def)
qed

lemma m6_dataset_open: "list_all (\<lambda>c. open_name (mc_expected c)) m6_dataset"
  by code_simp

text \<open>C30: the comparison of strategies cannot succeed. The contents of both stores end with a parenthesis, and
  the comparison looks for one that is the expected name itself. So every completed run over the cases of the
  repository's dataset, and over any cases whose expected names do not end like that, reports the recall 0 for
  the vector and for the hybrid strategy, an improvement of 0 or none, and a missed target, whatever the
  stores and the index return. The plan and the stored report of the repository state a hybrid recall of 0.444
  for this runner and dataset; this code does not produce it.\<close>

theorem m6_recall_is_zero:
  assumes "run_evaluation drivers neo4j pg fixtures fresh w cases = Inr (M6Completed rep)"
    and "cases = m6_dataset \<or> list_all (\<lambda>c. open_name (mc_expected c)) cases"
  shows "mp_vector rep = 0 \<and> mp_hybrid rep = 0 \<and> mp_multi_hop rep \<in> {None, Some 0} \<and> \<not> mp_meets_target rep"
proof -
  have open_names: "list_all (\<lambda>c. open_name (mc_expected c)) cases" using assms(2) m6_dataset_open by blast
  let ?w = "w\<lparr>mw_graph := snd fixtures, mw_chunks := setup_pgvector_chunks fresh entity_defs\<rparr>"
  obtain ids rs where rs: "rmap (evaluate_case ?w ids) cases = Inr rs" and rep: "rep = m6_report_of (length cases) rs"
    using assms(1) by (auto simp: run_evaluation_def rbind_Inr_iff split: if_splits sum.splits)
  have z: "ms_vector sc = 0 \<and> ms_hybrid sc = 0" if r: "r \<in> set rs" "mr_scores r = Inr sc" for r sc
  proof -
    obtain c where "c \<in> set cases" "evaluate_case ?w ids c = Inr r" using rmap_Inr_mem [OF rs r(1)] by blast
    then show ?thesis using evaluate_case_zero [of ?w ids c r sc] r(2) open_names pgvector_contents
      by (simp add: list_all_iff)
  qed
  have m: "mean (scores_list ms_vector xs) = 0 \<and> mean (scores_list ms_hybrid xs) = 0" if "set xs \<subseteq> set rs" for xs
    using that z by (intro conjI mean_zero) (auto simp: scores_list_def map_filter_def split: sum.splits)
  have "multi_hop_improvement rs \<in> {None, Some 0}"
    using m [of "filter (\<lambda>r. contains ''multi-hop'' (mr_type r)) rs"] by (auto simp: multi_hop_improvement_def Let_def)
  then show ?thesis
    using m [OF subset_refl] unfolding rep by (auto simp: m6_report_of_def Let_def py_round_def)
qed

definition demo_m6_world :: m6_world where
  "demo_m6_world =
     \<lparr>mw_time = \<lambda>_. Inr 0, mw_score = \<lambda>_ _. ''1.0'', mw_fresh = id, mw_distance = \<lambda>_ _. 0, mw_probed = \<lambda>_ _. True, mw_tie = id, mw_graph = empty_graph,
      mw_chunks = []\<rparr>"

theorem m6_recall_is_zero_witness:
  "\<exists>rep. run_evaluation True (Inr ()) (Inr ()) (Inr [(''Frontend'', 1), (''API Gateway'', 2)], empty_graph) length demo_m6_world m6_dataset =
     Inr (M6Completed rep) \<and> mp_total rep = 9 \<and> mp_evaluated rep = 4 \<and> mp_vector rep = 0 \<and> \<not> mp_meets_target rep"
proof -
  let ?run = "run_evaluation True (Inr ()) (Inr ()) (Inr [(''Frontend'', 1), (''API Gateway'', 2)], empty_graph) length demo_m6_world m6_dataset"
  have run: "case ?run of Inr (M6Completed rep) \<Rightarrow> mp_total rep = 9 \<and> mp_evaluated rep = 4 | _ \<Rightarrow> False" by code_simp
  then obtain rep where rep: "?run = Inr (M6Completed rep)" "mp_total rep = 9" "mp_evaluated rep = 4"
    by (auto split: sum.splits m6_outcome.splits)
  from m6_recall_is_zero [OF rep(1) disjI1 [OF refl]] rep show ?thesis by blast
qed

end
