(* ===== verification/Scripts.thy ===== *)
theory Scripts
  imports Knowledge
begin

text \<open>
  The two operational scripts: \<^verbatim>\<open>src/scripts/canary_eval.py\<close>, which asks a stable and a canary
  deployment the same questions and decides on the promotion, and \<^verbatim>\<open>src/scripts/load_test.py\<close>,
  which counts the outcomes of many requests. The HTTP client is an argument; where a lemma speaks of
  the API on the other side, it is the identity dependency of the theory of security that answers. What
  is shown: the scores and the percentiles stay in their ranges, the load test is known to the API by
  the identity it was given, and the canary script can promote nothing when the API wants an identity,
  because it sends a header that the API does not read.
\<close>

section \<open>HTTP\<close>

type_synonym headers = "(string \<times> string) list"

text \<open>The body is what \<^verbatim>\<open>response.json()\<close> returns or raises.\<close>

record http_response =
  hp_status :: nat
  hp_body :: "exn + (string \<times> json) list"

type_synonym http_client = "headers \<Rightarrow> string \<Rightarrow> exn + http_response"

section \<open>Canary evaluation (canary_eval.py)\<close>

text \<open>\<^verbatim>\<open>s.split()\<close>: the runs of characters that are not white space.\<close>

fun words :: "string \<Rightarrow> string \<Rightarrow> string list" where
  "words acc [] = (if acc = [] then [] else [acc])"
| "words acc (c # s) =
     (if is_space c then (if acc = [] then words [] s else acc # words [] s) else words (acc @ [c]) s)"

text \<open>\<^verbatim>\<open>w in v\<close> for a text and a JSON value.\<close>

fun json_in :: "string \<Rightarrow> json \<Rightarrow> exn + bool" where
  "json_in w (JStr s) = Inr (contains w s)"
| "json_in w (JList vs) = Inr (JStr w \<in> set vs)"
| "json_in w (JObj d) = Inr (w \<in> set (keys d))"
| "json_in w _ = Inl (TypeError ''argument is not iterable'')"

fun count_in :: "json \<Rightarrow> string list \<Rightarrow> exn + nat" where
  "count_in v [] = Inr 0"
| "count_in v (w # ws) = rbind (json_in w v) (\<lambda>b. rbind (count_in v ws) (\<lambda>n. Inr (if b then Suc n else n)))"

definition score_faithfulness :: "json \<Rightarrow> string \<Rightarrow> exn + rat" where
  "score_faithfulness answer expected =
     (if expected = [] \<or> \<not> json_true answer then Inr 0
      else rbind (count_in answer (words [] expected)) (\<lambda>n. Inr (of_nat n / of_nat (max (length (words [] expected)) 1))))"

fun any_in :: "string \<Rightarrow> json list \<Rightarrow> exn + bool" where
  "any_in src [] = Inr False"
| "any_in src (c # cs) = rbind (json_in src c) (\<lambda>b. if b then Inr True else any_in src cs)"

fun matched_sources :: "json list \<Rightarrow> string list \<Rightarrow> exn + nat" where
  "matched_sources cs [] = Inr 0"
| "matched_sources cs (s # ss) =
     rbind (any_in s cs) (\<lambda>b. rbind (matched_sources cs ss) (\<lambda>n. Inr (if b then Suc n else n)))"

text \<open>What a \<^verbatim>\<open>for\<close> loop over a JSON value visits.\<close>

fun json_items :: "json \<Rightarrow> exn + json list" where
  "json_items (JList vs) = Inr vs"
| "json_items (JObj d) = Inr (map JStr (keys d))"
| "json_items (JStr s) = Inr (map (\<lambda>c. JStr [c]) s)"
| "json_items _ = Inl (TypeError ''object is not iterable'')"

definition score_citation :: "json \<Rightarrow> string list \<Rightarrow> exn + rat" where
  "score_citation citations expected =
     (if expected = [] then Inr 1
      else rbind (json_items citations) (\<lambda>cs. rbind (matched_sources cs expected) (\<lambda>n.
             Inr (of_nat n / of_nat (max (length expected) 1)))))"

record canary_item =
  cy_question :: "string option"
  cy_answer :: string
  cy_sources :: "string list"

record canary_tally =
  cn_client :: nat
  cn_server :: nat
  cn_faith :: "rat list"
  cn_cite :: "rat list"

record canary_result =
  cr_total :: nat
  cr_faithfulness :: rat
  cr_citation :: rat
  cr_client :: nat
  cr_server :: nat

definition canary_headers :: headers where
  "canary_headers = [(''X-Tenant-ID'', ''canary-eval-tenant''), (''X-Principal-ID'', ''canary-eval-user'')]"

definition body_get :: "string \<Rightarrow> json \<Rightarrow> (string \<times> json) list \<Rightarrow> json" where
  "body_get k dflt d = (case map_of d k of Some v \<Rightarrow> v | None \<Rightarrow> dflt)"

text \<open>One question; whatever is raised after the question is read counts as a server error.\<close>

definition score_response :: "canary_item \<Rightarrow> http_response \<Rightarrow> canary_tally \<Rightarrow> canary_tally" where
  "score_response it r t =
     (if hp_status r \<ge> 500 then t\<lparr>cn_server := Suc (cn_server t)\<rparr>
      else if hp_status r \<ge> 400 then t\<lparr>cn_client := Suc (cn_client t)\<rparr>
      else (case rbind (hp_body r) (\<lambda>d.
                 rbind (score_faithfulness (body_get ''answer'' (JStr []) d) (cy_answer it)) (\<lambda>f.
                 rbind (score_citation (body_get ''citations'' (JList []) d) (cy_sources it)) (\<lambda>c. Inr (f, c)))) of
              Inl e \<Rightarrow> t\<lparr>cn_server := Suc (cn_server t)\<rparr>
            | Inr (f, c) \<Rightarrow> t\<lparr>cn_faith := cn_faith t @ [f], cn_cite := cn_cite t @ [c]\<rparr>))"

fun run_items :: "http_client \<Rightarrow> canary_item list \<Rightarrow> canary_tally \<Rightarrow> exn + canary_tally" where
  "run_items client [] t = Inr t"
| "run_items client (it # its) t =
     (case cy_question it of
        None \<Rightarrow> Inl (KeyError ''question'')
      | Some q \<Rightarrow>
         (case client canary_headers q of
            Inl e \<Rightarrow> run_items client its (t\<lparr>cn_server := Suc (cn_server t)\<rparr>)
          | Inr r \<Rightarrow> run_items client its (score_response it r t)))"

definition average :: "rat list \<Rightarrow> rat" where
  "average xs = sum_list xs / of_nat (max (length xs) 1)"

definition run_evals :: "http_client \<Rightarrow> canary_item list \<Rightarrow> exn + canary_result" where
  "run_evals client dataset =
     rbind (run_items client dataset \<lparr>cn_client = 0, cn_server = 0, cn_faith = [], cn_cite = []\<rparr>) (\<lambda>t.
       Inr \<lparr>cr_total = length dataset, cr_faithfulness = average (cn_faith t), cr_citation = average (cn_cite t),
            cr_client = cn_client t, cr_server = cn_server t\<rparr>)"

definition canary_issues :: "canary_result \<Rightarrow> canary_result \<Rightarrow> rat \<Rightarrow> string list" where
  "canary_issues base canary threshold =
     (if cr_faithfulness canary < threshold then [''Canary faithfulness below threshold''] else []) @
     (if cr_faithfulness canary < cr_faithfulness base - 1 / 20 then [''Canary faithfulness regressed >0.05 vs stable''] else []) @
     (if cr_server canary > cr_server base + 2 then [''Canary server errors increased significantly''] else [])"

definition compare_results :: "canary_result \<Rightarrow> canary_result \<Rightarrow> rat \<Rightarrow> bool" where
  "compare_results base canary threshold \<longleftrightarrow> canary_issues base canary threshold = []"

text \<open>\<^verbatim>\<open>main\<close>: the exit status of the process.\<close>

definition canary_main :: "http_client \<Rightarrow> http_client \<Rightarrow> canary_item list \<Rightarrow> rat \<Rightarrow> exn + nat" where
  "canary_main base canary dataset threshold =
     rbind (run_evals base dataset) (\<lambda>s. rbind (run_evals canary dataset) (\<lambda>c.
       Inr (if compare_results s c threshold then 0 else 1)))"

section \<open>Load test (load_test.py)\<close>

record load_stats =
  lo_requests :: nat
  lo_errors :: nat
  lo_client :: nat
  lo_server :: nat
  lo_latencies :: "rat list"

definition new_stats :: load_stats where
  "new_stats = \<lparr>lo_requests = 0, lo_errors = 0, lo_client = 0, lo_server = 0, lo_latencies = []\<rparr>"

definition record_outcome :: "rat \<Rightarrow> nat \<Rightarrow> load_stats \<Rightarrow> load_stats" where
  "record_outcome latency status s =
     (let s1 = (if status \<ge> 500 then s\<lparr>lo_server := Suc (lo_server s), lo_errors := Suc (lo_errors s)\<rparr>
                else if status \<ge> 400 then s\<lparr>lo_client := Suc (lo_client s), lo_errors := Suc (lo_errors s)\<rparr>
                else s\<lparr>lo_requests := Suc (lo_requests s)\<rparr>)
      in s1\<lparr>lo_latencies := lo_latencies s1 @ [latency]\<rparr>)"

text \<open>One turn of a worker: a response after some time, a timeout, or any other failure.\<close>

datatype attempt = Responded rat nat | TimedOut | Failed

fun record_attempt :: "attempt \<Rightarrow> load_stats \<Rightarrow> load_stats" where
  "record_attempt (Responded latency status) s = record_outcome latency status s"
| "record_attempt TimedOut s = record_outcome 30 504 s"
| "record_attempt Failed s = record_outcome 0 0 s"

text \<open>The turns of all workers, in the order in which they take the lock.\<close>

definition run_load_test :: "attempt list \<Rightarrow> load_stats" where
  "run_load_test attempts = fold record_attempt attempts new_stats"

definition percentile :: "rat \<Rightarrow> rat list \<Rightarrow> exn + rat" where
  "percentile p sorted_latencies =
     (let n = length sorted_latencies; i = nat (floor (of_nat n * p))
      in if n = 0 then Inr 0
         else if i < n then Inr (py_round 1 (sorted_latencies ! i * 1000)) else Inl (IndexError ''list index out of range''))"

record load_report =
  lr_elapsed :: rat
  lr_requests :: nat
  lr_errors :: nat
  lr_client :: nat
  lr_server :: nat
  lr_error_rate :: rat
  lr_throughput :: rat
  lr_p50 :: rat
  lr_p95 :: rat
  lr_p99 :: rat

definition report :: "rat \<Rightarrow> load_stats \<Rightarrow> exn + load_report" where
  "report elapsed s =
     (let ls = sort (lo_latencies s)
      in rbind (percentile (1 / 2) ls) (\<lambda>a. rbind (percentile (95 / 100) ls) (\<lambda>b. rbind (percentile (99 / 100) ls) (\<lambda>c.
        Inr \<lparr>lr_elapsed = py_round 1 elapsed, lr_requests = lo_requests s, lr_errors = lo_errors s, lr_client = lo_client s,
             lr_server = lo_server s,
             lr_error_rate = py_round 2 (of_nat (lo_errors s) / of_nat (max (lo_requests s + lo_errors s) 1) * 100),
             lr_throughput = py_round 2 (of_nat (lo_requests s) / max elapsed 1), lr_p50 = a, lr_p95 = b, lr_p99 = c\<rparr>))))"

definition build_auth_headers :: "string \<Rightarrow> string option \<Rightarrow> string option \<Rightarrow> string option \<Rightarrow> exn + headers" where
  "build_auth_headers mode bearer tenant prin =
     (if mode = ''oidc'' then
        (case present bearer of
           None \<Rightarrow> Inl (ValueError ''--bearer-token required for oidc auth mode'')
         | Some t \<Rightarrow> Inr [(''Authorization'', ''Bearer '' @ t)])
      else if mode = ''header'' then
        (case (present tenant, present prin) of
           (Some t, Some p) \<Rightarrow> Inr [(''X-Tenant-ID'', t), (''X-Principal'', p)]
         | _ \<Rightarrow> Inl (ValueError ''--tenant-id and --principal required for header auth mode''))
      else if mode = ''local'' then Inr []
      else Inl (ValueError (''Unknown auth mode: '' @ mode)))"

definition load_smoke_check :: "http_client \<Rightarrow> headers \<Rightarrow> string \<Rightarrow> bool" where
  "load_smoke_check client hs question =
     (case client hs question of Inl e \<Rightarrow> False | Inr r \<Rightarrow> 200 \<le> hp_status r \<and> hp_status r < 300)"

text \<open>\<^verbatim>\<open>main\<close>: the exit status, for the outcomes of the workers.\<close>

definition load_main :: "http_client \<Rightarrow> exn + headers \<Rightarrow> string \<Rightarrow> rat \<Rightarrow> attempt list \<Rightarrow> exn + nat" where
  "load_main client hs question elapsed attempts =
     (case hs of
        Inl e \<Rightarrow> Inr 2
      | Inr h \<Rightarrow>
         if \<not> load_smoke_check client h question then Inr 1
         else rbind (report elapsed (run_load_test attempts)) (\<lambda>r. Inr (if lr_error_rate r > 5 then 1 else 0)))"

section \<open>The API on the other side\<close>

text \<open>Header names are compared without their case.\<close>

definition header_value :: "string \<Rightarrow> headers \<Rightarrow> string option" where
  "header_value n hs = map_of (map (\<lambda>(k, v). (lower k, v)) hs) (lower n)"

definition caller_of :: "jwt_library \<Rightarrow> settings \<Rightarrow> headers \<Rightarrow> exn + identity" where
  "caller_of lib s hs =
     get_identity lib s (header_value ''X-Tenant-ID'' hs) (header_value ''X-Principal'' hs) (header_value ''Authorization'' hs)"

text \<open>An API that answers a caller it knows and gives the status of the refusal to any other.\<close>

definition api_client :: "jwt_library \<Rightarrow> settings \<Rightarrow> (identity \<Rightarrow> string \<Rightarrow> http_response) \<Rightarrow> http_client" where
  "api_client lib s handler hs q =
     (case caller_of lib s hs of
        Inr who \<Rightarrow> Inr (handler who q)
      | Inl (HttpError n m) \<Rightarrow> Inr \<lparr>hp_status = n, hp_body = Inr [(''detail'', JStr m)]\<rparr>
      | Inl e \<Rightarrow> Inr \<lparr>hp_status = 500, hp_body = Inr []\<rparr>)"

section \<open>Lemmas\<close>

lemma py_round_cases: "\<exists>n. py_round d x = of_int n / 10 ^ d \<and> (n = \<lfloor>x * 10 ^ d\<rfloor> \<or> n = \<lfloor>x * 10 ^ d\<rfloor> + 1)"
  by (auto simp: py_round_def Let_def)

lemma round_step_mono:
  assumes "(r::rat) \<le> r'"
  shows "(if r < 1 / 2 \<or> r = 1 / 2 \<and> even f then f else f + 1) \<le> (if r' < 1 / 2 \<or> r' = 1 / 2 \<and> even f then f else f + (1::int))"
  using assms by auto

lemma py_round_mono:
  assumes "x \<le> y"
  shows "py_round d x \<le> py_round d y"
proof -
  let ?a = "x * 10 ^ d" and ?b = "y * 10 ^ d"
  have ab: "?a \<le> ?b" using assms by (simp add: mult_right_mono)
  then have fl: "\<lfloor>?a\<rfloor> \<le> \<lfloor>?b\<rfloor>" by (rule floor_mono)
  show ?thesis
  proof (cases "\<lfloor>?a\<rfloor> = \<lfloor>?b\<rfloor>")
    case True
    then have "?a - of_int \<lfloor>?b\<rfloor> \<le> ?b - of_int \<lfloor>?b\<rfloor>" using ab by simp
    from round_step_mono [OF this] show ?thesis
      unfolding py_round_def Let_def True by (intro divide_right_mono) simp_all
  next
    case False
    obtain m n where m: "py_round d x = of_int m / 10 ^ d" "m = \<lfloor>?a\<rfloor> \<or> m = \<lfloor>?a\<rfloor> + 1"
      and n: "py_round d y = of_int n / 10 ^ d" "n = \<lfloor>?b\<rfloor> \<or> n = \<lfloor>?b\<rfloor> + 1"
      using py_round_cases by metis
    have "m \<le> n" using fl False m(2) n(2) by auto
    then show ?thesis using m(1) n(1) by (simp add: divide_right_mono)
  qed
qed

lemma py_round_int: "py_round d (of_int n) = of_int n"
proof -
  have e: "(of_int n :: rat) * 10 ^ d = of_int (n * 10 ^ d)" by simp
  have "py_round d (of_int n) = of_int (n * 10 ^ d) / 10 ^ d"
    unfolding py_round_def Let_def e by (simp del: of_int_mult of_int_power)
  then show ?thesis by simp
qed

lemma count_in_le: "count_in v ws = Inr n \<Longrightarrow> n \<le> length ws"
  by (induction ws arbitrary: n) (auto split: if_splits)

lemma matched_le: "matched_sources cs ss = Inr n \<Longrightarrow> n \<le> length ss"
  by (induction ss arbitrary: n) (auto split: if_splits)

lemma ratio_bounds: "n \<le> m \<Longrightarrow> 0 \<le> (of_nat n / of_nat (max m 1) :: rat) \<and> of_nat n / of_nat (max m 1) \<le> (1::rat)"
  by (simp add: divide_le_eq max_def)

lemma faithfulness_bounds: "score_faithfulness a e = Inr q \<Longrightarrow> 0 \<le> q \<and> q \<le> 1"
  using ratio_bounds count_in_le by (fastforce simp: score_faithfulness_def split: if_splits)

lemma citation_bounds: "score_citation cs e = Inr q \<Longrightarrow> 0 \<le> q \<and> q \<le> 1"
  using ratio_bounds matched_le by (fastforce simp: score_citation_def split: if_splits)

definition tally_ok :: "nat \<Rightarrow> canary_tally \<Rightarrow> bool" where
  "tally_ok n t \<longleftrightarrow>
     (\<forall>q \<in> set (cn_faith t) \<union> set (cn_cite t). 0 \<le> q \<and> q \<le> 1) \<and>
     length (cn_faith t) = length (cn_cite t) \<and> cn_client t + cn_server t + length (cn_faith t) = n"

lemma score_response_ok: "tally_ok n t \<Longrightarrow> tally_ok (Suc n) (score_response it r t)"
  using faithfulness_bounds citation_bounds
  by (fastforce simp: score_response_def tally_ok_def split: sum.splits)

lemma run_items_ok: "run_items client its t = Inr t' \<Longrightarrow> tally_ok n t \<Longrightarrow> tally_ok (n + length its) t'"
proof (induction client its t arbitrary: n rule: run_items.induct)
  case (2 client it its t)
  obtain q where q: "cy_question it = Some q" using 2(3) by (auto split: option.splits)
  show ?case
  proof (cases "client canary_headers q")
    case (Inl e)
    have "tally_ok (Suc n) (t\<lparr>cn_server := Suc (cn_server t)\<rparr>)" using 2(4) by (auto simp: tally_ok_def)
    from 2(1) [OF q Inl _ this] 2(3) q Inl show ?thesis by simp
  next
    case (Inr r)
    from 2(2) [OF q Inr _ score_response_ok [OF 2(4)]] 2(3) q Inr show ?thesis by simp
  qed
qed simp

lemma average_bounds:
  assumes "\<forall>q \<in> set qs. 0 \<le> q \<and> q \<le> 1"
  shows "0 \<le> average qs \<and> average qs \<le> 1"
proof -
  have "0 \<le> sum_list qs \<and> sum_list qs \<le> of_nat (length qs)" using assms by (induction qs) auto
  then show ?thesis by (auto simp: average_def divide_le_eq max_def)
qed

lemma caller_refused: "s_auth_mode s \<noteq> LocalAuth \<Longrightarrow> \<exists>m. caller_of lib s canary_headers = Inl (HttpError 401 m)"
  by (cases "s_auth_mode s")
    (auto simp: caller_of_def get_identity_def header_value_def canary_headers_def present_def unauthorized_def lower_def lower_char_def)

lemma run_items_refused:
  assumes "s_auth_mode s \<noteq> LocalAuth" "list_all (\<lambda>it. cy_question it \<noteq> None) its"
  shows "run_items (api_client lib s handler) its t = Inr (t\<lparr>cn_client := cn_client t + length its\<rparr>)"
  using assms(2)
proof (induction its arbitrary: t)
  case (Cons it its)
  obtain m where m: "caller_of lib s canary_headers = Inl (HttpError 401 m)" using caller_refused [OF assms(1)] by blast
  then show ?case using Cons by (auto simp: api_client_def score_response_def)
qed simp

lemma record_attempt_counts:
  "lo_requests (record_attempt a s) + lo_errors (record_attempt a s) = Suc (lo_requests s + lo_errors s) \<and>
   (lo_client s + lo_server s = lo_errors s \<longrightarrow>
      lo_client (record_attempt a s) + lo_server (record_attempt a s) = lo_errors (record_attempt a s)) \<and>
   length (lo_latencies (record_attempt a s)) = Suc (length (lo_latencies s))"
  by (cases a) (auto simp: record_outcome_def Let_def)

definition counted_as_request :: "attempt \<Rightarrow> bool" where
  "counted_as_request a = (case a of Responded _ st \<Rightarrow> st < 400 | TimedOut \<Rightarrow> False | Failed \<Rightarrow> True)"

lemma record_attempt_requests:
  "lo_requests (record_attempt a s) = lo_requests s + (if counted_as_request a then 1 else 0)"
  by (cases a) (auto simp: record_outcome_def counted_as_request_def Let_def)

lemma fold_attempts:
  "lo_client s + lo_server s = lo_errors s \<Longrightarrow>
   (let t = fold record_attempt as s in
     lo_requests t + lo_errors t = lo_requests s + lo_errors s + length as \<and> lo_client t + lo_server t = lo_errors t \<and>
     length (lo_latencies t) = length (lo_latencies s) + length as \<and>
     lo_requests t = lo_requests s + length (filter counted_as_request as))"
proof (induction as arbitrary: s)
  case (Cons a as)
  note c = record_attempt_counts [of a s] record_attempt_requests [of a s]
  have "lo_client (record_attempt a s) + lo_server (record_attempt a s) = lo_errors (record_attempt a s)"
    using c(1) Cons.prems by simp
  from Cons.IH [OF this] c show ?case by (cases "counted_as_request a") (auto simp: Let_def)
qed simp

definition percentile_index :: "rat \<Rightarrow> nat \<Rightarrow> nat" where
  "percentile_index p n = nat (floor (of_nat n * p))"

lemma percentile_index_less: "0 < n \<Longrightarrow> p < 1 \<Longrightarrow> percentile_index p n < n"
proof -
  assume n: "0 < n" and p: "p < 1"
  have "of_nat n * p < (of_nat n :: rat)" using n p by simp
  then have "floor (of_nat n * p) < int n" by (simp add: floor_less_iff)
  then show ?thesis using n by (simp add: percentile_index_def nat_less_iff)
qed

lemma percentile_index_mono: "p \<le> q \<Longrightarrow> percentile_index p n \<le> percentile_index q n"
  by (simp add: percentile_index_def floor_mono mult_left_mono nat_mono)

lemma percentile_Inr:
  "p < 1 \<Longrightarrow> percentile p ls = Inr (if ls = [] then 0 else py_round 1 (ls ! percentile_index p (length ls) * 1000))"
  using percentile_index_less [of "length ls" p] by (auto simp: percentile_def Let_def percentile_index_def)

lemma percentile_mono:
  assumes "sorted ls" "p \<le> q" "q < 1" "percentile p ls = Inr a" "percentile q ls = Inr b"
  shows "a \<le> b"
proof (cases "ls = []")
  case False
  have "ls ! percentile_index p (length ls) \<le> ls ! percentile_index q (length ls)"
    using assms(1) percentile_index_mono [OF assms(2)] percentile_index_less [of "length ls" q] False assms(3)
    by (intro sorted_nth_mono) auto
  then show ?thesis
    using assms(2-5) percentile_Inr [of p ls] percentile_Inr [of q ls] False by (auto intro: py_round_mono)
qed (use assms percentile_Inr [of p ls] percentile_Inr [of q ls] in simp)

lemma error_rate_bounds:
  "0 \<le> of_nat e / of_nat (max (n + e) 1) * (100 :: rat)" "of_nat e / of_nat (max (n + e) 1) * (100 :: rat) \<le> 100"
proof -
  have e: "(of_nat e :: rat) \<le> of_nat (max (n + e) 1)" by simp
  have p: "(0 :: rat) < of_nat (max (n + e) 1)" by simp
  show "0 \<le> of_nat e / of_nat (max (n + e) 1) * (100 :: rat)" by simp
  have "of_nat e / of_nat (max (n + e) 1) \<le> (1 :: rat)" using e p by (simp only: divide_le_eq_1_pos)
  from mult_right_mono [OF this, of 100] show "of_nat e / of_nat (max (n + e) 1) * (100 :: rat) \<le> 100" by simp
qed

section \<open>Properties\<close>

text \<open>C34: the report of a load test. It never fails for want of a percentile; every turn of a worker is
  counted once, as a request or as an error, and the errors are the client's and the server's; the
  percentiles are in order and the error rate is a percentage. A turn that fails without a response, a
  refused connection say, is counted as a request that succeeded.\<close>

theorem load_report_in_range:
  "\<exists>r. report elapsed (run_load_test attempts) = Inr r \<and>
     lr_requests r + lr_errors r = length attempts \<and> lr_client r + lr_server r = lr_errors r \<and>
     lr_requests r = length (filter counted_as_request attempts) \<and>
     lr_p50 r \<le> lr_p95 r \<and> lr_p95 r \<le> lr_p99 r \<and> 0 \<le> lr_error_rate r \<and> lr_error_rate r \<le> 100"
proof -
  let ?s = "run_load_test attempts" let ?ls = "sort (lo_latencies ?s)"
  have c: "lo_requests ?s + lo_errors ?s = length attempts" "lo_client ?s + lo_server ?s = lo_errors ?s"
    "lo_requests ?s = length (filter counted_as_request attempts)"
    using fold_attempts [of new_stats attempts] by (simp_all add: run_load_test_def new_stats_def Let_def)
  obtain a b d where p: "percentile (1 / 2) ?ls = Inr a" "percentile (19 / 20) ?ls = Inr b" "percentile (99 / 100) ?ls = Inr d"
    by (simp add: percentile_Inr)
  have "a \<le> b" "b \<le> d"
    using percentile_mono [OF _ _ _ p(1,2)] percentile_mono [OF _ _ _ p(2,3)] by simp_all
  moreover let ?q = "of_nat (lo_errors ?s) / of_nat (max (lo_requests ?s + lo_errors ?s) 1) * (100 :: rat)"
  have "0 \<le> ?q" "?q \<le> 100"
    using error_rate_bounds [of "lo_errors ?s" "lo_requests ?s"] by simp_all
  then have "py_round 2 0 \<le> py_round 2 ?q" "py_round 2 ?q \<le> py_round 2 100" by (simp_all only: py_round_mono)
  then have "0 \<le> py_round 2 ?q" "py_round 2 ?q \<le> 100"
    using py_round_int [of 2 0] py_round_int [of 2 100] by simp_all
  ultimately show ?thesis using c by (simp add: report_def p)
qed

text \<open>C31: the canary script promotes nothing when the API wants an identity. Against an API in any mode but the
  local one, every question is refused with 401, because the script sends its principal in a header
  that the API does not read and no token; so the faithfulness is 0, the refusals are no issue of
  their own, and for every positive threshold the canary is rolled back, whatever the deployments
  answer.\<close>

theorem canary_never_promoted:
  assumes "s_auth_mode s \<noteq> LocalAuth" and "list_all (\<lambda>it. cy_question it \<noteq> None) dataset" and "0 < threshold"
  shows "run_evals (api_client lib s handler) dataset =
      Inr \<lparr>cr_total = length dataset, cr_faithfulness = 0, cr_citation = 0, cr_client = length dataset, cr_server = 0\<rparr> \<and>
    canary_main base (api_client lib s handler) dataset threshold \<noteq> Inr 0"
proof -
  have "run_evals (api_client lib s handler) dataset =
      Inr \<lparr>cr_total = length dataset, cr_faithfulness = 0, cr_citation = 0, cr_client = length dataset, cr_server = 0\<rparr>"
    by (simp add: run_evals_def run_items_refused [OF assms(1,2)] average_def)
  then show ?thesis
    using assms(3) by (auto simp: canary_main_def rbind_Inr_iff compare_results_def canary_issues_def)
qed

definition demo_item :: canary_item where
  "demo_item = \<lparr>cy_question = Some ''q'', cy_answer = ''a b'', cy_sources = []\<rparr>"

definition demo_handler :: "identity \<Rightarrow> string \<Rightarrow> http_response" where
  "demo_handler who q = \<lparr>hp_status = 200, hp_body = Inr [(''answer'', JStr ''a b''), (''citations'', JList [])]\<rparr>"

theorem canary_never_promoted_witness:
  "run_evals (api_client demo_jwt production_settings demo_handler) [demo_item] =
      Inr \<lparr>cr_total = 1, cr_faithfulness = 0, cr_citation = 0, cr_client = 1, cr_server = 0\<rparr>"
proof -
  have "s_auth_mode production_settings \<noteq> LocalAuth" by code_simp
  moreover have "list_all (\<lambda>it. cy_question it \<noteq> None) [demo_item]" by (simp add: demo_item_def)
  ultimately show ?thesis
    using canary_never_promoted [of production_settings "[demo_item]" "1 / 2" demo_jwt demo_handler] by simp
qed

text \<open>Scores are fractions. Whatever the deployment answers, the average scores of a canary run lie
  between 0 and 1, and every question is scored, refused or failed.\<close>

theorem canary_scores_bounded:
  assumes "run_evals client dataset = Inr r"
  shows "0 \<le> cr_faithfulness r \<and> cr_faithfulness r \<le> 1 \<and> 0 \<le> cr_citation r \<and> cr_citation r \<le> 1 \<and>
    cr_client r + cr_server r \<le> cr_total r \<and> cr_total r = length dataset"
proof -
  obtain t where t: "run_items client dataset \<lparr>cn_client = 0, cn_server = 0, cn_faith = [], cn_cite = []\<rparr> = Inr t"
    and r: "r = \<lparr>cr_total = length dataset, cr_faithfulness = average (cn_faith t), cr_citation = average (cn_cite t),
      cr_client = cn_client t, cr_server = cn_server t\<rparr>"
    using assms by (auto simp: run_evals_def rbind_Inr_iff)
  have ok: "tally_ok (length dataset) t" using run_items_ok [OF t, of 0] by (simp add: tally_ok_def)
  then have "\<forall>q \<in> set (cn_faith t). 0 \<le> q \<and> q \<le> 1" "\<forall>q \<in> set (cn_cite t). 0 \<le> q \<and> q \<le> 1"
    by (auto simp: tally_ok_def)
  from this [THEN average_bounds] ok show ?thesis by (simp add: r tally_ok_def)
qed

theorem canary_scores_bounded_witness:
  "\<exists>r. run_evals (\<lambda>hs q. Inr (demo_handler undefined q)) [demo_item] = Inr r \<and> cr_faithfulness r = 1 \<and>
     cr_citation r \<le> 1 \<and> cr_client r + cr_server r \<le> 1"
proof -
  have "run_evals (\<lambda>hs q. Inr (demo_handler undefined q)) [demo_item] =
    Inr \<lparr>cr_total = 1, cr_faithfulness = 1, cr_citation = 1, cr_client = 0, cr_server = 0\<rparr>" by code_simp
  from canary_scores_bounded [OF this] this show ?thesis by auto
qed

text \<open>The load test is known to the API by what it was given. The headers the script builds for the header
  mode give, in an API that trusts headers, exactly the tenant and the principal of its arguments.\<close>

theorem load_test_identity:
  assumes "build_auth_headers ''header'' token (Some t) (Some p) = Inr hs"
    and "s_auth_mode s = HeaderAuth" and "s_trusted_headers s"
  shows "caller_of lib s hs = Inr \<lparr>id_tenant = t, id_principal = p\<rparr>"
proof -
  have hs: "hs = [(''X-Tenant-ID'', t), (''X-Principal'', p)]" and ne: "t \<noteq> []" "p \<noteq> []"
    using assms(1) by (auto simp: build_auth_headers_def present_def split: if_splits)
  show ?thesis
    using assms(2,3) ne by (simp add: hs caller_of_def get_identity_def header_value_def present_def lower_def lower_char_def)
qed

theorem load_test_identity_witness:
  "caller_of demo_jwt (production_settings\<lparr>s_auth_mode := HeaderAuth, s_trusted_headers := True\<rparr>)
     [(''X-Tenant-ID'', ''t''), (''X-Principal'', ''p'')] = Inr \<lparr>id_tenant = ''t'', id_principal = ''p''\<rparr>"
  by (rule load_test_identity [of None]) (simp_all add: build_auth_headers_def present_def)

end
