(* ===== verification/Runtime.thy ===== *)
theory Runtime
  imports Security
begin

text \<open>
  What the process keeps beside the stores: the engine and session factory of
  \<^verbatim>\<open>postgres/session.py\<close>, the graph driver and the key set cache of
  \<^verbatim>\<open>api/dependencies.py\<close>, the providers of \<^verbatim>\<open>infrastructure/telemetry.py\<close>,
  the instruments of \<^verbatim>\<open>metrics.py\<close> and \<^verbatim>\<open>metrics_graph.py\<close>, the
  logging context of \<^verbatim>\<open>logging.py\<close>, the graph schema of \<^verbatim>\<open>neo4j/schema.py\<close>
  and the object store of \<^verbatim>\<open>s3_store.py\<close>. Engines, drivers, the key set endpoint and the
  clients are libraries and arguments here. The values that are created once share a locale.
\<close>

section \<open>Settings the runtime reads (settings.py)\<close>

record process_settings = settings +
  ps_app_name :: string
  ps_log_level :: string
  ps_pg_pool :: int
  ps_pg_overflow :: int
  ps_neo4j_uri :: string
  ps_neo4j_user :: string
  ps_neo4j_pool :: int
  ps_s3_endpoint :: string
  ps_service_name :: string
  ps_otlp_endpoint :: string

section \<open>Values that are created once\<close>

text \<open>
  \<^verbatim>\<open>if x is None: x = create(); return x\<close>, where \<^verbatim>\<open>env\<close> is what the creation
  depends on at the time of the call.
\<close>

fun fetches :: "('env \<Rightarrow> 's \<Rightarrow> (exn + 'a) \<times> 's) \<Rightarrow> 'env list \<Rightarrow> 's \<Rightarrow> (exn + 'a) list" where
  "fetches fetch [] s = []"
| "fetches fetch (x # xs) s = fst (fetch x s) # fetches fetch xs (snd (fetch x s))"

locale lazy_cell =
  fixes peek :: "'s \<Rightarrow> 'a option" and fetch :: "'env \<Rightarrow> 's \<Rightarrow> (exn + 'a) \<times> 's"
  assumes fetch_cached: "peek s = Some a \<Longrightarrow> fetch x s = (Inr a, s)"
    and fetch_created: "fetch x s = (Inr a, s') \<Longrightarrow> peek s' = Some a"
    and fetch_failed: "fetch x s = (Inl e, s') \<Longrightarrow> peek s' = peek s"
begin

lemma fetch_stable: "fetch x s = (Inr a, s') \<Longrightarrow> fetch y s' = (Inr a, s')"
  using fetch_created fetch_cached by blast

lemma fetches_cached: "peek s = Some a \<Longrightarrow> fetches fetch xs s = replicate (length xs) (Inr a)"
  by (induction xs arbitrary: s) (simp_all add: fetch_cached)

lemma fetches_agree: "Inr a \<in> set (fetches fetch xs s) \<Longrightarrow> Inr b \<in> set (fetches fetch xs s) \<Longrightarrow> a = b"
proof (induction xs arbitrary: s)
  case (Cons x xs)
  obtain r s' where f: "fetch x s = (r, s')" by (cases "fetch x s")
  show ?case
  proof (cases r)
    case (Inr c)
    then have "fetches fetch (x # xs) s = replicate (length (x # xs)) (Inr c)"
      using f fetches_cached [OF fetch_created, of x s c s'] by simp
    then show ?thesis using Cons.prems by (auto split: if_splits)
  qed (use Cons f in auto)
qed simp

end

section \<open>Engine and session factory (postgres/session.py)\<close>

text \<open>The two module variables; a factory is known by the engine its sessions use.\<close>

record 'e pg_module =
  pm_engine :: "'e option"
  pm_factory :: "'e option"

definition postgres_dsn_async :: "process_settings \<Rightarrow> string" where
  "postgres_dsn_async s = postgres_dsn ''asyncpg'' (settings.truncate s)"

type_synonym 'e engine_env = "process_settings \<times> (string \<Rightarrow> int \<Rightarrow> int \<Rightarrow> exn + 'e)"

definition get_engine :: "'e engine_env \<Rightarrow> 'e pg_module \<Rightarrow> (exn + 'e) \<times> 'e pg_module" where
  "get_engine env m =
     (case pm_engine m of
        Some e \<Rightarrow> (Inr e, m)
      | None \<Rightarrow>
         (case env of (s, create_async_engine) \<Rightarrow>
            (case create_async_engine (postgres_dsn_async s) (ps_pg_pool s) (ps_pg_overflow s) of
               Inl x \<Rightarrow> (Inl x, m)
             | Inr e \<Rightarrow> (Inr e, m\<lparr>pm_engine := Some e\<rparr>))))"

definition get_session_factory :: "'e engine_env \<Rightarrow> 'e pg_module \<Rightarrow> (exn + 'e) \<times> 'e pg_module" where
  "get_session_factory env m =
     (case pm_factory m of
        Some f \<Rightarrow> (Inr f, m)
      | None \<Rightarrow>
         (case get_engine env m of
            (Inl x, m') \<Rightarrow> (Inl x, m')
          | (Inr e, m') \<Rightarrow> (Inr e, m'\<lparr>pm_factory := Some e\<rparr>)))"

text \<open>\<^verbatim>\<open>get_session\<close>: the caller's block on a new session, which is closed whatever the block does.\<close>

definition get_session ::
  "'e engine_env \<Rightarrow> ('e \<Rightarrow> 'w) \<Rightarrow> ('w \<Rightarrow> (exn + 'a) \<times> 'w) \<Rightarrow> ('w \<Rightarrow> 'w) \<Rightarrow> 'e pg_module \<Rightarrow> (exn + (exn + 'a) \<times> 'w) \<times> 'e pg_module" where
  "get_session env open_session block close m =
     (case get_session_factory env m of
        (Inl x, m') \<Rightarrow> (Inl x, m')
      | (Inr f, m') \<Rightarrow> (case block (open_session f) of (r, w) \<Rightarrow> (Inr (r, close w), m')))"

definition dispose_engine :: "('e \<Rightarrow> exn + unit) \<Rightarrow> 'e pg_module \<Rightarrow> (exn + unit) \<times> 'e pg_module" where
  "dispose_engine dispose m =
     (case pm_engine m of
        None \<Rightarrow> (Inr (), m)
      | Some e \<Rightarrow>
         (case dispose e of
            Inl x \<Rightarrow> (Inl x, m)
          | Inr _ \<Rightarrow> (Inr (), m\<lparr>pm_engine := None, pm_factory := None\<rparr>)))"

interpretation engine_cell: lazy_cell pm_engine get_engine
  by unfold_locales (auto simp: get_engine_def split: option.splits sum.splits)

interpretation factory_cell: lazy_cell pm_factory get_session_factory
  by unfold_locales
    (auto simp: get_session_factory_def get_engine_def split: option.splits sum.splits prod.splits)

text \<open>The module as a transition system.\<close>

inductive pg_step :: "'e pg_module \<Rightarrow> 'e pg_module \<Rightarrow> bool" where
  step_engine: "get_engine env m = (r, m') \<Longrightarrow> pg_step m m'"
| step_factory: "get_session_factory env m = (r, m') \<Longrightarrow> pg_step m m'"
| step_dispose: "dispose_engine dispose m = (r', m') \<Longrightarrow> pg_step m m'"

inductive_cases pg_stepE: "pg_step m m'"

definition fresh_module :: "'e pg_module" where
  "fresh_module = \<lparr>pm_engine = None, pm_factory = None\<rparr>"

definition factory_on_engine :: "'e pg_module \<Rightarrow> bool" where
  "factory_on_engine m \<longleftrightarrow> (case pm_factory m of None \<Rightarrow> True | Some f \<Rightarrow> pm_engine m = Some f)"

lemma pg_step_factory: "pg_step m m' \<Longrightarrow> factory_on_engine m \<Longrightarrow> factory_on_engine m'"
  by (erule pg_stepE)
    (auto simp: get_engine_def get_session_factory_def dispose_engine_def factory_on_engine_def
      split: option.splits sum.splits prod.splits)

section \<open>Settings (settings.py)\<close>

text \<open>\<^verbatim>\<open>lru_cache\<close> of size one: a value that was made is kept, an exception is not. The
  environment gives the fields, or the error of a field that cannot be read.\<close>

definition get_settings :: "exn + settings \<Rightarrow> settings option \<Rightarrow> (exn + settings) \<times> settings option" where
  "get_settings env c =
     (case c of
        Some s \<Rightarrow> (Inr s, c)
      | None \<Rightarrow> (case rbind env mk_settings of Inl e \<Rightarrow> (Inl e, None) | Inr s \<Rightarrow> (Inr s, Some s)))"

definition reset_settings_cache :: "settings option \<Rightarrow> settings option" where
  "reset_settings_cache c = None"

definition is_test :: "settings \<Rightarrow> bool" where
  "is_test s \<longleftrightarrow> s_env s = TestEnv"

interpretation settings_cell: lazy_cell id get_settings
  by unfold_locales (auto simp: get_settings_def split: option.splits sum.splits)

section \<open>Graph driver (dependencies.py)\<close>

text \<open>The cached driver, and the drivers whose connection pools are open.\<close>

record 'd driver_cell =
  dc_driver :: "'d option"
  dc_open :: "'d list"

type_synonym 'd driver_env = "process_settings \<times> (string \<Rightarrow> string \<times> string \<Rightarrow> int \<Rightarrow> exn + 'd)"

definition get_neo4j_driver :: "'d driver_env \<Rightarrow> 'd driver_cell \<Rightarrow> (exn + 'd) \<times> 'd driver_cell" where
  "get_neo4j_driver env c =
     (case dc_driver c of
        Some d \<Rightarrow> (Inr d, c)
      | None \<Rightarrow>
         (case env of (s, driver) \<Rightarrow>
            (case driver (ps_neo4j_uri s) (ps_neo4j_user s, s_neo4j_password s) (ps_neo4j_pool s) of
               Inl x \<Rightarrow> (Inl x, c)
             | Inr d \<Rightarrow> (Inr d, \<lparr>dc_driver = Some d, dc_open = dc_open c @ [d]\<rparr>))))"

text \<open>\<^verbatim>\<open>_neo4j_driver.close()\<close> of an asynchronous driver makes a coroutine, which nobody awaits, so
  no pool is closed.\<close>

definition close_neo4j_driver :: "'d driver_cell \<Rightarrow> 'd driver_cell" where
  "close_neo4j_driver c = (case dc_driver c of None \<Rightarrow> c | Some d \<Rightarrow> c\<lparr>dc_driver := None\<rparr>)"

interpretation driver_cell: lazy_cell dc_driver get_neo4j_driver
  by unfold_locales (auto simp: get_neo4j_driver_def split: option.splits sum.splits)

definition no_driver :: "'d driver_cell" where
  "no_driver = \<lparr>dc_driver = None, dc_open = []\<rparr>"

text \<open>One life of the application: the driver is made on first use and closed at the end.\<close>

definition driver_life :: "'d driver_env \<Rightarrow> 'd driver_cell \<Rightarrow> 'd driver_cell" where
  "driver_life env c = close_neo4j_driver (snd (get_neo4j_driver env c))"

section \<open>Key set cache (dependencies.py)\<close>

definition fetch_jwks :: "string \<Rightarrow> (string \<Rightarrow> exn + jwk list) \<Rightarrow> (string, jwk list) dict \<Rightarrow> (exn + jwk list) \<times> (string, jwk list) dict" where
  "fetch_jwks url get_keys cache =
     (case map_of cache url of
        Some ks \<Rightarrow> (Inr ks, cache)
      | None \<Rightarrow> (case get_keys url of Inl e \<Rightarrow> (Inl e, cache) | Inr ks \<Rightarrow> (Inr ks, put url ks cache)))"

interpretation jwks_cell: lazy_cell "\<lambda>c. map_of c url" "fetch_jwks url"
  by unfold_locales (auto simp: fetch_jwks_def map_of_put split: option.splits sum.splits)

text \<open>\<^verbatim>\<open>_get_identity_from_jwt\<close> with the cache: the library's answers are those of the moment.\<close>

definition identity_with_cache ::
  "jwt_library \<Rightarrow> settings \<Rightarrow> string \<Rightarrow> (string, jwk list) dict \<Rightarrow> (exn + identity) \<times> (string, jwk list) dict" where
  "identity_with_cache lib s token cache =
     (let looked = (\<lambda>url. fetch_jwks url (jw_keys lib) cache)
      in (identity_from_jwt (lib\<lparr>jw_keys := \<lambda>url. fst (looked url)\<rparr>) s token,
          (case (jw_header lib token, present (s_jwks_url s)) of
             (Some _, Some url) \<Rightarrow> snd (looked url) | _ \<Rightarrow> cache)))"

section \<open>Providers (telemetry.py)\<close>

datatype span_exporter = GivenExporter nat | OtlpSpans string bool
datatype span_processor = SimpleProcessor span_exporter | BatchProcessor span_exporter

record tracer_provider =
  tp_service :: string
  tp_processors :: "span_processor list"

definition configure_tracing :: "string \<Rightarrow> string option \<Rightarrow> nat option \<Rightarrow> bool \<Rightarrow> bool \<Rightarrow> exn + tracer_provider" where
  "configure_tracing service endpoint exporter enable_otlp insecure =
     (if enable_otlp \<or> exporter \<noteq> None
      then (case exporter of
              Some x \<Rightarrow> Inr \<lparr>tp_service = service, tp_processors = [SimpleProcessor (GivenExporter x)]\<rparr>
            | None \<Rightarrow>
               (case endpoint of
                  None \<Rightarrow> Inl (ValueError ''otlp_endpoint is required when OTLP is enabled'')
                | Some e \<Rightarrow> Inr \<lparr>tp_service = service, tp_processors = [BatchProcessor (OtlpSpans e insecure)]\<rparr>))
      else Inr \<lparr>tp_service = service, tp_processors = []\<rparr>)"

datatype metric_reader = GivenReader nat | PeriodicReader string bool int

record meter_provider =
  mv_service :: string
  mv_readers :: "metric_reader list"

definition configure_meter_provider ::
  "string \<Rightarrow> string option \<Rightarrow> nat option \<Rightarrow> bool \<Rightarrow> bool \<Rightarrow> int \<Rightarrow> meter_provider" where
  "configure_meter_provider service endpoint reader enable_otlp insecure interval =
     (case reader of
        Some r \<Rightarrow> \<lparr>mv_service = service, mv_readers = [GivenReader r]\<rparr>
      | None \<Rightarrow>
         (case present endpoint of
            Some e \<Rightarrow> \<lparr>mv_service = service,
                       mv_readers = (if enable_otlp then [PeriodicReader e insecure interval] else [])\<rparr>
          | None \<Rightarrow> \<lparr>mv_service = service, mv_readers = []\<rparr>))"

text \<open>Both shutdowns suppress what the provider raises.\<close>

definition shutdown_provider :: "('p \<Rightarrow> exn + unit) \<Rightarrow> 'p option \<Rightarrow> exn + unit" where
  "shutdown_provider shutdown p =
     (case p of None \<Rightarrow> Inr () | Some q \<Rightarrow> (case shutdown q of Inl _ \<Rightarrow> Inr () | Inr _ \<Rightarrow> Inr ()))"

text \<open>\<^verbatim>\<open>traced_background_task\<close>: the callback runs in the context of the request, inside a span of its
  own, and the context of the runner is restored whatever the callback does. A context is the list of
  the spans that are open in it, the innermost first.\<close>

definition traced_background_task ::
  "string list \<Rightarrow> string \<Rightarrow> (string list \<Rightarrow> exn + unit) \<Rightarrow> string list \<Rightarrow> (exn + unit) \<times> string list" where
  "traced_background_task parent name callback current =
     (let token = current; attached = parent; result = callback (name # attached) in (result, token))"

section \<open>Instruments (metrics.py, metrics_graph.py)\<close>

datatype instrument_kind = CounterKind | HistogramKind

record instrument =
  it_kind :: instrument_kind
  it_name :: string
  it_description :: string
  it_unit :: string

definition create_counter :: "string \<Rightarrow> string \<Rightarrow> instrument" where
  "create_counter name description = \<lparr>it_kind = CounterKind, it_name = name, it_description = description, it_unit = []\<rparr>"

definition create_histogram :: "string \<Rightarrow> string \<Rightarrow> string \<Rightarrow> instrument" where
  "create_histogram name description u = \<lparr>it_kind = HistogramKind, it_name = name, it_description = description, it_unit = u\<rparr>"

record app_instruments =
  ai_request_count :: instrument
  ai_request_errors :: instrument
  ai_request_duration :: instrument

definition init_app_metrics :: app_instruments where
  "init_app_metrics =
     \<lparr>ai_request_count = create_counter ''groundgraph.http.requests'' ''Total HTTP requests observed by the API boundary.'',
      ai_request_errors = create_counter ''groundgraph.http.request.errors'' ''Total HTTP request failures (5xx).'',
      ai_request_duration = create_histogram ''groundgraph.http.request.duration'' ''HTTP request duration in seconds.'' ''s''\<rparr>"

record retrieval_instruments =
  ri_embedding_duration :: instrument
  ri_embedding_tokens :: instrument
  ri_vector_duration :: instrument
  ri_keyword_duration :: instrument
  ri_rerank_duration :: instrument
  ri_rerank_count :: instrument
  ri_generate_duration :: instrument
  ri_generate_tokens :: instrument
  ri_generate_cost :: instrument

definition init_retrieval_metrics :: retrieval_instruments where
  "init_retrieval_metrics =
     \<lparr>ri_embedding_duration = create_histogram ''groundgraph.retrieval.embedding.duration'' ''Embedding call duration in milliseconds.'' ''ms'',
      ri_embedding_tokens = create_counter ''groundgraph.retrieval.embedding.tokens'' ''Total embedding tokens consumed.'',
      ri_vector_duration = create_histogram ''groundgraph.retrieval.vector.duration'' ''Vector retrieval duration in milliseconds.'' ''ms'',
      ri_keyword_duration = create_histogram ''groundgraph.retrieval.keyword.duration'' ''Keyword retrieval duration in milliseconds.'' ''ms'',
      ri_rerank_duration = create_histogram ''groundgraph.retrieval.rerank.duration'' ''Reranking duration in milliseconds.'' ''ms'',
      ri_rerank_count = create_histogram ''groundgraph.retrieval.rerank.evidence_count'' ''Number of evidence chunks sent to reranker.'' [],
      ri_generate_duration = create_histogram ''groundgraph.retrieval.generate.duration'' ''Answer generation duration in milliseconds.'' ''ms'',
      ri_generate_tokens = create_counter ''groundgraph.retrieval.generate.tokens'' ''Total generation tokens consumed.'',
      ri_generate_cost = create_histogram ''groundgraph.retrieval.generate.cost_usd'' ''Estimated generation cost in USD.'' ''USD''\<rparr>"

record graph_instruments =
  gi_projection_lag :: instrument
  gi_queue_depth :: instrument
  gi_provenance :: instrument
  gi_conflicts :: instrument
  gi_entities :: instrument
  gi_facts :: instrument

definition init_graph_health_metrics :: graph_instruments where
  "init_graph_health_metrics =
     \<lparr>gi_projection_lag = create_histogram ''groundgraph.graph.projection.lag_ms'' ''Lag between outbox event creation and Neo4j projection in milliseconds.'' ''ms'',
      gi_queue_depth = create_histogram ''groundgraph.graph.resolution.queue_depth'' ''Number of entities awaiting resolution.'' [],
      gi_provenance = create_histogram ''groundgraph.graph.provenance.coverage_pct'' ''Percentage of facts with provenance coverage.'' [],
      gi_conflicts = create_counter ''groundgraph.graph.conflicts'' ''Number of graph conflicts detected.'',
      gi_entities = create_histogram ''groundgraph.graph.entities.count'' ''Total number of entities in the graph.'' [],
      gi_facts = create_histogram ''groundgraph.graph.facts.count'' ''Total number of facts in the graph.'' []\<rparr>"

definition instruments_of :: "app_instruments \<Rightarrow> retrieval_instruments \<Rightarrow> graph_instruments \<Rightarrow> instrument list" where
  "instruments_of a r g =
     [ai_request_count a, ai_request_errors a, ai_request_duration a, ri_embedding_duration r, ri_embedding_tokens r,
      ri_vector_duration r, ri_keyword_duration r, ri_rerank_duration r, ri_rerank_count r, ri_generate_duration r,
      ri_generate_tokens r, ri_generate_cost r, gi_projection_lag g, gi_queue_depth g, gi_provenance g,
      gi_conflicts g, gi_entities g, gi_facts g]"

lemma instrument_names_distinct:
  "distinct (map it_name (instruments_of init_app_metrics init_retrieval_metrics init_graph_health_metrics))"
  by code_simp

section \<open>Logging (logging.py)\<close>

text \<open>\<^verbatim>\<open>getattr(logging, log_level.upper(), logging.INFO)\<close> for the levels that the settings allow.\<close>

definition log_level_of :: "string \<Rightarrow> nat" where
  "log_level_of name =
     (case map_of [(''debug'', 10), (''info'', 20), (''warning'', 30), (''error'', 40), (''critical'', 50)] (lower name) of
        Some n \<Rightarrow> n | None \<Rightarrow> 20)"

definition bind_request_context :: "(string, string) dict \<Rightarrow> (string, string) dict \<Rightarrow> (string, string) dict" where
  "bind_request_context values context = foldl (\<lambda>d (k, v). put k v d) context values"

definition clear_request_context :: "(string, string) dict" where
  "clear_request_context = []"

section \<open>Graph schema (neo4j/schema.py)\<close>

datatype graph_statement =
    UniqueConstraint string string string string   \<comment> \<open>name, variable, label, property\<close>
  | NodeIndex string string string "string list"   \<comment> \<open>name, variable, label, properties\<close>

fun cypher :: "graph_statement \<Rightarrow> string" where
  "cypher (UniqueConstraint n v l p) =
     ''CREATE CONSTRAINT '' @ n @ '' IF NOT EXISTS FOR ('' @ v @ '':'' @ l @ '') REQUIRE '' @ v @ ''.'' @ p @ '' IS UNIQUE''"
| "cypher (NodeIndex n v l ps) =
     ''CREATE INDEX '' @ n @ '' IF NOT EXISTS FOR ('' @ v @ '':'' @ l @ '') ON ('' @
       join_with '', '' (map (\<lambda>p. v @ ''.'' @ p) ps) @ '')''"

definition schema_constraints :: "graph_statement list" where
  "schema_constraints =
     [UniqueConstraint ''entity_id'' ''e'' ''Entity'' ''entity_id'',
      UniqueConstraint ''fact_id'' ''f'' ''Fact'' ''fact_id'',
      UniqueConstraint ''document_id'' ''d'' ''Document'' ''document_id'',
      UniqueConstraint ''version_id'' ''v'' ''DocumentVersion'' ''version_id'',
      UniqueConstraint ''chunk_id'' ''c'' ''Chunk'' ''chunk_id'',
      UniqueConstraint ''ontology_type_id'' ''t'' ''OntologyType'' ''type_id'',
      UniqueConstraint ''ontology_predicate_id'' ''p'' ''OntologyPredicate'' ''predicate_id'']"

definition schema_indexes :: "graph_statement list" where
  "schema_indexes =
     [NodeIndex ''entity_canonical_name'' ''e'' ''Entity'' [''canonical_name''],
      NodeIndex ''entity_type'' ''e'' ''Entity'' [''entity_type''],
      NodeIndex ''entity_aliases'' ''e'' ''Entity'' [''aliases''],
      NodeIndex ''fact_predicate'' ''f'' ''Fact'' [''predicate''],
      NodeIndex ''fact_status'' ''f'' ''Fact'' [''status''],
      NodeIndex ''fact_validity'' ''f'' ''Fact'' [''valid_from'', ''valid_to''],
      NodeIndex ''chunk_document'' ''c'' ''Chunk'' [''document_id''],
      NodeIndex ''chunk_version'' ''c'' ''Chunk'' [''version_id''],
      NodeIndex ''mention_chunk'' ''m'' ''Mention'' [''chunk_id''],
      NodeIndex ''mention_surface_form'' ''m'' ''Mention'' [''surface_form'']]"

definition schema_statements :: "string list" where
  "schema_statements = map cypher (schema_constraints @ schema_indexes)"

text \<open>Every statement runs in a transaction of its own. A failure is swallowed, and logged unless it says
  that the object exists. \<^verbatim>\<open>run\<close> is the server; the second result lists the statements that failed, with
  whether a warning was logged.\<close>

fun ensure_statements :: "(string \<Rightarrow> 'db \<Rightarrow> exn + 'db) \<Rightarrow> string list \<Rightarrow> 'db \<Rightarrow> 'db \<times> (string \<times> bool) list" where
  "ensure_statements run [] db = (db, [])"
| "ensure_statements run (c # cs) db =
     (case run c db of
        Inr db' \<Rightarrow> ensure_statements run cs db'
      | Inl e \<Rightarrow>
         (case ensure_statements run cs db of
            (db', failed) \<Rightarrow> (db', (c, \<not> contains ''already exists'' (lower (exn_str e))) # failed)))"

definition ensure_schema :: "(string \<Rightarrow> 'db \<Rightarrow> exn + 'db) \<Rightarrow> 'db \<Rightarrow> 'db \<times> (string \<times> bool) list" where
  "ensure_schema run db = ensure_statements run schema_statements db"

text \<open>A server that keeps what a statement created, and for which a statement with
  \<^verbatim>\<open>IF NOT EXISTS\<close> does nothing when the object is there.\<close>

definition keeps_schema :: "(string \<Rightarrow> 'db \<Rightarrow> exn + 'db) \<Rightarrow> (string \<Rightarrow> 'db \<Rightarrow> bool) \<Rightarrow> bool" where
  "keeps_schema run there \<longleftrightarrow>
     (\<forall>c db db'. run c db = Inr db' \<longrightarrow> there c db') \<and>
     (\<forall>c db. there c db \<longrightarrow> run c db = Inr db) \<and>
     (\<forall>c c' db db'. there c db \<and> run c' db = Inr db' \<longrightarrow> there c db')"

lemma keeps_made: "keeps_schema run there \<Longrightarrow> run c db = Inr db' \<Longrightarrow> there c db'"
  and keeps_noop: "keeps_schema run there \<Longrightarrow> there c db \<Longrightarrow> run c db = Inr db"
  and keeps_kept: "keeps_schema run there \<Longrightarrow> there c db \<Longrightarrow> run c' db = Inr db' \<Longrightarrow> there c db'"
  unfolding keeps_schema_def by blast+

lemma ensure_keeps:
  assumes "keeps_schema run there"
  shows "there c db \<Longrightarrow> there c (fst (ensure_statements run cs db))"
proof (induction cs arbitrary: db)
  case (Cons x cs)
  then show ?case using keeps_kept [OF assms Cons.prems] by (cases "run x db") (simp_all add: case_prod_unfold)
qed simp

lemma ensure_there:
  assumes "keeps_schema run there"
  shows "c \<in> set cs \<Longrightarrow> c \<notin> fst ` set (snd (ensure_statements run cs db)) \<Longrightarrow>
     there c (fst (ensure_statements run cs db))"
proof (induction cs arbitrary: db)
  case (Cons x cs)
  show ?case
  proof (cases "run x db")
    case (Inr db')
    then have "there x (fst (ensure_statements run cs db'))"
      by (intro ensure_keeps [OF assms] keeps_made [OF assms])
    then show ?thesis using Cons Inr by (cases "c = x") simp_all
  next
    case (Inl e)
    then show ?thesis using Cons by (simp add: case_prod_unfold)
  qed
qed simp

lemma ensure_nothing:
  assumes "keeps_schema run there"
  shows "\<forall>c \<in> set cs. there c db \<Longrightarrow> ensure_statements run cs db = (db, [])"
  by (induction cs) (simp_all add: keeps_noop [OF assms])

section \<open>Object store (s3_store.py)\<close>

definition object_endpoint :: "string \<Rightarrow> string" where
  "object_endpoint url =
     (let u = (if startswith url ''http://'' then drop 7 url else url)
      in if startswith u ''https://'' then drop 8 u else u)"

definition object_key :: "string \<Rightarrow> uuid \<Rightarrow> string option \<Rightarrow> string" where
  "object_key namespace i version =
     namespace @ ''/'' @ show_nat i @ (case present version of Some v \<Rightarrow> ''/v'' @ v | None \<Rightarrow> [])"

text \<open>The client of the object server, over the server's state.\<close>

datatype object_error = S3Error string | OtherError exn

type_synonym bytes = "nat list"

record 'srv object_client =
  oc_put :: "string \<Rightarrow> string \<Rightarrow> bytes \<Rightarrow> string \<Rightarrow> 'srv \<Rightarrow> object_error + 'srv"
  oc_get :: "string \<Rightarrow> string \<Rightarrow> 'srv \<Rightarrow> object_error + bytes"
  oc_remove :: "string \<Rightarrow> string \<Rightarrow> 'srv \<Rightarrow> object_error + 'srv"
  oc_stat :: "string \<Rightarrow> string \<Rightarrow> 'srv \<Rightarrow> object_error + unit"

record 'srv object_store =
  os_client :: "'srv object_client"
  os_raw :: string

definition put_raw :: "'srv object_store \<Rightarrow> string \<Rightarrow> bytes \<Rightarrow> string option \<Rightarrow> 'srv \<Rightarrow> object_error + 'srv" where
  "put_raw st key data content_type =
     oc_put (os_client st) (os_raw st) key data
       (case present content_type of Some t \<Rightarrow> t | None \<Rightarrow> ''application/octet-stream'')"

definition get_raw :: "'srv object_store \<Rightarrow> string \<Rightarrow> 'srv \<Rightarrow> object_error + bytes" where
  "get_raw st key = oc_get (os_client st) (os_raw st) key"

definition delete_raw :: "'srv object_store \<Rightarrow> string \<Rightarrow> 'srv \<Rightarrow> object_error + 'srv" where
  "delete_raw st key = oc_remove (os_client st) (os_raw st) key"

definition object_exists :: "'srv object_store \<Rightarrow> string \<Rightarrow> 'srv \<Rightarrow> object_error + bool" where
  "object_exists st key srv =
     (case oc_stat (os_client st) (os_raw st) key srv of
        Inr _ \<Rightarrow> Inr True
      | Inl (S3Error code) \<Rightarrow> if code \<in> {''NoSuchKey'', ''NoSuchVersion''} then Inr False else Inl (S3Error code)
      | Inl e \<Rightarrow> Inl e)"

section \<open>Lemmas\<close>

interpretation sessions: invariant_system "\<lambda>m. m = fresh_module" pg_step factory_on_engine
proof unfold_locales
  fix m :: "'e pg_module"
  assume "m = fresh_module"
  then show "factory_on_engine m" by (simp add: factory_on_engine_def fresh_module_def)
qed (rule pg_step_factory)

lemma no_slash_in_number: "CHR ''/'' \<notin> set (show_nat n)"
proof (induction n rule: show_nat.induct)
  case (1 n)
  have digit: "CHR ''/'' \<noteq> char_of (48 + k)" if "k < 10" for k :: nat
  proof
    assume "CHR ''/'' = char_of (48 + k)"
    then have "(of_char (CHR ''/'') :: nat) = of_char (char_of (48 + k) :: char)" by simp
    then show False using that by simp
  qed
  show ?case
  proof (cases "n < 10")
    case True
    then show ?thesis using digit by (subst show_nat.simps) simp
  next
    case False
    then show ?thesis using 1 digit [of "n mod 10"] by (subst show_nat.simps) simp
  qed
qed

lemma until_slash:
  assumes "CHR ''/'' \<notin> set u" "CHR ''/'' \<notin> set v" and "u @ x = v @ y"
    and "x = [] \<or> hd x = CHR ''/''" and "y = [] \<or> hd y = CHR ''/''"
  shows "u = v \<and> x = y"
  using assms by (induction u arbitrary: v) (case_tac [!] v, auto)

lemma identity_from_jwt_keys:
  assumes "s_jwks_url s = Some url" and "f url = g url"
  shows "identity_from_jwt (lib\<lparr>jw_keys := f\<rparr>) s token = identity_from_jwt (lib\<lparr>jw_keys := g\<rparr>) s token"
proof -
  have d: "jw_header (lib\<lparr>jw_keys := h\<rparr>) = jw_header lib" "jw_decode (lib\<lparr>jw_keys := h\<rparr>) = jw_decode lib"
    "jw_keys (lib\<lparr>jw_keys := h\<rparr>) = h" for h
    by simp_all
  show ?thesis unfolding identity_from_jwt_def d assms option.case ..
qed

lemma cached_identity:
  assumes "s_jwks_url s = Some url" and "url \<noteq> []" and "map_of cache url = Some ks"
  shows "identity_with_cache lib s token cache = (identity_from_jwt (lib\<lparr>jw_keys := \<lambda>_. Inr ks\<rparr>) s token, cache)"
proof -
  have "fetch_jwks url (jw_keys lib) cache = (Inr ks, cache)"
    by (rule jwks_cell.fetch_cached) (rule assms(3))
  then show ?thesis
    using identity_from_jwt_keys [OF assms(1), of "\<lambda>u. fst (fetch_jwks u (jw_keys lib) cache)" "\<lambda>_. Inr ks" lib token] assms(1,2)
    by (simp add: identity_with_cache_def present_def split: option.splits)
qed

lemma first_identity_caches:
  assumes "s_jwks_url s = Some url" and "url \<noteq> []" and "jw_header lib token = Some kid" and "jw_keys lib url = Inr ks"
  shows "map_of (snd (identity_with_cache lib s token [])) url = Some ks"
  using assms by (simp add: identity_with_cache_def present_def fetch_jwks_def)

lemma driver_life_made:
  "dc_driver c = None \<Longrightarrow> driver_life (s, \<lambda>_ _ _. Inr d) c = c\<lparr>dc_open := dc_open c @ [d]\<rparr>"
  by (simp add: driver_life_def get_neo4j_driver_def close_neo4j_driver_def)

lemma driver_lives:
  "dc_driver c = None \<Longrightarrow>
     fold (\<lambda>d. driver_life (s, \<lambda>_ _ _. Inr d)) ds c = c\<lparr>dc_open := dc_open c @ ds\<rparr>"
  by (induction ds arbitrary: c) (simp_all add: driver_life_made)

section \<open>Properties\<close>

text \<open>C16: the key set of the identity provider is read once and kept for the life of the process. After the
  first token, whatever the provider publishes, every token is judged with the first key set: a token
  signed with a key that was added later is refused, and one signed with a key that was withdrawn is
  still checked against it.\<close>

theorem jwks_cached_forever:
  assumes "s_jwks_url s = Some url" and "url \<noteq> []" and "jw_header lib token = Some kid" and "jw_keys lib url = Inr ks"
  shows "let cache = snd (identity_with_cache lib s token []) in
    identity_with_cache later s token' cache = (identity_from_jwt (later\<lparr>jw_keys := \<lambda>_. Inr ks\<rparr>) s token', cache) \<and>
    (\<forall>kid'. jw_header later token' = Some kid' \<and> kid' \<notin> jk_kid ` set ks \<longrightarrow>
       fst (identity_with_cache later s token' cache) = Inl (unauthorized ''No matching key found in JWKS''))"
proof -
  let ?c = "snd (identity_with_cache lib s token [])"
  have i: "identity_with_cache later s token' ?c = (identity_from_jwt (later\<lparr>jw_keys := \<lambda>_. Inr ks\<rparr>) s token', ?c)"
    by (rule cached_identity [OF assms(1,2) first_identity_caches [OF assms]])
  have "find (\<lambda>k. jk_kid k = kid') ks = None" if "kid' \<notin> jk_kid ` set ks" for kid'
    using that by (auto simp: find_None_iff)
  then show ?thesis
    unfolding Let_def using i assms(1,2) by (auto simp: identity_from_jwt_def)
qed

definition one_key_library :: "string \<Rightarrow> jwt_library" where
  "one_key_library k =
     \<lparr>jw_header = \<lambda>t. Some (Some t), jw_keys = \<lambda>u. Inr [\<lparr>jk_kid = Some k, jk_empty = False\<rparr>],
      jw_decode = \<lambda>t key aud iss. Some (\<lambda>c. if c = ''sub'' then Some ''alice'' else if c = ''tid'' then Some ''acme'' else None)\<rparr>"

definition oidc_settings :: settings where
  "oidc_settings = default_settings\<lparr>s_auth_mode := OidcAuth, s_jwks_url := Some ''https://idp/keys''\<rparr>"

theorem jwks_cached_forever_witness:
  "fst (identity_with_cache (one_key_library ''new'') oidc_settings ''new''
      (snd (identity_with_cache (one_key_library ''old'') oidc_settings ''old'' []))) =
     Inl (unauthorized ''No matching key found in JWKS'') \<and>
   fst (identity_with_cache (one_key_library ''new'') oidc_settings ''new'' []) = Inr \<lparr>id_tenant = ''acme'', id_principal = ''alice''\<rparr>"
proof -
  have s: "s_jwks_url oidc_settings = Some ''https://idp/keys''" by (simp add: oidc_settings_def)
  have l: "jw_header (one_key_library k) t = Some (Some t)"
    "jw_keys (one_key_library k) u = Inr [\<lparr>jk_kid = Some k, jk_empty = False\<rparr>]" for k t u
    by (simp_all add: one_key_library_def)
  have "fst (identity_with_cache (one_key_library ''new'') oidc_settings ''new'' []) = Inr \<lparr>id_tenant = ''acme'', id_principal = ''alice''\<rparr>"
    by code_simp
  moreover have "''https://idp/keys'' \<noteq> []" by simp
  note jwks_cached_forever [OF s this l(1) [of "''old''" "''old''"] l(2), of "one_key_library ''new''" "''new''", unfolded Let_def,
      THEN conjunct2, rule_format, of "Some ''new''"]
  ultimately show ?thesis by (simp only: l(1)) simp
qed

text \<open>The connection pools of the graph drivers are never closed: after any number of lives of the
  application, the driver of each of them is still open, though none is cached.\<close>

theorem pools_never_closed:
  "fold (\<lambda>d. driver_life (s, \<lambda>_ _ _. Inr d)) ds no_driver = \<lparr>dc_driver = None, dc_open = ds\<rparr>"
  by (simp add: driver_lives no_driver_def)

text \<open>The session factory is always one of the current engine, whatever the order of engine creations,
  failed creations and disposals; and two factories handed out without a disposal between them are one.\<close>

theorem sessions_on_current_engine:
  assumes "reach (\<lambda>m. m = fresh_module) pg_step m"
  shows "factory_on_engine m \<and>
    (\<forall>envs a b. Inr a \<in> set (fetches get_session_factory envs m) \<and> Inr b \<in> set (fetches get_session_factory envs m) \<longrightarrow> a = b)"
proof (intro conjI allI impI)
  show "factory_on_engine m" by (rule sessions.reach_inv [OF assms])
next
  fix envs :: "'a engine_env list" and a b
  assume "Inr a \<in> set (fetches get_session_factory envs m) \<and> Inr b \<in> set (fetches get_session_factory envs m)"
  then show "a = b" using factory_cell.fetches_agree [of a envs m b] by simp
qed

definition demo_process :: process_settings where
  "demo_process = settings.extend default_settings
     \<lparr>ps_app_name = ''GroundGraph'', ps_log_level = ''INFO'', ps_pg_pool = 10, ps_pg_overflow = 20,
      ps_neo4j_uri = ''bolt://localhost:7687'', ps_neo4j_user = ''neo4j'', ps_neo4j_pool = 50,
      ps_s3_endpoint = ''http://localhost:9000'', ps_service_name = ''groundgraph'',
      ps_otlp_endpoint = ''http://localhost:4317''\<rparr>"

theorem sessions_on_current_engine_witness:
  "factory_on_engine \<lparr>pm_engine = Some (7::nat), pm_factory = Some 7\<rparr>"
proof -
  have "get_session_factory (demo_process, \<lambda>_ _ _. Inr (7::nat)) fresh_module = (Inr 7, \<lparr>pm_engine = Some 7, pm_factory = Some 7\<rparr>)"
    by (simp add: get_session_factory_def get_engine_def fresh_module_def)
  then have "reach (\<lambda>m. m = fresh_module) pg_step \<lparr>pm_engine = Some (7::nat), pm_factory = Some 7\<rparr>"
    by (intro reach_step [OF reach_start]) (auto intro: step_factory)
  then show ?thesis using sessions_on_current_engine by blast
qed

text \<open>The key of an object determines the identifier and the version in its namespace.\<close>

lemma object_key_unique:
  "object_key ns i v = object_key ns j w \<longleftrightarrow> i = j \<and> present v = present w"
proof
  assume "object_key ns i v = object_key ns j w"
  then have "show_nat i @ (case present v of Some x \<Rightarrow> ''/v'' @ x | None \<Rightarrow> []) =
      show_nat j @ (case present w of Some x \<Rightarrow> ''/v'' @ x | None \<Rightarrow> [])"
    by (simp add: object_key_def)
  from until_slash [OF no_slash_in_number no_slash_in_number this]
  show "i = j \<and> present v = present w" by (cases "present v"; cases "present w") simp_all
qed (simp add: object_key_def)

text \<open>Making the graph schema never fails; on a server that keeps what it made, everything but the
  statements that failed is there afterwards, and once nothing failed a second run changes nothing.\<close>

lemma ensure_schema_settles:
  assumes "keeps_schema run there" and "ensure_schema run db = (db', failed)"
  shows "\<forall>c \<in> set schema_statements. c \<notin> fst ` set failed \<longrightarrow> there c db'" and
    "failed = [] \<Longrightarrow> ensure_schema run db' = (db', [])"
  using ensure_there [OF assms(1), of _ schema_statements db] ensure_nothing [OF assms(1), of schema_statements db'] assms(2)
  by (simp_all add: ensure_schema_def)

lemma fetched_settings_checked:
  "Inr a \<in> set (fetches get_settings envs c) \<Longrightarrow>
   (\<And>s. c = Some s \<Longrightarrow> s_env s = Production \<Longrightarrow> production_problems s = []) \<Longrightarrow>
   s_env a = Production \<Longrightarrow> production_problems a = []"
proof (induction envs arbitrary: c)
  case (Cons env envs)
  obtain r c' where f: "get_settings env c = (r, c')" by (cases "get_settings env c")
  have ok: "s_env s = Production \<Longrightarrow> production_problems s = []" if "c' = Some s" for s
    using f that Cons.prems(2) mk_settings_ok
    by (auto simp: get_settings_def split: option.splits sum.splits)
  have "r = Inr a \<Longrightarrow> c' = Some a" using f settings_cell.fetch_created by fastforce
  then show ?case using Cons.IH [of c'] Cons.prems(1,3) f ok by auto
qed simp

text \<open>The settings of a process are read once and checked: whatever the environment is at each call, all the
  settings that the process ever gets are the same, and in production none of the problems that the
  validators look for is left in them.\<close>

theorem settings_fixed_and_checked:
  assumes "Inr a \<in> set (fetches get_settings envs None)" and "Inr b \<in> set (fetches get_settings envs None)"
  shows "a = b \<and> (s_env a = Production \<longrightarrow> production_problems a = [])"
  using settings_cell.fetches_agree [OF assms] fetched_settings_checked [OF assms(1)] by auto

end
