(* ===== verification/Service.thy ===== *)
theory Service
  imports Runtime
begin

text \<open>
  The HTTP boundary: the health checkers of \<^verbatim>\<open>api/dependencies.py\<close> and the routes of
  \<^verbatim>\<open>api/health.py\<close>, the request hook, the middleware, the request log and the assembly of
  \<^verbatim>\<open>api/app.py\<close>. What a handler returns or raises, what the network does, the identifiers of
  spans, new tokens and elapsed times are arguments. What is shown: a request outside the excluded
  routes is counted and logged once, one to an excluded route not at all; every request that is not
  cancelled gets an answer that shows nothing of an exception; the identifier on the span, in the log and
  in the answer is one; and readiness is what the dependencies are.
\<close>

section \<open>Health checkers (dependencies.py)\<close>

datatype checker =
    PostgresChecker string nat string string string   \<comment> \<open>host, port, user, password, database\<close>
  | Neo4jChecker string string string                 \<comment> \<open>uri, user, password\<close>
  | MinioChecker string                               \<comment> \<open>endpoint\<close>

text \<open>What an awaited call of a client does: it succeeds, its own deadline ends, or it raises.\<close>

datatype 'a awaited = Done 'a | DeadlinePassed | Broken exn

text \<open>The network, as each checker meets it; the timeout of the health service may end a check first.\<close>

record network =
  nw_pg_connect :: "checker \<Rightarrow> unit awaited"
  nw_pg_execute :: "checker \<Rightarrow> unit awaited"
  nw_neo4j_run :: "checker \<Rightarrow> unit awaited"
  nw_minio_get :: "string \<Rightarrow> nat awaited"
  nw_slow :: "string \<Rightarrow> bool"

definition health_of :: "string \<Rightarrow> reason \<Rightarrow> dependency_health" where
  "health_of name r = \<lparr>dh_name = name, dh_healthy = (r = ReasonOk), dh_reason = r\<rparr>"

fun outcome_reason :: "reason \<Rightarrow> 'a awaited \<Rightarrow> reason" where
  "outcome_reason late (Done _) = ReasonOk"
| "outcome_reason late DeadlinePassed = late"
| "outcome_reason late (Broken _) = ReasonUnhealthy"

definition postgres_check :: "network \<Rightarrow> checker \<Rightarrow> dependency_health" where
  "postgres_check nw c =
     health_of ''postgres''
       (case nw_pg_connect nw c of
          Done _ \<Rightarrow> outcome_reason ReasonTimeout (nw_pg_execute nw c)
        | o' \<Rightarrow> outcome_reason ReasonTimeout o')"

definition neo4j_check :: "network \<Rightarrow> checker \<Rightarrow> dependency_health" where
  "neo4j_check nw c = health_of ''neo4j'' (outcome_reason ReasonUnhealthy (nw_neo4j_run nw c))"

definition minio_check :: "network \<Rightarrow> string \<Rightarrow> dependency_health" where
  "minio_check nw endpoint =
     health_of ''minio''
       (case nw_minio_get nw (endpoint @ ''/minio/health/ready'') of
          Done status \<Rightarrow> if status = 200 then ReasonOk else ReasonUnhealthy
        | _ \<Rightarrow> ReasonUnhealthy)"

fun check_dependency :: "network \<Rightarrow> checker \<Rightarrow> dependency_health" where
  "check_dependency nw (PostgresChecker h p u w d) = postgres_check nw (PostgresChecker h p u w d)"
| "check_dependency nw (Neo4jChecker i u w) = neo4j_check nw (Neo4jChecker i u w)"
| "check_dependency nw (MinioChecker e) = minio_check nw e"

definition build_health_service :: "process_settings \<Rightarrow> (string, checker) dict" where
  "build_health_service s =
     [(''postgres'', PostgresChecker (s_pg_host s) (s_pg_port s) (s_pg_user s) (s_pg_password s) (s_pg_db s)),
      (''neo4j'', Neo4jChecker (ps_neo4j_uri s) (ps_neo4j_user s) (s_neo4j_password s)),
      (''minio'', MinioChecker (ps_s3_endpoint s))]"

definition probe_outcomes :: "network \<Rightarrow> (string, checker) dict \<Rightarrow> (string, probe_outcome) dict" where
  "probe_outcomes nw checkers =
     map (\<lambda>(n, c). (n, if nw_slow nw n then TimedOut else Finished (check_dependency nw c))) checkers"

section \<open>Health routes (health.py)\<close>

fun reason_value :: "reason \<Rightarrow> string" where
  "reason_value ReasonOk = ''ok''"
| "reason_value ReasonTimeout = ''timeout''"
| "reason_value ReasonUnhealthy = ''unhealthy''"
| "reason_value ReasonError = ''error''"

record public_health =
  ph_name :: string
  ph_healthy :: bool
  ph_reason :: string

record health_response =
  hr_status :: string
  hr_dependencies :: "public_health list"

definition live :: health_response where
  "live = \<lparr>hr_status = ''ok'', hr_dependencies = []\<rparr>"

text \<open>The state of the application that the readiness route keeps: the dictionary behind the gauge and the
  number of gauges that were registered for it.\<close>

record gauge_state =
  ga_state :: "(string, int) dict option"
  ga_gauges :: nat

definition observations :: "gauge_state \<Rightarrow> (int \<times> string) list" where
  "observations g = (case ga_state g of None \<Rightarrow> [] | Some st \<Rightarrow> map (\<lambda>(d, v). (v, d)) st)"

definition init_readiness :: "bool \<Rightarrow> gauge_state \<Rightarrow> gauge_state" where
  "init_readiness meter g =
     (case ga_state g of
        Some _ \<Rightarrow> g
      | None \<Rightarrow> \<lparr>ga_state = Some [], ga_gauges = (if meter then Suc (ga_gauges g) else ga_gauges g)\<rparr>)"

definition record_health :: "dependency_health list \<Rightarrow> (string, int) dict \<Rightarrow> (string, int) dict" where
  "record_health ds st = foldl (\<lambda>t d. put (dh_name d) (if dh_healthy d then 1 else 0) t) st ds"

definition public_of :: "dependency_health \<Rightarrow> public_health" where
  "public_of d = \<lparr>ph_name = dh_name d, ph_healthy = dh_healthy d, ph_reason = reason_value (dh_reason d)\<rparr>"

definition ready :: "bool \<Rightarrow> dependency_health list \<Rightarrow> gauge_state \<Rightarrow> (nat \<times> health_response) \<times> gauge_state" where
  "ready meter ds g =
     (let g1 = init_readiness meter g
      in ((readiness_http_status ds, \<lparr>hr_status = readiness_status ds, hr_dependencies = map public_of ds\<rparr>),
          g1\<lparr>ga_state := map_option (record_health ds) (ga_state g1)\<rparr>))"

definition ready_route :: "bool \<Rightarrow> network \<Rightarrow> (string, checker) dict \<Rightarrow> gauge_state \<Rightarrow> (nat \<times> health_response) \<times> gauge_state" where
  "ready_route meter nw checkers g = ready meter (check_all (probe_outcomes nw checkers)) g"

section \<open>Requests (app.py)\<close>

datatype route_object = WithPath string | WithoutPath

text \<open>The scope of a request: the header names and values are bytes, as the server interface has them; the
  identifier and the span that the hook leaves in its state.\<close>

record scope =
  sc_method :: string
  sc_headers :: "(string \<times> string) list"
  sc_state_id :: "pyval option"
  sc_state_span :: "nat option"

record http_reply =
  re_status :: nat
  re_headers :: "(string, string) dict"
  re_body :: json

text \<open>What the rest of the application does with a request: a response, an exception with the name of its
  class, or one that is no \<^verbatim>\<open>Exception\<close>, as a cancellation is.\<close>

datatype handled = Returned http_reply | Raises string | Cancelled

datatype log_level = InfoLevel | ErrorLevel

record log_entry =
  le_level :: log_level
  le_event :: string
  le_fields :: "(string, pyval) dict"
  le_context :: "(string, string) dict"

text \<open>What telemetry has recorded: the attributes of spans, the bound context, the log, and the points of
  the three instruments.\<close>

record telemetry =
  tl_attributes :: "(nat \<times> string, pyval) dict"
  tl_context :: "(string, string) dict"
  tl_logs :: "log_entry list"
  tl_counts :: "(string \<times> string \<times> string) list"
  tl_durations :: "(string \<times> string \<times> rat) list"
  tl_errors :: "(string \<times> string \<times> string) list"

definition excluded_routes :: "string list" where
  "excluded_routes = [''/health/live'', ''/health/ready'', ''/metrics'', ''/docs'', ''/redoc'']"

definition is_excluded_route :: "string \<Rightarrow> bool" where
  "is_excluded_route route \<longleftrightarrow> route \<in> set excluded_routes"

definition safe_route :: "route_object option \<Rightarrow> string" where
  "safe_route r = (case r of Some (WithPath p) \<Rightarrow> p | _ \<Rightarrow> ''__unmatched__'')"

definition set_attributes :: "nat \<Rightarrow> (string, pyval) dict \<Rightarrow> telemetry \<Rightarrow> telemetry" where
  "set_attributes sp attrs w =
     w\<lparr>tl_attributes := foldl (\<lambda>d (k, v). put (sp, k) v d) (tl_attributes w) (sanitize_attributes attrs)\<rparr>"

definition server_request_hook :: "string \<Rightarrow> nat \<Rightarrow> scope \<Rightarrow> telemetry \<Rightarrow> scope \<times> telemetry" where
  "server_request_hook token sp sc w =
     (let rid = request_id_from_headers token (sc_headers sc)
      in (sc\<lparr>sc_state_id := Some (PStr rid), sc_state_span := Some sp\<rparr>,
          set_attributes sp
            [(''groundgraph.request_id'', PStr rid), (''groundgraph.correlation_id'', PStr rid),
             (''http.request.method'', PStr (sc_method sc))] w))"

definition log_request ::
  "string \<Rightarrow> string \<Rightarrow> string \<Rightarrow> nat option \<Rightarrow> rat option \<Rightarrow> string option \<Rightarrow> telemetry \<Rightarrow> telemetry" where
  "log_request event method route status duration error_type w =
     (let fs = [(''method'', PStr method), (''route'', PStr route)] @
          (case status of Some n \<Rightarrow> [(''status_code'', PInt (int n))] | None \<Rightarrow> []) @
          (case duration of Some d \<Rightarrow> [(''duration_ms'', PFloat (Finite (py_round 3 (d * 1000))))] | None \<Rightarrow> []) @
          (case error_type of Some e \<Rightarrow> [(''error_type'', PStr e)] | None \<Rightarrow> []);
          level = (case status of Some n \<Rightarrow> if n \<ge> 500 then ErrorLevel else InfoLevel | None \<Rightarrow> InfoLevel)
      in w\<lparr>tl_logs := tl_logs w @ [\<lparr>le_level = level, le_event = event, le_fields = fs, le_context = tl_context w\<rparr>]\<rparr>)"

text \<open>\<^verbatim>\<open>format(n, "032x")\<close>.\<close>

fun hex_digits :: "nat \<Rightarrow> string" where
  "hex_digits n = (if n < 16 then [''0123456789abcdef'' ! n] else hex_digits (n div 16) @ [''0123456789abcdef'' ! (n mod 16)])"

declare hex_digits.simps [simp del]

definition format_hex :: "nat \<Rightarrow> nat \<Rightarrow> string" where
  "format_hex width n = replicate (width - length (hex_digits n)) (CHR ''0'') @ hex_digits n"

section \<open>The middleware (app.py)\<close>

text \<open>The moment of a request: a new token, the current span, the contexts of spans, how long the handler
  took in seconds, and the elapsed milliseconds as printed.\<close>

record moment =
  mo_token :: string
  mo_span :: nat
  mo_contexts :: "nat \<Rightarrow> nat \<times> nat"
  mo_duration :: rat
  mo_elapsed :: string

definition request_identifier :: "moment \<Rightarrow> scope \<Rightarrow> string" where
  "request_identifier mo sc =
     (case sc_state_id sc of
        Some (PStr s) \<Rightarrow> s
      | _ \<Rightarrow> request_id_from_headers (mo_token mo) (sc_headers sc))"

definition internal_error :: http_reply where
  "internal_error =
     \<lparr>re_status = 500, re_headers = [],
      re_body = JObj [(''code'', JStr ''internal_error''), (''message'', JStr ''Internal server error'')]\<rparr>"

text \<open>The \<^verbatim>\<open>finally\<close> block.\<close>

definition finish_request ::
  "moment \<Rightarrow> scope \<Rightarrow> nat \<Rightarrow> string \<Rightarrow> route_object option \<Rightarrow> nat option \<Rightarrow> string option \<Rightarrow> telemetry \<Rightarrow> telemetry" where
  "finish_request mo sc sp rid route_object status error_type w =
     (let route = safe_route route_object; method = sc_method sc;
          w1 = set_attributes sp
            [(''groundgraph.request_id'', PStr rid), (''groundgraph.correlation_id'', PStr rid), (''http.route'', PStr route),
             (''http.response.status_code'', case status of Some n \<Rightarrow> PInt (int n) | None \<Rightarrow> PNone)] w;
          w2 = (if is_excluded_route route then w1
                else log_request (if error_type = None then ''http.request.completed'' else ''http.request.failed'')
                  method route status (Some (mo_duration mo)) error_type
                  (w1\<lparr>tl_counts := tl_counts w1 @ [(method, route, case status of Some n \<Rightarrow> show_nat n | None \<Rightarrow> ''None'')],
                      tl_durations := tl_durations w1 @ [(method, route, mo_duration mo)],
                      tl_errors := tl_errors w1 @
                        (case status of
                           Some n \<Rightarrow> if n \<ge> 500
                             then [(method, route, case present error_type of Some e \<Rightarrow> e | None \<Rightarrow> ''server_error'')] else []
                         | None \<Rightarrow> [])\<rparr>))
      in w2\<lparr>tl_context := clear_request_context\<rparr>)"

text \<open>The result \<^verbatim>\<open>None\<close> is a cancellation, which goes on to the caller.\<close>

definition request_context_middleware ::
  "moment \<Rightarrow> (scope \<Rightarrow> handled \<times> route_object option) \<Rightarrow> scope \<Rightarrow> telemetry \<Rightarrow> http_reply option \<times> telemetry" where
  "request_context_middleware mo call_next sc w =
     (let rid = request_identifier mo sc;
          sp = (case sc_state_span sc of Some s \<Rightarrow> s | None \<Rightarrow> mo_span mo);
          w1 = w\<lparr>tl_context := bind_request_context
                   [(''request_id'', rid), (''correlation_id'', rid),
                    (''trace_id'', format_hex 32 (fst (mo_contexts mo sp))),
                    (''span_id'', format_hex 16 (snd (mo_contexts mo sp)))] (tl_context w)\<rparr>;
          (handled, route) = call_next sc;
          (status, error_type) =
            (case handled of
               Returned r \<Rightarrow> (Some (re_status r), None)
             | Raises name \<Rightarrow> (Some 500, Some name)
             | Cancelled \<Rightarrow> (None, None));
          w2 = finish_request mo sc sp rid route status error_type w1;
          answer = (\<lambda>r. r\<lparr>re_headers := put ''x-process-time-ms'' (mo_elapsed mo)
                      (put ''x-correlation-id'' rid (put ''x-request-id'' rid (re_headers r)))\<rparr>)
      in (case handled of
            Returned r \<Rightarrow> Some (answer r) | Raises _ \<Rightarrow> Some (answer internal_error) | Cancelled \<Rightarrow> None, w2))"

section \<open>Assembly (app.py)\<close>

record application =
  ap_title :: string
  ap_settings :: process_settings
  ap_log_level :: nat
  ap_tracer :: tracer_provider
  ap_meter :: meter_provider
  ap_checkers :: "(string, checker) dict"
  ap_routers :: "string list"
  ap_instrumented :: bool

definition create_app ::
  "process_settings \<Rightarrow> (string, checker) dict option \<Rightarrow> nat option \<Rightarrow> nat option \<Rightarrow> bool option \<Rightarrow> exn + application" where
  "create_app s health exporter reader telemetry_enabled =
     (let enabled = (case telemetry_enabled of Some b \<Rightarrow> b | None \<Rightarrow> s_env s \<noteq> TestEnv)
      in rbind (configure_tracing (ps_service_name s) (Some (ps_otlp_endpoint s)) exporter enabled (s_otlp_insecure s)) (\<lambda>tracer.
         Inr \<lparr>ap_title = ps_app_name s, ap_settings = s, ap_log_level = log_level_of (ps_log_level s), ap_tracer = tracer,
           ap_meter = configure_meter_provider (ps_service_name s) (Some (ps_otlp_endpoint s)) reader enabled
             (s_otlp_insecure s) (s_metric_interval s),
           ap_checkers = (case health of Some h \<Rightarrow> h | None \<Rightarrow> build_health_service s),
           ap_routers = [''health'', ''v1'', ''execution'', ''operator''],
           ap_instrumented = (enabled \<or> exporter \<noteq> None)\<rparr>))"

text \<open>The end of the life of the application: the driver and the providers, but not the engine.\<close>

definition lifespan_exit ::
  "(tracer_provider \<Rightarrow> exn + unit) \<Rightarrow> (meter_provider \<Rightarrow> exn + unit) \<Rightarrow> application \<Rightarrow> 'd driver_cell \<Rightarrow> 'e pg_module \<Rightarrow>
     (exn + unit) \<times> 'd driver_cell \<times> 'e pg_module" where
  "lifespan_exit stop_tracer stop_meter app c m =
     (rbind (shutdown_provider stop_tracer (Some (ap_tracer app)))
        (\<lambda>_. shutdown_provider stop_meter (Some (ap_meter app))),
      close_neo4j_driver c, m)"

section \<open>Lemmas\<close>

lemma safe_attributes:
  "sanitize_attributes [(''groundgraph.request_id'', PStr a), (''groundgraph.correlation_id'', PStr b), (''http.request.method'', PStr c)] =
     [(''groundgraph.request_id'', PStr a), (''groundgraph.correlation_id'', PStr b), (''http.request.method'', PStr c)]"
  "sanitize_attributes [(''groundgraph.request_id'', PStr a), (''groundgraph.correlation_id'', PStr b), (''http.route'', PStr c),
       (''http.response.status_code'', v)] =
     [(''groundgraph.request_id'', PStr a), (''groundgraph.correlation_id'', PStr b), (''http.route'', PStr c)] @
     (if is_scalar v then [(''http.response.status_code'', v)] else [])"
proof -
  have k: "\<not> sensitive_key ''groundgraph.request_id''" "\<not> sensitive_key ''groundgraph.correlation_id''" "\<not> sensitive_key ''http.route''"
    "\<not> sensitive_key ''http.request.method''" "\<not> sensitive_key ''http.response.status_code''"
    by code_simp+
  show "sanitize_attributes [(''groundgraph.request_id'', PStr a), (''groundgraph.correlation_id'', PStr b), (''http.request.method'', PStr c)] =
     [(''groundgraph.request_id'', PStr a), (''groundgraph.correlation_id'', PStr b), (''http.request.method'', PStr c)]"
    by (simp add: sanitize_attributes_def k)
  show "sanitize_attributes [(''groundgraph.request_id'', PStr a), (''groundgraph.correlation_id'', PStr b), (''http.route'', PStr c),
       (''http.response.status_code'', v)] =
     [(''groundgraph.request_id'', PStr a), (''groundgraph.correlation_id'', PStr b), (''http.route'', PStr c)] @
     (if is_scalar v then [(''http.response.status_code'', v)] else [])"
    by (simp add: sanitize_attributes_def k)
qed

lemma log_request_frame [simp]:
  "tl_counts (log_request ev m r st d e w) = tl_counts w" "tl_errors (log_request ev m r st d e w) = tl_errors w"
  "tl_durations (log_request ev m r st d e w) = tl_durations w" "tl_attributes (log_request ev m r st d e w) = tl_attributes w"
  by (simp_all add: log_request_def Let_def)

lemma set_attributes_frame [simp]:
  "tl_counts (set_attributes sp as w) = tl_counts w" "tl_errors (set_attributes sp as w) = tl_errors w"
  "tl_durations (set_attributes sp as w) = tl_durations w" "tl_logs (set_attributes sp as w) = tl_logs w"
  "tl_context (set_attributes sp as w) = tl_context w"
  by (simp_all add: set_attributes_def)

text \<open>What the boundary records of a request.\<close>

definition status_of :: "handled \<Rightarrow> nat option" where
  "status_of h = (case h of Returned r \<Rightarrow> Some (re_status r) | Raises _ \<Rightarrow> Some 500 | Cancelled \<Rightarrow> None)"

definition raised_class :: "handled \<Rightarrow> string option" where
  "raised_class h = (case h of Raises name \<Rightarrow> Some name | _ \<Rightarrow> None)"

definition recorded_once :: "moment \<Rightarrow> scope \<Rightarrow> string \<Rightarrow> handled \<Rightarrow> telemetry \<Rightarrow> telemetry \<Rightarrow> bool" where
  "recorded_once mo sc route h w w' \<longleftrightarrow>
     (\<exists>entry es. tl_counts w' = tl_counts w @
          [(sc_method sc, route, case status_of h of Some n \<Rightarrow> show_nat n | None \<Rightarrow> ''None'')] \<and>
        tl_durations w' = tl_durations w @ [(sc_method sc, route, mo_duration mo)] \<and> tl_logs w' = tl_logs w @ [entry] \<and>
        tl_errors w' = tl_errors w @ es \<and>
        length es = (case status_of h of Some n \<Rightarrow> if n \<ge> 500 then 1 else 0 | None \<Rightarrow> 0) \<and>
        (le_level entry = ErrorLevel \<longleftrightarrow> es \<noteq> []) \<and>
        le_event entry = (if raised_class h = None then ''http.request.completed'' else ''http.request.failed'') \<and>
        map_of (le_fields entry) ''method'' = Some (PStr (sc_method sc)) \<and> map_of (le_fields entry) ''route'' = Some (PStr route) \<and>
        map_of (le_fields entry) ''status_code'' = map_option (\<lambda>n. PInt (int n)) (status_of h) \<and>
        map_of (le_fields entry) ''error_type'' = map_option PStr (raised_class h))"

definition unrecorded :: "telemetry \<Rightarrow> telemetry \<Rightarrow> bool" where
  "unrecorded w w' \<longleftrightarrow> tl_counts w' = tl_counts w \<and> tl_errors w' = tl_errors w \<and> tl_durations w' = tl_durations w \<and>
     tl_logs w' = tl_logs w"

lemma middleware_unfold:
  "request_context_middleware mo call_next sc w =
    (let rid = request_identifier mo sc;
         sp = (case sc_state_span sc of Some s \<Rightarrow> s | None \<Rightarrow> mo_span mo);
         w1 = w\<lparr>tl_context := bind_request_context
                   [(''request_id'', rid), (''correlation_id'', rid),
                    (''trace_id'', format_hex 32 (fst (mo_contexts mo sp))),
                    (''span_id'', format_hex 16 (snd (mo_contexts mo sp)))] (tl_context w)\<rparr>;
         h = fst (call_next sc);
         answer = (\<lambda>r. r\<lparr>re_headers := put ''x-process-time-ms'' (mo_elapsed mo)
                      (put ''x-correlation-id'' rid (put ''x-request-id'' rid (re_headers r)))\<rparr>)
     in (case h of Returned r \<Rightarrow> Some (answer r) | Raises _ \<Rightarrow> Some (answer internal_error) | Cancelled \<Rightarrow> None,
         finish_request mo sc sp rid (snd (call_next sc)) (status_of h) (raised_class h) w1))"
  by (cases "fst (call_next sc)")
    (simp_all add: request_context_middleware_def Let_def status_of_def raised_class_def case_prod_unfold)

lemma finish_recorded:
  "\<not> is_excluded_route (safe_route ro) \<Longrightarrow>
   recorded_once mo sc (safe_route ro) h w (finish_request mo sc sp rid ro (status_of h) (raised_class h) (w\<lparr>tl_context := c\<rparr>))"
  by (cases h) (auto simp: recorded_once_def finish_request_def Let_def log_request_def status_of_def raised_class_def split: option.splits)

lemma finish_unrecorded:
  "is_excluded_route (safe_route ro) \<Longrightarrow> unrecorded w (finish_request mo sc sp rid ro st e (w\<lparr>tl_context := c\<rparr>))"
  by (simp add: unrecorded_def finish_request_def Let_def)

lemma finish_log:
  "\<not> is_excluded_route (safe_route ro) \<Longrightarrow>
   \<exists>entry. tl_logs (finish_request mo sc sp rid ro st e (w\<lparr>tl_context := c\<rparr>)) = tl_logs w @ [entry] \<and> le_context entry = c"
  by (simp add: finish_request_def Let_def log_request_def)

lemma finish_context [simp]: "tl_context (finish_request mo sc sp rid ro st e w) = []"
  by (simp add: finish_request_def Let_def clear_request_context_def)

lemma foldl_put_attr:
  "map_of (foldl (\<lambda>d (k, v). put (sp, k) v d) d attrs) (sp', k) =
     (if sp' = sp then (case map_of (rev attrs) k of Some v \<Rightarrow> Some v | None \<Rightarrow> map_of d (sp', k)) else map_of d (sp', k))"
proof (induction attrs arbitrary: d)
  case (Cons a attrs)
  obtain k' v' where a: "a = (k', v')" by (cases a)
  show ?case unfolding a using Cons [of "put (sp, k') v' d"] by (auto simp: map_add_def split: option.splits)
qed simp

lemma finish_attribute:
  "map_of (tl_attributes (finish_request mo sc sp rid ro st e w)) (sp, ''groundgraph.request_id'') = Some (PStr rid)"
  by (simp add: finish_request_def Let_def set_attributes_def safe_attributes foldl_put_attr split: option.splits)

lemma record_health_map:
  "map_of (record_health ds st) n =
     (case map_of (rev (map (\<lambda>d. (dh_name d, if dh_healthy d then 1 else (0::int))) ds)) n of
        Some v \<Rightarrow> Some v | None \<Rightarrow> map_of st n)"
proof (induction ds arbitrary: st)
  case (Cons d ds)
  then show ?case by (auto simp: record_health_def map_add_def split: option.splits)
qed (simp add: record_health_def)

lemma record_health_distinct: "distinct (keys st) \<Longrightarrow> distinct (keys (record_health ds st))"
  by (induction ds arbitrary: st) (simp_all add: record_health_def)

lemma record_health_set:
  assumes "distinct (keys st)" and "set (keys st) \<subseteq> dh_name ` set ds" and "distinct (map dh_name ds)"
  shows "set (record_health ds st) = (\<lambda>d. (dh_name d, if dh_healthy d then 1 else 0)) ` set ds"
proof -
  let ?ps = "map (\<lambda>d. (dh_name d, if dh_healthy d then 1 else (0::int))) ds"
  have dp: "distinct (map fst ?ps)" using assms(3) by (simp add: comp_def)
  then have "distinct (map fst (rev ?ps))" by (simp add: rev_map [symmetric])
  then have r: "map_of (rev ?ps) n = Some v \<longleftrightarrow> (n, v) \<in> set ?ps" for n v
    by (simp only: map_of_eq_Some_iff set_rev)
  have "map_of (record_health ds st) n = Some v \<longleftrightarrow> (n, v) \<in> set ?ps" for n v
  proof (cases "n \<in> dh_name ` set ds")
    case True
    then obtain u where "map_of (rev ?ps) n = Some u" using r by fastforce
    then show ?thesis using r [of n v] by (simp add: record_health_map)
  next
    case False
    then have "map_of st n = None" using assms(2) by (auto simp: map_of_eq_None_iff)
    moreover have "(n, u) \<notin> set ?ps" for u using False by auto
    ultimately show ?thesis using r [of n] by (auto simp: record_health_map split: option.splits)
  qed
  then show ?thesis
    using map_of_eq_Some_iff [OF record_health_distinct [OF assms(1), of ds]] by auto
qed

lemma probe_name: "probe n (if late then TimedOut else Finished d) = (if late then \<lparr>dh_name = n, dh_healthy = False, dh_reason = ReasonTimeout\<rparr> else d)"
  by (simp add: probe_def)

lemma built_names: "map dh_name (check_all (probe_outcomes nw (build_health_service s))) = [''postgres'', ''neo4j'', ''minio'']"
  by (simp add: check_all_def probe_outcomes_def build_health_service_def probe_name postgres_check_def neo4j_check_def
      minio_check_def health_of_def)

lemma ready_state:
  "ga_state (snd (ready meter ds g)) = Some (record_health ds (case ga_state g of Some st \<Rightarrow> st | None \<Rightarrow> []))"
  "ga_gauges (snd (ready True ds g)) = (if ga_state g = None then Suc (ga_gauges g) else ga_gauges g)"
  by (simp_all add: ready_def Let_def init_readiness_def split: option.splits)

text \<open>The readiness requests, one after the other, in changing conditions of the network.\<close>

definition ready_requests :: "process_settings \<Rightarrow> network list \<Rightarrow> gauge_state \<Rightarrow> gauge_state" where
  "ready_requests s nws g = fold (\<lambda>nw g. snd (ready_route True nw (build_health_service s) g)) nws g"

definition no_gauge :: gauge_state where
  "no_gauge = \<lparr>ga_state = None, ga_gauges = 0\<rparr>"

definition gauge_ok :: "gauge_state \<Rightarrow> bool" where
  "gauge_ok g \<longleftrightarrow> (case ga_state g of
     None \<Rightarrow> ga_gauges g = 0
   | Some st \<Rightarrow> ga_gauges g = 1 \<and> distinct (keys st) \<and> set (keys st) \<subseteq> {''postgres'', ''neo4j'', ''minio''})"

lemma gauge_step: "gauge_ok g \<Longrightarrow> gauge_ok (snd (ready_route True nw (build_health_service s) g))"
proof -
  assume ok: "gauge_ok g"
  let ?ds = "check_all (probe_outcomes nw (build_health_service s))"
  let ?st = "case ga_state g of Some st \<Rightarrow> st | None \<Rightarrow> []"
  have names: "dh_name ` set ?ds = {''postgres'', ''neo4j'', ''minio''}"
    using arg_cong [OF built_names, of set] by simp
  have d: "distinct (keys ?st)" and k: "set (keys ?st) \<subseteq> {''postgres'', ''neo4j'', ''minio''}"
    using ok by (auto simp: gauge_ok_def split: option.splits)
  have "set (record_health ?ds ?st) = (\<lambda>d. (dh_name d, if dh_healthy d then 1 else 0)) ` set ?ds"
    using d k names built_names by (intro record_health_set) simp_all
  then have "set (keys (record_health ?ds ?st)) = dh_name ` set ?ds" by (simp add: image_image)
  then show ?thesis
    using ok record_health_distinct [OF d] unfolding gauge_ok_def ready_route_def ready_state names
    by (simp split: option.splits)
qed

lemma gauge_requests: "gauge_ok g \<Longrightarrow> gauge_ok (ready_requests s nws g)"
  by (induction nws arbitrary: g) (simp_all add: ready_requests_def gauge_step)

lemma outcome_ok: "outcome_reason late o' = ReasonOk \<longleftrightarrow> late = ReasonOk \<and> o' = DeadlinePassed \<or> (\<exists>a. o' = Done a)"
  by (cases o') simp_all

lemma check_healthy:
  "dh_healthy (postgres_check nw c) \<longleftrightarrow> nw_pg_connect nw c = Done () \<and> nw_pg_execute nw c = Done ()"
  "dh_healthy (neo4j_check nw c) \<longleftrightarrow> nw_neo4j_run nw c = Done ()"
  "dh_healthy (minio_check nw e) \<longleftrightarrow> nw_minio_get nw (e @ ''/minio/health/ready'') = Done 200"
  by (auto simp: postgres_check_def neo4j_check_def minio_check_def health_of_def outcome_ok split: awaited.splits)

definition public_reason :: "reason \<Rightarrow> bool" where
  "public_reason r \<longleftrightarrow> reason_value r \<in> {''ok'', ''timeout'', ''unhealthy''}"

lemma outcome_public [simp]:
  "public_reason (outcome_reason ReasonTimeout o')" "public_reason (outcome_reason ReasonUnhealthy o'')"
  by (cases o'; simp add: public_reason_def) (cases o''; simp add: public_reason_def)

lemma public_values [simp]: "public_reason ReasonOk" "public_reason ReasonTimeout" "public_reason ReasonUnhealthy"
  by (simp_all add: public_reason_def)

lemma check_reasons [simp]:
  "public_reason (dh_reason (postgres_check nw c))" "public_reason (dh_reason (neo4j_check nw c))"
  "public_reason (dh_reason (minio_check nw e))" "public_reason (dh_reason (health_of n ReasonTimeout))"
  by (simp_all add: postgres_check_def neo4j_check_def minio_check_def health_of_def split: awaited.splits)

lemma built_health:
  "check_all (probe_outcomes nw (build_health_service s)) =
     [if nw_slow nw ''postgres'' then health_of ''postgres'' ReasonTimeout else postgres_check nw (snd (build_health_service s ! 0)),
      if nw_slow nw ''neo4j'' then health_of ''neo4j'' ReasonTimeout else neo4j_check nw (snd (build_health_service s ! 1)),
      if nw_slow nw ''minio'' then health_of ''minio'' ReasonTimeout else minio_check nw (ps_s3_endpoint s)]"
  by (simp add: check_all_def probe_outcomes_def build_health_service_def probe_def health_of_def)

section \<open>Properties\<close>

text \<open>C10: answers and records at the boundary. A request to any route but the five excluded ones (health
  probes, metrics, documentation) is counted, timed and logged exactly once, with its method, route, status
  and the time it took, and counted as an error and logged at that level exactly when the status is a server
  error; a request to an excluded route is neither counted, timed nor logged. In both cases the bound context
  is cleared. Every request but a cancelled one is answered: a response is passed on with the identifier in
  its headers, an exception becomes a fixed response that shows nothing of it. A cancellation gets no answer,
  and outside the excluded routes it is logged as a completed request without a status.\<close>

theorem request_answered_and_recorded:
  assumes "request_context_middleware mo call_next sc w = (r, w')" and "call_next sc = (h, ro)"
  shows "(if is_excluded_route (safe_route ro) then unrecorded w w' else recorded_once mo sc (safe_route ro) h w w') \<and>
    tl_context w' = [] \<and>
    r = (case h of
           Returned x \<Rightarrow> Some (x\<lparr>re_headers := put ''x-process-time-ms'' (mo_elapsed mo)
             (put ''x-correlation-id'' (request_identifier mo sc) (put ''x-request-id'' (request_identifier mo sc) (re_headers x)))\<rparr>)
         | Raises name \<Rightarrow> Some \<lparr>re_status = 500,
             re_headers = [(''x-request-id'', request_identifier mo sc), (''x-correlation-id'', request_identifier mo sc),
               (''x-process-time-ms'', mo_elapsed mo)],
             re_body = JObj [(''code'', JStr ''internal_error''), (''message'', JStr ''Internal server error'')]\<rparr>
         | Cancelled \<Rightarrow> None)"
proof -
  have u: "r = (case h of
        Returned r \<Rightarrow> Some (r\<lparr>re_headers := put ''x-process-time-ms'' (mo_elapsed mo)
          (put ''x-correlation-id'' (request_identifier mo sc) (put ''x-request-id'' (request_identifier mo sc) (re_headers r)))\<rparr>)
      | Raises _ \<Rightarrow> Some (internal_error\<lparr>re_headers := put ''x-process-time-ms'' (mo_elapsed mo)
          (put ''x-correlation-id'' (request_identifier mo sc) (put ''x-request-id'' (request_identifier mo sc) (re_headers internal_error)))\<rparr>)
      | Cancelled \<Rightarrow> None)"
    and w': "\<exists>sp rid c. w' = finish_request mo sc sp rid ro (status_of h) (raised_class h) (w\<lparr>tl_context := c\<rparr>)"
    using assms by (auto simp: middleware_unfold Let_def)
  from w' have "(if is_excluded_route (safe_route ro) then unrecorded w w' else recorded_once mo sc (safe_route ro) h w w') \<and>
      tl_context w' = []"
    using finish_recorded finish_unrecorded by auto
  then show ?thesis using u by (simp add: internal_error_def split: handled.splits)
qed

definition demo_moment :: moment where
  "demo_moment = \<lparr>mo_token = ''0a'', mo_span = 1, mo_contexts = \<lambda>n. (n, n), mo_duration = 1 / 4, mo_elapsed = ''250.000''\<rparr>"

definition demo_scope :: scope where
  "demo_scope = \<lparr>sc_method = ''POST'', sc_headers = [(''X-Request-ID'', ''abc-1'')], sc_state_id = None, sc_state_span = None\<rparr>"

definition no_telemetry :: telemetry where
  "no_telemetry = \<lparr>tl_attributes = [], tl_context = [], tl_logs = [], tl_counts = [], tl_durations = [], tl_errors = []\<rparr>"

theorem request_answered_and_recorded_witness:
  "\<exists>r w'. request_context_middleware demo_moment (\<lambda>_. (Raises ''KeyError'', Some (WithPath ''/v1/query''))) demo_scope no_telemetry = (Some r, w') \<and>
     re_status r = 500 \<and> length (tl_errors w') = 1 \<and> length (tl_logs w') = 1"
proof -
  obtain r w' where m: "request_context_middleware demo_moment (\<lambda>_. (Raises ''KeyError'', Some (WithPath ''/v1/query''))) demo_scope no_telemetry = (r, w')"
    by (cases "request_context_middleware demo_moment (\<lambda>_. (Raises ''KeyError'', Some (WithPath ''/v1/query''))) demo_scope no_telemetry")
  have "\<not> is_excluded_route ''/v1/query''" by code_simp
  then have "re_status (the r) = 500" "r = Some (the r)" "length (tl_errors w') = 1" "length (tl_logs w') = 1"
    using request_answered_and_recorded [OF m refl] by (auto simp: recorded_once_def safe_route_def status_of_def no_telemetry_def)
  then show ?thesis using m by metis
qed

text \<open>C15: one identifier from end to end. The identifier that the hook puts on the server's span is the one
  the middleware binds, puts on the span again and returns in both headers of the response, and the log entry
  of a request that is logged carries it as its request and its correlation identifier; it is the caller's
  own when that is short and harmless, and otherwise the one new token of the hook, and the middleware makes
  none.\<close>

theorem request_id_end_to_end:
  assumes "server_request_hook token sp sc w = (sc', w1)" and "request_context_middleware mo call_next sc' w1 = (Some r, w2)"
    and "rid = request_id_from_headers token (sc_headers sc)"
  shows "map_of (tl_attributes w1) (sp, ''groundgraph.request_id'') = Some (PStr rid) \<and>
    map_of (tl_attributes w2) (sp, ''groundgraph.request_id'') = Some (PStr rid) \<and>
    map_of (re_headers r) ''x-request-id'' = Some rid \<and> map_of (re_headers r) ''x-correlation-id'' = Some rid \<and>
    (\<not> is_excluded_route (safe_route (snd (call_next sc'))) \<longrightarrow>
       (\<exists>entry. tl_logs w2 = tl_logs w1 @ [entry] \<and> map_of (le_context entry) ''request_id'' = Some rid \<and>
          map_of (le_context entry) ''correlation_id'' = Some rid)) \<and>
    (rid = ''req-'' @ token \<or> length rid \<le> 128 \<and> set rid \<subseteq> {c. ascii_alnum c \<or> c = CHR ''-'' \<or> c = CHR ''_''})"
proof -
  have hook: "sc' = sc\<lparr>sc_state_id := Some (PStr rid), sc_state_span := Some sp\<rparr>"
    "map_of (tl_attributes w1) (sp, ''groundgraph.request_id'') = Some (PStr rid)"
    using assms(1,3) by (auto simp: server_request_hook_def Let_def set_attributes_def safe_attributes foldl_put_attr)
  have rid: "request_identifier mo sc' = rid" using hook(1) by (simp add: request_identifier_def)
  have "map_of (tl_attributes w2) (sp, ''groundgraph.request_id'') = Some (PStr rid)"
    using assms(2) hook(1) rid by (auto simp: middleware_unfold Let_def finish_attribute)
  moreover have "map_of (re_headers r) ''x-request-id'' = Some rid" "map_of (re_headers r) ''x-correlation-id'' = Some rid"
    using assms(2) rid by (auto simp: middleware_unfold Let_def split: handled.splits)
  moreover have "\<exists>entry. tl_logs w2 = tl_logs w1 @ [entry] \<and> map_of (le_context entry) ''request_id'' = Some rid \<and>
      map_of (le_context entry) ''correlation_id'' = Some rid" if "\<not> is_excluded_route (safe_route (snd (call_next sc')))"
  proof -
    obtain t p sp' ro st e where c: "w2 = finish_request mo sc' sp' rid (snd (call_next sc')) st e (w1\<lparr>tl_context := bind_request_context
        [(''request_id'', rid), (''correlation_id'', rid), (''trace_id'', t), (''span_id'', p)] (tl_context w1)\<rparr>)"
      using assms(2) rid by (auto simp: middleware_unfold Let_def)
    show ?thesis unfolding c using finish_log [OF that] by (fastforce simp: bind_request_context_def)
  qed
  ultimately show ?thesis using hook(2) request_id_safe [of token "sc_headers sc"] assms(3) by blast
qed

theorem request_id_end_to_end_witness:
  "\<exists>r w2. request_context_middleware demo_moment (\<lambda>_. (Raises ''KeyError'', None))
      (fst (server_request_hook ''0b'' 7 demo_scope no_telemetry)) (snd (server_request_hook ''0b'' 7 demo_scope no_telemetry)) = (Some r, w2) \<and>
     map_of (re_headers r) ''x-request-id'' = Some ''abc-1''"
proof -
  let ?h = "server_request_hook ''0b'' 7 demo_scope no_telemetry"
  let ?m = "request_context_middleware demo_moment (\<lambda>_. (Raises ''KeyError'', None)) (fst ?h) (snd ?h)"
  have rid: "request_id_from_headers ''0b'' (sc_headers demo_scope) = ''abc-1''" by code_simp
  obtain r where "fst ?m = Some r" by (simp add: middleware_unfold Let_def)
  then have m: "?m = (Some r, snd ?m)" by (metis prod.collapse)
  from request_id_end_to_end [OF prod.collapse [symmetric] m refl] show ?thesis unfolding rid using m by blast
qed

text \<open>Readiness is what the dependencies are: the route answers 200 exactly when all three answer in
  time and without a fault, and 503 otherwise, and tells of each dependency only its name and one of
  three fixed reasons.\<close>

theorem ready_iff_all_up:
  "fst (fst (ready_route meter nw (build_health_service s) g)) =
     (let pg = snd (build_health_service s ! 0); neo = snd (build_health_service s ! 1)
      in if \<not> nw_slow nw ''postgres'' \<and> \<not> nw_slow nw ''neo4j'' \<and> \<not> nw_slow nw ''minio'' \<and>
            nw_pg_connect nw pg = Done () \<and> nw_pg_execute nw pg = Done () \<and> nw_neo4j_run nw neo = Done () \<and>
            nw_minio_get nw (ps_s3_endpoint s @ ''/minio/health/ready'') = Done 200
         then 200 else 503) \<and>
   map ph_name (hr_dependencies (snd (fst (ready_route meter nw (build_health_service s) g)))) = [''postgres'', ''neo4j'', ''minio''] \<and>
   ph_reason ` set (hr_dependencies (snd (fst (ready_route meter nw (build_health_service s) g)))) \<subseteq> {''ok'', ''timeout'', ''unhealthy''}"
proof -
  let ?ds = "check_all (probe_outcomes nw (build_health_service s))"
  have r: "fst (ready_route meter nw (build_health_service s) g) =
      (readiness_http_status ?ds, \<lparr>hr_status = readiness_status ?ds, hr_dependencies = map public_of ?ds\<rparr>)"
    by (simp add: ready_route_def ready_def Let_def)
  have "map ph_name (map public_of ?ds) = map dh_name ?ds" by (simp add: public_of_def)
  moreover have "\<forall>d \<in> set ?ds. public_reason (dh_reason d)" unfolding built_health by simp
  then have "ph_reason ` set (map public_of ?ds) \<subseteq> {''ok'', ''timeout'', ''unhealthy''}"
    unfolding public_reason_def by (auto simp: public_of_def)
  moreover have "readiness_http_status ?ds = (if list_all dh_healthy ?ds then 200 else 503)"
    by (simp add: readiness_http_status_def readiness_healthy_def)
  ultimately show ?thesis
    unfolding r built_names Let_def by (simp add: built_health check_healthy) (simp add: health_of_def)
qed

text \<open>After any number of readiness requests there is one gauge, and it observes for each dependency
  what the last request found.\<close>

theorem readiness_gauge_follows:
  "let g = ready_requests s (nws @ [nw]) no_gauge
   in ga_gauges g = 1 \<and>
     set (observations g) = (\<lambda>d. (if dh_healthy d then 1 else 0, dh_name d)) ` set (check_all (probe_outcomes nw (build_health_service s)))"
proof -
  let ?g = "ready_requests s nws no_gauge" let ?ds = "check_all (probe_outcomes nw (build_health_service s))"
  have ok: "gauge_ok ?g" by (rule gauge_requests) (simp add: gauge_ok_def no_gauge_def)
  let ?st = "case ga_state ?g of Some st \<Rightarrow> st | None \<Rightarrow> []"
  have names: "dh_name ` set ?ds = {''postgres'', ''neo4j'', ''minio''}"
    using arg_cong [OF built_names, of set] by simp
  have "distinct (keys ?st)" "set (keys ?st) \<subseteq> dh_name ` set ?ds"
    using ok unfolding names by (auto simp: gauge_ok_def split: option.splits)
  then have r: "set (record_health ?ds ?st) = (\<lambda>d. (dh_name d, if dh_healthy d then 1 else 0)) ` set ?ds"
    by (rule record_health_set) (simp add: built_names)
  have g: "ready_requests s (nws @ [nw]) no_gauge = snd (ready True ?ds ?g)" by (simp add: ready_requests_def ready_route_def)
  have "set (observations (snd (ready True ?ds ?g))) = (\<lambda>(d, v). (v, d)) ` set (record_health ?ds ?st)"
    unfolding observations_def ready_state by simp
  then show ?thesis
    unfolding Let_def g r image_image ready_state using ok by (simp add: gauge_ok_def split: option.splits)
qed

end
