(* ===== verification/Spec2Isabelle.thy ===== *)
theory Spec2Isabelle
  imports Ports Ingestion GraphNodes Views Operator Migrations Evaluation Scripts Service
begin

text \<open>
  GroundGraph answers questions about documents with citations. Documents are ingested into PostgreSQL
  (source, document, version, chunks) together with an event in an outbox; extraction turns chunks
  into mentions, entities and temporal facts, whose events a worker projects into Neo4j; a question is
  planned, chunks and facts that the caller may see are retrieved, fused and reranked, a language model
  answers from them, and a validator keeps only claims and citations that rest on the evidence. All
  paths below are under \<^verbatim>\<open>src/groundgraph\<close> of the repository unless they begin with
  \<^verbatim>\<open>migrations\<close>, \<^verbatim>\<open>scripts\<close> or \<^verbatim>\<open>evals\<close>.

  \<^bold>\<open>Theories and what they model.\<close>

  \<^item> \<^verbatim>\<open>Prelude\<close>: strings, dictionaries, stable sorting, fallible results; the locales
    \<^verbatim>\<open>invariant_system\<close> (reachable states of a step relation keep an invariant) and
    \<^verbatim>\<open>status_table\<close> (a table of status changes that only moves forward).
  \<^item> \<^verbatim>\<open>Json\<close>, \<^verbatim>\<open>Domain\<close>: \<^verbatim>\<open>domain/\<close>. The JSON validator over a heap
    with possible cycles; each pydantic class as a record with its validators run in order.
  \<^item> \<^verbatim>\<open>Ports\<close>: the protocols of \<^verbatim>\<open>application/ports.py\<close> and the public
    signatures of the classes passed for them; the binding of a call's arguments, and the proof that a
    class that passes the check of signatures serves every call of its port.
  \<^item> \<^verbatim>\<open>Tables\<close>, \<^verbatim>\<open>ExecutionStore\<close>, \<^verbatim>\<open>Outbox\<close>,
    \<^verbatim>\<open>DocumentStore\<close>, \<^verbatim>\<open>Retrievers\<close>: the repositories of
    \<^verbatim>\<open>infrastructure/postgres\<close>, one definition per method, over tables with the constraints
    of \<^verbatim>\<open>models.py\<close>; the tables as transition systems with invariants of every reachable state.
  \<^item> \<^verbatim>\<open>TextLines\<close>, \<^verbatim>\<open>Parsers\<close>, \<^verbatim>\<open>Html\<close>,
    \<^verbatim>\<open>Chunker\<close>, \<^verbatim>\<open>Ingestion\<close>: \<^verbatim>\<open>application/ingestion\<close> and the
    ingestion workflow. Regular expressions are scanners with the backtracking written out.
  \<^item> \<^verbatim>\<open>GraphStore\<close>, \<^verbatim>\<open>GraphNodes\<close>, \<^verbatim>\<open>Fusion\<close>:
    \<^verbatim>\<open>infrastructure/neo4j\<close>, as a store of records and as the properties that the
    statements leave on nodes, with the simulation between them; rank fusion and the bounded traversal of
    \<^verbatim>\<open>application/retrieval\<close>.
  \<^item> \<^verbatim>\<open>Answering\<close>, \<^verbatim>\<open>Retrieval\<close>, \<^verbatim>\<open>QueryApi\<close>: the model-facing
    adapters and the claim validator; planner, retrieval services and the nodes and the call of the query
    workflow; the workflow assembled from the modelled adapters, and the query and execution endpoints.
    LangGraph, which runs the compiled graph, is an argument: the program calls it without the thread
    that its checkpointer requires, so in the program it refuses every call, and what the nodes do is
    stated of the nodes.
  \<^item> \<^verbatim>\<open>Views\<close>: the rows of executions, and the endpoints with the bodies that their
    callers see.
  \<^item> \<^verbatim>\<open>Knowledge\<close>, \<^verbatim>\<open>Projection\<close>: ontology, extraction and resolution; the
    emitter, the projector and the worker as a refinement of a list of graph operations.
  \<^item> \<^verbatim>\<open>Platform\<close>, \<^verbatim>\<open>Security\<close>, \<^verbatim>\<open>Operator\<close>: errors, settings,
    redaction, health; identity, request identifiers and prompt injection; the operator endpoints.
  \<^item> \<^verbatim>\<open>Runtime\<close>, \<^verbatim>\<open>Service\<close>: what the process keeps (settings, engine, session factory,
    driver, key set, providers, instruments, graph schema, object store) and the HTTP boundary
    (\<^verbatim>\<open>api/app.py\<close>, \<^verbatim>\<open>api/health.py\<close>, the health checkers). The locale
    \<^verbatim>\<open>lazy_cell\<close> is the contract of a value created on first use; the settings, the engine, the
    factory, the driver and the key set are its interpretations.
  \<^item> \<^verbatim>\<open>Schema\<close>, \<^verbatim>\<open>Models\<close>, \<^verbatim>\<open>Migrations\<close>: data definition
    statements acting on tables with rows; the tables of the mapping; the nine revisions of
    \<^verbatim>\<open>migrations/versions\<close> with upgrade and downgrade, and the runs of pending revisions.
  \<^item> \<^verbatim>\<open>Evaluation\<close>, \<^verbatim>\<open>Scripts\<close>: the smoke test, the metrics, the comparison of
    retrieval strategies; the canary evaluation and the load test.

  \<^bold>\<open>Interfaces.\<close> A component that relies on another does so through a locale whose laws the provider
  discharges on its own definitions: \<^verbatim>\<open>fact_source\<close> (the graph repository, for the traversal),
  \<^verbatim>\<open>chunk_retriever\<close> and \<^verbatim>\<open>retriever_pair\<close> (the searches, for the services),
  \<^verbatim>\<open>reranker\<close>, \<^verbatim>\<open>secure_ports\<close> (all ports of the query workflow, interpreted on
  the assembled adapters), \<^verbatim>\<open>lazy_cell\<close>, and the two state machine locales.
\<close>

text \<open>
  \<^bold>\<open>What the groups of theorems show.\<close> Access: what the hybrid retrieval service and the vector endpoint
  cite is evidence that they have retrieved for this request and that the caller's tenant and principal
  may read, through every layer; an operator sees and changes only records of the own tenant (the trends
  of evaluations excepted, which have none); an identity in production comes from a verified token.
  Grounding: generated and validated responses rest on the evidence given; the nodes of the workflow fail
  closed. State: reachable tables of executions, documents, events, facts and proposals are consistent,
  terminal statuses are final, ingestion is idempotent, the worker applies each operation of an extraction
  once, in the database's order of rows of equal time, and a claim takes every event whose turn it is.
  The transition system of the outbox has the repository's operations and those of the consumer without
  tokens, which can reopen a completed event; what holds only of the repository says so. Computation:
  fusion, chunking, edit distance and JSON validation meet their specifications. Boundary: a request
  outside the health, metrics and documentation routes is recorded once, under the identifier that the
  caller gets back, and only a cancelled request has no answer; readiness is what the dependencies are.
  Schema: downgrades restore the database, and the tables that the migrations make are compared with the
  mapping. Several theorems state what the code does where that is not what it means to do: a query
  workflow that refuses every call, installations without three columns of the runs, a revision that fails
  on stored data, a key set that is never read again, runs that would fail for having citations, error
  texts that are withheld and then served, a comparison (whose stored report says otherwise) and a canary
  evaluation that cannot succeed.

  \<^bold>\<open>Conventions.\<close> Strings are Latin-1; a UUID is a number, printed by \<^verbatim>\<open>show_nat\<close>; a float
  is an exact rational; a time is a number of microseconds. Fresh identifiers, clocks, tokens and
  what a third party returns are arguments: language and embedding models, the JWT library and its key
  endpoint, LangGraph, the distance and full-text ranking of the database, its order of rows that a query leaves
  open (the events of one transaction share their creation time) and the rows that an approximate index
  visits, document readers, YAML and JSON readers,
  pydantic's conversions and the printing of dates, DeepEval, the S3 client, the span context. Errors are
  the left values of a sum; an operation on a store returns its result and the new store, and a transaction that fails
  leaves the store as it was. An \<^verbatim>\<open>await\<close> is a sequential step; concurrency is the interleaving
  of whole operations in the transition systems, and locked rows are an argument of the claim.

  \<^bold>\<open>Termination and fuel.\<close> Loops are recursion with a measure. Three bounds are fuel: the retries of the
  query workflow (\<^verbatim>\<open>max_retries\<close> of the code, and a run that LangGraph admits is shown to end within
  them), the
  depth of the traversal (\<^verbatim>\<open>max_depth\<close> of the code), and the chain of pending revisions (as many as
  there are revisions, so the whole chain is found from an empty database).

  \<^bold>\<open>Not modelled.\<close> Constructors that
  only store their arguments, and, apart from executions and graph nodes, the copying of a row's columns
  into a record of the same fields, are the record itself. Spans, the sleeping of workers, the configuration of the logging library, the
  interactive documentation pages, Alembic's offline mode, the starting of test containers and the
  seeded generator of the comparison's embeddings are left out as pure input and output or library calls.
  Two differences between SQL and the model of the schema are stated in \<^verbatim>\<open>Schema\<close>: foreign keys
  without a name are known by their columns, and an index has no access method.
\<close>

end
